(* ===== verification/Rez_Prelude.thy ===== *)
theory Rez_Prelude
  imports
    Main
    "HOL-Library.Word"
    "HOL-Library.AList"
    "HOL-Library.Char_ord"
    "HOL-Library.List_Lexorder"
begin

unbundle bit_operations_syntax

text \<open>
  The prelude of the development: the types every component uses (bytes, 32-bit words,
  thrown errors and results), the parts of the JavaScript standard library the sources
  call (string methods, insertion-ordered \<^verbatim>\<open>Map\<close> objects), the interface locales that
  several components share, and the generic lemmas on words and lists.

  Conventions.
  \<^item> A \<^verbatim>\<open>Uint8Array\<close> is a list of 8-bit words; JavaScript's bitwise operators work on a
    32-bit word (\<open>u32\<close>), so \<^verbatim>\<open><<\<close>, \<^verbatim>\<open>>>>\<close>, \<^verbatim>\<open>&\<close>, \<^verbatim>\<open>|\<close> are \<open>push_bit\<close>, \<open>drop_bit\<close>, \<open>AND\<close>, \<open>OR\<close>.
  \<^item> A string is a list of characters with code units below 256; \<^verbatim>\<open><\<close> and \<^verbatim>\<open>sort()\<close> on
    strings are the lexicographic order by code unit of \<^verbatim>\<open>List_Lexorder\<close>.
  \<^item> \<^verbatim>\<open>throw\<close> is \<open>Inl\<close> of an error that carries the message of the source; \<^verbatim>\<open>return\<close> is \<open>Inr\<close>.
  \<^item> A \<^verbatim>\<open>Map\<close> keeps its entries in insertion order: an association list with \<open>AList.update\<close>
    for \<^verbatim>\<open>set\<close>, \<open>AList.delete\<close> for \<^verbatim>\<open>delete\<close> and \<open>map_of\<close> for \<^verbatim>\<open>get\<close>.
\<close>

section \<open>Types\<close>

type_synonym byte = "8 word"
type_synonym bytes = "byte list"
type_synonym u32 = "32 word"

text \<open>
  What a \<^verbatim>\<open>throw\<close> statement throws. \<open>Error\<close> and \<open>RezInvariantError\<close> carry the source's message;
  the errors with a class or a code of their own are constructors of their own.
\<close>

datatype js_error =
    Error string
  | RezInvariantError string
  | TypeError string
  | SyntaxError string
  | UnsafeJsonKey string string
  | SkipLimitExceededError int int int
  | SkippedKeyStoreLimitExceededError string int int
  | NoSessionForPeerError string
  | UnknownSessionError string
  | MailboxQuotaExceededError string int string
  | ReplayDetectedError
  | CodedError string string

type_synonym 'a result = "js_error + 'a"

definition bindR :: "'a result \<Rightarrow> ('a \<Rightarrow> 'b result) \<Rightarrow> 'b result" where
  "bindR r f = (case r of Inl e \<Rightarrow> Inl e | Inr x \<Rightarrow> f x)"

text \<open>A loop whose body may throw: the first error ends it.\<close>

fun mapR :: "('a \<Rightarrow> 'b result) \<Rightarrow> 'a list \<Rightarrow> 'b list result" where
  "mapR f [] = Inr []"
| "mapR f (x # xs) = bindR (f x) (\<lambda>y. bindR (mapR f xs) (\<lambda>ys. Inr (y # ys)))"

fun isOk :: "'a result \<Rightarrow> bool" where
  "isOk (Inl _) = False"
| "isOk (Inr _) = True"

named_theorems result_simps
  \<open>rewriting of results: the cases of a bind and of a loop that may throw\<close>

named_theorems word_bit_simps
  \<open>masks as truncations, for bit-by-bit proofs on words\<close>

lemma bindR_simps [simp, result_simps]:
  "bindR (Inl e) f = Inl e"
  "bindR (Inr x) f = f x"
  by (simp_all add: bindR_def)

lemma bindR_eq_Inr [result_simps]:
  "bindR r f = Inr y \<longleftrightarrow> (\<exists>x. r = Inr x \<and> f x = Inr y)"
  by (cases r) simp_all

lemma bindR_eq_Inl [result_simps]:
  "bindR r f = Inl e \<longleftrightarrow> r = Inl e \<or> (\<exists>x. r = Inr x \<and> f x = Inl e)"
  by (cases r) simp_all

lemma isOk_iff: "isOk r \<longleftrightarrow> (\<exists>x. r = Inr x)"
  by (cases r) simp_all

lemma mapR_Inr_length: "mapR f xs = Inr ys \<Longrightarrow> length ys = length xs"
  by (induction xs arbitrary: ys) (auto simp: result_simps)

lemma mapR_all_Inr: "(\<And>x. x \<in> set xs \<Longrightarrow> f x = Inr (g x)) \<Longrightarrow> mapR f xs = Inr (map g xs)"
  by (induction xs) auto

lemma mapR_Inr_iff:
  "mapR f xs = Inr ys \<longleftrightarrow> length ys = length xs \<and> (\<forall>i < length xs. f (xs ! i) = Inr (ys ! i))"
proof (induction xs arbitrary: ys)
  case Nil
  then show ?case by auto
next
  case (Cons x xs)
  show ?case
  proof (cases ys)
    case Nil
    then show ?thesis by (auto simp: result_simps)
  next
    case (Cons y ys')
    with Cons.IH [of ys'] show ?thesis
      by (auto simp: result_simps less_Suc_eq_0_disj)
  qed
qed

section \<open>Strings\<close>

text \<open>
  The white space of \<^verbatim>\<open>String.prototype.trim\<close> and of the class \<^verbatim>\<open>\s\<close>, among the code units below
  256: tab, line feed, vertical tab, form feed, carriage return, space and no-break space.
\<close>

definition isSpace :: "char \<Rightarrow> bool" where
  "isSpace c = (let n = (of_char c :: nat) in (9 \<le> n \<and> n \<le> 13) \<or> n = 32 \<or> n = 160)"

definition trim :: "string \<Rightarrow> string" where
  "trim s = rev (dropWhile isSpace (rev (dropWhile isSpace s)))"

fun startsWith :: "string \<Rightarrow> string \<Rightarrow> bool" where
  "startsWith s [] = True"
| "startsWith [] (c # p) = False"
| "startsWith (d # s) (c # p) = (c = d \<and> startsWith s p)"

definition endsWith :: "string \<Rightarrow> string \<Rightarrow> bool" where
  "endsWith s p = startsWith (rev s) (rev p)"

text \<open>\<^verbatim>\<open>s.indexOf(c)\<close> for a one-character argument: the first position, or \<open>-1\<close>.\<close>

fun indexOf :: "char list \<Rightarrow> char \<Rightarrow> int" where
  "indexOf [] c = -1"
| "indexOf (d # s) c = (if c = d then 0 else (let i = indexOf s c in if i < 0 then -1 else i + 1))"

text \<open>\<^verbatim>\<open>c.toLowerCase()\<close> for a code unit below 256.\<close>

definition toLowerCase :: "char \<Rightarrow> char" where
  "toLowerCase c =
     (let n = (of_char c :: nat)
      in if (65 \<le> n \<and> n \<le> 90) \<or> (192 \<le> n \<and> n \<le> 214) \<or> (216 \<le> n \<and> n \<le> 222)
         then char_of (n + 32) else c)"

text \<open>The decimal digits of a natural number, as \<^verbatim>\<open>String(n)\<close> writes them.\<close>

definition digit_char :: "nat \<Rightarrow> char" where
  "digit_char d = char_of (48 + d)"

fun nat_str :: "nat \<Rightarrow> string" where
  "nat_str n = (if n < 10 then [digit_char n] else nat_str (n div 10) @ [digit_char (n mod 10)])"

declare nat_str.simps [simp del]

definition int_str :: "int \<Rightarrow> string" where
  "int_str i = (if i < 0 then ''-'' @ nat_str (nat (- i)) else nat_str (nat i))"

lemma startsWith_append [simp]: "startsWith (p @ s) p"
  by (induction p) auto

lemma startsWith_iff: "startsWith s p \<longleftrightarrow> (\<exists>t. s = p @ t)"
  by (induction s p rule: startsWith.induct) auto

lemma startsWith_append_left: "length p \<le> length s \<Longrightarrow> startsWith (s @ t) p = startsWith s p"
  by (induction s p rule: startsWith.induct) auto

lemma endsWith_append_right: "length p \<le> length t \<Longrightarrow> endsWith (s @ t) p = endsWith t p"
  by (simp add: endsWith_def startsWith_append_left)

lemma indexOf_range: "-1 \<le> indexOf s c \<and> indexOf s c < int (length s)"
  by (induction s) (auto simp: Let_def)

lemma indexOf_neg_iff: "indexOf s c < 0 \<longleftrightarrow> c \<notin> set s"
  by (induction s) (auto simp: Let_def)

lemma indexOf_nth: "0 \<le> indexOf s c \<Longrightarrow> s ! nat (indexOf s c) = c"
  by (induction s) (auto simp: Let_def nat_add_distrib split: if_splits)

lemma indexOf_nth_distinct: "distinct s \<Longrightarrow> i < length s \<Longrightarrow> indexOf s (s ! i) = int i"
proof (induction s arbitrary: i)
  case Nil
  then show ?case by simp
next
  case (Cons d s)
  show ?case
  proof (cases i)
    case 0
    then show ?thesis by simp
  next
    case (Suc j)
    with Cons show ?thesis by (auto simp: Let_def)
  qed
qed

lemma nat_str_nonempty [simp]: "nat_str n \<noteq> []" "[] \<noteq> nat_str n"
  by (subst nat_str.simps, simp)+

lemma digit_char_range: "d < 10 \<Longrightarrow> of_char (digit_char d) = 48 + d"
  by (simp add: digit_char_def)

lemma digit_char_inj: "d < 10 \<Longrightarrow> e < 10 \<Longrightarrow> digit_char d = digit_char e \<longleftrightarrow> d = e"
  by (metis digit_char_range add_left_cancel)

lemma nat_str_digits: "c \<in> set (nat_str n) \<Longrightarrow> \<exists>d < 10. c = digit_char d"
proof (induction n rule: nat_str.induct)
  case (1 n)
  then show ?case
    by (subst (asm) (2) nat_str.simps)
       (auto split: if_splits intro: exI [where x = "n mod 10"])
qed

lemma nat_str_inj: "nat_str m = nat_str n \<Longrightarrow> m = n"
proof (induction m arbitrary: n rule: nat_str.induct)
  case (1 m)
  show ?case
  proof (cases "m < 10")
    case True
    with 1(2) have "n < 10"
      by (cases "n < 10") (auto simp: nat_str.simps [of m] nat_str.simps [of n])
    with True 1(2) show ?thesis
      by (simp add: nat_str.simps [of m] nat_str.simps [of n] digit_char_inj)
  next
    case False
    have n: "\<not> n < 10"
      using False 1(2) by (auto simp: nat_str.simps [of m] nat_str.simps [of n])
    with False 1(2) have "nat_str (m div 10) = nat_str (n div 10)" and "m mod 10 = n mod 10"
      by (auto simp: nat_str.simps [of m] nat_str.simps [of n] digit_char_inj)
    with 1(1) [OF False] have "m div 10 = n div 10" by simp
    with \<open>m mod 10 = n mod 10\<close> show ?thesis by (metis div_mult_mod_eq)
  qed
qed

lemma trim_eq_Nil: "trim s = [] \<longleftrightarrow> (\<forall>c\<in>set s. isSpace c)"
  unfolding trim_def rev_is_Nil_conv dropWhile_eq_Nil_conv set_rev
  by (metis Un_iff set_append set_takeWhileD set_dropWhileD takeWhile_dropWhile_id)

lemma trim_idem [simp]: "trim (trim s) = trim s"
proof -
  have "dropWhile isSpace (rev (dropWhile isSpace (rev (dropWhile isSpace s))))
      = rev (dropWhile isSpace (rev (dropWhile isSpace s)))" (is "dropWhile _ ?t = ?t")
  proof (cases ?t)
    case Nil
    then show ?thesis by (simp only: dropWhile.simps)
  next
    case (Cons c cs)
    obtain zs where zs: "rev (dropWhile isSpace s) = zs @ dropWhile isSpace (rev (dropWhile isSpace s))"
      by (metis takeWhile_dropWhile_id)
    then have "dropWhile isSpace s = ?t @ rev zs" by (metis rev_append rev_rev_ident)
    with Cons have "dropWhile isSpace s = c # cs @ rev zs" by simp
    then have "\<not> isSpace c" by (metis dropWhile_eq_Cons_conv)
    with Cons show ?thesis by simp
  qed
  then show ?thesis by (simp add: trim_def)
qed

section \<open>Interfaces shared by several components\<close>

text \<open>
  A codec: an encoder from bytes to text and a decoder that may throw. Every codec of the
  sources decodes what it encodes; the strict ones also reject every text that is not the
  encoding of what it decodes to.
\<close>

locale byte_codec =
  fixes enc :: "bytes \<Rightarrow> string"
    and dec :: "string \<Rightarrow> bytes result"
  assumes dec_enc: "dec (enc bs) = Inr bs"
begin

lemma enc_inj: "enc bs = enc cs \<longleftrightarrow> bs = cs"
  by (metis dec_enc sum.inject(2))

lemma enc_accepted: "isOk (dec (enc bs))"
  by (simp add: dec_enc)

end

locale strict_codec = byte_codec +
  assumes enc_dec: "dec s = Inr bs \<Longrightarrow> enc bs = s"
begin

lemma dec_inj: "dec s = Inr bs \<Longrightarrow> dec t = Inr bs \<Longrightarrow> s = t"
  by (metis enc_dec)

lemma accepted_iff: "isOk (dec s) \<longleftrightarrow> (\<exists>bs. s = enc bs)"
  by (metis dec_enc enc_dec isOk.simps(2) isOk_iff)

end

text \<open>
  A keyed store: what a lookup returns after a write or a removal, under the store's own
  well-formedness invariant.
\<close>

locale keyed_store =
  fixes lookup :: "'s \<Rightarrow> 'k \<Rightarrow> 'v option"
    and put :: "'k \<Rightarrow> 'v \<Rightarrow> 's \<Rightarrow> 's"
    and remove :: "'k \<Rightarrow> 's \<Rightarrow> 's"
    and wf :: "'s \<Rightarrow> bool"
  assumes lookup_write: "wf s \<Longrightarrow> lookup (put k v s) = (lookup s)(k \<mapsto> v)"
    and lookup_remove: "wf s \<Longrightarrow> lookup (remove k s) = (lookup s)(k := None)"
    and wf_write: "wf s \<Longrightarrow> wf (put k v s)"
    and wf_remove: "wf s \<Longrightarrow> wf (remove k s)"
begin

lemma lookup_write_same: "wf s \<Longrightarrow> lookup (put k v s) k = Some v"
  by (simp add: lookup_write)

lemma lookup_write_other: "wf s \<Longrightarrow> k' \<noteq> k \<Longrightarrow> lookup (put k v s) k' = lookup s k'"
  by (simp add: lookup_write)

lemma lookup_write_twice: "wf s \<Longrightarrow> lookup (put k w (put k v s)) = lookup (put k w s)"
  by (simp add: lookup_write wf_write)

lemma lookup_remove_write: "wf s \<Longrightarrow> lookup (remove k (put k v s)) = lookup (remove k s)"
  by (simp add: lookup_write lookup_remove wf_write)

end

text \<open>A deterministic component: a run of operations keeps what every single operation keeps.\<close>

locale stepper =
  fixes step :: "'op \<Rightarrow> 's \<Rightarrow> 's"
    and inv :: "'s \<Rightarrow> bool"
  assumes inv_step: "inv s \<Longrightarrow> inv (step x s)"
begin

lemma inv_run: "inv s \<Longrightarrow> inv (fold step xs s)"
  by (induction xs arbitrary: s) (auto intro: inv_step)

end

section \<open>The insertion-ordered Map\<close>

definition map_wf :: "('k \<times> 'v) list \<Rightarrow> bool" where
  "map_wf m \<longleftrightarrow> distinct (map fst m)"

lemma map_wf_Nil [simp]: "map_wf []"
  by (simp add: map_wf_def)

lemma map_wf_update [simp]: "map_wf m \<Longrightarrow> map_wf (AList.update k v m)"
  by (simp add: map_wf_def distinct_update)

lemma map_wf_delete [simp]: "map_wf m \<Longrightarrow> map_wf (AList.delete k m)"
  by (simp add: map_wf_def distinct_delete)

lemma map_wf_filter: "map_wf m \<Longrightarrow> map_wf (filter P m)"
  unfolding map_wf_def by (induction m) auto

interpretation js_map: keyed_store "map_of" AList.update AList.delete "map_wf"
  by unfold_locales (auto simp: update_conv' delete_conv' map_wf_def distinct_update distinct_delete)

lemma map_of_filter_snd:
  assumes "map_wf m"
  shows "map_of (filter (\<lambda>(k, v). P v) m) k =
    (case map_of m k of None \<Rightarrow> None | Some v \<Rightarrow> if P v then Some v else None)"
  using assms unfolding map_wf_def
proof (induction m)
  case Nil
  then show ?case by simp
next
  case (Cons p m)
  have "map_of m (fst p) = None"
    using Cons.prems by (simp add: map_of_eq_None_iff)
  with Cons show ?case by (cases p) (auto split: option.splits)
qed

section \<open>Words and bits\<close>

lemma bit_byte_bound: "bit (b :: byte) n \<Longrightarrow> n < 8"
  by (drule bit_imp_le_length) simp

lemma and_masks [word_bit_simps]:
  fixes x :: "'a::len word"
  shows "x AND 15 = take_bit 4 x" "x AND 31 = take_bit 5 x" "x AND 63 = take_bit 6 x"
    "x AND 255 = take_bit 8 x"
  by (simp_all add: take_bit_eq_mask mask_eq_exp_minus_1)

end
