(* ===== verification/Js_Value.thy ===== *)
theory Js_Value
  imports Rez_Prelude
begin

text \<open>
  The dynamically typed values that cross the program's boundaries: the arguments of record
  constructors, parsed JSON and the results of \<^verbatim>\<open>toJSON\<close>. A value is a tree; an object is the list
  of its own enumerable properties in JavaScript's property order. Numbers are the integers
  (the protocol's versions, counters, sizes and millisecond timestamps) and the three
  special values; a fraction has no representation here.
\<close>

section \<open>Values\<close>

datatype jsnum = NInt int | NNaN | NInf bool

datatype jsval =
    JUndef
  | JNull
  | JBool bool
  | JNum jsnum
  | JStr string
  | JBytes bytes
  | JArr "jsval list"
  | JObj "(string \<times> jsval) list"

abbreviation JInt :: "int \<Rightarrow> jsval" where
  "JInt i \<equiv> JNum (NInt i)"

text \<open>\<^verbatim>\<open>if (value)\<close>: the falsy values are undefined, null, false, 0, NaN and the empty string.\<close>

fun truthy :: "jsval \<Rightarrow> bool" where
  "truthy JUndef = False"
| "truthy JNull = False"
| "truthy (JBool b) = b"
| "truthy (JNum (NInt i)) = (i \<noteq> 0)"
| "truthy (JNum NNaN) = False"
| "truthy (JNum (NInf _)) = True"
| "truthy (JStr s) = (s \<noteq> [])"
| "truthy _ = True"

text \<open>\<^verbatim>\<open>value == null\<close>\<close>

fun isNullish :: "jsval \<Rightarrow> bool" where
  "isNullish JUndef = True"
| "isNullish JNull = True"
| "isNullish _ = False"

text \<open>\<^verbatim>\<open>typeof value === "object"\<close> (null included)\<close>

fun typeofObject :: "jsval \<Rightarrow> bool" where
  "typeofObject JNull = True"
| "typeofObject (JBytes _) = True"
| "typeofObject (JArr _) = True"
| "typeofObject (JObj _) = True"
| "typeofObject _ = False"

fun isString :: "jsval \<Rightarrow> bool" where
  "isString (JStr _) = True"
| "isString _ = False"

fun isArray :: "jsval \<Rightarrow> bool" where
  "isArray (JArr _) = True"
| "isArray _ = False"

text \<open>\<^verbatim>\<open>Number.isInteger(value)\<close> and \<^verbatim>\<open>typeof value === "number" && Number.isFinite(value)\<close>\<close>

fun isInteger :: "jsval \<Rightarrow> bool" where
  "isInteger (JNum (NInt _)) = True"
| "isInteger _ = False"

fun isFiniteNumber :: "jsval \<Rightarrow> bool" where
  "isFiniteNumber (JNum (NInt _)) = True"
| "isFiniteNumber _ = False"

text \<open>
  \<^verbatim>\<open>value.key\<close>: an own property of an object, and \<^verbatim>\<open>undefined\<close> for an absent one. A read from
  undefined or null throws a \<^verbatim>\<open>TypeError\<close>.
\<close>

fun getProp :: "jsval \<Rightarrow> string \<Rightarrow> jsval" where
  "getProp (JObj kvs) k = (case map_of kvs k of Some v \<Rightarrow> v | None \<Rightarrow> JUndef)"
| "getProp _ k = JUndef"

definition readProp :: "jsval \<Rightarrow> string \<Rightarrow> jsval result" where
  "readProp v k =
     (if isNullish v then Inl (TypeError (''Cannot read properties of '' @ (if v = JNull then ''null'' else ''undefined'')))
      else Inr (getProp v k))"

text \<open>\<^verbatim>\<open>String(value)\<close>\<close>

fun join :: "string \<Rightarrow> string list \<Rightarrow> string" where
  "join sep [] = []"
| "join sep [s] = s"
| "join sep (s # ss) = s @ sep @ join sep ss"

fun num_str :: "jsnum \<Rightarrow> string" where
  "num_str (NInt i) = int_str i"
| "num_str NNaN = ''NaN''"
| "num_str (NInf neg) = (if neg then ''-Infinity'' else ''Infinity'')"

fun toStr :: "jsval \<Rightarrow> string" where
  "toStr JUndef = ''undefined''"
| "toStr JNull = ''null''"
| "toStr (JBool b) = (if b then ''true'' else ''false'')"
| "toStr (JNum n) = num_str n"
| "toStr (JStr s) = s"
| "toStr (JBytes bs) = join '','' (map (\<lambda>b. nat_str (unat b)) bs)"
| "toStr (JArr xs) = join '','' (map (\<lambda>x. if isNullish x then [] else toStr x) xs)"
| "toStr (JObj _) = ''[object Object]''"

section \<open>String helpers\<close>

text \<open>\<^verbatim>\<open>util/strings.js\<close> and \<^verbatim>\<open>util/coerce.js\<close>\<close>

fun isNonEmptyString :: "jsval \<Rightarrow> bool" where
  "isNonEmptyString (JStr s) = (0 < length (trim s))"
| "isNonEmptyString _ = False"

definition nonEmpty :: "jsval \<Rightarrow> string option" where
  "nonEmpty v =
     (let text = trim (toStr (if truthy v then v else JStr []))
      in if text \<noteq> [] then Some text else None)"

definition requireId :: "jsval \<Rightarrow> string \<Rightarrow> string result" where
  "requireId v name =
     (case nonEmpty v of None \<Rightarrow> Inl (Error (''missing required id: '' @ name)) | Some i \<Rightarrow> Inr i)"

text \<open>\<^verbatim>\<open>Number.parseInt(text, 10)\<close>: white space, a sign, the longest run of digits; NaN without a digit.\<close>

definition isDigit :: "char \<Rightarrow> bool" where
  "isDigit c = (let n = (of_char c :: nat) in 48 \<le> n \<and> n \<le> 57)"

definition digitsVal :: "string \<Rightarrow> nat" where
  "digitsVal s = foldl (\<lambda>acc c. 10 * acc + (of_char c - 48)) 0 s"

definition parseInt10 :: "string \<Rightarrow> int option" where
  "parseInt10 text =
     (let s = dropWhile isSpace text;
          neg = startsWith s ''-'';
          body = (if neg \<or> startsWith s ''+'' then tl s else s);
          ds = takeWhile isDigit body
      in if ds = [] then None
         else Some (if neg then - int (digitsVal ds) else int (digitsVal ds)))"

definition asInt :: "jsval \<Rightarrow> int \<Rightarrow> int" where
  "asInt v fallback = (case parseInt10 (toStr v) of Some i \<Rightarrow> i | None \<Rightarrow> fallback)"

text \<open>\<^verbatim>\<open>util/inboxId.js\<close>\<close>

definition INBOX_ID_HEX_LEN :: nat where
  "INBOX_ID_HEX_LEN = 24"

definition isLowerHex :: "char \<Rightarrow> bool" where
  "isLowerHex c = (let n = (of_char c :: nat) in (48 \<le> n \<and> n \<le> 57) \<or> (97 \<le> n \<and> n \<le> 102))"

definition canonicalInboxIdRe :: "string \<Rightarrow> bool" where
  "canonicalInboxIdRe s =
     (startsWith s ''inbox:'' \<and> length (drop 6 s) = INBOX_ID_HEX_LEN \<and> list_all isLowerHex (drop 6 s))"

fun isCanonicalInboxId :: "jsval \<Rightarrow> bool" where
  "isCanonicalInboxId (JStr s) = canonicalInboxIdRe s"
| "isCanonicalInboxId _ = False"

definition requireCanonicalInboxId :: "jsval \<Rightarrow> string \<Rightarrow> string result" where
  "requireCanonicalInboxId inboxId ctxt =
     (let v = (case inboxId of JStr s \<Rightarrow> trim s | _ \<Rightarrow> [])
      in if \<not> canonicalInboxIdRe v
         then Inl (Error (ctxt @ '' must be canonical (\"inbox:\" + '' @ nat_str INBOX_ID_HEX_LEN
                          @ '' lowercase hex chars), got: '' @ toStr inboxId))
         else Inr v)"

section \<open>Their laws\<close>

lemma requireId_trimmed: "requireId v name = Inr i \<Longrightarrow> i \<noteq> [] \<and> trim i = i"
  by (auto simp: requireId_def nonEmpty_def Let_def split: option.splits if_splits)

lemma requireId_falsy: "\<not> truthy v \<Longrightarrow> \<not> isOk (requireId v name)"
  by (simp add: requireId_def nonEmpty_def trim_def)

lemma requireCanonicalInboxId_sound:
  "requireCanonicalInboxId v ctx = Inr i \<Longrightarrow> isCanonicalInboxId (JStr i) \<and> length i = 30"
  by (auto simp: requireCanonicalInboxId_def Let_def canonicalInboxIdRe_def INBOX_ID_HEX_LEN_def split: if_splits)

lemma canonicalInboxId_no_space: "canonicalInboxIdRe s \<Longrightarrow> c \<in> set s \<Longrightarrow> \<not> isSpace c"
proof -
  assume s: "canonicalInboxIdRe s" and c: "c \<in> set s"
  have "s = take 6 s @ drop 6 s" by simp
  moreover have "take 6 s = ''inbox:''"
    using s by (auto simp: canonicalInboxIdRe_def startsWith_iff)
  ultimately have "c \<in> set ''inbox:'' \<or> c \<in> set (drop 6 s)"
    using c by (metis Un_iff set_append)
  then show "\<not> isSpace c"
    using s by (auto simp: canonicalInboxIdRe_def list_all_iff isSpace_def isLowerHex_def Let_def)
qed

lemma digitsVal_snoc: "digitsVal (s @ [c]) = 10 * digitsVal s + (of_char c - 48)"
  by (simp add: digitsVal_def)

lemma digitsVal_nat_str: "digitsVal (nat_str n) = n"
proof (induction n rule: nat_str.induct)
  case (1 n)
  show ?case
  proof (cases "n < 10")
    case True
    then show ?thesis by (simp add: nat_str.simps [of n] digitsVal_def digit_char_range)
  next
    case False
    with 1 show ?thesis by (simp add: nat_str.simps [of n] digitsVal_snoc digit_char_range)
  qed
qed

lemma nat_str_isDigit: "c \<in> set (nat_str n) \<Longrightarrow> isDigit c"
  by (drule nat_str_digits) (auto simp: isDigit_def digit_char_range)

lemma isDigit_not_space: "isDigit c \<Longrightarrow> \<not> isSpace c \<and> c \<noteq> CHR ''-'' \<and> c \<noteq> CHR ''+''"
  by (auto simp: isDigit_def isSpace_def Let_def)

lemma parseInt10_digits:
  assumes "ds \<noteq> []" and "\<And>c. c \<in> set ds \<Longrightarrow> isDigit c"
  shows "parseInt10 ds = Some (int (digitsVal ds))" "parseInt10 (CHR ''-'' # ds) = Some (- int (digitsVal ds))"
proof -
  obtain c cs where ds: "ds = c # cs" using assms(1) by (cases ds) auto
  then have c: "\<not> isSpace c" "c \<noteq> CHR ''-''" "c \<noteq> CHR ''+''"
    using isDigit_not_space assms(2) by auto
  have tw: "takeWhile isDigit ds = ds" using assms(2) by simp
  show "parseInt10 ds = Some (int (digitsVal ds))"
    using tw c unfolding parseInt10_def Let_def by (simp add: ds)
  show "parseInt10 (CHR ''-'' # ds) = Some (- int (digitsVal ds))"
    using assms(1) unfolding parseInt10_def Let_def by (simp add: isSpace_def tw)
qed

lemma parseInt10_int_str: "parseInt10 (int_str i) = Some i"
  using parseInt10_digits [OF nat_str_nonempty(1) nat_str_isDigit]
  by (auto simp: int_str_def digitsVal_nat_str)

end
