(* ===== verification/Byte_Codecs.thy ===== *)
theory Byte_Codecs
  imports Rez_Prelude
begin

text \<open>
  The text encodings of binary data: hexadecimal and base64 (\<^verbatim>\<open>util/bytes.js\<close>), the strict
  unpadded base32 (\<^verbatim>\<open>util/base32.js\<close>) and the base64url routing keys (\<^verbatim>\<open>ids/routingKey.js\<close>),
  with the round trips of every codec, the strictness of base32 and of canonical base64, and
  the lengths of the encodings. A \<^verbatim>\<open>typeof\<close> or \<^verbatim>\<open>instanceof\<close> guard on an argument whose HOL type
  already is that type cannot fail and is not repeated.
\<close>

section \<open>Hexadecimal\<close>

definition HEX_ALPHABET :: string where
  "HEX_ALPHABET = ''0123456789abcdef''"

fun bytesToHex :: "bytes \<Rightarrow> string" where
  "bytesToHex [] = []"
| "bytesToHex (v # bs) =
     HEX_ALPHABET ! unat (drop_bit 4 v) # HEX_ALPHABET ! unat (v AND 15) # bytesToHex bs"

fun hexPairs :: "string \<Rightarrow> bytes result" where
  "hexPairs [] = Inr []"
| "hexPairs [_] = Inl (TypeError ''hex[i + 1] is undefined'')"
| "hexPairs (a # b # rest) =
     (let hi = indexOf HEX_ALPHABET (toLowerCase a);
          lo = indexOf HEX_ALPHABET (toLowerCase b)
      in if hi < 0 \<or> lo < 0 then Inl (Error ''hexToBytes(hex) invalid hex'')
         else bindR (hexPairs rest)
                (\<lambda>out. Inr ((push_bit 4 (word_of_int hi) OR word_of_int lo) # out)))"

definition hexToBytes :: "string \<Rightarrow> bytes result" where
  "hexToBytes hex =
     (if length hex mod 2 \<noteq> 0 then Inl (Error ''hexToBytes(hex) requires even-length string'')
      else hexPairs hex)"

section \<open>Base64\<close>

definition B64_ALPHABET :: string where
  "B64_ALPHABET = ''ABCDEFGHIJKLMNOPQRSTUVWXYZabcdefghijklmnopqrstuvwxyz0123456789+/''"

definition b64Triple :: "byte \<Rightarrow> byte \<Rightarrow> byte \<Rightarrow> u32" where
  "b64Triple b0 b1 b2 = push_bit 16 (ucast b0) OR push_bit 8 (ucast b1) OR ucast b2"

definition b64Char :: "nat \<Rightarrow> u32 \<Rightarrow> char" where
  "b64Char k triple = B64_ALPHABET ! unat (drop_bit k triple AND 63)"

fun bytesToBase64 :: "bytes \<Rightarrow> string" where
  "bytesToBase64 [] = []"
| "bytesToBase64 [b0] =
     (let triple = b64Triple b0 0 0
      in [b64Char 18 triple, b64Char 12 triple, CHR ''='', CHR ''=''])"
| "bytesToBase64 [b0, b1] =
     (let triple = b64Triple b0 b1 0
      in [b64Char 18 triple, b64Char 12 triple, b64Char 6 triple, CHR ''=''])"
| "bytesToBase64 (b0 # b1 # b2 # rest) =
     (let triple = b64Triple b0 b1 b2
      in [b64Char 18 triple, b64Char 12 triple, b64Char 6 triple, b64Char 0 triple]
         @ bytesToBase64 rest)"

text \<open>\<^verbatim>\<open>if (outIndex < outLen) out[outIndex++] = x\<close>\<close>

definition pushUpTo :: "nat \<Rightarrow> bytes \<Rightarrow> byte \<Rightarrow> bytes" where
  "pushUpTo outLen out x = (if length out < outLen then out @ [x] else out)"

text \<open>
  The body of the decoding loop. \<open>out\<close> is the filled part of the \<^verbatim>\<open>Uint8Array(outLen)\<close>; what the
  loop leaves unfilled is zero. A group of fewer than four characters reads \<^verbatim>\<open>undefined\<close>,
  whose index in the alphabet is negative.
\<close>

fun b64Quads :: "nat \<Rightarrow> string \<Rightarrow> bytes \<Rightarrow> bytes result" where
  "b64Quads outLen [] out = Inr (out @ replicate (outLen - length out) 0)"
| "b64Quads outLen (c0 # c1 # c2 # c3 # rest) out =
     (let v0 = indexOf B64_ALPHABET c0;
          v1 = indexOf B64_ALPHABET c1;
          v2 = (if c2 = CHR ''='' then 0 else indexOf B64_ALPHABET c2);
          v3 = (if c3 = CHR ''='' then 0 else indexOf B64_ALPHABET c3)
      in if v0 < 0 \<or> v1 < 0 \<or> v2 < 0 \<or> v3 < 0
         then Inl (Error ''base64ToBytes(base64) invalid base64'')
         else let triple = push_bit 18 (word_of_int v0) OR push_bit 12 (word_of_int v1)
                             OR push_bit 6 (word_of_int v2) OR word_of_int v3 :: u32;
                  out1 = pushUpTo outLen out (ucast (drop_bit 16 triple AND 255));
                  out2 = pushUpTo outLen out1 (ucast (drop_bit 8 triple AND 255));
                  out3 = pushUpTo outLen out2 (ucast (triple AND 255))
              in b64Quads outLen rest out3)"
| "b64Quads outLen _ out = Inl (Error ''base64ToBytes(base64) invalid base64'')"

definition base64ToBytes :: "string \<Rightarrow> bytes result" where
  "base64ToBytes base64 =
     (let cleaned = filter (\<lambda>c. \<not> isSpace c) base64
      in if length cleaned mod 4 \<noteq> 0 then Inl (Error ''base64ToBytes(base64) invalid length'')
         else let pad = (if endsWith cleaned ''=='' then 2 else if endsWith cleaned ''='' then 1 else 0);
                  outLen = (length cleaned div 4) * 3 - pad
              in b64Quads outLen cleaned [])"

section \<open>Base32\<close>

definition BASE32_ALPHABET :: string where
  "BASE32_ALPHABET = ''abcdefghijklmnopqrstuvwxyz234567''"

text \<open>The inner \<^verbatim>\<open>while (bits >= 5)\<close> loop: the characters it appends and the bits left.\<close>

fun b32Drain :: "u32 \<Rightarrow> nat \<Rightarrow> string \<times> nat" where
  "b32Drain buffer bits =
     (if 5 \<le> bits
      then let idx = unat (drop_bit (bits - 5) buffer AND 31);
               (out, left) = b32Drain buffer (bits - 5)
           in (BASE32_ALPHABET ! idx # out, left)
      else ([], bits))"

declare b32Drain.simps [simp del]

fun b32Encode :: "bytes \<Rightarrow> u32 \<Rightarrow> nat \<Rightarrow> string" where
  "b32Encode [] buffer bits =
     (if 0 < bits then [BASE32_ALPHABET ! unat (push_bit (5 - bits) buffer AND 31)] else [])"
| "b32Encode (b # bs) buffer bits =
     (let buffer' = push_bit 8 buffer OR ucast b;
          (out, bits') = b32Drain buffer' (bits + 8)
      in out @ b32Encode bs buffer' bits')"

definition bytesToBase32 :: "bytes \<Rightarrow> string" where
  "bytesToBase32 bytes = b32Encode bytes 0 0"

fun b32Decode :: "string \<Rightarrow> u32 \<Rightarrow> nat \<Rightarrow> bytes \<Rightarrow> bytes result" where
  "b32Decode [] buffer bits out =
     (if 0 < bits \<and> buffer AND (push_bit bits 1 - 1) \<noteq> 0
      then Inl (Error ''base32ToBytes: non-canonical trailing bits'')
      else Inr out)"
| "b32Decode (c # cs) buffer bits out =
     (let idx = indexOf BASE32_ALPHABET c
      in if idx < 0 then Inl (Error ''base32ToBytes: invalid character'')
         else let buffer' = push_bit 5 buffer OR word_of_int idx;
                  bits' = bits + 5
              in if 8 \<le> bits'
                 then b32Decode cs buffer' (bits' - 8)
                        (out @ [ucast (drop_bit (bits' - 8) buffer' AND 255)])
                 else b32Decode cs buffer' bits' out)"

definition base32ToBytes :: "string \<Rightarrow> bytes result" where
  "base32ToBytes text =
     (let byteLength = (length text * 5) div 8;
          expectedLength = (byteLength * 8 + 4) div 5
      in if length text \<noteq> expectedLength then Inl (Error ''base32ToBytes: non-canonical length'')
         else b32Decode text 0 0 [])"

section \<open>Routing keys\<close>

definition ROUTING_KEY_PREFIX :: string where
  "ROUTING_KEY_PREFIX = ''th_''"

definition ROUTING_KEY_BYTES :: nat where
  "ROUTING_KEY_BYTES = 16"

text \<open>\<^verbatim>\<open>s.replace(/=+$/g, "")\<close>\<close>

definition stripEquals :: "string \<Rightarrow> string" where
  "stripEquals s = rev (dropWhile (\<lambda>c. c = CHR ''='') (rev s))"

definition bytesToBase64Url :: "bytes \<Rightarrow> string" where
  "bytesToBase64Url bytes =
     stripEquals (map (\<lambda>c. if c = CHR ''/'' then CHR ''_'' else c)
       (map (\<lambda>c. if c = CHR ''+'' then CHR ''-'' else c) (bytesToBase64 bytes)))"

definition isBase64UrlChar :: "char \<Rightarrow> bool" where
  "isBase64UrlChar c =
     (let n = (of_char c :: nat)
      in (65 \<le> n \<and> n \<le> 90) \<or> (97 \<le> n \<and> n \<le> 122) \<or> (48 \<le> n \<and> n \<le> 57) \<or> n = 45 \<or> n = 95)"

definition base64UrlToBytes :: "string \<Rightarrow> bytes result" where
  "base64UrlToBytes base64url =
     (if base64url = [] then Inl (Error ''base64UrlToBytes(base64url) requires string'')
      else if \<not> list_all isBase64UrlChar base64url
      then Inl (Error ''base64UrlToBytes(base64url) invalid characters'')
      else let padded = base64url @ replicate ((4 - length base64url mod 4) mod 4) (CHR ''='');
               replaced = map (\<lambda>c. if c = CHR ''_'' then CHR ''/'' else c)
                            (map (\<lambda>c. if c = CHR ''-'' then CHR ''+'' else c) padded)
           in base64ToBytes replaced)"

definition routingKeyToBytes :: "string \<Rightarrow> bytes result" where
  "routingKeyToBytes routingKey =
     (if \<not> startsWith routingKey ROUTING_KEY_PREFIX
      then Inl (Error ''routingKeyToBytes(routingKey) requires th_ prefix'')
      else let encoded = drop (length ROUTING_KEY_PREFIX) routingKey
           in bindR (base64UrlToBytes encoded) (\<lambda>bytes.
                if length bytes \<noteq> ROUTING_KEY_BYTES
                then Inl (Error ''routingKeyToBytes(routingKey) requires 16-byte id'')
                else Inr bytes))"

definition bytesToRoutingKey :: "bytes \<Rightarrow> string result" where
  "bytesToRoutingKey bytes16 =
     (if length bytes16 \<noteq> ROUTING_KEY_BYTES
      then Inl (Error ''bytesToRoutingKey(bytes16) requires Uint8Array(16)'')
      else Inr (ROUTING_KEY_PREFIX @ bytesToBase64Url bytes16))"

definition isRoutingKey :: "string \<Rightarrow> bool" where
  "isRoutingKey value =
     (if \<not> startsWith value ROUTING_KEY_PREFIX then False
      else case routingKeyToBytes value of
             Inr bytes \<Rightarrow> length bytes = ROUTING_KEY_BYTES
           | Inl _ \<Rightarrow> False)"

section \<open>Hexadecimal: round trip and canonical form\<close>

lemma HEX_distinct: "distinct HEX_ALPHABET" "length HEX_ALPHABET = 16"
  by (simp_all add: HEX_ALPHABET_def)

lemma HEX_lower: "c \<in> set HEX_ALPHABET \<Longrightarrow> toLowerCase c = c"
  by (auto simp: HEX_ALPHABET_def toLowerCase_def)

lemma hex_digit_index:
  "n < 16 \<Longrightarrow> indexOf HEX_ALPHABET (toLowerCase (HEX_ALPHABET ! n)) = int n"
  by (simp add: HEX_lower HEX_distinct indexOf_nth_distinct)

lemma hex_nibbles:
  fixes v :: byte
  shows "unat (drop_bit 4 v) < 16" "unat (v AND 15) < 16"
    "push_bit 4 (drop_bit 4 v) OR (v AND 15) = v"
proof -
  have "drop_bit 4 v = take_bit 4 (drop_bit 4 v)"
    by (rule bit_eqI) (auto simp: bit_simps dest: bit_byte_bound)
  then have "unat (drop_bit 4 v) < 2 ^ 4" by (metis take_bit_nat_less_exp unsigned_take_bit_eq)
  then show "unat (drop_bit 4 v) < 16" by simp
  have "unat (v AND 15) < 2 ^ 4"
    by (simp only: word_bit_simps) (metis take_bit_nat_less_exp unsigned_take_bit_eq)
  then show "unat (v AND 15) < 16" by simp
  show "push_bit 4 (drop_bit 4 v) OR (v AND 15) = v"
    by (rule bit_eqI) (auto simp: bit_simps word_bit_simps)
qed

lemma hexPairs_bytesToHex: "hexPairs (bytesToHex bs) = Inr bs"
  by (induction bs) (simp_all add: hex_digit_index hex_nibbles Let_def)

lemma length_bytesToHex [simp]: "length (bytesToHex bs) = 2 * length bs"
  by (induction bs) simp_all

interpretation hex: byte_codec bytesToHex hexToBytes
  by unfold_locales (simp add: hexToBytes_def hexPairs_bytesToHex)

lemma bytesToHex_alphabet: "set (bytesToHex bs) \<subseteq> set HEX_ALPHABET"
  by (induction bs) (auto simp: hex_nibbles HEX_distinct)


text \<open>Decoding ignores the case of the digits and nothing else.\<close>

lemma hex_recombine:
  assumes "0 \<le> hi" "hi < 16" "0 \<le> lo" "lo < 16"
  shows "unat (drop_bit 4 (push_bit 4 (word_of_int hi) OR word_of_int lo :: byte)) = nat hi"
    and "unat ((push_bit 4 (word_of_int hi) OR word_of_int lo :: byte) AND 15) = nat lo"
proof -
  have hi: "take_bit 4 hi = hi" and lo: "take_bit 4 lo = lo"
    using assms by (simp_all add: take_bit_int_eq_self)
  have hw: "take_bit 4 (word_of_int hi :: byte) = word_of_int hi"
    and lw: "take_bit 4 (word_of_int lo :: byte) = word_of_int lo"
    using hi lo by (simp_all add: take_bit_of_int)
  have "drop_bit 4 (push_bit 4 (word_of_int hi) OR word_of_int lo :: byte) = take_bit 4 (word_of_int hi)"
    by (subst lw [symmetric], rule bit_eqI) (auto simp: bit_simps)
  also have "\<dots> = word_of_int hi" by (rule hw)
  finally show "unat (drop_bit 4 (push_bit 4 (word_of_int hi) OR word_of_int lo :: byte)) = nat hi"
    using assms by (simp add: unsigned_of_int take_bit_int_eq_self)
  have "(push_bit 4 (word_of_int hi) OR word_of_int lo :: byte) AND 15 = take_bit 4 (word_of_int lo)"
    by (rule bit_eqI) (auto simp: bit_simps word_bit_simps)
  also have "\<dots> = word_of_int lo" by (rule lw)
  finally show "unat ((push_bit 4 (word_of_int hi) OR word_of_int lo :: byte) AND 15) = nat lo"
    using assms by (simp add: unsigned_of_int take_bit_int_eq_self)
qed

lemma hexPairs_canonical: "hexPairs s = Inr bs \<Longrightarrow> bytesToHex bs = map toLowerCase s"
proof (induction s arbitrary: bs rule: hexPairs.induct)
  case (3 a b rest)
  let ?hi = "indexOf HEX_ALPHABET (toLowerCase a)" and ?lo = "indexOf HEX_ALPHABET (toLowerCase b)"
  from "3.prems" obtain out where ok: "\<not> (?hi < 0 \<or> ?lo < 0)" and out: "hexPairs rest = Inr out"
    and bs: "bs = (push_bit 4 (word_of_int ?hi) OR word_of_int ?lo) # out"
    by (auto simp: Let_def result_simps split: if_splits)
  have "?hi < 16" "?lo < 16"
    using indexOf_range [of HEX_ALPHABET] HEX_distinct(2) by simp_all
  then have "HEX_ALPHABET ! unat (drop_bit 4 (push_bit 4 (word_of_int ?hi) OR word_of_int ?lo :: byte)) = toLowerCase a"
    and "HEX_ALPHABET ! unat ((push_bit 4 (word_of_int ?hi) OR word_of_int ?lo :: byte) AND 15) = toLowerCase b"
    using ok hex_recombine [of ?hi ?lo] by (simp_all only: not_less de_Morgan_disj indexOf_nth)
  with bs "3.IH" [OF refl refl ok out] show ?case
    by (simp only: bytesToHex.simps list.map)
qed simp_all

section \<open>Base64: round trip and length\<close>

lemma B64_distinct: "distinct B64_ALPHABET" "length B64_ALPHABET = 64"
  by (simp_all add: B64_ALPHABET_def)

lemma B64_no_equals: "CHR ''='' \<notin> set B64_ALPHABET"
  by (simp add: B64_ALPHABET_def)

lemma B64_no_space: "c \<in> set B64_ALPHABET \<Longrightarrow> \<not> isSpace c"
  by (auto simp: B64_ALPHABET_def isSpace_def)

lemma sextet_bound: "unat (drop_bit k (t :: u32) AND 63) < 64"
proof -
  have "unat (drop_bit k t AND 63) < 2 ^ 6"
    by (simp only: word_bit_simps) (metis take_bit_nat_less_exp unsigned_take_bit_eq)
  then show ?thesis by simp
qed

lemma b64Char_in: "b64Char k t \<in> set B64_ALPHABET"
  by (simp add: b64Char_def sextet_bound B64_distinct)

lemma b64Char_neq [simp]: "b64Char k t \<noteq> CHR ''=''" "CHR ''='' \<noteq> b64Char k t"
  using b64Char_in B64_no_equals by metis+

lemma b64Char_index [simp]: "indexOf B64_ALPHABET (b64Char k t) = uint (drop_bit k t AND 63)"
  unfolding b64Char_def
  by (subst indexOf_nth_distinct) (simp_all only: B64_distinct sextet_bound uint_nat)

lemma take_bit_split:
  fixes t :: "'a::len word"
  shows "push_bit k (take_bit m (drop_bit k t)) OR take_bit k t = take_bit (k + m) t"
  by (rule bit_eqI) (auto simp: bit_simps)

lemma b64_regroup:
  fixes t :: u32
  shows "push_bit 18 (drop_bit 18 t AND 63) OR push_bit 12 (drop_bit 12 t AND 63)
          OR push_bit 6 (drop_bit 6 t AND 63) OR (drop_bit 0 t AND 63) = take_bit 24 t"
  using take_bit_split [of 6 6 t] take_bit_split [of 12 6 t] take_bit_split [of 18 6 t]
  by (simp add: word_bit_simps)

lemma b64_octet0: "ucast (drop_bit 16 (take_bit 24 (b64Triple b0 b1 b2)) AND 255) = b0"
  by (rule bit_eqI) (auto simp: b64Triple_def bit_simps word_bit_simps dest: bit_byte_bound)

lemma b64_octet1: "ucast (drop_bit 8 (take_bit 24 (b64Triple b0 b1 b2)) AND 255) = b1"
  by (rule bit_eqI) (auto simp: b64Triple_def bit_simps word_bit_simps dest: bit_byte_bound)

lemma b64_octet2: "ucast (take_bit 24 (b64Triple b0 b1 b2) AND 255) = b2"
  by (rule bit_eqI) (auto simp: b64Triple_def bit_simps word_bit_simps dest: bit_byte_bound)

lemmas b64_octets = b64_octet0 b64_octet1 b64_octet2

lemma b64Triple_low: "drop_bit 0 (b64Triple b0 b1 0) AND 63 = 0" "drop_bit 6 (b64Triple b0 0 0) AND 63 = 0"
  by (rule bit_eqI; auto simp: b64Triple_def bit_simps word_bit_simps)+

text \<open>One group of the decoding loop, on characters that stand for the sextets of a triple.\<close>

lemma b64Quads_group:
  assumes "indexOf B64_ALPHABET c0 = uint w0" "indexOf B64_ALPHABET c1 = uint w1"
    and "(if c2 = CHR ''='' then 0 else indexOf B64_ALPHABET c2) = uint w2"
    and "(if c3 = CHR ''='' then 0 else indexOf B64_ALPHABET c3) = uint w3"
    and "push_bit 18 w0 OR push_bit 12 w1 OR push_bit 6 w2 OR w3 = take_bit 24 (b64Triple b0 b1 b2)"
  shows "b64Quads n (c0 # c1 # c2 # c3 # rest) out =
    b64Quads n rest (pushUpTo n (pushUpTo n (pushUpTo n out b0) b1) b2)"
  by (simp only: b64Quads.simps Let_def assms word_of_int_uint b64_octets if_False
      linorder_not_less [THEN iffD2, OF uint_ge_0] disj_not1 simp_thms)

lemma b64Quads_three:
  fixes b0 b1 b2 :: byte
  defines "t \<equiv> b64Triple b0 b1 b2"
  shows "b64Quads n (b64Char 18 t # b64Char 12 t # b64Char 6 t # b64Char 0 t # rest) out =
    b64Quads n rest (pushUpTo n (pushUpTo n (pushUpTo n out b0) b1) b2)"
  unfolding t_def by (rule b64Quads_group [OF _ _ _ _ b64_regroup]) simp_all

lemma b64Quads_two:
  fixes b0 b1 :: byte
  defines "t \<equiv> b64Triple b0 b1 0"
  shows "b64Quads n [b64Char 18 t, b64Char 12 t, b64Char 6 t, CHR ''=''] out =
    b64Quads n [] (pushUpTo n (pushUpTo n (pushUpTo n out b0) b1) 0)"
  unfolding t_def
  by (rule b64Quads_group [OF _ _ _ _ b64_regroup]) (simp_all only: b64Triple_low, simp_all)

lemma b64Quads_one:
  fixes b0 :: byte
  defines "t \<equiv> b64Triple b0 0 0"
  shows "b64Quads n [b64Char 18 t, b64Char 12 t, CHR ''='', CHR ''=''] out =
    b64Quads n [] (pushUpTo n (pushUpTo n (pushUpTo n out b0) 0) 0)"
  unfolding t_def
  by (rule b64Quads_group [OF _ _ _ _ b64_regroup]) (simp_all only: b64Triple_low, simp_all)

lemma b64Quads_bytesToBase64:
  "b64Quads (length out + length bs) (bytesToBase64 bs) out = Inr (out @ bs)"
proof (induction bs arbitrary: out rule: bytesToBase64.induct)
  case (4 b0 b1 b2 rest)
  from "4.IH" [OF refl, of "out @ [b0, b1, b2]"] show ?case
    by (simp add: Let_def b64Quads_three pushUpTo_def del: b64Quads.simps)
qed (simp_all add: Let_def b64Quads_one b64Quads_two pushUpTo_def del: b64Quads.simps(2))

lemma length_bytesToBase64: "length (bytesToBase64 bs) = 4 * ((length bs + 2) div 3)"
proof (induction bs rule: bytesToBase64.induct)
  case (4 b0 b1 b2 rest)
  then have "length (bytesToBase64 (b0 # b1 # b2 # rest)) = 4 + 4 * ((length rest + 2) div 3)"
    by (simp add: Let_def)
  also have "\<dots> = 4 * ((length (b0 # b1 # b2 # rest) + 2) div 3)" by simp presburger
  finally show ?case .
qed (simp_all add: Let_def)

lemma bytesToBase64_chars: "set (bytesToBase64 bs) \<subseteq> insert (CHR ''='') (set B64_ALPHABET)"
  by (induction bs rule: bytesToBase64.induct) (auto simp: Let_def b64Char_in)

lemma bytesToBase64_clean: "filter (\<lambda>c. \<not> isSpace c) (bytesToBase64 bs) = bytesToBase64 bs"
proof (rule filter_True)
  have "\<not> isSpace (CHR ''='')" by (simp add: isSpace_def)
  then show "\<forall>c\<in>set (bytesToBase64 bs). \<not> isSpace c"
    using bytesToBase64_chars B64_no_space by blast
qed

lemma bytesToBase64_pad:
  "(if endsWith (bytesToBase64 bs) ''=='' then 2 else if endsWith (bytesToBase64 bs) ''='' then 1 else 0)
     = (3 - length bs mod 3) mod (3 :: nat)"
proof (induction bs rule: bytesToBase64.induct)
  case (4 b0 b1 b2 rest)
  show ?case
  proof (cases "rest = []")
    case True
    then show ?thesis by (simp add: Let_def endsWith_def)
  next
    case False
    then have "4 \<le> length (bytesToBase64 rest)"
      by (cases rest) (simp_all add: length_bytesToBase64)
    then have "endsWith (xs @ bytesToBase64 rest) ''=='' = endsWith (bytesToBase64 rest) ''==''"
      and "endsWith (xs @ bytesToBase64 rest) ''='' = endsWith (bytesToBase64 rest) ''=''" for xs
      by (simp_all add: endsWith_append_right)
    with "4.IH" [OF refl] show ?thesis
      by (simp only: bytesToBase64.simps Let_def) (simp add: mod_Suc)
  qed
qed (simp_all add: Let_def endsWith_def)

lemma b64_outLen: "(n + 2) div 3 * 3 - (3 - n mod 3) mod 3 = (n :: nat)"
proof -
  define q r where "q = n div 3" and "r = n mod 3"
  then have n: "n = 3 * q + r" and "r < 3" by simp_all
  then have "r = 0 \<or> r = 1 \<or> r = 2" by linarith
  then show ?thesis by (elim disjE) (simp_all add: n mod_Suc)
qed

interpretation b64: byte_codec bytesToBase64 base64ToBytes
proof
  fix bs :: bytes
  have "4 * ((length bs + 2) div 3) div 4 * 3 - (3 - length bs mod 3) mod 3 = length bs"
    using b64_outLen [of "length bs"] by simp
  then show "base64ToBytes (bytesToBase64 bs) = Inr bs"
    using b64Quads_bytesToBase64 [of "[]" bs] unfolding base64ToBytes_def Let_def
    by (simp only: bytesToBase64_clean bytesToBase64_pad length_bytesToBase64) simp
qed

section \<open>Base32: a strict codec\<close>

text \<open>
  Both loops shift a window over one stream of bits. \<open>bitsBE n w\<close> is the \<open>n\<close> low bits of \<open>w\<close>, most
  significant first: the encoder cuts the stream of the bytes into groups of five, the decoder
  cuts the stream of the groups into bytes, and the proofs compare the two streams.
\<close>

definition bitsBE :: "nat \<Rightarrow> 'a::semiring_bits \<Rightarrow> bool list" where
  "bitsBE n w = map (bit w) (rev [0..<n])"

lemma length_bitsBE [simp]: "length (bitsBE n w) = n"
  by (simp add: bitsBE_def)

lemma bitsBE_0 [simp]: "bitsBE 0 w = []"
  by (simp add: bitsBE_def)

lemma bitsBE_eq_iff: "bitsBE n w = bitsBE n v \<longleftrightarrow> (\<forall>k<n. bit w k = bit v k)"
  by (auto simp: bitsBE_def)

lemma bitsBE_split:
  fixes w :: "'a::semiring_bit_operations"
  shows "bitsBE (m + k) w = bitsBE k (drop_bit m w) @ bitsBE m w"
proof -
  have "[0..<m + k] = [0..<m] @ map (\<lambda>i. i + m) [0..<k]"
    unfolding map_add_upt using upt_add_eq_append [of 0 m k] by (simp add: add.commute)
  then show ?thesis
    by (simp add: bitsBE_def rev_map bit_drop_bit_eq o_def add.commute [of _ m])
qed

lemma bitsBE_push:
  fixes v :: u32
  assumes "bits + k \<le> 32" and "\<And>i. bit v i \<Longrightarrow> i < k"
  shows "bitsBE (bits + k) (push_bit k buffer OR v) = bitsBE bits buffer @ bitsBE k v"
proof -
  have "bitsBE (bits + k) (push_bit k buffer OR v)
      = bitsBE bits (drop_bit k (push_bit k buffer OR v)) @ bitsBE k (push_bit k buffer OR v)"
    using bitsBE_split [of k bits "push_bit k buffer OR v"] by (simp add: add.commute)
  moreover have "bitsBE bits (drop_bit k (push_bit k buffer OR v)) = bitsBE bits buffer"
    unfolding bitsBE_eq_iff using assms by (auto simp: bit_simps)
  moreover have "bitsBE k (push_bit k buffer OR v) = bitsBE k v"
    unfolding bitsBE_eq_iff by (auto simp: bit_simps)
  ultimately show ?thesis by simp
qed

lemma bitsBE_ucast: "bitsBE 8 (ucast (b :: byte) :: u32) = bitsBE 8 b"
  unfolding bitsBE_eq_iff by (auto simp: bit_simps)

lemma bitsBE_byte_inj: "bitsBE 8 b = bitsBE 8 c \<Longrightarrow> b = (c :: byte)"
  unfolding bitsBE_eq_iff by (rule bit_eqI) simp

lemma bitsBE_sextet_inj: "i < 32 \<Longrightarrow> j < 32 \<Longrightarrow> bitsBE 5 i = bitsBE 5 j \<Longrightarrow> i = (j :: nat)"
proof -
  assume "i < 32" "j < 32" and eq: "bitsBE 5 i = bitsBE 5 j"
  then have "take_bit 5 i = i" "take_bit 5 j = j" by (simp_all add: take_bit_nat_eq_self)
  moreover have "take_bit 5 i = take_bit 5 j"
    using eq unfolding bitsBE_eq_iff by (intro bit_eqI) (auto simp: bit_simps)
  ultimately show "i = j" by metis
qed

text \<open>Streams cut into blocks of one size, with a rest shorter than a block.\<close>

lemma concat_blocks_unique:
  assumes "\<And>x. length (f x) = n" and "\<And>x y. x \<in> A \<Longrightarrow> y \<in> A \<Longrightarrow> f x = f y \<Longrightarrow> x = y"
    and "set xs \<subseteq> A" "set ys \<subseteq> A" "length r < n" "length s < n"
    and "concat (map f xs) @ r = concat (map f ys) @ s"
  shows "xs = ys \<and> r = s"
  using assms(3,4,7)
proof (induction xs arbitrary: ys)
  case Nil
  from Nil.prems(3) have "r = concat (map f ys) @ s" by simp
  then have "ys = []" using assms(1,5) by (cases ys) auto
  with Nil show ?case by simp
next
  case (Cons x xs)
  have "ys \<noteq> []"
  proof
    assume "ys = []"
    with Cons.prems(3) have "length s = length (f x @ concat (map f xs) @ r)" by simp
    with assms(6) assms(1) [of x] show False by simp
  qed
  then obtain y ys' where ys: "ys = y # ys'" by (cases ys) auto
  with Cons.prems assms(1) have "f x = f y" and "concat (map f xs) @ r = concat (map f ys') @ s"
    by simp_all
  moreover from \<open>f x = f y\<close> Cons.prems(1,2) ys have "x = y" by (intro assms(2)) auto
  moreover have "xs = ys' \<and> r = s"
    using Cons.IH [of ys'] Cons.prems(1,2) ys calculation(2) by simp
  ultimately show ?case using ys by simp
qed

text \<open>The encoder: its characters stand for groups whose bits are the stream, padded with zeros.\<close>

lemma quintet_bound: "unat ((w :: u32) AND 31) < 32"
proof -
  have "unat (w AND 31) < 2 ^ 5"
    by (simp only: word_bit_simps) (metis take_bit_nat_less_exp unsigned_take_bit_eq)
  then show ?thesis by simp
qed

lemma bitsBE_quintet: "bitsBE 5 (unat ((w :: u32) AND 31)) = bitsBE 5 w"
  unfolding bitsBE_eq_iff by (auto simp: bit_simps word_bit_simps)

lemma b32Drain_stream:
  "\<exists>idxs. fst (b32Drain buffer bits) = map (\<lambda>i. BASE32_ALPHABET ! i) idxs \<and> set idxs \<subseteq> {..<32}
     \<and> snd (b32Drain buffer bits) = bits mod 5
     \<and> concat (map (bitsBE 5) idxs) @ bitsBE (bits mod 5) buffer = bitsBE bits buffer"
proof (induction buffer bits rule: b32Drain.induct)
  case (1 buffer bits)
  show ?case
  proof (cases "5 \<le> bits")
    case False
    then show ?thesis by (intro exI [where x = "[]"]) (simp add: b32Drain.simps [of buffer bits])
  next
    case True
    with 1 obtain idxs where ih: "fst (b32Drain buffer (bits - 5)) = map (\<lambda>i. BASE32_ALPHABET ! i) idxs"
      "set idxs \<subseteq> {..<32}" "snd (b32Drain buffer (bits - 5)) = (bits - 5) mod 5"
      "concat (map (bitsBE 5) idxs) @ bitsBE ((bits - 5) mod 5) buffer = bitsBE (bits - 5) buffer"
      by blast
    have m: "(bits - 5) mod 5 = bits mod 5" using True by (simp add: le_mod_geq)
    have "bitsBE bits buffer = bitsBE 5 (drop_bit (bits - 5) buffer) @ bitsBE (bits - 5) buffer"
      using bitsBE_split [of "bits - 5" 5 buffer] True by simp
    with ih m True show ?thesis
      by (intro exI [where x = "unat (drop_bit (bits - 5) buffer AND 31) # idxs"])
         (simp add: b32Drain.simps [of buffer bits] Let_def split_beta quintet_bound bitsBE_quintet)
  qed
qed

lemma b32Encode_stream:
  assumes "bits < 5"
  shows "\<exists>idxs pad. b32Encode bs buffer bits = map (\<lambda>i. BASE32_ALPHABET ! i) idxs \<and> set idxs \<subseteq> {..<32}
    \<and> pad < 5 \<and> concat (map (bitsBE 5) idxs)
       = bitsBE bits buffer @ concat (map (bitsBE 8) bs) @ replicate pad False"
  using assms
proof (induction bs arbitrary: buffer bits)
  case Nil
  have "bitsBE 5 (unat (push_bit (5 - bits) buffer AND 31)) = bitsBE bits buffer @ replicate (5 - bits) False"
    (is "?l = _")
  proof -
    have "?l = bitsBE (5 - bits + bits) (push_bit (5 - bits) buffer)"
      using Nil by (simp add: bitsBE_quintet)
    also have "\<dots> = bitsBE bits (drop_bit (5 - bits) (push_bit (5 - bits) buffer))
        @ bitsBE (5 - bits) (push_bit (5 - bits) buffer)"
      by (rule bitsBE_split)
    also have "bitsBE bits (drop_bit (5 - bits) (push_bit (5 - bits) buffer)) = bitsBE bits buffer"
      unfolding bitsBE_eq_iff using Nil by (auto simp: bit_simps)
    also have "bitsBE (5 - bits) (push_bit (5 - bits) buffer) = replicate (5 - bits) False"
      by (rule replicate_eqI) (auto simp: bitsBE_def bit_simps)
    finally show ?thesis .
  qed
  with Nil show ?case
    by (cases "bits = 0")
       (auto intro!: exI [where x = "[]"] exI [where x = "[unat (push_bit (5 - bits) buffer AND 31)]"]
             simp: quintet_bound)
next
  case (Cons b bs)
  let ?buffer = "push_bit 8 buffer OR ucast b"
  obtain idxs1 where 1: "fst (b32Drain ?buffer (bits + 8)) = map (\<lambda>i. BASE32_ALPHABET ! i) idxs1"
    "set idxs1 \<subseteq> {..<32}" "snd (b32Drain ?buffer (bits + 8)) = (bits + 8) mod 5"
    "concat (map (bitsBE 5) idxs1) @ bitsBE ((bits + 8) mod 5) ?buffer = bitsBE (bits + 8) ?buffer"
    using b32Drain_stream by blast
  obtain idxs2 pad where 2: "b32Encode bs ?buffer ((bits + 8) mod 5) = map (\<lambda>i. BASE32_ALPHABET ! i) idxs2"
    "set idxs2 \<subseteq> {..<32}" "pad < 5" "concat (map (bitsBE 5) idxs2)
       = bitsBE ((bits + 8) mod 5) ?buffer @ concat (map (bitsBE 8) bs) @ replicate pad False"
    using Cons.IH [of "(bits + 8) mod 5" ?buffer] by auto
  have "bitsBE (bits + 8) ?buffer = bitsBE bits buffer @ bitsBE 8 b"
    using bitsBE_push [of bits 8 "ucast b" buffer] Cons.prems bit_byte_bound [of b]
    by (simp add: bitsBE_ucast bit_simps)
  with 1 2 show ?case
    by (intro exI [where x = "idxs1 @ idxs2"] exI [where x = pad]) (simp add: Let_def split_beta flip: append_assoc)
qed

lemma bytesToBase32_stream:
  obtains idxs pad where "bytesToBase32 bs = map (\<lambda>i. BASE32_ALPHABET ! i) idxs" "set idxs \<subseteq> {..<32}"
    "pad < 5" "concat (map (bitsBE 5) idxs) = concat (map (bitsBE 8) bs) @ replicate pad False"
  using b32Encode_stream [of 0 bs 0] unfolding bytesToBase32_def by auto

text \<open>The decoder: its bytes are the stream of the groups, up to a rest of fewer than eight bits.\<close>

lemma BASE32_distinct: "distinct BASE32_ALPHABET" "length BASE32_ALPHABET = 32"
  by (simp_all add: BASE32_ALPHABET_def)

lemma bit_u32_bound: "bit (w :: u32) n \<Longrightarrow> n < 32"
  by (drule bit_imp_le_length) simp

lemma trailing_bits:
  fixes buffer :: u32
  shows "buffer AND (push_bit bits 1 - 1) = 0 \<longleftrightarrow> bitsBE bits buffer = replicate bits False"
proof -
  have "push_bit bits 1 - 1 = (mask bits :: u32)"
    by (simp add: mask_eq_exp_minus_1 push_bit_eq_mult)
  then have "buffer AND (push_bit bits 1 - 1) = take_bit bits buffer"
    by (simp add: take_bit_eq_mask)
  moreover have "take_bit bits buffer = 0 \<longleftrightarrow> bitsBE bits buffer = bitsBE bits (0 :: u32)"
    unfolding bitsBE_eq_iff using bit_u32_bound [of buffer] by (auto simp: bit_eq_iff bit_simps)
  moreover have "bitsBE bits (0 :: u32) = replicate bits False"
    by (rule replicate_eqI) (auto simp: bitsBE_def)
  ultimately show ?thesis by simp
qed

lemma bitsBE_octet: "bitsBE 8 (ucast ((w :: u32) AND 255) :: byte) = bitsBE 8 w"
  unfolding bitsBE_eq_iff by (auto simp: bit_simps word_bit_simps)

lemma quintet_word: "i < 32 \<Longrightarrow> bit (of_nat i :: u32) k \<Longrightarrow> k < 5"
  and bitsBE_quintet_word: "bitsBE 5 (of_nat i :: u32) = bitsBE 5 i"
proof -
  assume "i < 32" and "bit (of_nat i :: u32) k"
  then have "take_bit 5 i = i" "bit i k" by (simp_all add: take_bit_nat_eq_self bit_simps)
  then show "k < 5" by (metis bit_take_bit_iff)
next
  show "bitsBE 5 (of_nat i :: u32) = bitsBE 5 i"
    unfolding bitsBE_eq_iff by (auto simp: bit_simps)
qed

lemma b32Decode_stream:
  assumes "set idxs \<subseteq> {..<32}" and "bits < 8"
  shows "\<exists>res rest. length rest < 8
    \<and> concat (map (bitsBE 8) out) @ bitsBE bits buffer @ concat (map (bitsBE 5) idxs)
        = concat (map (bitsBE 8) res) @ rest
    \<and> b32Decode (map (\<lambda>i. BASE32_ALPHABET ! i) idxs) buffer bits out
        = (if rest = replicate (length rest) False then Inr res
           else Inl (Error ''base32ToBytes: non-canonical trailing bits''))"
  using assms
proof (induction idxs arbitrary: buffer bits out)
  case Nil
  then show ?case
    using trailing_bits [of buffer bits]
    by (intro exI [where x = out] exI [where x = "bitsBE bits buffer"]) auto
next
  case (Cons i idxs)
  let ?buffer = "push_bit 5 buffer OR word_of_int (int i)"
  have i: "i < 32" using Cons.prems by simp
  have idx: "indexOf BASE32_ALPHABET (BASE32_ALPHABET ! i) = int i"
    using i by (simp add: indexOf_nth_distinct BASE32_distinct)
  have b: "bitsBE (bits + 5) ?buffer = bitsBE bits buffer @ bitsBE 5 i"
    using bitsBE_push [of bits 5 "of_nat i" buffer] Cons.prems(2) quintet_word [OF i]
    by (simp add: bitsBE_quintet_word)
  show ?case
  proof (cases "8 \<le> bits + 5")
    case True
    let ?out = "out @ [ucast (drop_bit (bits + 5 - 8) ?buffer AND 255)]"
    have "bitsBE (bits + 5) ?buffer = bitsBE 8 (drop_bit (bits + 5 - 8) ?buffer) @ bitsBE (bits + 5 - 8) ?buffer"
      using bitsBE_split [of "bits + 5 - 8" 8 ?buffer] True by (simp add: add.commute [of bits 5])
    with b have split: "bitsBE 8 (drop_bit (bits + 5 - 8) ?buffer) @ bitsBE (bits + 5 - 8) ?buffer
        = bitsBE bits buffer @ bitsBE 5 i" by simp
    have step: "b32Decode (map (\<lambda>i. BASE32_ALPHABET ! i) (i # idxs)) buffer bits out
        = b32Decode (map (\<lambda>i. BASE32_ALPHABET ! i) idxs) ?buffer (bits + 5 - 8) ?out"
      using True idx by (simp add: Let_def)
    have stream: "concat (map (bitsBE 8) out) @ bitsBE bits buffer @ concat (map (bitsBE 5) (i # idxs))
        = concat (map (bitsBE 8) ?out) @ bitsBE (bits + 5 - 8) ?buffer @ concat (map (bitsBE 5) idxs)"
    proof -
      let ?rest = "concat (map (bitsBE 5) idxs)"
      have "concat (map (bitsBE 8) ?out) @ bitsBE (bits + 5 - 8) ?buffer @ ?rest
          = concat (map (bitsBE 8) out)
            @ (bitsBE 8 (drop_bit (bits + 5 - 8) ?buffer) @ bitsBE (bits + 5 - 8) ?buffer) @ ?rest"
        by (simp only: map_append concat_append list.map concat.simps bitsBE_octet append_assoc append_Nil2 append_Nil)
      also have "\<dots> = concat (map (bitsBE 8) out) @ (bitsBE bits buffer @ bitsBE 5 i) @ ?rest"
        by (simp only: split)
      finally show ?thesis by simp
    qed
    show ?thesis
      unfolding step stream by (rule Cons.IH) (use Cons.prems in auto)
  next
    case False
    have step: "b32Decode (map (\<lambda>i. BASE32_ALPHABET ! i) (i # idxs)) buffer bits out
        = b32Decode (map (\<lambda>i. BASE32_ALPHABET ! i) idxs) ?buffer (bits + 5) out"
      using False idx by (simp add: Let_def)
    have stream: "concat (map (bitsBE 8) out) @ bitsBE bits buffer @ concat (map (bitsBE 5) (i # idxs))
        = concat (map (bitsBE 8) out) @ bitsBE (bits + 5) ?buffer @ concat (map (bitsBE 5) idxs)"
      using b by simp
    show ?thesis
      unfolding step stream by (rule Cons.IH) (use Cons.prems False in auto)
  qed
qed

lemma b32Decode_chars:
  "b32Decode s buffer bits out = Inr res \<Longrightarrow> \<exists>idxs. s = map (\<lambda>i. BASE32_ALPHABET ! i) idxs \<and> set idxs \<subseteq> {..<32}"
proof (induction s arbitrary: buffer bits out)
  case Nil
  then show ?case by simp
next
  case (Cons c s)
  let ?i = "indexOf BASE32_ALPHABET c"
  from Cons.prems have i: "0 \<le> ?i" by (auto simp: Let_def not_less split: if_splits)
  from Cons.prems obtain buffer' bits' out' where "b32Decode s buffer' bits' out' = Inr res"
    by (auto simp: Let_def split: if_splits)
  then obtain idxs where "s = map (\<lambda>i. BASE32_ALPHABET ! i) idxs" "set idxs \<subseteq> {..<32}"
    using Cons.IH by blast
  moreover have "nat ?i < 32" using i indexOf_range [of BASE32_ALPHABET c] by (simp add: BASE32_distinct)
  ultimately show ?case
    using i by (intro exI [where x = "nat ?i # idxs"]) (simp add: indexOf_nth)
qed

text \<open>Lengths: the groups are as many as the padded bits need.\<close>

lemma b32_lengths:
  assumes "concat (map (bitsBE 5) (idxs :: nat list)) = concat (map (bitsBE 8) (bs :: bytes)) @ replicate pad False"
  shows "5 * length idxs = 8 * length bs + pad"
proof -
  have "length (concat (map (bitsBE 5) idxs)) = 5 * length idxs" by (induction idxs) auto
  moreover have "length (concat (map (bitsBE 8) bs)) = 8 * length bs" by (induction bs) auto
  ultimately show ?thesis using arg_cong [OF assms, of length] by simp
qed

interpretation b32: strict_codec bytesToBase32 base32ToBytes
proof
  fix bs :: bytes
  obtain idxs pad where enc: "bytesToBase32 bs = map (\<lambda>i. BASE32_ALPHABET ! i) idxs" "set idxs \<subseteq> {..<32}"
    "pad < 5" "concat (map (bitsBE 5) idxs) = concat (map (bitsBE 8) bs) @ replicate pad False"
    by (rule bytesToBase32_stream)
  note len = b32_lengths [OF enc(4)]
  obtain res rest where dec: "length rest < 8"
    "concat (map (bitsBE 5) idxs) = concat (map (bitsBE 8) res) @ rest"
    "b32Decode (bytesToBase32 bs) 0 0 [] = (if rest = replicate (length rest) False then Inr res
           else Inl (Error ''base32ToBytes: non-canonical trailing bits''))"
    using b32Decode_stream [OF enc(2), of 0 "[]" 0] enc(1) by auto
  have "res = bs \<and> rest = replicate pad False"
    by (rule concat_blocks_unique [where f = "bitsBE 8" and n = 8 and A = UNIV])
       (use dec enc bitsBE_byte_inj in auto)
  moreover have "length idxs * 5 div 8 = length bs" using len enc(3) by simp
  moreover have "length idxs = (length bs * 8 + 4) div 5" using len enc(3) by simp
  ultimately show "base32ToBytes (bytesToBase32 bs) = Inr bs"
    using dec(3) enc(1) by (simp add: base32ToBytes_def Let_def)
next
  fix s and bs :: bytes
  assume "base32ToBytes s = Inr bs"
  then have dec: "b32Decode s 0 0 [] = Inr bs" and len: "length s = (length s * 5 div 8 * 8 + 4) div 5"
    by (auto simp: base32ToBytes_def Let_def split: if_splits)
  obtain idxs where s: "s = map (\<lambda>i. BASE32_ALPHABET ! i) idxs" "set idxs \<subseteq> {..<32}"
    using b32Decode_chars [OF dec] by blast
  obtain rest where rest: "length rest < 8" "rest = replicate (length rest) False"
    "concat (map (bitsBE 5) idxs) = concat (map (bitsBE 8) bs) @ rest"
    using b32Decode_stream [OF s(2), of 0 "[]" 0] dec s(1) by (auto split: if_splits)
  obtain idxs' pad where enc: "bytesToBase32 bs = map (\<lambda>i. BASE32_ALPHABET ! i) idxs'" "set idxs' \<subseteq> {..<32}"
    "pad < 5" "concat (map (bitsBE 5) idxs') = concat (map (bitsBE 8) bs) @ replicate pad False"
    by (rule bytesToBase32_stream)
  have l: "5 * length idxs = 8 * length bs + length rest" "5 * length idxs' = 8 * length bs + pad"
    using b32_lengths rest(2,3) enc(4) by metis+
  have "length idxs * 5 div 8 = length bs" using l(1) rest(1) by simp
  with len s(1) have "length idxs = (length bs * 8 + 4) div 5" by simp
  then have "5 * length idxs \<le> 8 * length bs + 4" by simp
  with l enc(3) have "length idxs < length idxs' + 1" "length idxs' < length idxs + 1" by linarith+
  with l have "length rest = pad" by simp
  with rest(2,3) enc(4) have "concat (map (bitsBE 5) idxs') = concat (map (bitsBE 5) idxs)" by metis
  then have "idxs' = idxs \<and> [] = ([] :: bool list)"
    by (intro concat_blocks_unique [where f = "bitsBE 5" and n = 5 and A = "{..<32}"])
       (use s enc bitsBE_sextet_inj in auto)
  with s(1) enc(1) show "bytesToBase32 bs = s" by simp
qed

section \<open>Routing keys: round trip\<close>

lemma bytesToBase64_core:
  "\<exists>core. bytesToBase64 bs = core @ replicate ((3 - length bs mod 3) mod 3) (CHR ''='')
     \<and> set core \<subseteq> set B64_ALPHABET"
proof (induction bs rule: bytesToBase64.induct)
  case (2 b0)
  let ?t = "b64Triple b0 0 0"
  show ?case
    by (rule exI [where x = "[b64Char 18 ?t, b64Char 12 ?t]"]) (simp add: Let_def b64Char_in numeral_2_eq_2)
next
  case (3 b0 b1)
  let ?t = "b64Triple b0 b1 0"
  show ?case
    by (rule exI [where x = "[b64Char 18 ?t, b64Char 12 ?t, b64Char 6 ?t]"]) (simp add: Let_def b64Char_in)
next
  case (4 b0 b1 b2 rest)
  let ?t = "b64Triple b0 b1 b2"
  from "4.IH" [OF refl] obtain core where "bytesToBase64 rest = core @ replicate ((3 - length rest mod 3) mod 3) (CHR ''='')"
    "set core \<subseteq> set B64_ALPHABET" by blast
  then show ?case
    by (intro exI [where x = "[b64Char 18 ?t, b64Char 12 ?t, b64Char 6 ?t, b64Char 0 ?t] @ core"])
       (simp add: Let_def b64Char_in mod_Suc)
qed simp

definition toUrlChar :: "char \<Rightarrow> char" where
  "toUrlChar c = (if (if c = CHR ''+'' then CHR ''-'' else c) = CHR ''/'' then CHR ''_''
                  else if c = CHR ''+'' then CHR ''-'' else c)"

definition ofUrlChar :: "char \<Rightarrow> char" where
  "ofUrlChar c = (if (if c = CHR ''-'' then CHR ''+'' else c) = CHR ''_'' then CHR ''/''
                  else if c = CHR ''-'' then CHR ''+'' else c)"

lemma url_alphabet:
  "list_all (\<lambda>c. ofUrlChar (toUrlChar c) = c \<and> isBase64UrlChar (toUrlChar c) \<and> toUrlChar c \<noteq> CHR ''='')
     B64_ALPHABET"
  by code_simp

lemma url_chars:
  assumes "c \<in> set B64_ALPHABET"
  shows "ofUrlChar (toUrlChar c) = c" "isBase64UrlChar (toUrlChar c)" "toUrlChar c \<noteq> CHR ''=''"
  using assms url_alphabet by (auto simp: list_all_iff)

lemma stripEquals_replicate:
  "CHR ''='' \<notin> set xs \<Longrightarrow> stripEquals (xs @ replicate n (CHR ''='')) = xs"
proof -
  assume "CHR ''='' \<notin> set xs"
  then have "dropWhile (\<lambda>c. c = CHR ''='') (rev xs) = rev xs"
    by (cases xs rule: rev_cases) auto
  moreover have "dropWhile (\<lambda>c. c = CHR ''='') (replicate n (CHR ''='') @ rev xs)
      = dropWhile (\<lambda>c. c = CHR ''='') (rev xs)"
    by (induction n) auto
  ultimately show ?thesis by (simp add: stripEquals_def)
qed

lemma base64Url_roundtrip:
  assumes "bs \<noteq> []"
  shows "base64UrlToBytes (bytesToBase64Url bs) = Inr bs"
proof -
  define pad where "pad = (3 - length bs mod 3) mod 3"
  obtain core where b64: "bytesToBase64 bs = core @ replicate pad (CHR ''='')"
    and core: "set core \<subseteq> set B64_ALPHABET"
    using bytesToBase64_core pad_def by blast
  have "bytesToBase64Url bs = stripEquals (map toUrlChar core @ replicate pad (CHR ''=''))"
    by (simp add: bytesToBase64Url_def b64 toUrlChar_def [abs_def] o_def)
  also have "\<dots> = map toUrlChar core"
    using core url_chars(3) by (intro stripEquals_replicate) fastforce
  finally have url: "bytesToBase64Url bs = map toUrlChar core" .
  have len: "length core + pad = 4 * ((length bs + 2) div 3)"
    using length_bytesToBase64 [of bs] b64 by simp
  have pad: "pad < 3" by (simp add: pad_def)
  have "1 \<le> (length bs + 2) div 3" using assms by (cases bs) auto
  then obtain q where q: "(length bs + 2) div 3 = Suc q" by (cases "(length bs + 2) div 3") auto
  with len pad have "core \<noteq> []" by auto
  have "length core = 4 * q + (4 - pad)" using len pad q by simp
  then have "length core mod 4 = (4 - pad) mod 4" by simp
  moreover have "pad = 0 \<or> pad = 1 \<or> pad = 2" using pad by linarith
  ultimately have "(4 - length core mod 4) mod 4 = pad" by (elim disjE) simp_all
  moreover have "list_all isBase64UrlChar (map toUrlChar core)"
    using core url_chars(2) by (auto simp: list_all_iff)
  moreover have "map ofUrlChar (map toUrlChar core @ replicate pad (CHR ''='')) = bytesToBase64 bs"
    using core url_chars(1) b64 by (auto simp: ofUrlChar_def intro!: map_idI)
  ultimately show ?thesis
    using \<open>core \<noteq> []\<close> b64.dec_enc [of bs]
    by (simp add: base64UrlToBytes_def url Let_def ofUrlChar_def [abs_def] o_def)
qed

lemma bytesToRoutingKey_accepted:
  assumes "length bs = ROUTING_KEY_BYTES"
  shows "\<exists>k. bytesToRoutingKey bs = Inr k \<and> routingKeyToBytes k = Inr bs \<and> isRoutingKey k"
proof -
  have "bs \<noteq> []" using assms by (auto simp: ROUTING_KEY_BYTES_def)
  then show ?thesis
    using assms base64Url_roundtrip
    by (simp add: bytesToRoutingKey_def routingKeyToBytes_def isRoutingKey_def Let_def)
qed

lemma isRoutingKey_iff: "isRoutingKey k \<longleftrightarrow> isOk (routingKeyToBytes k)"
  by (auto simp: isRoutingKey_def isOk_iff routingKeyToBytes_def Let_def result_simps split: sum.splits if_splits)

section \<open>Properties of the codecs\<close>

text \<open>The base32 form of a byte string (device identifiers are printed in it) is canonical. A text
  decodes exactly when it is the text the encoder prints for the decoded bytes: a wrong character, a
  length no byte string has, and non-zero trailing bits are all refused.\<close>

theorem base32_canonical: "base32ToBytes text = Inr bs \<longleftrightarrow> text = bytesToBase32 bs"
  using b32.enc_dec b32.dec_enc by blast

text \<open>Hexadecimal and base64 lose nothing. Decoding the printed form of any byte string returns the
  byte string, and the printed forms have the lengths the callers compute with.\<close>

theorem hex_base64_roundtrip:
  "hexToBytes (bytesToHex bs) = Inr bs \<and> length (bytesToHex bs) = 2 * length bs
   \<and> base64ToBytes (bytesToBase64 bs) = Inr bs \<and> length (bytesToBase64 bs) = 4 * ((length bs + 2) div 3)"
  by (simp add: hex.dec_enc b64.dec_enc length_bytesToHex length_bytesToBase64)

text \<open>Every 16-byte identifier has a routing key, which the recogniser accepts and which decodes to
  the identifier; other lengths are refused.\<close>

theorem routing_key_roundtrip:
  "(if length bs = ROUTING_KEY_BYTES
    then \<exists>k. bytesToRoutingKey bs = Inr k \<and> isRoutingKey k \<and> routingKeyToBytes k = Inr bs
    else bytesToRoutingKey bs = Inl (Error ''bytesToRoutingKey(bytes16) requires Uint8Array(16)''))"
  using bytesToRoutingKey_accepted [of bs] by (auto simp: bytesToRoutingKey_def)

end
