(* ===== verification/Canonical_Json.thy ===== *)
theory Canonical_Json
  imports Js_Value Byte_Codecs "HOL-Library.Multiset"
begin

text \<open>
  Canonical JSON (\<^verbatim>\<open>util/canonicalize.js\<close>), the text that every signature of the protocol covers;
  the guard against prototype-poisoning keys (\<^verbatim>\<open>util/safeJson.js\<close>); the stable JSON of frame
  fingerprints (\<^verbatim>\<open>network/FrameFingerprint.js\<close>). The lemmas show that the canonical form does not
  depend on the order of members, that canonicalisation is idempotent, that two values have
  the same canonical text exactly when they have the same canonical form, and that the
  iterative key check finds a dangerous key at any depth.
\<close>

section \<open>Objects and their property order\<close>

text \<open>
  A property named by a canonical array index (\<^verbatim>\<open>"0"\<close>, \<^verbatim>\<open>"17"\<close>) comes before every other one, in
  numeric order, whatever the order of the assignments; other names keep insertion order.
  An assignment \<^verbatim>\<open>out["__proto__"] = v\<close> runs the setter inherited from \<^verbatim>\<open>Object.prototype\<close> and makes no
  own property.
\<close>

definition arrayIndex :: "string \<Rightarrow> nat option" where
  "arrayIndex k = (let n = digitsVal k in if k = nat_str n \<and> n < 2 ^ 32 - 1 then Some n else None)"

fun insertIndex :: "nat \<Rightarrow> string \<Rightarrow> 'v \<Rightarrow> (string \<times> 'v) list \<Rightarrow> (string \<times> 'v) list" where
  "insertIndex i k v [] = [(k, v)]"
| "insertIndex i k v ((l, w) # rest) =
     (case arrayIndex l of
        None \<Rightarrow> (k, v) # (l, w) # rest
      | Some j \<Rightarrow> if j < i then (l, w) # insertIndex i k v rest else (k, v) # (l, w) # rest)"

definition setProp :: "string \<Rightarrow> 'v \<Rightarrow> (string \<times> 'v) list \<Rightarrow> (string \<times> 'v) list" where
  "setProp k v kvs =
     (if k = ''__proto__'' then kvs
      else if k \<in> fst ` set kvs then AList.update k v kvs
      else case arrayIndex k of None \<Rightarrow> kvs @ [(k, v)] | Some i \<Rightarrow> insertIndex i k v kvs)"

text \<open>The own properties of a \<^verbatim>\<open>Uint8Array\<close>.\<close>

definition bytesProps :: "bytes \<Rightarrow> (string \<times> jsval) list" where
  "bytesProps bs = map (\<lambda>i. (nat_str i, JInt (uint (bs ! i)))) [0..<length bs]"

section \<open>canonicalize\<close>

text \<open>
  The keys are sorted and assigned one by one to a fresh object. A \<^verbatim>\<open>Uint8Array\<close> is an object that is
  not an array, so it becomes an object of its elements.
\<close>

primrec canonicalize :: "jsval \<Rightarrow> jsval" where
  "canonicalize JUndef = JUndef"
| "canonicalize JNull = JNull"
| "canonicalize (JBool b) = JBool b"
| "canonicalize (JNum n) = JNum n"
| "canonicalize (JStr s) = JStr s"
| "canonicalize (JBytes bs) =
     JObj (foldl (\<lambda>out p. setProp (fst p) (snd p) out) [] (sort_key fst (bytesProps bs)))"
| "canonicalize (JArr xs) = JArr (map canonicalize xs)"
| "canonicalize (JObj kvs) =
     JObj (foldl (\<lambda>out p. setProp (fst p) (snd p) out) []
       (sort_key fst (map (map_prod id canonicalize) kvs)))"

section \<open>JSON.stringify\<close>

definition escChar :: "char \<Rightarrow> string" where
  "escChar c =
     (let n = (of_char c :: nat)
      in if n = 34 then [CHR 0x5C, CHR 0x22]
         else if n = 92 then [CHR 0x5C, CHR 0x5C]
         else if n = 8 then [CHR 0x5C, CHR ''b'']
         else if n = 9 then [CHR 0x5C, CHR ''t'']
         else if n = 10 then [CHR 0x5C, CHR ''n'']
         else if n = 12 then [CHR 0x5C, CHR ''f'']
         else if n = 13 then [CHR 0x5C, CHR ''r'']
         else if n < 32 then [CHR 0x5C, CHR ''u'', CHR ''0'', CHR ''0'',
                              HEX_ALPHABET ! (n div 16), HEX_ALPHABET ! (n mod 16)]
         else [c])"

definition quoteStr :: "string \<Rightarrow> string" where
  "quoteStr s = CHR 0x22 # concat (map escChar s) @ [CHR 0x22]"

text \<open>
  The result is \<open>None\<close> for \<^verbatim>\<open>undefined\<close>, which an array writes as \<^verbatim>\<open>null\<close> and an object leaves out; a
  number that is not finite is \<^verbatim>\<open>null\<close>.
\<close>

fun jsonNum :: "jsnum \<Rightarrow> string" where
  "jsonNum (NInt i) = int_str i"
| "jsonNum _ = ''null''"

definition jsonMember :: "string \<times> string option \<Rightarrow> string option" where
  "jsonMember p = (case snd p of None \<Rightarrow> None | Some t \<Rightarrow> Some (quoteStr (fst p) @ '':'' @ t))"

primrec jsonStringify :: "jsval \<Rightarrow> string option" where
  "jsonStringify JUndef = None"
| "jsonStringify JNull = Some ''null''"
| "jsonStringify (JBool b) = Some (if b then ''true'' else ''false'')"
| "jsonStringify (JNum n) = Some (jsonNum n)"
| "jsonStringify (JStr s) = Some (quoteStr s)"
| "jsonStringify (JBytes bs) =
     Some (''{'' @ join '','' (map (\<lambda>i. quoteStr (nat_str i) @ '':'' @ int_str (uint (bs ! i))) [0..<length bs]) @ ''}'')"
| "jsonStringify (JArr xs) =
     Some (''['' @ join '','' (map (\<lambda>t. case t of None \<Rightarrow> ''null'' | Some s \<Rightarrow> s) (map jsonStringify xs)) @ '']'')"
| "jsonStringify (JObj kvs) =
     Some (''{'' @ join '','' (List.map_filter jsonMember (map (map_prod id jsonStringify) kvs)) @ ''}'')"

definition canonicalJSONStringify :: "jsval \<Rightarrow> string option" where
  "canonicalJSONStringify v = jsonStringify (canonicalize v)"

text \<open>\<^verbatim>\<open>new TextEncoder().encode(text)\<close>, for code units below 256.\<close>

definition utf8Char :: "char \<Rightarrow> bytes" where
  "utf8Char c =
     (let n = (of_char c :: nat)
      in if n < 128 then [of_nat n] else [of_nat (192 + n div 64), of_nat (128 + n mod 64)])"

definition utf8Encode :: "string \<Rightarrow> bytes" where
  "utf8Encode s = concat (map utf8Char s)"

section \<open>stableJson\<close>

text \<open>
  \<^verbatim>\<open>undefined\<close> joins as the empty string in an array and concatenates as \<^verbatim>\<open>undefined\<close> after a key.
\<close>

primrec stableJson :: "jsval \<Rightarrow> string option" where
  "stableJson JUndef = None"
| "stableJson JNull = Some ''null''"
| "stableJson (JBool b) = Some (if b then ''true'' else ''false'')"
| "stableJson (JNum n) = Some (jsonNum n)"
| "stableJson (JStr s) = Some (quoteStr s)"
| "stableJson (JBytes bs) =
     Some (''{'' @ join '','' (map (\<lambda>p. quoteStr (fst p) @ '':'' @ int_str (snd p))
       (sort_key fst (map (\<lambda>i. (nat_str i, uint (bs ! i))) [0..<length bs]))) @ ''}'')"
| "stableJson (JArr xs) =
     Some (''['' @ join '','' (map (\<lambda>t. case t of None \<Rightarrow> [] | Some s \<Rightarrow> s) (map stableJson xs)) @ '']'')"
| "stableJson (JObj kvs) =
     Some (''{'' @ join '','' (map (\<lambda>p. quoteStr (fst p) @ '':''
         @ (case snd p of None \<Rightarrow> ''undefined'' | Some s \<Rightarrow> s))
       (sort_key fst (map (map_prod id stableJson) kvs))) @ ''}'')"

section \<open>Prototype-poisoning keys\<close>

definition DANGEROUS_KEYS :: "string list" where
  "DANGEROUS_KEYS = [''__proto__'', ''constructor'', ''prototype'']"

definition isDangerousJsonKey :: "string \<Rightarrow> bool" where
  "isDangerousJsonKey key = List.member DANGEROUS_KEYS key"

text \<open>
  One pass over the members of an object: the first dangerous key throws an error that carries
  the key and the path; the values of the
  members seen so far are on the stack, the last one on top.
\<close>

fun pushMembers :: "string \<Rightarrow> (string \<times> jsval) list \<Rightarrow> (jsval \<times> string) list \<Rightarrow> (jsval \<times> string) list result" where
  "pushMembers path [] stack = Inr stack"
| "pushMembers path ((key, v) # kvs) stack =
     (if isDangerousJsonKey key
      then Inl (UnsafeJsonKey key path)
      else pushMembers path kvs ((v, path @ ''.'' @ key) # stack))"

definition pushItems :: "string \<Rightarrow> jsval list \<Rightarrow> (jsval \<times> string) list \<Rightarrow> (jsval \<times> string) list" where
  "pushItems path xs stack =
     rev (map (\<lambda>i. (xs ! i, path @ ''['' @ nat_str i @ '']'')) [0..<length xs]) @ stack"

lemma pushMembers_stack:
  "pushMembers path kvs stack = Inr stack' \<Longrightarrow>
     map fst stack' = rev (map snd kvs) @ map fst stack \<and> (\<forall>p\<in>set kvs. \<not> isDangerousJsonKey (fst p))"
  by (induction path kvs stack rule: pushMembers.induct) (auto split: if_splits)

lemma pushItems_stack: "map fst (pushItems path xs stack) = rev xs @ map fst stack"
  by (simp add: pushItems_def rev_map [symmetric] o_def map_nth)

primrec nodeSize :: "jsval \<Rightarrow> nat" where
  "nodeSize JUndef = 1"
| "nodeSize JNull = 1"
| "nodeSize (JBool b) = 1"
| "nodeSize (JNum n) = 1"
| "nodeSize (JStr s) = 1"
| "nodeSize (JBytes bs) = 1"
| "nodeSize (JArr xs) = Suc (sum_list (map nodeSize xs))"
| "nodeSize (JObj kvs) = Suc (sum_list (map snd (map (map_prod id nodeSize) kvs)))"

text \<open>
  The walk with its explicit stack. Every node of a tree is met once, so the \<^verbatim>\<open>WeakSet\<close> of the nodes
  already seen never skips one. The elements of a \<^verbatim>\<open>Uint8Array\<close> are numbers under index keys.
\<close>

function walkKeys :: "(jsval \<times> string) list \<Rightarrow> unit result" where
  "walkKeys [] = Inr ()"
| "walkKeys ((node, path) # stack) =
     (case node of
        JArr xs \<Rightarrow> walkKeys (pushItems path xs stack)
      | JObj kvs \<Rightarrow> (case pushMembers path kvs stack of
                       Inl e \<Rightarrow> Inl e
                     | Inr stack' \<Rightarrow> walkKeys stack')
      | _ \<Rightarrow> walkKeys stack)"
  by pat_completeness auto
termination
proof (relation "measure (\<lambda>stack. sum_list (map (nodeSize \<circ> fst) stack))", goal_cases)
  case (8 node path stack xs)
  have "map nodeSize (map fst (pushItems path xs stack)) = rev (map nodeSize xs) @ map nodeSize (map fst stack)"
    by (simp only: pushItems_stack) (simp add: rev_map)
  with 8 show ?case
    by (simp flip: map_map)
next
  case (9 node path stack kvs stack')
  have "map nodeSize (map fst stack') = rev (map nodeSize (map snd kvs)) @ map nodeSize (map fst stack)"
    using pushMembers_stack [OF 9(2)] by (simp add: rev_map)
  moreover have "map snd (map (map_prod id nodeSize) kvs) = map nodeSize (map snd kvs)"
    by simp
  ultimately show ?case
    using 9 by (simp flip: map_map del: map_map)
qed auto

definition assertSafeJsonKeys :: "jsval \<Rightarrow> string \<Rightarrow> jsval result" where
  "assertSafeJsonKeys v label = bindR (walkKeys [(v, label)]) (\<lambda>_. Inr v)"

text \<open>\<^verbatim>\<open>JSON.parse\<close> is the parameter \<open>parse\<close>.\<close>

definition parseUntrustedJson :: "(string \<Rightarrow> jsval result) \<Rightarrow> string \<Rightarrow> string \<Rightarrow> jsval result" where
  "parseUntrustedJson parse txt label = bindR (parse txt) (\<lambda>v. assertSafeJsonKeys v label)"

section \<open>The canonical form\<close>

primrec wf_js :: "jsval \<Rightarrow> bool" where
  "wf_js JUndef = True"
| "wf_js JNull = True"
| "wf_js (JBool b) = True"
| "wf_js (JNum n) = True"
| "wf_js (JStr s) = True"
| "wf_js (JBytes bs) = True"
| "wf_js (JArr xs) = list_all id (map wf_js xs)"
| "wf_js (JObj kvs) = (distinct (map fst kvs) \<and> list_all snd (map (map_prod id wf_js) kvs))"

definition isIndexEntry :: "string \<times> 'v \<Rightarrow> bool" where
  "isIndexEntry p \<longleftrightarrow> arrayIndex (fst p) \<noteq> None"

definition entryIndex :: "string \<times> 'v \<Rightarrow> nat" where
  "entryIndex p = digitsVal (fst p)"

definition propOrder :: "(string \<times> 'v) list \<Rightarrow> (string \<times> 'v) list" where
  "propOrder E = sort_key entryIndex (filter isIndexEntry E) @ filter (\<lambda>p. \<not> isIndexEntry p) E"

lemma isIndexEntry_iff: "isIndexEntry p \<longleftrightarrow> fst p = nat_str (entryIndex p) \<and> entryIndex p < 2 ^ 32 - 1"
  by (simp add: isIndexEntry_def arrayIndex_def entryIndex_def Let_def)

lemma arrayIndex_entry: "isIndexEntry p \<Longrightarrow> arrayIndex (fst p) = Some (entryIndex p)"
  by (simp add: isIndexEntry_iff arrayIndex_def entryIndex_def Let_def)

lemma set_propOrder [simp]: "set (propOrder E) = set E"
  by (auto simp: propOrder_def)

lemma mset_propOrder [simp]: "mset (propOrder E) = mset E"
  by (simp add: propOrder_def mset_filter multiset_partition [symmetric])

lemma entryIndex_inj:
  assumes "distinct (map fst E)"
  shows "inj_on entryIndex (set (filter isIndexEntry E))"
proof (rule inj_onI)
  fix p q assume "p \<in> set (filter isIndexEntry E)" "q \<in> set (filter isIndexEntry E)" "entryIndex p = entryIndex q"
  then have "p \<in> set E" "q \<in> set E" "fst p = fst q" by (auto simp: isIndexEntry_iff)
  with assms show "p = q" by (metis eq_key_imp_eq_value prod.collapse)
qed

lemma insertIndex_propOrder:
  assumes "list_all isIndexEntry S" "list_all (\<lambda>p. \<not> isIndexEntry p) N" "\<forall>p\<in>set S. entryIndex p \<noteq> i"
    and "isIndexEntry (k, v)" "i = entryIndex (k, v)"
  shows "insertIndex i k v (S @ N) = insort_key entryIndex (k, v) S @ N"
  using assms
proof (induction S)
  case Nil
  then show ?case by (cases N) (auto simp: isIndexEntry_def)
next
  case (Cons p S)
  obtain l w where p: "p = (l, w)" by (cases p)
  with Cons.prems(1) have "arrayIndex l = Some (entryIndex p)"
    using arrayIndex_entry [of p] by simp
  with Cons p show ?case by auto
qed

lemma setProp_propOrder:
  assumes "k \<notin> fst ` set E" "k \<noteq> ''__proto__''" "distinct (map fst E)"
  shows "setProp k v (propOrder E) = propOrder (E @ [(k, v)])"
proof (cases "isIndexEntry (k, v)")
  case False
  with assms show ?thesis
    by (auto simp: setProp_def propOrder_def isIndexEntry_def split: option.splits)
next
  case True
  let ?S = "sort_key entryIndex (filter isIndexEntry E)"
  have ne: "\<forall>p\<in>set ?S. entryIndex p \<noteq> entryIndex (k, v)"
    using assms(1) True by (force simp: isIndexEntry_iff)
  have "setProp k v (propOrder E) = insertIndex (entryIndex (k, v)) k v (propOrder E)"
    using assms(1,2) arrayIndex_entry [OF True] by (simp add: setProp_def)
  also have "\<dots> = insort_key entryIndex (k, v) ?S @ filter (\<lambda>p. \<not> isIndexEntry p) E"
    unfolding propOrder_def by (rule insertIndex_propOrder) (use ne True in \<open>auto simp: list_all_iff\<close>)
  also have "insort_key entryIndex (k, v) ?S = sort_key entryIndex (filter isIndexEntry E @ [(k, v)])"
  proof (rule sort_key_inj_key_eq [symmetric])
    show "inj_on entryIndex (set (filter isIndexEntry E @ [(k, v)]))"
      using entryIndex_inj [of "E @ [(k, v)]"] assms True by auto
  qed (simp_all add: sorted_insort_key)
  finally show ?thesis using True by (simp add: propOrder_def)
qed

lemma foldl_setProp:
  assumes "distinct (map fst E)"
  shows "foldl (\<lambda>out p. setProp (fst p) (snd p) out) [] E = propOrder (filter (\<lambda>p. fst p \<noteq> ''__proto__'') E)"
  using assms
proof (induction E rule: rev_induct)
  case Nil
  then show ?case by (simp add: propOrder_def)
next
  case (snoc p E)
  show ?case
  proof (cases "fst p = ''__proto__''")
    case True
    with snoc show ?thesis by (simp add: setProp_def)
  next
    case False
    have "distinct (map fst (filter (\<lambda>p. fst p \<noteq> ''__proto__'') E))"
      using snoc.prems by (simp add: distinct_map_filter)
    moreover have "fst p \<notin> fst ` set (filter (\<lambda>p. fst p \<noteq> ''__proto__'') E)"
      using snoc.prems by auto
    ultimately show ?thesis
      using snoc False setProp_propOrder [of "fst p" "filter (\<lambda>p. fst p \<noteq> ''__proto__'') E" "snd p"] by simp
  qed
qed

lemma map_prod_keys [simp]: "map fst (map (map_prod id f) kvs) = map fst kvs"
  by simp

lemma sort_entries_cong:
  assumes "mset E = mset F" and "distinct (map fst E)"
  shows "sort_key fst E = sort_key fst (F :: (string \<times> 'v) list)"
proof (rule sort_key_inj_key_eq)
  show "mset E = mset (sort_key fst F)" using assms(1) by simp
  show "inj_on fst (set E)" using assms(2) by (simp add: distinct_map)
qed simp

lemma distinct_sort_entries: "distinct (map fst E) \<Longrightarrow> distinct (map fst (sort_key fst (E :: (string \<times> 'v) list)))"
  by (metis distinct_map mset_eq_imp_distinct_iff mset_sort set_sort)

lemma canonicalize_JObj:
  "distinct (map fst kvs) \<Longrightarrow> canonicalize (JObj kvs) =
     JObj (propOrder (filter (\<lambda>p. fst p \<noteq> ''__proto__'') (sort_key fst (map (map_prod id canonicalize) kvs))))"
  by (simp add: foldl_setProp distinct_sort_entries del: map_map)

lemma bytesProps_keys: "distinct (map fst (bytesProps bs))"
  by (simp add: bytesProps_def o_def distinct_map inj_on_def nat_str_inj)

text \<open>Two values hold the same data when they differ in the order of object members only.\<close>

inductive same_data :: "jsval \<Rightarrow> jsval \<Rightarrow> bool" where
  same_refl: "same_data v v"
| same_arr: "list_all2 same_data xs ys \<Longrightarrow> same_data (JArr xs) (JArr ys)"
| same_obj: "list_all2 (rel_prod (=) same_data) kvs mid \<Longrightarrow> mset mid = mset kvs' \<Longrightarrow> distinct (map fst kvs)
    \<Longrightarrow> same_data (JObj kvs) (JObj kvs')"

lemma same_data_canonicalize: "same_data a b \<Longrightarrow> canonicalize a = canonicalize b"
proof (induction rule: same_data.induct)
  case (same_refl v)
  show ?case by simp
next
  case (same_arr xs ys)
  then have "map canonicalize xs = map canonicalize ys"
    by (induction rule: list_all2_induct) auto
  then show ?case by simp
next
  case (same_obj kvs mid kvs')
  have k: "map fst kvs = map fst mid \<and> map (map_prod id canonicalize) kvs = map (map_prod id canonicalize) mid"
    using same_obj(1) by (induction rule: list_all2_induct) auto
  then have d: "distinct (map fst mid)" using same_obj(3) by simp
  then have d': "distinct (map fst kvs')"
    using same_obj(2) by (metis mset_eq_imp_distinct_iff mset_map)
  have "sort_key fst (map (map_prod id canonicalize) mid) = sort_key fst (map (map_prod id canonicalize) kvs')"
    using same_obj(2) d by (intro sort_entries_cong) (simp_all del: map_map)
  with k same_obj(3) d d' show ?case by (simp add: canonicalize_JObj del: canonicalize.simps)
qed

lemma propOrder_sorted_fixed:
  assumes "distinct (map fst F)" "sorted (map fst F)" "\<forall>p\<in>set F. fst p \<noteq> ''__proto__''"
  shows "propOrder (filter (\<lambda>p. fst p \<noteq> ''__proto__'') (sort_key fst (propOrder F))) = propOrder (F :: (string \<times> 'v) list)"
proof -
  have "sort_key fst (propOrder F) = F"
  proof (rule sort_key_inj_key_eq)
    show "inj_on fst (set (propOrder F))" using assms(1) by (simp add: distinct_map)
  qed (use assms in simp_all)
  with assms(3) show ?thesis by simp
qed

lemma canonicalize_fixed_obj:
  assumes F: "distinct (map fst F)" "sorted (map fst F)" "\<forall>p\<in>set F. fst p \<noteq> ''__proto__''"
    and C: "\<forall>p\<in>set F. canonicalize (snd p) = snd p"
  shows "canonicalize (JObj (propOrder F)) = JObj (propOrder F)"
proof -
  have "map (map_prod id canonicalize) (propOrder F) = propOrder F"
    using C by (intro map_idI) (auto simp: map_prod_def split_beta)
  moreover have "distinct (map fst (propOrder F))"
    using F(1) by (metis mset_eq_imp_distinct_iff mset_map mset_propOrder)
  ultimately show ?thesis
    using propOrder_sorted_fixed [OF F] by (simp add: canonicalize_JObj del: canonicalize.simps)
qed

lemma canonicalize_idem_aux: "wf_js v \<Longrightarrow> canonicalize (canonicalize v) = canonicalize v"
proof (induction v)
  case (JBytes bs)
  let ?F = "sort_key fst (bytesProps bs)"
  have "\<forall>p\<in>set ?F. fst p \<noteq> ''__proto__''"
  proof
    fix p assume "p \<in> set ?F"
    then obtain n where "fst p = nat_str n" by (auto simp: bytesProps_def)
    then show "fst p \<noteq> ''__proto__''"
      using nat_str_isDigit [of "CHR ''_''" n] by (auto simp: isDigit_def)
  qed
  moreover have "\<forall>p\<in>set ?F. canonicalize (snd p) = snd p" by (auto simp: bytesProps_def)
  ultimately show ?case
    using canonicalize_fixed_obj [of ?F] bytesProps_keys [of bs]
    by (simp add: foldl_setProp distinct_sort_entries)
next
  case (JObj kvs)
  let ?F = "filter (\<lambda>p. fst p \<noteq> ''__proto__'') (sort_key fst (map (map_prod id canonicalize) kvs))"
  have d: "distinct (map fst kvs)" using JObj.prems by simp
  have "distinct (map fst ?F)"
    using distinct_sort_entries [of "map (map_prod id canonicalize) kvs"] d
    by (simp add: distinct_map_filter del: map_map)
  moreover have "sorted (map fst ?F)" by (rule sorted_filter) simp
  moreover have "\<forall>p\<in>set ?F. canonicalize (snd p) = snd p"
    using JObj by (force simp: list_all_iff snds.simps)
  ultimately have "canonicalize (JObj (propOrder ?F)) = JObj (propOrder ?F)"
    by (intro canonicalize_fixed_obj) auto
  then show ?case by (simp only: canonicalize_JObj [OF d])
qed (auto simp: list_all_iff)

section \<open>The canonical text determines the canonical form\<close>

text \<open>Prefix codes: a text that is a concatenation of code words splits in one way.\<close>

definition prefix_code :: "('a \<Rightarrow> 'b list) \<Rightarrow> bool" where
  "prefix_code f \<longleftrightarrow> (\<forall>c d x y. f c @ x = f d @ y \<longrightarrow> c = d \<and> x = y)"

lemma prefix_codeD: "prefix_code f \<Longrightarrow> f c @ x = f d @ y \<Longrightarrow> c = d \<and> x = y"
  by (auto simp: prefix_code_def)

lemma prefix_code_concat:
  assumes "prefix_code f" "\<And>c. f c \<noteq> []"
  shows "concat (map f k) = concat (map f l) \<Longrightarrow> k = l"
proof (induction k arbitrary: l)
  case Nil
  then show ?case using assms(2) by (cases l) auto
next
  case (Cons c k)
  then obtain d l' where l: "l = d # l'" using assms(2) by (cases l) auto
  with Cons.prems have "f c @ concat (map f k) = f d @ concat (map f l')" by simp
  then show ?case using prefix_codeD [OF assms(1)] Cons.IH l by blast
qed

lemma prefix_code_until:
  assumes "prefix_code f" "\<And>c. f c \<noteq> [] \<and> hd (f c) \<noteq> q"
  shows "concat (map f k) @ q # r = concat (map f l) @ q # s \<Longrightarrow> k = l \<and> r = s"
proof (induction k arbitrary: l)
  case Nil
  then show ?case using assms(2) by (cases l) (auto, metis hd_append2 list.sel(1))
next
  case (Cons c k)
  have "l \<noteq> []"
  proof
    assume "l = []"
    with Cons.prems have "f c @ concat (map f k) @ q # r = q # s" by simp
    then show False using assms(2) [of c] by (metis hd_append2 list.sel(1))
  qed
  then obtain d l' where l: "l = d # l'" by (cases l) auto
  with Cons.prems have "f c @ (concat (map f k) @ q # r) = f d @ (concat (map f l') @ q # s)" by simp
  then show ?case using prefix_codeD [OF assms(1)] Cons.IH l by blast
qed

lemma utf8_octets_unique:
  fixes m n :: nat
  assumes "m < 256" "n < 256"
    and "(if m < 128 then [of_nat m] else [of_nat (192 + m div 64), of_nat (128 + m mod 64)]) @ x
       = (if n < 128 then [of_nat n] else [of_nat (192 + n div 64), of_nat (128 + n mod 64)]) @ (y :: bytes)"
  shows "m = n \<and> x = y"
proof -
  have w: "(of_nat i :: byte) = of_nat j \<longleftrightarrow> i = j" if "i < 256" "j < 256" for i j :: nat
    using that by (simp add: word_of_nat_eq_iff take_bit_nat_eq_self)
  have d: "m div 64 < 4" "n div 64 < 4" "m mod 64 < 64" "n mod 64 < 64" using assms(1,2) by simp_all
  have "m = n" if "m div 64 = n div 64" "m mod 64 = n mod 64"
    using that by (metis div_mult_mod_eq)
  with assms d show ?thesis
    by (auto simp: w simp del: of_nat_add of_nat_numeral split: if_splits)
qed

lemma utf8Char_prefix_code: "prefix_code utf8Char"
  unfolding prefix_code_def
proof (intro allI impI)
  fix c d :: char and x y :: bytes
  assume "utf8Char c @ x = utf8Char d @ y"
  then have "(of_char c :: nat) = of_char d \<and> x = y"
    by (intro utf8_octets_unique) (simp_all add: utf8Char_def Let_def)
  then show "c = d \<and> x = y" by simp
qed

lemma utf8Encode_inj: "utf8Encode s = utf8Encode t \<Longrightarrow> s = t"
  unfolding utf8Encode_def
  by (rule prefix_code_concat [OF utf8Char_prefix_code]) (auto simp: utf8Char_def Let_def)

lemma HEX_nth_inj: "i < 16 \<Longrightarrow> j < 16 \<Longrightarrow> HEX_ALPHABET ! i = HEX_ALPHABET ! j \<longleftrightarrow> i = j"
  using HEX_distinct by (simp add: nth_eq_iff_index_eq)

lemma escChar_prefix_code: "prefix_code escChar"
  unfolding prefix_code_def
proof (intro allI impI)
  fix c d :: char and x y :: string
  assume eq: "escChar c @ x = escChar d @ y"
  let ?m = "of_char c :: nat" and ?n = "of_char d :: nat"
  have inj: "?m = k \<Longrightarrow> ?n = k \<Longrightarrow> c = d" for k
    by (metis of_char_eq_iff)
  have hex: "?m < 32 \<Longrightarrow> ?n < 32 \<Longrightarrow> HEX_ALPHABET ! (?m div 16) = HEX_ALPHABET ! (?n div 16) \<Longrightarrow>
      HEX_ALPHABET ! (?m mod 16) = HEX_ALPHABET ! (?n mod 16) \<Longrightarrow> c = d"
  proof (rule inj [OF _ refl])
    assume a: "?m < 32" "?n < 32" "HEX_ALPHABET ! (?m div 16) = HEX_ALPHABET ! (?n div 16)"
      "HEX_ALPHABET ! (?m mod 16) = HEX_ALPHABET ! (?n mod 16)"
    have "?m div 16 < 16" "?n div 16 < 16" using a(1,2) by simp_all
    then have "?m div 16 = ?n div 16" "?m mod 16 = ?n mod 16"
      using a(3,4) HEX_nth_inj by simp_all
    then show "?m = ?n" by (metis div_mult_mod_eq)
  qed
  have bs: "?m = 92 \<longleftrightarrow> c = CHR 0x5C" "?n = 92 \<longleftrightarrow> d = CHR 0x5C"
    using of_char_eq_iff [where 'a = nat, of c "CHR 0x5C"] of_char_eq_iff [where 'a = nat, of d "CHR 0x5C"] by simp_all
  show "c = d \<and> x = y"
    using eq hex bs unfolding escChar_def Let_def by (auto split: if_splits intro: inj)
qed

lemma escChar_hd: "escChar c \<noteq> [] \<and> hd (escChar c) \<noteq> CHR 0x22"
  by (auto simp: escChar_def Let_def)

lemma quoteStr_prefix_code: "prefix_code quoteStr"
  unfolding prefix_code_def quoteStr_def
proof (intro allI impI)
  fix c d x y :: string
  assume "(CHR 0x22 # concat (map escChar c) @ [CHR 0x22]) @ x = (CHR 0x22 # concat (map escChar d) @ [CHR 0x22]) @ y"
  then have "concat (map escChar c) @ CHR 0x22 # x = concat (map escChar d) @ CHR 0x22 # y" by simp
  then show "c = d \<and> x = y" by (rule prefix_code_until [OF escChar_prefix_code escChar_hd])
qed

text \<open>The data that JSON can carry: no undefined, no special number, no typed array.\<close>

primrec json_data :: "jsval \<Rightarrow> bool" where
  "json_data JUndef = False"
| "json_data JNull = True"
| "json_data (JBool b) = True"
| "json_data (JNum n) = (case n of NInt _ \<Rightarrow> True | _ \<Rightarrow> False)"
| "json_data (JStr s) = True"
| "json_data (JBytes bs) = False"
| "json_data (JArr xs) = list_all id (map json_data xs)"
| "json_data (JObj kvs) = list_all snd (map (map_prod id json_data) kvs)"

primrec render :: "jsval \<Rightarrow> string" where
  "render JUndef = []"
| "render JNull = ''null''"
| "render (JBool b) = (if b then ''true'' else ''false'')"
| "render (JNum n) = jsonNum n"
| "render (JStr s) = quoteStr s"
| "render (JBytes bs) = []"
| "render (JArr xs) = ''['' @ join '','' (map render xs) @ '']''"
| "render (JObj kvs) = ''{'' @ join '','' (map (\<lambda>p. quoteStr (fst p) @ '':'' @ snd p) (map (map_prod id render) kvs)) @ ''}''"

lemma jsonStringify_render: "json_data v \<Longrightarrow> jsonStringify v = Some (render v)"
proof (induction v)
  case (JArr xs)
  then have "map (\<lambda>t. case t of None \<Rightarrow> ''null'' | Some s \<Rightarrow> s) (map jsonStringify xs) = map render xs"
    by (auto simp: list_all_iff)
  then show ?case by (simp only: jsonStringify.simps render.simps)
next
  case (JObj kvs)
  then have "\<forall>p\<in>set kvs. jsonStringify (snd p) = Some (render (snd p))"
    by (auto simp: list_all_iff snds.simps)
  then have "List.map_filter jsonMember (map (map_prod id jsonStringify) kvs)
      = map (\<lambda>p. quoteStr (fst p) @ '':'' @ snd p) (map (map_prod id render) kvs)"
    by (induction kvs) (auto simp: List.map_filter_def jsonMember_def)
  then show ?case by (simp only: jsonStringify.simps render.simps)
qed (auto split: jsnum.splits)

text \<open>
  A rendered value is followed by the end of the text, a comma or a closing bracket. Up to
  such a continuation the rendering can be read off: the first character tells the kind,
  and a number ends where its digits end.
\<close>

definition stop :: "string \<Rightarrow> bool" where
  "stop r \<longleftrightarrow> r = [] \<or> hd r \<in> {CHR '','', CHR '']'', CHR ''}''}"

definition readable :: "('a \<Rightarrow> string) \<Rightarrow> 'a set \<Rightarrow> 'a \<Rightarrow> bool" where
  "readable g Y x \<longleftrightarrow> (\<forall>y r s. y \<in> Y \<longrightarrow> stop r \<longrightarrow> stop s \<longrightarrow> g x @ r = g y @ s \<longrightarrow> x = y \<and> r = s)"

lemma join_Cons: "join sep (x # xs) = x @ (if xs = [] then [] else sep @ join sep xs)"
  by (cases xs) auto

lemma join_readable:
  assumes "\<forall>x\<in>set xs. readable g Y x" "set ys \<subseteq> Y"
    and "\<And>x. x \<in> Y \<Longrightarrow> \<not> stop (g x)" "\<And>x. x \<in> set xs \<Longrightarrow> \<not> stop (g x)" "stop (e # r)" "stop (e # s)" "e \<noteq> CHR '',''"
    and "join '','' (map g xs) @ e # r = join '','' (map g ys) @ e # s"
  shows "xs = ys \<and> r = s"
  using assms(1,2,4,8)
proof (induction xs arbitrary: ys)
  case Nil
  show ?case
  proof (cases ys)
    case Nil
    with Nil.prems show ?thesis by simp
  next
    case (Cons y ys')
    with Nil.prems assms(3) [of y] assms(5) show ?thesis
      by (cases "g y") (auto simp: join_Cons stop_def)
  qed
next
  case (Cons x xs)
  show ?case
  proof (cases ys)
    case Nil
    with Cons.prems(3) [of x] Cons.prems(4) assms(6) show ?thesis
      by (cases "g x") (auto simp: join_Cons stop_def)
  next
    case (Cons y ys')
    let ?r = "(if xs = [] then [] else '','' @ join '','' (map g xs)) @ e # r"
    let ?s = "(if ys' = [] then [] else '','' @ join '','' (map g ys')) @ e # s"
    have "g x @ ?r = g y @ ?s" "stop ?r" "stop ?s"
      using Cons.prems(4) Cons assms(5,6) by (auto simp: join_Cons stop_def)
    then have xy: "x = y" "?r = ?s"
      using Cons.prems(1,2) Cons unfolding readable_def by (metis insert_subset list.set(2) list.set_intros(1))+
    then have "(xs = [] \<longleftrightarrow> ys' = []) \<and> join '','' (map g xs) @ e # r = join '','' (map g ys') @ e # s"
      using assms(7) by (auto split: if_splits)
    then have "xs = ys' \<and> r = s"
      using Cons.IH [of ys'] Cons.prems(1,2,3) Cons by simp
    with xy Cons show ?thesis by simp
  qed
qed

lemma int_str_chars: "c \<in> set (int_str i) \<Longrightarrow> isDigit c \<or> c = CHR ''-''"
  by (auto simp: int_str_def nat_str_isDigit split: if_splits)

lemma int_str_nonempty [simp]: "int_str i \<noteq> []"
  by (simp add: int_str_def)

lemma int_str_readable:
  assumes "int_str i @ r = int_str j @ s" "stop r" "stop s"
  shows "i = j \<and> r = s"
proof -
  let ?P = "\<lambda>c. isDigit c \<or> c = CHR ''-''"
  have t: "takeWhile ?P (int_str k @ u) = int_str k" if "stop u" for k u
  proof -
    have "takeWhile ?P u = []" using that by (cases u) (auto simp: stop_def isDigit_def)
    then show ?thesis using int_str_chars by (simp add: takeWhile_append2)
  qed
  have "int_str i = int_str j" using assms t by metis
  then show ?thesis using assms(1) parseInt10_int_str by (metis append_same_eq same_append_eq option.inject)
qed

lemma int_str_hd: "\<exists>c cs. int_str i = c # cs \<and> (isDigit c \<or> c = CHR ''-'')"
  using int_str_chars [of "hd (int_str i)" i] by (cases "int_str i") auto

lemma isDigit_letters:
  "\<not> isDigit (CHR ''n'')" "\<not> isDigit (CHR ''t'')" "\<not> isDigit (CHR ''f'')" "\<not> isDigit (CHR 0x22)"
  "\<not> isDigit (CHR ''['')" "\<not> isDigit (CHR ''{'')" "\<not> isDigit (CHR '','')" "\<not> isDigit (CHR '']'')" "\<not> isDigit (CHR ''}'')"
  by (simp_all add: isDigit_def)

text \<open>The first character of a rendering tells the constructor.\<close>

lemma render_first:
  assumes "json_data v"
  obtains c cs where "render v = c # cs"
    and "c = CHR ''n'' \<longleftrightarrow> v = JNull" and "c = CHR ''t'' \<longleftrightarrow> v = JBool True" and "c = CHR ''f'' \<longleftrightarrow> v = JBool False"
    and "c = CHR 0x22 \<longleftrightarrow> (\<exists>s. v = JStr s)" and "c = CHR ''['' \<longleftrightarrow> (\<exists>xs. v = JArr xs)"
    and "c = CHR ''{'' \<longleftrightarrow> (\<exists>kvs. v = JObj kvs)" and "isDigit c \<or> c = CHR ''-'' \<longleftrightarrow> (\<exists>i. v = JInt i)"
    and "c \<noteq> CHR '',''" and "c \<noteq> CHR '']''" and "c \<noteq> CHR ''}''"
proof (cases v)
  case (JNum n)
  with assms obtain i where v: "v = JInt i" by (cases n) auto
  obtain c cs where c: "int_str i = c # cs" "isDigit c \<or> c = CHR ''-''" using int_str_hd by blast
  then have "c \<notin> {CHR ''n'', CHR ''t'', CHR ''f'', CHR 0x22, CHR ''['', CHR ''{'', CHR '','', CHR '']'', CHR ''}''}"
    using isDigit_letters by auto
  with v c show ?thesis by (intro that [of c cs]) auto
next
  case (JBool b)
  then show ?thesis by (cases b) (rule that, auto simp: isDigit_letters)+
next
  case JNull
  then show ?thesis by (elim ssubst, intro that, simp) (simp_all add: isDigit_letters)
next
  case (JStr s)
  then show ?thesis by (elim ssubst, intro that, simp add: quoteStr_def) (simp_all add: isDigit_letters)
next
  case (JArr xs)
  then show ?thesis by (elim ssubst, intro that, simp) (simp_all add: isDigit_letters)
next
  case (JObj xs)
  then show ?thesis by (elim ssubst, intro that, simp) (simp_all add: isDigit_letters)
qed (use assms in simp_all)

lemma render_not_stop: "json_data v \<Longrightarrow> \<not> stop (render v)"
  by (erule render_first) (auto simp: stop_def)

lemma render_same_kind:
  assumes "json_data v" "json_data w" "render v @ r = render w @ s"
  shows "(v = JNull \<longleftrightarrow> w = JNull) \<and> (v = JBool True \<longleftrightarrow> w = JBool True) \<and> (v = JBool False \<longleftrightarrow> w = JBool False)
    \<and> ((\<exists>t. v = JStr t) \<longleftrightarrow> (\<exists>t. w = JStr t)) \<and> ((\<exists>xs. v = JArr xs) \<longleftrightarrow> (\<exists>xs. w = JArr xs))
    \<and> ((\<exists>kvs. v = JObj kvs) \<longleftrightarrow> (\<exists>kvs. w = JObj kvs)) \<and> ((\<exists>i. v = JInt i) \<longleftrightarrow> (\<exists>i. w = JInt i))"
proof (rule render_first [OF assms(1)], rule render_first [OF assms(2)])
  fix c cs d ds
  assume v: "render v = c # cs" and w: "render w = d # ds"
  have cd: "d = c" using assms(3) v w by simp
  show ?thesis if "c = CHR ''n'' \<longleftrightarrow> v = JNull" "c = CHR ''t'' \<longleftrightarrow> v = JBool True" "c = CHR ''f'' \<longleftrightarrow> v = JBool False"
    "c = CHR 0x22 \<longleftrightarrow> (\<exists>s. v = JStr s)" "c = CHR ''['' \<longleftrightarrow> (\<exists>xs. v = JArr xs)"
    "c = CHR ''{'' \<longleftrightarrow> (\<exists>kvs. v = JObj kvs)" "isDigit c \<or> c = CHR ''-'' \<longleftrightarrow> (\<exists>i. v = JInt i)"
    "d = CHR ''n'' \<longleftrightarrow> w = JNull" "d = CHR ''t'' \<longleftrightarrow> w = JBool True" "d = CHR ''f'' \<longleftrightarrow> w = JBool False"
    "d = CHR 0x22 \<longleftrightarrow> (\<exists>s. w = JStr s)" "d = CHR ''['' \<longleftrightarrow> (\<exists>xs. w = JArr xs)"
    "d = CHR ''{'' \<longleftrightarrow> (\<exists>kvs. w = JObj kvs)" "isDigit d \<or> d = CHR ''-'' \<longleftrightarrow> (\<exists>i. w = JInt i)"
    using that unfolding cd by argo
qed

lemma member_readable:
  assumes "readable render {w. json_data w} v"
  shows "readable (\<lambda>p. quoteStr (fst p) @ '':'' @ render (snd p)) {p. json_data (snd p)} (k, v)"
  unfolding readable_def
proof (intro allI impI)
  fix y :: "string \<times> jsval" and r s
  assume y: "y \<in> {p. json_data (snd p)}" and rs: "stop r" "stop s"
    and eq: "(quoteStr (fst (k, v)) @ '':'' @ render (snd (k, v))) @ r = (quoteStr (fst y) @ '':'' @ render (snd y)) @ s"
  then have "quoteStr k @ ('':'' @ render v @ r) = quoteStr (fst y) @ ('':'' @ render (snd y) @ s)" by simp
  then have "k = fst y" "render v @ r = render (snd y) @ s"
    using prefix_codeD [OF quoteStr_prefix_code] by blast+
  with assms y rs show "(k, v) = y \<and> r = s" unfolding readable_def by (metis mem_Collect_eq prod.collapse)
qed

lemma render_readable: "json_data v \<Longrightarrow> readable render {w. json_data w} v"
proof (induction v)
  case (JArr xs)
  show ?case unfolding readable_def
  proof (intro allI impI)
    fix w r s assume w: "w \<in> {w. json_data w}" and rs: "stop r" "stop s" and eq: "render (JArr xs) @ r = render w @ s"
    obtain ys where ys: "w = JArr ys" using render_same_kind [OF JArr.prems _ eq] w by auto
    have "join '','' (map render xs) @ CHR '']'' # r = join '','' (map render ys) @ CHR '']'' # s"
      using eq ys by simp
    moreover have "\<forall>x\<in>set xs. readable render {w. json_data w} x" "set ys \<subseteq> {w. json_data w}"
      using JArr w ys by (auto simp: list_all_iff)
    moreover have "stop (CHR '']'' # r)" "stop (CHR '']'' # s)" by (simp_all add: stop_def)
    ultimately have "xs = ys \<and> r = s"
      using JArr.prems render_not_stop join_readable [of xs render "{w. json_data w}" ys "CHR '']''" r s]
      by (auto simp: list_all_iff subset_iff)
    with ys show "JArr xs = w \<and> r = s" by simp
  qed
next
  case (JObj kvs)
  let ?g = "\<lambda>p. quoteStr (fst p) @ '':'' @ render (snd p)"
  show ?case unfolding readable_def
  proof (intro allI impI)
    fix w r s assume w: "w \<in> {w. json_data w}" and rs: "stop r" "stop s" and eq: "render (JObj kvs) @ r = render w @ s"
    obtain lvs where lvs: "w = JObj lvs" using render_same_kind [OF JObj.prems _ eq] w by auto
    have "join '','' (map ?g kvs) @ CHR ''}'' # r = join '','' (map ?g lvs) @ CHR ''}'' # s"
      using eq lvs by (simp add: o_def)
    moreover have "\<forall>p\<in>set kvs. readable ?g {p. json_data (snd p)} p"
      using JObj by (auto simp: list_all_iff snds.simps simp del: append.simps intro!: member_readable)
    moreover have "set lvs \<subseteq> {p. json_data (snd p)}" using w lvs by (auto simp: list_all_iff)
    ultimately have "kvs = lvs \<and> r = s"
      by (intro join_readable) (auto simp: stop_def quoteStr_def)
    with lvs show "JObj kvs = w \<and> r = s" by simp
  qed
next
  case (JNum n)
  then obtain i where n: "n = NInt i" by (cases n) auto
  show ?case unfolding readable_def
  proof (intro allI impI)
    fix w r s assume w: "w \<in> {w. json_data w}" and rs: "stop r" "stop s" and eq: "render (JNum n) @ r = render w @ s"
    obtain j where j: "w = JInt j" using render_same_kind [OF JNum.prems _ eq] w n by auto
    with eq n rs int_str_readable [of i r j s] show "JNum n = w \<and> r = s" by simp
  qed
next
  case (JStr t)
  show ?case unfolding readable_def
  proof (intro allI impI)
    fix w r s assume w: "w \<in> {w. json_data w}" and rs: "stop r" "stop s" and eq: "render (JStr t) @ r = render w @ s"
    obtain u where u: "w = JStr u" using render_same_kind [OF JStr.prems _ eq] w by auto
    with eq prefix_codeD [OF quoteStr_prefix_code, of t r u s] show "JStr t = w \<and> r = s" by simp
  qed
next
  case JNull
  show ?case unfolding readable_def
  proof (intro allI impI)
    fix w r s assume w: "w \<in> {w. json_data w}" and rs: "stop r" "stop s" and eq: "render JNull @ r = render w @ s"
    have "w = JNull" using render_same_kind [OF JNull _ eq] w by auto
    with eq show "JNull = w \<and> r = s" by simp
  qed
next
  case (JBool b)
  show ?case unfolding readable_def
  proof (intro allI impI)
    fix w r s assume w: "w \<in> {w. json_data w}" and rs: "stop r" "stop s" and eq: "render (JBool b) @ r = render w @ s"
    have "w = JBool b" using render_same_kind [OF JBool _ eq] w by (cases b) auto
    with eq show "JBool b = w \<and> r = s" by simp
  qed
qed simp_all

lemma render_inj: "json_data v \<Longrightarrow> json_data w \<Longrightarrow> render v = render w \<Longrightarrow> v = w"
  using render_readable [of v] unfolding readable_def stop_def
  by (metis append_Nil2 mem_Collect_eq)

lemma canonicalize_json_data: "json_data v \<Longrightarrow> wf_js v \<Longrightarrow> json_data (canonicalize v)"
proof (induction v)
  case (JObj kvs)
  then show ?case
    by (auto simp: canonicalize_JObj list_all_iff snds.simps simp del: canonicalize.simps)
qed (auto simp: list_all_iff)

lemma canonicalJSON_inj:
  assumes "json_data v" "wf_js v" "json_data w" "wf_js w"
  shows "canonicalJSONStringify v = canonicalJSONStringify w \<longleftrightarrow> canonicalize v = canonicalize w"
  using assms canonicalize_json_data jsonStringify_render render_inj
  unfolding canonicalJSONStringify_def by (metis option.inject)

section \<open>The key check\<close>

primrec safe_keys :: "jsval \<Rightarrow> bool" where
  "safe_keys JUndef = True"
| "safe_keys JNull = True"
| "safe_keys (JBool b) = True"
| "safe_keys (JNum n) = True"
| "safe_keys (JStr s) = True"
| "safe_keys (JBytes bs) = True"
| "safe_keys (JArr xs) = list_all id (map safe_keys xs)"
| "safe_keys (JObj kvs) = list_all (\<lambda>p. \<not> isDangerousJsonKey (fst p) \<and> snd p) (map (map_prod id safe_keys) kvs)"

lemma pushMembers_Inl:
  "pushMembers path kvs stack = Inl e \<Longrightarrow> \<exists>p\<in>set kvs. isDangerousJsonKey (fst p) \<and> e = UnsafeJsonKey (fst p) path"
  by (induction path kvs stack rule: pushMembers.induct) (auto split: if_splits)

lemma list_all_fst_stack: "list_all safe_keys (map fst (pushItems path xs stack)) \<longleftrightarrow> list_all safe_keys xs \<and> list_all safe_keys (map fst stack)"
  by (simp only: pushItems_stack) (auto simp: list_all_iff)

lemma walkKeys_iff: "walkKeys stack = Inr () \<longleftrightarrow> list_all safe_keys (map fst stack)"
proof (induction stack rule: walkKeys.induct)
  case (2 node path stack)
  show ?case
  proof (cases node)
    case (JArr xs)
    with "2.IH"(7) [OF JArr] show ?thesis
      by (simp add: list_all_fst_stack) (simp add: list_all_iff)
  next
    case (JObj kvs)
    show ?thesis
    proof (cases "pushMembers path kvs stack")
      case (Inl e)
      with JObj pushMembers_Inl [OF Inl] show ?thesis by (auto simp: list_all_iff)
    next
      case (Inr stack')
      have "list_all safe_keys (map fst stack') \<longleftrightarrow> list_all safe_keys (map snd kvs) \<and> list_all safe_keys (map fst stack)"
        using pushMembers_stack [OF Inr] by (auto simp: list_all_iff)
      with "2.IH"(8) [OF JObj Inr] JObj Inr pushMembers_stack [OF Inr] show ?thesis
        by (auto simp: list_all_iff)
    qed
  qed (use 2 in auto)
qed simp

lemma assertSafeJsonKeys_iff: "assertSafeJsonKeys v label = Inr w \<longleftrightarrow> w = v \<and> safe_keys v"
  using walkKeys_iff [of "[(v, label)]"] by (auto simp: assertSafeJsonKeys_def result_simps)

lemma walkKeys_error: "walkKeys stack = Inl e \<Longrightarrow> \<exists>key path. e = UnsafeJsonKey key path \<and> isDangerousJsonKey key"
proof (induction stack rule: walkKeys.induct)
  case (2 node path stack)
  then show ?case
    by (cases node) (auto split: sum.splits dest: pushMembers_Inl)
qed simp

text \<open>A value that passes the check loses no member to the setter of \<^verbatim>\<open>__proto__\<close>.\<close>

lemma safe_keys_no_proto:
  "safe_keys (JObj kvs) \<Longrightarrow> filter (\<lambda>p. fst p \<noteq> ''__proto__'') kvs = kvs"
  by (rule filter_True) (force simp: list_all_iff isDangerousJsonKey_def DANGEROUS_KEYS_def)

section \<open>Properties of the canonical encoding\<close>

text \<open>The signed text does not depend on the order in which a program built its objects: two values
  with the same data, up to the order of members at every depth, have the same canonical text.\<close>

theorem canonical_text_order_independent:
  assumes "same_data v w"
  shows "canonicalJSONStringify v = canonicalJSONStringify w"
  using same_data_canonicalize [OF assms] by (simp add: canonicalJSONStringify_def)

theorem canonical_text_order_independent_witness:
  "canonicalJSONStringify (JObj [(''b'', JInt 1), (''10'', JNull), (''a'', JStr ''x'')])
     = canonicalJSONStringify (JObj [(''a'', JStr ''x''), (''b'', JInt 1), (''10'', JNull)])"
proof (rule canonical_text_order_independent)
  have "list_all2 (rel_prod (=) same_data) xs xs" for xs :: "(string \<times> jsval) list"
    by (intro list.rel_refl prod.rel_refl) (auto intro: same_refl)
  then show "same_data (JObj [(''b'', JInt 1), (''10'', JNull), (''a'', JStr ''x'')])
      (JObj [(''a'', JStr ''x''), (''b'', JInt 1), (''10'', JNull)])"
    by (rule same_obj) auto
qed



text \<open>The walk over untrusted JSON ends on every value, and passes a value unchanged exactly when no
  object at any depth has a member named \<^verbatim>\<open>__proto__\<close>, \<^verbatim>\<open>constructor\<close> or \<^verbatim>\<open>prototype\<close>.\<close>

theorem assertSafeJsonKeys_exact:
  "(assertSafeJsonKeys v label = Inr w \<longleftrightarrow> w = v \<and> safe_keys v)
   \<and> (safe_keys v \<or> (\<exists>key path. assertSafeJsonKeys v label = Inl (UnsafeJsonKey key path) \<and> isDangerousJsonKey key))"
proof (cases "walkKeys [(v, label)]")
  case (Inl e)
  with walkKeys_error [OF Inl] walkKeys_iff [of "[(v, label)]"] show ?thesis
    by (auto simp: assertSafeJsonKeys_def result_simps isOk_iff)
next
  case (Inr u)
  with walkKeys_iff [of "[(v, label)]"] show ?thesis
    by (auto simp: assertSafeJsonKeys_def result_simps isOk_iff)
qed

text \<open>Canonicalisation is a normal form: applying it again changes nothing, so a payload that is
  canonicalised by the signer and again by the verifier is the same payload.\<close>

theorem canonicalize_idempotent:
  assumes "wf_js v"
  shows "canonicalize (canonicalize v) = canonicalize v"
  using assms by (rule canonicalize_idem_aux)

theorem canonicalize_idempotent_witness:
  "canonicalize (canonicalize (JObj [(''b'', JArr [JObj [(''z'', JNull), (''2'', JNull)]]), (''a'', JInt 3)]))
     = canonicalize (JObj [(''b'', JArr [JObj [(''z'', JNull), (''2'', JNull)]]), (''a'', JInt 3)])"
  by (rule canonicalize_idempotent) simp

end
