(* ===== verification/Crypto_Provider.thy ===== *)
theory Crypto_Provider
  imports Canonical_Json
begin

text \<open>
  The cryptographic provider (\<^verbatim>\<open>src/crypto/RCryptoProvider.js\<close>) is an abstract class; its implementations
  (WebCrypto, native libraries) are not part of the repository. It is a parameter of the model: a record of
  functions that either return a value or throw. What the library relies on is stated as predicates on
  such a record, and the key schedules built on it (\<^verbatim>\<open>src/crypto/ratchet\<close>, \<^verbatim>\<open>src/crypto/aead\<close>,
  \<^verbatim>\<open>src/crypto/sessions\<close>) are translated here. Random key pairs are arguments of the operations that draw them.
\<close>

section \<open>The provider\<close>

record key_pair =
  publicKey :: bytes
  privateKey :: bytes

record crypto_provider =
  hashSha256 :: "bytes \<Rightarrow> bytes result"
  hkdfSha256 :: "bytes \<Rightarrow> bytes \<Rightarrow> bytes \<Rightarrow> nat \<Rightarrow> bytes result"
  aeadEncrypt :: "bytes \<Rightarrow> bytes \<Rightarrow> bytes \<Rightarrow> bytes \<Rightarrow> bytes result"
  aeadDecrypt :: "bytes \<Rightarrow> bytes \<Rightarrow> bytes \<Rightarrow> bytes \<Rightarrow> bytes result"
  sign :: "bytes \<Rightarrow> bytes \<Rightarrow> bytes result"
  verify :: "bytes \<Rightarrow> bytes \<Rightarrow> bytes \<Rightarrow> bool result"
  dhDerive :: "bytes \<Rightarrow> bytes \<Rightarrow> string \<Rightarrow> string \<Rightarrow> bytes result"

text \<open>
  Argument orders: \<^verbatim>\<open>hkdfSha256 ikm salt info length\<close>, \<^verbatim>\<open>aeadEncrypt key nonce plaintext aad\<close>,
  \<^verbatim>\<open>aeadDecrypt key nonce ciphertext aad\<close>, \<^verbatim>\<open>sign privateKey msg\<close>, \<^verbatim>\<open>verify publicKey msg sig\<close>,
  \<^verbatim>\<open>dhDerive privateKey publicKey alg fmt\<close>.
\<close>

section \<open>What callers rely on\<close>

text \<open>HKDF returns as many bytes as asked for, SHA-256 returns 32.\<close>

definition hkdf_lawful :: "crypto_provider \<Rightarrow> bool" where
  "hkdf_lawful c \<longleftrightarrow> (\<forall>ikm salt info n. \<exists>out. hkdfSha256 c ikm salt info n = Inr out \<and> length out = n)"

definition hash_lawful :: "crypto_provider \<Rightarrow> bool" where
  "hash_lawful c \<longleftrightarrow> (\<forall>bs. \<exists>h. hashSha256 c bs = Inr h \<and> length h = 32)"

text \<open>Two key pairs agree on a secret, in the formats the callers name.\<close>

definition dh_agree :: "crypto_provider \<Rightarrow> key_pair \<Rightarrow> key_pair \<Rightarrow> bool" where
  "dh_agree c a b \<longleftrightarrow> (\<forall>alg fmt fmt'. dhDerive c (privateKey a) (publicKey b) alg fmt = dhDerive c (privateKey b) (publicKey a) alg fmt')"

text \<open>Authenticated decryption undoes encryption under the same key, nonce and associated data; the
  ciphertext carries the 16-byte tag.\<close>

definition aead_lawful :: "crypto_provider \<Rightarrow> bool" where
  "aead_lawful c \<longleftrightarrow> (\<forall>key nonce pt aad. \<exists>ct. aeadEncrypt c key nonce pt aad = Inr ct \<and> 16 \<le> length ct
     \<and> aeadDecrypt c key nonce ct aad = Inr pt)"

text \<open>A signature made with the private half verifies under the public half.\<close>

definition sign_lawful :: "crypto_provider \<Rightarrow> key_pair \<Rightarrow> bool" where
  "sign_lawful c kp \<longleftrightarrow> (\<forall>msg. \<exists>sig. sign c (privateKey kp) msg = Inr sig \<and> verify c (publicKey kp) msg sig = Inr True)"

section \<open>Key schedules\<close>

definition KDF_CHAIN_INFO :: bytes where
  "KDF_CHAIN_INFO = utf8Encode ''rez-ratchet-chain-v1''"

definition KDF_ROOT_INFO :: bytes where
  "KDF_ROOT_INFO = utf8Encode ''rez-ratchet-root-v1''"

definition subarray :: "nat \<Rightarrow> nat \<Rightarrow> bytes \<Rightarrow> bytes" where
  "subarray i j bs = take (j - i) (drop i bs)"

definition deriveMessageKey :: "crypto_provider \<Rightarrow> bytes \<Rightarrow> (bytes \<times> bytes) result" where
  "deriveMessageKey c chainKey =
     bindR (hkdfSha256 c chainKey [] KDF_CHAIN_INFO 64)
       (\<lambda>out. Inr (subarray 0 32 out, subarray 32 64 out))"

definition deriveRootKey :: "crypto_provider \<Rightarrow> bytes \<Rightarrow> bytes \<Rightarrow> (bytes \<times> bytes \<times> bytes) result" where
  "deriveRootKey c rootKey dhSecret =
     bindR (hkdfSha256 c dhSecret rootKey KDF_ROOT_INFO 96)
       (\<lambda>out. Inr (subarray 0 32 out, subarray 32 64 out, subarray 64 96 out))"

definition deriveSessionIdV1 :: "crypto_provider \<Rightarrow> bytes \<Rightarrow> bytes result" where
  "deriveSessionIdV1 c sharedSecret = hashSha256 c sharedSecret"

definition AEAD_INFO_LABEL :: bytes where
  "AEAD_INFO_LABEL = utf8Encode ''rez-aead-v1''"

text \<open>\<^verbatim>\<open>value >>> 0\<close> keeps the low 32 bits, so indices wrap modulo \<open>2 ^ 32\<close> in the derivation input.\<close>

definition u32be :: "int \<Rightarrow> bytes" where
  "u32be i = (let w = (word_of_int i :: u32) in map (\<lambda>k. ucast (drop_bit k w AND 255)) [24, 16, 8, 0])"

definition deriveAeadKeyNonceV1 ::
  "crypto_provider \<Rightarrow> bytes \<Rightarrow> bytes \<Rightarrow> int \<Rightarrow> int \<Rightarrow> bytes option \<Rightarrow> (bytes \<times> bytes) result" where
  "deriveAeadKeyNonceV1 c messageKey sid pn n dh =
     (if pn < 0 \<or> n < 0 then Inl (Error ''deriveAeadKeyNonceV1 requires pn/n >= 0'')
      else bindR (case dh of Some d \<Rightarrow> hashSha256 c d | None \<Rightarrow> Inr (replicate 32 0))
        (\<lambda>dhHash. bindR (hkdfSha256 c messageKey [] (AEAD_INFO_LABEL @ sid @ u32be pn @ u32be n @ dhHash) 44)
           (\<lambda>out. Inr (subarray 0 32 out, subarray 32 44 out))))"

definition encryptAes256Gcm :: "crypto_provider \<Rightarrow> bytes \<Rightarrow> bytes \<Rightarrow> bytes \<Rightarrow> bytes \<Rightarrow> bytes result" where
  "encryptAes256Gcm c key nonce plaintext aad =
     (if length key \<noteq> 32 then Inl (Error ''encryptAes256Gcm requires 32-byte key'')
      else if length nonce \<noteq> 12 then Inl (Error ''encryptAes256Gcm requires 12-byte nonce'')
      else aeadEncrypt c key nonce plaintext aad)"

definition decryptAes256Gcm :: "crypto_provider \<Rightarrow> bytes \<Rightarrow> bytes \<Rightarrow> bytes \<Rightarrow> bytes \<Rightarrow> bytes result" where
  "decryptAes256Gcm c key nonce ct aad =
     (if length key \<noteq> 32 then Inl (Error ''decryptAes256Gcm requires 32-byte key'')
      else if length nonce \<noteq> 12 then Inl (Error ''decryptAes256Gcm requires 12-byte nonce'')
      else if length ct < 16 then Inl (Error ''decryptAes256Gcm requires ciphertext+tag'')
      else aeadDecrypt c key nonce ct aad)"

section \<open>Facts about the key schedules\<close>

lemma length_subarray [simp]: "length (subarray i j bs) = min (j - i) (length bs - i)"
  by (simp add: subarray_def min_def)

lemma deriveMessageKey_total:
  assumes "hkdf_lawful c"
  obtains mk ck where "deriveMessageKey c k = Inr (mk, ck)" "length mk = 32" "length ck = 32"
proof -
  obtain out where "hkdfSha256 c k [] KDF_CHAIN_INFO 64 = Inr out" "length out = 64"
    using assms unfolding hkdf_lawful_def by blast
  then show ?thesis
    by (intro that [of "subarray 0 32 out" "subarray 32 64 out"]) (simp_all add: deriveMessageKey_def result_simps)
qed

lemma deriveRootKey_total:
  assumes "hkdf_lawful c"
  obtains rk sk ck where "deriveRootKey c r d = Inr (rk, sk, ck)"
proof -
  obtain out where "hkdfSha256 c d r KDF_ROOT_INFO 96 = Inr out"
    using assms unfolding hkdf_lawful_def by blast
  then show ?thesis by (intro that) (simp add: deriveRootKey_def result_simps)
qed

lemma deriveAeadKeyNonceV1_total:
  assumes "hkdf_lawful c" "hash_lawful c" "0 \<le> pn" "0 \<le> n"
  obtains key nonce where "deriveAeadKeyNonceV1 c mk sid pn n dh = Inr (key, nonce)" "length key = 32" "length nonce = 12"
proof -
  obtain h where h: "(case dh of Some d \<Rightarrow> hashSha256 c d | None \<Rightarrow> Inr (replicate 32 0)) = Inr h"
    using assms(2) unfolding hash_lawful_def by (cases dh) (simp, metis option.simps(5))
  obtain out where "hkdfSha256 c mk [] (AEAD_INFO_LABEL @ sid @ u32be pn @ u32be n @ h) 44 = Inr out" "length out = 44"
    using assms(1) unfolding hkdf_lawful_def by blast
  with h assms(3,4) show ?thesis
    by (intro that [of "subarray 0 32 out" "subarray 32 44 out"]) (simp_all add: deriveAeadKeyNonceV1_def result_simps)
qed

lemma length_u32be [simp]: "length (u32be i) = 4"
  by (simp add: u32be_def Let_def)

text \<open>Within 32 bits the four octets determine the index, so no two message indices below \<open>2 ^ 32\<close> share
  a derivation input.\<close>

lemma u32be_inj:
  assumes "u32be i = u32be j" "0 \<le> i" "i < 2 ^ 32" "0 \<le> j" "j < 2 ^ 32"
  shows "i = j"
proof -
  define v w where "v = (word_of_int i :: u32)" and "w = (word_of_int j :: u32)"
  have "\<forall>k\<in>set [24, 16, 8, 0]. (ucast (drop_bit k v AND 255) :: byte) = ucast (drop_bit k w AND 255)"
    using assms(1) by (simp add: u32be_def Let_def v_def w_def)
  then have oct: "bit (ucast (drop_bit k v AND 255) :: byte) m = bit (ucast (drop_bit k w AND 255) :: byte) m"
    if "k \<in> {24, 16, 8, 0}" for k m using that by auto
  have "bit v p = bit w p" if "p < 32" for p
  proof -
    define k where "k = 8 * (p div 8)"
    have k: "k \<in> {24, 16, 8, 0}" using that unfolding k_def by auto
    have p: "p = k + p mod 8" by (simp add: k_def)
    have "bit v (k + p mod 8) = bit w (k + p mod 8)"
      using oct [OF k, of "p mod 8"] by (simp add: word_bit_simps bit_ucast_iff bit_drop_bit_eq bit_take_bit_iff)
    then show ?thesis by (simp flip: p)
  qed
  then have "v = w" by (intro bit_word_eqI) simp
  then have "uint v = uint w" by simp
  then show ?thesis using assms(2-5) by (simp add: v_def w_def uint_word_of_int take_bit_eq_mod)
qed

section \<open>A concrete provider\<close>

text \<open>A provider that satisfies all the laws, on which the witnesses evaluate: sums of bytes for the hash and the
  derivations, a public key equal to the private key, a signature that shows the key and the message, and a
  cipher that appends a tag of zeros.\<close>

definition demo_crypto :: crypto_provider where
  "demo_crypto = \<lparr>hashSha256 = (\<lambda>bs. Inr (replicate 32 (sum_list bs))),
     hkdfSha256 = (\<lambda>ikm salt info n. Inr (map (\<lambda>i. of_nat i + sum_list ikm + sum_list salt) [0..<n])),
     aeadEncrypt = (\<lambda>key nonce pt aad. Inr (pt @ replicate 16 0)),
     aeadDecrypt = (\<lambda>key nonce ct aad. Inr (take (length ct - 16) ct)),
     sign = (\<lambda>sk msg. Inr (sk @ msg)),
     verify = (\<lambda>pk msg sg. Inr (sg = pk @ msg)),
     dhDerive = (\<lambda>sk pk alg fmt. Inr (1 # replicate 31 (sum_list sk + sum_list pk)))\<rparr>"

definition demo_keys :: "byte \<Rightarrow> key_pair" where
  "demo_keys b = \<lparr>publicKey = replicate 32 b, privateKey = replicate 32 b\<rparr>"

lemma demo_simps [simp]:
  "publicKey (demo_keys b) = replicate 32 b" "privateKey (demo_keys b) = replicate 32 b"
  "dhDerive demo_crypto sk pk alg fmt = Inr (1 # replicate 31 (sum_list sk + sum_list pk))"
  "verify demo_crypto pk msg sg = Inr (sg = pk @ msg)" "sign demo_crypto sk msg = Inr (sk @ msg)"
  by (simp_all add: demo_keys_def demo_crypto_def)

lemma demo_lawful [simp]:
  "hkdf_lawful demo_crypto" "hash_lawful demo_crypto" "aead_lawful demo_crypto"
  "sign_lawful demo_crypto (demo_keys a)" "dh_agree demo_crypto (demo_keys a) (demo_keys b)"
  by (simp_all add: hkdf_lawful_def hash_lawful_def aead_lawful_def sign_lawful_def dh_agree_def demo_crypto_def demo_keys_def add.commute)

end
