(* ===== verification/Skipped_Keys.thy ===== *)
theory Skipped_Keys
  imports Crypto_Provider
begin

text \<open>
  The store of message keys for messages that have not arrived yet
  (\<^verbatim>\<open>src/objects/ratchet/SkippedKeyStore.js\<close>): an array of entries searched from the front and a
  byte counter kept beside it. The store implements a map from lookup keys to message keys, and its
  counter is the sum of the stored lengths after every operation.
\<close>

section \<open>The store\<close>

record SkippedKeyStore =
  entries :: "(string \<times> bytes) list"
  totalBytes :: int

definition computeTotalBytes :: "(string \<times> bytes) list \<Rightarrow> int" where
  "computeTotalBytes es = foldl (\<lambda>total e. total + int (length (snd e))) 0 es"

definition newSkippedKeyStore :: "(string \<times> bytes) list \<Rightarrow> SkippedKeyStore result" where
  "newSkippedKeyStore es =
     (if list_ex (\<lambda>e. fst e = []) es then Inl (Error ''SkippedKeyStore.entries.k must be a non-empty string'')
      else Inr \<lparr>entries = es, totalBytes = computeTotalBytes es\<rparr>)"

definition emptySkippedKeyStore :: SkippedKeyStore where
  "emptySkippedKeyStore = \<lparr>entries = [], totalBytes = 0\<rparr>"

definition skipped_get :: "SkippedKeyStore \<Rightarrow> string \<Rightarrow> bytes option" where
  "skipped_get st key = map_option snd (List.find (\<lambda>e. fst e = key) (entries st))"

text \<open>\<^verbatim>\<open>entries.findIndex\<close>, with \<open>None\<close> for the index \<open>-1\<close>.\<close>

fun findIndex :: "string \<Rightarrow> (string \<times> bytes) list \<Rightarrow> nat option" where
  "findIndex key [] = None"
| "findIndex key (e # es) = (if fst e = key then Some 0 else map_option Suc (findIndex key es))"

definition skipped_put :: "SkippedKeyStore \<Rightarrow> string \<Rightarrow> bytes \<Rightarrow> SkippedKeyStore" where
  "skipped_put st key mk =
     (case findIndex key (entries st) of
        Some idx \<Rightarrow> st\<lparr>entries := (entries st)[idx := (key, mk)],
                      totalBytes := totalBytes st + (int (length mk) - int (length (snd (entries st ! idx))))\<rparr>
      | None \<Rightarrow> st\<lparr>entries := entries st @ [(key, mk)], totalBytes := totalBytes st + int (length mk)\<rparr>)"

definition skipped_set :: "SkippedKeyStore \<Rightarrow> string \<Rightarrow> bytes \<Rightarrow> SkippedKeyStore result" where
  "skipped_set st key mk =
     (if key = [] then Inl (Error ''SkippedKeyStore.set requires non-empty key'')
      else Inr (skipped_put st key mk))"

definition skipped_delete :: "SkippedKeyStore \<Rightarrow> string \<Rightarrow> SkippedKeyStore \<times> bool" where
  "skipped_delete st key =
     (case findIndex key (entries st) of
        None \<Rightarrow> (st, False)
      | Some idx \<Rightarrow> (st\<lparr>entries := take idx (entries st) @ drop (Suc idx) (entries st),
                       totalBytes := totalBytes st - int (length (snd (entries st ! idx)))\<rparr>, True))"

definition skipped_size :: "SkippedKeyStore \<Rightarrow> nat" where
  "skipped_size st = length (entries st)"

section \<open>The store is a map with an exact counter\<close>

definition skipped_wf :: "SkippedKeyStore \<Rightarrow> bool" where
  "skipped_wf st \<longleftrightarrow> distinct (map fst (entries st)) \<and> totalBytes st = (\<Sum>e\<leftarrow>entries st. int (length (snd e)))"

lemma computeTotalBytes_sum: "computeTotalBytes es = (\<Sum>e\<leftarrow>es. int (length (snd e)))"
proof -
  have "foldl (\<lambda>total e. total + int (length (snd e))) a es = a + (\<Sum>e\<leftarrow>es. int (length (snd e)))" for a
    by (induction es arbitrary: a) simp_all
  then show ?thesis by (simp add: computeTotalBytes_def)
qed

lemma find_map_of: "map_option snd (List.find (\<lambda>e. fst e = key) es) = map_of es key"
  by (induction es) auto

lemma skipped_get_map_of: "skipped_get st = map_of (entries st)"
  by (rule ext) (simp add: skipped_get_def find_map_of)

lemma findIndex_None: "findIndex key es = None \<longleftrightarrow> key \<notin> fst ` set es"
  by (induction es) auto

lemma findIndex_Some:
  "findIndex key es = Some i \<Longrightarrow> i < length es \<and> fst (es ! i) = key
     \<and> es[i := (key, mk)] = AList.update key mk es \<and> (distinct (map fst es) \<longrightarrow> take i es @ drop (Suc i) es = AList.delete key es)"
proof (induction es arbitrary: i)
  case (Cons e es)
  show ?case
  proof (cases "fst e = key")
    case True
    then show ?thesis using Cons.prems by (cases e) (auto simp: delete_id)
  next
    case False
    then show ?thesis using Cons by (cases e) auto
  qed
qed simp

lemma update_notin: "key \<notin> fst ` set es \<Longrightarrow> AList.update key mk es = es @ [(key, mk)]"
  by (induction es) auto

lemma entries_put: "entries (skipped_put st key mk) = AList.update key mk (entries st)"
  using findIndex_Some [of key "entries st"] findIndex_None [of key "entries st"]
  by (cases "findIndex key (entries st)") (auto simp: skipped_put_def update_notin)

lemma entries_delete: "distinct (map fst (entries st)) \<Longrightarrow> entries (fst (skipped_delete st key)) = AList.delete key (entries st)"
  using findIndex_Some [of key "entries st"] findIndex_None [of key "entries st"]
  by (cases "findIndex key (entries st)") (auto simp: skipped_delete_def)

lemma skipped_wf_put: "skipped_wf st \<Longrightarrow> skipped_wf (skipped_put st key mk)"
proof (cases "findIndex key (entries st)")
  case None
  then show "skipped_wf st \<Longrightarrow> ?thesis"
    using findIndex_None [of key "entries st"] by (auto simp: skipped_wf_def skipped_put_def)
next
  case (Some i)
  assume wf: "skipped_wf st"
  then have d: "distinct (map fst (entries (skipped_put st key mk)))"
    by (simp add: entries_put skipped_wf_def distinct_update)
  have i: "i < length (entries st)" using findIndex_Some [OF Some] by simp
  have "(\<Sum>e\<leftarrow>(entries st)[i := (key, mk)]. int (length (snd e)))
      = (\<Sum>e\<leftarrow>entries st. int (length (snd e))) + int (length mk) - int (length (snd (entries st ! i)))"
    using arg_cong [OF id_take_nth_drop [OF i], of "\<lambda>es. \<Sum>e\<leftarrow>es. int (length (snd e))"]
    by (simp add: upd_conv_take_nth_drop [OF i])
  with wf Some have "totalBytes (skipped_put st key mk) = (\<Sum>e\<leftarrow>entries (skipped_put st key mk). int (length (snd e)))"
    by (simp add: skipped_put_def skipped_wf_def)
  with d show ?thesis unfolding skipped_wf_def by blast
qed

lemma skipped_wf_delete: "skipped_wf st \<Longrightarrow> skipped_wf (fst (skipped_delete st key))"
proof (cases "findIndex key (entries st)")
  case (Some i)
  assume wf: "skipped_wf st"
  then have d: "distinct (map fst (entries (fst (skipped_delete st key))))"
    by (simp add: entries_delete skipped_wf_def distinct_delete)
  have i: "i < length (entries st)" using findIndex_Some [OF Some] by simp
  have "(\<Sum>e\<leftarrow>entries st. int (length (snd e)))
      = (\<Sum>e\<leftarrow>take i (entries st) @ entries st ! i # drop (Suc i) (entries st). int (length (snd e)))"
    using id_take_nth_drop [OF i] by simp
  with wf Some have "totalBytes (fst (skipped_delete st key)) = (\<Sum>e\<leftarrow>entries (fst (skipped_delete st key)). int (length (snd e)))"
    by (simp add: skipped_delete_def skipped_wf_def)
  with d show ?thesis unfolding skipped_wf_def by blast
qed (simp add: skipped_delete_def)

lemma skipped_wf_new: "newSkippedKeyStore es = Inr st \<Longrightarrow> distinct (map fst es) \<Longrightarrow> skipped_wf st"
  by (auto simp: newSkippedKeyStore_def skipped_wf_def computeTotalBytes_sum split: if_splits)

lemma skipped_wf_empty [simp]: "skipped_wf emptySkippedKeyStore"
  by (simp add: skipped_wf_def emptySkippedKeyStore_def)

lemma skipped_wfD: "skipped_wf st \<Longrightarrow> distinct (map fst (entries st))"
  by (simp add: skipped_wf_def)

text \<open>The array refines the map interface of the prelude.\<close>

interpretation skipped: keyed_store skipped_get "\<lambda>key mk st. skipped_put st key mk" "\<lambda>key st. fst (skipped_delete st key)" skipped_wf
  by unfold_locales
     (auto simp: skipped_get_map_of entries_put entries_delete update_conv' delete_conv' skipped_wf_put skipped_wf_delete
        dest: skipped_wfD)

lemma skipped_size_put:
  "skipped_size (skipped_put st key mk) = skipped_size st + (if skipped_get st key = None then 1 else 0)"
  by (auto simp: skipped_size_def skipped_put_def skipped_get_map_of findIndex_None map_of_eq_None_iff split: option.splits
      dest: findIndex_Some)

lemma skipped_size_delete: "skipped_size (fst (skipped_delete st key)) \<le> skipped_size st"
  by (auto simp: skipped_size_def skipped_delete_def split: option.splits)

lemma skipped_bytes_delete: "totalBytes (fst (skipped_delete st key)) \<le> totalBytes st"
  by (auto simp: skipped_delete_def split: option.splits)

lemma totalBytes_put_new: "skipped_get st key = None \<Longrightarrow> totalBytes (skipped_put st key mk) = totalBytes st + int (length mk)"
  by (auto simp: skipped_put_def skipped_get_map_of map_of_eq_None_iff simp flip: findIndex_None)

section \<open>Persistence\<close>

text \<open>\<^verbatim>\<open>Array.from(bytes)\<close> and back. \<^verbatim>\<open>new Uint8Array(array)\<close> converts every element to a number and keeps it
  modulo 256; what is not a number becomes 0. Strings are read as decimal integers.\<close>

definition stringNumber :: "string \<Rightarrow> jsnum" where
  "stringNumber s = (let t = trim s in
     if t = [] then NInt 0
     else if list_all isDigit t then NInt (int (digitsVal t))
     else if hd t = CHR ''-'' \<and> tl t \<noteq> [] \<and> list_all isDigit (tl t) then NInt (- int (digitsVal (tl t)))
     else if hd t = CHR ''+'' \<and> tl t \<noteq> [] \<and> list_all isDigit (tl t) then NInt (int (digitsVal (tl t)))
     else NNaN)"

fun elementNumber :: "jsval \<Rightarrow> jsnum" where
  "elementNumber JUndef = NNaN"
| "elementNumber JNull = NInt 0"
| "elementNumber (JBool b) = NInt (if b then 1 else 0)"
| "elementNumber (JNum n) = n"
| "elementNumber v = stringNumber (toStr v)"

fun numByte :: "jsnum \<Rightarrow> byte" where
  "numByte (NInt i) = word_of_int i"
| "numByte _ = 0"

definition arrayFrom :: "bytes \<Rightarrow> jsval" where
  "arrayFrom bs = JArr (map (\<lambda>b. JInt (uint b)) bs)"

definition toBytes :: "string \<Rightarrow> string \<Rightarrow> jsval \<Rightarrow> bytes result" where
  "toBytes owner label v =
     (case v of
        JBytes bs \<Rightarrow> Inr bs
      | JArr xs \<Rightarrow> Inr (map (numByte \<circ> elementNumber) xs)
      | _ \<Rightarrow> Inl (Error (owner @ ''.'' @ label @ '' must be Uint8Array'')))"

lemma toBytes_arrayFrom [simp]: "toBytes owner label (arrayFrom bs) = Inr bs"
  by (simp add: toBytes_def arrayFrom_def o_def)

definition skipped_toJSON :: "SkippedKeyStore \<Rightarrow> jsval" where
  "skipped_toJSON st = JObj [(''entries'', JArr (map (\<lambda>e. JObj [(''k'', JStr (fst e)), (''mk'', arrayFrom (snd e))]) (entries st))),
                             (''totalBytes'', JInt (totalBytes st))]"

definition skipped_entryFromJSON :: "jsval \<Rightarrow> (jsval \<times> bytes) result" where
  "skipped_entryFromJSON e =
     bindR (readProp e ''k'') (\<lambda>k. bindR (toBytes ''SkippedKeyStore'' ''entries.mk'' (getProp e ''mk'')) (\<lambda>mk. Inr (k, mk)))"

fun skipped_checkKey :: "jsval \<times> bytes \<Rightarrow> (string \<times> bytes) result" where
  "skipped_checkKey (JStr k, mk) =
     (if k = [] then Inl (Error ''SkippedKeyStore.entries.k must be a non-empty string'') else Inr (k, mk))"
| "skipped_checkKey (_, mk) = Inl (Error ''SkippedKeyStore.entries.k must be a non-empty string'')"

definition skipped_fromJSON :: "jsval \<Rightarrow> SkippedKeyStore result" where
  "skipped_fromJSON json =
     (if \<not> truthy json \<or> \<not> typeofObject json then Inl (Error ''SkippedKeyStore.fromJSON(json) requires object'')
      else bindR (mapR skipped_entryFromJSON (case getProp json ''entries'' of JArr es \<Rightarrow> es | _ \<Rightarrow> []))
        (\<lambda>es. bindR (mapR skipped_checkKey es) newSkippedKeyStore))"

lemma mapR_map: "mapR f (map g xs) = mapR (f \<circ> g) xs"
  by (induction xs) (simp_all add: result_simps)

lemma skipped_roundtrip:
  assumes "skipped_wf st" "\<forall>e\<in>set (entries st). fst e \<noteq> []"
  shows "skipped_fromJSON (skipped_toJSON st) = Inr st"
proof -
  have "mapR skipped_entryFromJSON (map (\<lambda>e. JObj [(''k'', JStr (fst e)), (''mk'', arrayFrom (snd e))]) (entries st))
      = Inr (map (\<lambda>e. (JStr (fst e), snd e)) (entries st))"
    unfolding mapR_map by (rule mapR_all_Inr) (simp add: skipped_entryFromJSON_def readProp_def result_simps)
  moreover have "mapR skipped_checkKey (map (\<lambda>e. (JStr (fst e), snd e)) (entries st)) = Inr (entries st)"
    unfolding mapR_map using assms(2) by (subst mapR_all_Inr [where g = id]) auto
  moreover have "newSkippedKeyStore (entries st) = Inr st"
    using assms by (auto simp: newSkippedKeyStore_def list_ex_iff skipped_wf_def computeTotalBytes_sum)
  ultimately show ?thesis by (simp add: skipped_fromJSON_def skipped_toJSON_def result_simps)
qed

end
