(* ===== verification/Ratchet.thy ===== *)
theory Ratchet
  imports Skipped_Keys
begin

text \<open>
  The double ratchet (\<^verbatim>\<open>src/objects/ratchet\<close>, \<^verbatim>\<open>src/services/RatchetService.js\<close>): chain states, the
  session's ratchet state, the Diffie-Hellman step and the derivation of sending and receiving message
  keys. The store of skipped keys is one mutable object shared by a state and its successors, so the
  receiving operation returns the store it leaves behind beside its result, also when it throws.
\<close>

section \<open>State\<close>

record RatchetChainState =
  chainKey :: bytes
  messageIndex :: int

record RatchetState =
  rootKey :: bytes
  sendingChain :: "RatchetChainState option"
  receivingChain :: "RatchetChainState option"
  selfDhKeyPair :: key_pair
  remoteDhPublicKey :: bytes
  skipped :: SkippedKeyStore
  maxSkip :: int
  maxSkippedKeys :: int
  maxSkippedBytes :: int

definition DEFAULT_MAX_SKIP :: int where "DEFAULT_MAX_SKIP = 200"
definition DEFAULT_MAX_SKIPPED_KEYS :: int where "DEFAULT_MAX_SKIPPED_KEYS = 500"
definition DEFAULT_MAX_SKIPPED_BYTES :: int where "DEFAULT_MAX_SKIPPED_BYTES = 64 * 1024"

text \<open>The fields of \<^verbatim>\<open>RatchetHeaderV1\<close>.\<close>

record RatchetHeaderV1 =
  hdr_sid :: bytes
  hdr_dh :: "bytes option"
  hdr_dhAlg :: string
  hdr_dhFmt :: string
  hdr_pn :: int
  hdr_n :: int

section \<open>Comparing byte strings\<close>

fun compareBytes :: "bytes \<Rightarrow> bytes \<Rightarrow> int" where
  "compareBytes (x # xs) (y # ys) = (if x \<noteq> y then uint x - uint y else compareBytes xs ys)"
| "compareBytes xs ys = int (length xs) - int (length ys)"

definition bytesEqual :: "bytes \<Rightarrow> bytes \<Rightarrow> bool" where
  "bytesEqual a b \<longleftrightarrow> length a = length b \<and> foldl (\<lambda>diff (x, y). diff OR (x XOR y)) 0 (zip a b) = 0"

section \<open>Operations\<close>

definition initializeAsInitiator :: "bytes \<Rightarrow> key_pair \<Rightarrow> bytes \<Rightarrow> RatchetState" where
  "initializeAsInitiator sharedSecret self remote =
     \<lparr>rootKey = sharedSecret, sendingChain = Some \<lparr>chainKey = sharedSecret, messageIndex = 0\<rparr>, receivingChain = None,
      selfDhKeyPair = self, remoteDhPublicKey = remote, skipped = emptySkippedKeyStore,
      maxSkip = DEFAULT_MAX_SKIP, maxSkippedKeys = DEFAULT_MAX_SKIPPED_KEYS, maxSkippedBytes = DEFAULT_MAX_SKIPPED_BYTES\<rparr>"

definition initializeAsResponder :: "bytes \<Rightarrow> key_pair \<Rightarrow> bytes \<Rightarrow> RatchetState" where
  "initializeAsResponder sharedSecret self remote =
     \<lparr>rootKey = sharedSecret, sendingChain = None, receivingChain = Some \<lparr>chainKey = sharedSecret, messageIndex = 0\<rparr>,
      selfDhKeyPair = self, remoteDhPublicKey = remote, skipped = emptySkippedKeyStore,
      maxSkip = DEFAULT_MAX_SKIP, maxSkippedKeys = DEFAULT_MAX_SKIPPED_KEYS, maxSkippedBytes = DEFAULT_MAX_SKIPPED_BYTES\<rparr>"

definition inferDhFormat :: "bytes \<Rightarrow> string" where
  "inferDhFormat pk = (if length pk = 32 then ''raw'' else ''spki'')"

definition ratchetStep :: "crypto_provider \<Rightarrow> string \<Rightarrow> RatchetState \<Rightarrow> bytes \<Rightarrow> string \<Rightarrow> RatchetState result" where
  "ratchetStep c alg state newRemote establish =
     bindR (dhDerive c (privateKey (selfDhKeyPair state)) newRemote alg (inferDhFormat newRemote)) (\<lambda>dhSecret.
     bindR (deriveRootKey c (rootKey state) dhSecret) (\<lambda>(newRootKey, sendingChainKey, receivingChainKey).
       let ordering = compareBytes (publicKey (selfDhKeyPair state)) newRemote;
           sendKey = (if ordering < 0 then sendingChainKey else receivingChainKey);
           recvKey = (if ordering < 0 then receivingChainKey else sendingChainKey);
           installSending = (establish \<noteq> ''receiving'');
           installReceiving = (establish \<noteq> ''sending'')
       in Inr (state\<lparr>rootKey := newRootKey,
            sendingChain := (if installSending then Some \<lparr>chainKey = sendKey, messageIndex = 0\<rparr> else sendingChain state),
            receivingChain := (if installReceiving then Some \<lparr>chainKey = recvKey, messageIndex = 0\<rparr> else receivingChain state),
            remoteDhPublicKey := newRemote\<rparr>)))"

definition nextSendingMessageKey :: "crypto_provider \<Rightarrow> RatchetState \<Rightarrow> (bytes \<times> RatchetState) result" where
  "nextSendingMessageKey c state =
     (case sendingChain state of
        None \<Rightarrow> Inl (Error ''RatchetService.nextSendingMessageKey requires sendingChain'')
      | Some ch \<Rightarrow> bindR (deriveMessageKey c (chainKey ch)) (\<lambda>(mk, nextChainKey).
          Inr (mk, state\<lparr>sendingChain := Some \<lparr>chainKey = nextChainKey, messageIndex = messageIndex ch + 1\<rparr>\<rparr>)))"

definition nextReceivingMessageKey :: "crypto_provider \<Rightarrow> RatchetState \<Rightarrow> (bytes \<times> RatchetState) result" where
  "nextReceivingMessageKey c state =
     (case receivingChain state of
        None \<Rightarrow> Inl (Error ''RatchetService.nextReceivingMessageKey requires receivingChain'')
      | Some ch \<Rightarrow> bindR (deriveMessageKey c (chainKey ch)) (\<lambda>(mk, nextChainKey).
          Inr (mk, state\<lparr>receivingChain := Some \<lparr>chainKey = nextChainKey, messageIndex = messageIndex ch + 1\<rparr>\<rparr>)))"

definition recvIndex :: "RatchetState \<Rightarrow> int" where
  "recvIndex state = (case receivingChain state of None \<Rightarrow> 0 | Some ch \<Rightarrow> messageIndex ch)"

lemma recvIndex_next: "nextReceivingMessageKey c state = Inr (mk, ns) \<Longrightarrow> recvIndex ns = recvIndex state + 1"
  by (auto simp: nextReceivingMessageKey_def recvIndex_def result_simps split: option.splits sum.splits)

definition lookupKey :: "bytes \<Rightarrow> bytes \<Rightarrow> int \<Rightarrow> string" where
  "lookupKey sid dhHash n = bytesToHex sid @ '':'' @ bytesToHex dhHash @ '':'' @ int_str n"

text \<open>The loop that derives and stores the keys of the messages before \<open>n\<close>. The loop runs over a state whose
  receiving chain is present (the caller checked it), and every round advances its index.\<close>

function skipLoop :: "crypto_provider \<Rightarrow> (int \<Rightarrow> string) \<Rightarrow> int \<Rightarrow> RatchetState \<Rightarrow> SkippedKeyStore \<times> RatchetState result" where
  "skipLoop c key n ws =
     (if recvIndex ws < n then
        (case nextReceivingMessageKey c ws of
           Inl e \<Rightarrow> (skipped ws, Inl e)
         | Inr (mk, ns) \<Rightarrow>
             let nextCount = int (skipped_size (skipped ws)) + 1;
                 nextBytes = totalBytes (skipped ws) + int (length mk)
             in if nextCount > maxSkippedKeys ws
                then (skipped ws, Inl (SkippedKeyStoreLimitExceededError ''maxSkippedKeys'' (maxSkippedKeys ws) nextCount))
                else if nextBytes > maxSkippedBytes ws
                then (skipped ws, Inl (SkippedKeyStoreLimitExceededError ''maxSkippedBytes'' (maxSkippedBytes ws) nextBytes))
                else (case skipped_set (skipped ws) (key (recvIndex ws)) mk of
                        Inl e \<Rightarrow> (skipped ws, Inl e)
                      | Inr st \<Rightarrow> skipLoop c key n (ns\<lparr>skipped := st\<rparr>)))
      else (skipped ws, Inr ws))"
  by pat_completeness auto
termination
  by (relation "measure (\<lambda>(c, key, n, ws). nat (n - recvIndex ws))")
     (auto dest!: recvIndex_next simp: recvIndex_def)

declare skipLoop.simps [simp del]

text \<open>A header with another remote key first establishes the receiving chain of that key.\<close>

definition headerStep :: "crypto_provider \<Rightarrow> string \<Rightarrow> RatchetState \<Rightarrow> RatchetHeaderV1 \<Rightarrow> RatchetState result" where
  "headerStep c alg state header =
     (case hdr_dh header of
        None \<Rightarrow> Inr state
      | Some dh \<Rightarrow> if bytesEqual dh (remoteDhPublicKey state) then Inr state else ratchetStep c alg state dh ''receiving'')"

definition keyFromStoreOrChain ::
  "crypto_provider \<Rightarrow> RatchetState \<Rightarrow> RatchetChainState \<Rightarrow> (int \<Rightarrow> string) \<Rightarrow> int \<Rightarrow> SkippedKeyStore \<times> (bytes \<times> RatchetState \<times> bool) result" where
  "keyFromStoreOrChain c ws ch key n =
     (case skipped_get (skipped ws) (key n) of
        Some existing \<Rightarrow>
          let st = fst (skipped_delete (skipped ws) (key n)) in (st, Inr (existing, ws\<lparr>skipped := st\<rparr>, True))
      | None \<Rightarrow>
          if n < messageIndex ch then (skipped ws, Inl (Error ''SkippedKeyNotFound''))
          else if n - messageIndex ch > maxSkip ws
          then (skipped ws, Inl (SkipLimitExceededError (messageIndex ch) n (maxSkip ws)))
          else (case skipLoop c key n ws of
                  (st, Inl e) \<Rightarrow> (st, Inl e)
                | (st, Inr ws') \<Rightarrow>
                    (case nextReceivingMessageKey c ws' of
                       Inl e \<Rightarrow> (st, Inl e)
                     | Inr (mk, ns) \<Rightarrow> (st, Inr (mk, ns, False)))))"

definition deriveReceivingKeyForHeader ::
  "crypto_provider \<Rightarrow> string \<Rightarrow> RatchetState \<Rightarrow> RatchetHeaderV1 \<Rightarrow> bytes \<Rightarrow> SkippedKeyStore \<times> (bytes \<times> RatchetState \<times> bool) result" where
  "deriveReceivingKeyForHeader c alg state header sid =
     (if hdr_n header < 0
      then (skipped state, Inl (Error ''RatchetService.deriveReceivingKeyForHeader requires header.n >= 0''))
      else case headerStep c alg state header of
        Inl e \<Rightarrow> (skipped state, Inl e)
      | Inr ws \<Rightarrow>
          (case receivingChain ws of
             None \<Rightarrow> (skipped ws, Inl (Error ''RatchetService.deriveReceivingKeyForHeader requires receivingChain''))
           | Some ch \<Rightarrow>
               (case hashSha256 c (remoteDhPublicKey ws) of
                  Inl e \<Rightarrow> (skipped ws, Inl e)
                | Inr dhHash \<Rightarrow> keyFromStoreOrChain c ws ch (lookupKey sid dhHash) (hdr_n header))))"

section \<open>Byte comparison\<close>

lemma compareBytes_swap: "compareBytes b a = - compareBytes a b"
  by (induction a b rule: compareBytes.induct) auto

lemma compareBytes_0 [simp]: "compareBytes a b = 0 \<longleftrightarrow> a = b"
  by (induction a b rule: compareBytes.induct) (auto simp flip: word_uint_eq_iff)

lemma xor_zero_iff: "x XOR y = 0 \<longleftrightarrow> x = (y :: byte)"
  by (metis xor.assoc xor.left_neutral xor_self_eq)

lemma or_zero_iff: "x OR y = 0 \<longleftrightarrow> x = 0 \<and> y = (0 :: byte)"
  by (auto simp: bit_eq_iff bit_or_iff)

lemma diff_accumulates: "foldl (\<lambda>diff (x, y). diff OR (x XOR y)) d ps = 0 \<longleftrightarrow> d = (0 :: byte) \<and> (\<forall>(x, y)\<in>set ps. x = y)"
  by (induction ps arbitrary: d) (auto simp: xor_zero_iff or_zero_iff)

lemma bytesEqual_iff [simp]: "bytesEqual a b \<longleftrightarrow> a = b"
proof
  assume eq: "bytesEqual a b"
  then have "length a = length b" "\<forall>(x, y)\<in>set (zip a b). x = y"
    by (auto simp only: bytesEqual_def diff_accumulates)
  then show "a = b" by (induction a b rule: list_induct2) auto
next
  assume "a = b"
  moreover have "\<forall>(x, y)\<in>set (zip a a). x = y" by (auto simp: zip_same)
  ultimately show "bytesEqual a b" by (simp only: bytesEqual_def diff_accumulates)
qed

section \<open>The symmetric chain\<close>

definition chainNext :: "crypto_provider \<Rightarrow> bytes \<Rightarrow> bytes" where
  "chainNext c ck = (case deriveMessageKey c ck of Inr (mk, ck') \<Rightarrow> ck' | Inl _ \<Rightarrow> [])"

definition chainMk :: "crypto_provider \<Rightarrow> bytes \<Rightarrow> bytes" where
  "chainMk c ck = (case deriveMessageKey c ck of Inr (mk, ck') \<Rightarrow> mk | Inl _ \<Rightarrow> [])"

text \<open>The chain key and the message key of index \<open>i\<close> of the chain that starts at \<open>ck\<close>.\<close>

definition chainAt :: "crypto_provider \<Rightarrow> bytes \<Rightarrow> nat \<Rightarrow> bytes" where
  "chainAt c ck i = (chainNext c ^^ i) ck"

definition keyAt :: "crypto_provider \<Rightarrow> bytes \<Rightarrow> nat \<Rightarrow> bytes" where
  "keyAt c ck i = chainMk c (chainAt c ck i)"

lemma chainAt_0 [simp]: "chainAt c ck 0 = ck"
  by (simp add: chainAt_def)

lemma deriveMessageKey_at:
  assumes "hkdf_lawful c"
  shows "deriveMessageKey c (chainAt c ck i) = Inr (keyAt c ck i, chainAt c ck (Suc i))" "length (keyAt c ck i) = 32"
proof -
  obtain mk ck' where "deriveMessageKey c (chainAt c ck i) = Inr (mk, ck')" "length mk = 32"
    using deriveMessageKey_total [OF assms] by metis
  then show "deriveMessageKey c (chainAt c ck i) = Inr (keyAt c ck i, chainAt c ck (Suc i))" "length (keyAt c ck i) = 32"
    by (simp_all add: keyAt_def chainMk_def chainAt_def chainNext_def)
qed

abbreviation chainState :: "crypto_provider \<Rightarrow> bytes \<Rightarrow> nat \<Rightarrow> RatchetChainState" where
  "chainState c ck i \<equiv> \<lparr>chainKey = chainAt c ck i, messageIndex = int i\<rparr>"

lemma nextReceiving_at:
  assumes "hkdf_lawful c" "receivingChain ws = Some (chainState c ck m)"
  shows "nextReceivingMessageKey c ws = Inr (keyAt c ck m, ws\<lparr>receivingChain := Some (chainState c ck (Suc m))\<rparr>)"
  using assms by (simp add: nextReceivingMessageKey_def deriveMessageKey_at result_simps)

lemma nextSending_at:
  assumes "hkdf_lawful c" "sendingChain ws = Some (chainState c ck m)"
  shows "nextSendingMessageKey c ws = Inr (keyAt c ck m, ws\<lparr>sendingChain := Some (chainState c ck (Suc m))\<rparr>)"
  using assms by (simp add: nextSendingMessageKey_def deriveMessageKey_at result_simps)

section \<open>Lookup keys\<close>

lemma int_str_inj: "int_str i = int_str j \<longleftrightarrow> i = j"
  using parseInt10_int_str by (metis option.inject)

lemma lookupKey_nonempty [simp]: "lookupKey sid h n \<noteq> []"
  by (simp add: lookupKey_def)

lemma lookupKey_index_inj [simp]: "lookupKey sid h n = lookupKey sid h m \<longleftrightarrow> n = m"
  by (simp add: lookupKey_def int_str_inj)

lemma hex_no_colon: "CHR '':'' \<notin> set (bytesToHex bs)"
  using bytesToHex_alphabet by (auto simp: HEX_ALPHABET_def)

text \<open>Keys of different sessions or different remote keys never collide: the parts contain no colon.\<close>

lemma lookupKey_inj: "lookupKey sid h n = lookupKey sid' h' n' \<longleftrightarrow> sid = sid' \<and> h = h' \<and> n = n'"
proof
  assume eq: "lookupKey sid h n = lookupKey sid' h' n'"
  let ?tw = "takeWhile (\<lambda>c. c \<noteq> CHR '':'')"
  have tw: "?tw (bytesToHex x @ CHR '':'' # r) = bytesToHex x" for x r
    using hex_no_colon [of x] by (subst takeWhile_append2) auto
  have e1: "bytesToHex sid = bytesToHex sid'"
    using arg_cong [OF eq, of ?tw] by (simp add: lookupKey_def tw)
  with eq have eq2: "bytesToHex h @ CHR '':'' # int_str n = bytesToHex h' @ CHR '':'' # int_str n'"
    by (simp add: lookupKey_def)
  have e2: "bytesToHex h = bytesToHex h'" using arg_cong [OF eq2, of ?tw] by (simp add: tw)
  with eq2 have "int_str n = int_str n'" by simp
  with e1 e2 show "sid = sid' \<and> h = h' \<and> n = n'" by (simp add: hex.enc_inj int_str_inj)
qed simp

section \<open>Receiving in any order\<close>

text \<open>
  The receiver is in step with the chain that starts at \<open>ck\<close>: it stands at index \<open>m\<close>, the keys of the earlier
  messages that were not delivered are in the store and no other key of this chain is. The store held \<open>s0\<close>
  entries and \<open>b0\<close> bytes of other chains.
\<close>

definition inStep :: "crypto_provider \<Rightarrow> bytes \<Rightarrow> (int \<Rightarrow> string) \<Rightarrow> int \<Rightarrow> int \<Rightarrow> nat set \<Rightarrow> nat \<Rightarrow> RatchetState \<Rightarrow> bool" where
  "inStep c ck key s0 b0 D m ws \<longleftrightarrow>
     receivingChain ws = Some (chainState c ck m) \<and> skipped_wf (skipped ws) \<and> D \<subseteq> {..<m}
     \<and> (\<forall>j. skipped_get (skipped ws) (key (int j)) = (if j < m \<and> j \<notin> D then Some (keyAt c ck j) else None))
     \<and> int (skipped_size (skipped ws)) \<le> s0 + int m \<and> totalBytes (skipped ws) \<le> b0 + 32 * int m"

text \<open>Receiving changes the receiving chain and the store, nothing else.\<close>

definition sameSession :: "RatchetState \<Rightarrow> RatchetState \<Rightarrow> bool" where
  "sameSession ws ws' \<longleftrightarrow> ws'\<lparr>receivingChain := receivingChain ws, skipped := skipped ws\<rparr> = ws"

lemma sameSession_refl [simp]: "sameSession ws ws"
  by (simp add: sameSession_def)

lemma sameSession_fields:
  assumes "sameSession ws ws'"
  shows "rootKey ws' = rootKey ws" "sendingChain ws' = sendingChain ws" "selfDhKeyPair ws' = selfDhKeyPair ws"
    "remoteDhPublicKey ws' = remoteDhPublicKey ws" "maxSkip ws' = maxSkip ws" "maxSkippedKeys ws' = maxSkippedKeys ws"
    "maxSkippedBytes ws' = maxSkippedBytes ws"
  using assms by (cases ws, cases ws', simp add: sameSession_def)+

lemma sameSession_update [simp]:
  "sameSession ws (ws\<lparr>receivingChain := r, skipped := st\<rparr>)" "sameSession ws (ws\<lparr>receivingChain := r\<rparr>)" "sameSession ws (ws\<lparr>skipped := st\<rparr>)"
  by (simp_all add: sameSession_def)

lemma sameSession_trans: "sameSession a b \<Longrightarrow> sameSession b d \<Longrightarrow> sameSession a d"
  by (cases a, cases b, cases d) (simp add: sameSession_def)

lemma inStep_skip:
  assumes "hkdf_lawful c" "inj key" "inStep c ck key s0 b0 D m ws"
  shows "inStep c ck key s0 b0 D (Suc m)
     (ws\<lparr>receivingChain := Some (chainState c ck (Suc m)), skipped := skipped_put (skipped ws) (key (int m)) (keyAt c ck m)\<rparr>)"
proof -
  have new: "skipped_get (skipped ws) (key (int m)) = None" and wf: "skipped_wf (skipped ws)"
    using assms(3) by (simp_all add: inStep_def)
  have "key (int j) = key (int m) \<longleftrightarrow> j = m" for j using assms(2) by (simp add: inj_eq)
  then show ?thesis
    using assms(3) new skipped.lookup_write [OF wf] deriveMessageKey_at(2) [OF assms(1), of ck m]
    by (auto simp: inStep_def skipped_wf_put skipped_size_put totalBytes_put_new less_Suc_eq)
qed

lemma inStep_limits:
  assumes "inStep c ck key s0 b0 D m ws" "m < n" "s0 + int n \<le> maxSkippedKeys ws" "b0 + 32 * int n \<le> maxSkippedBytes ws"
  shows "int (skipped_size (skipped ws)) + 1 \<le> maxSkippedKeys ws" "totalBytes (skipped ws) + 32 \<le> maxSkippedBytes ws"
  using assms by (simp_all add: inStep_def)

lemma skipLoop_inStep:
  assumes "hkdf_lawful c" "inj key" "\<And>i. key i \<noteq> []" "inStep c ck key s0 b0 D m ws" "m \<le> n"
    and "s0 + int n \<le> maxSkippedKeys ws" "b0 + 32 * int n \<le> maxSkippedBytes ws"
  shows "\<exists>ws'. skipLoop c key (int n) ws = (skipped ws', Inr ws') \<and> inStep c ck key s0 b0 D n ws' \<and> sameSession ws ws'"
  using assms(4-)
proof (induction "n - m" arbitrary: m ws)
  case 0
  then have "recvIndex ws = int n" by (simp add: inStep_def recvIndex_def)
  then show ?case using 0 by (subst skipLoop.simps) simp
next
  case (Suc d)
  let ?ws = "ws\<lparr>receivingChain := Some (chainState c ck (Suc m)), skipped := skipped_put (skipped ws) (key (int m)) (keyAt c ck m)\<rparr>"
  have rc: "receivingChain ws = Some (chainState c ck m)" and idx: "recvIndex ws = int m"
    using Suc.prems(1) by (simp_all add: inStep_def recvIndex_def)
  have "m < n" using Suc.hyps(2) by linarith
  then have "skipLoop c key (int n) ws = skipLoop c key (int n) ?ws"
    using inStep_limits [OF Suc.prems(1) _ Suc.prems(3,4)] nextReceiving_at [OF assms(1) rc] deriveMessageKey_at(2) [OF assms(1), of ck m] assms(3)
    by (subst skipLoop.simps) (simp add: idx skipped_set_def)
  moreover have "\<exists>ws'. skipLoop c key (int n) ?ws = (skipped ws', Inr ws') \<and> inStep c ck key s0 b0 D n ws' \<and> sameSession ?ws ws'"
    using Suc.prems(3,4) Suc.hyps(2) \<open>m < n\<close> inStep_skip [OF assms(1,2) Suc.prems(1)]
    by (intro Suc.hyps(1) [of "Suc m"]) simp_all
  ultimately show ?case using sameSession_trans sameSession_update(1) by metis
qed

text \<open>One delivery. The header names no new remote key (or the current one).\<close>

definition currentDh :: "bytes \<Rightarrow> RatchetHeaderV1 \<Rightarrow> bool" where
  "currentDh pk h \<longleftrightarrow> hdr_dh h = None \<or> hdr_dh h = Some pk"

lemma derive_deliver:
  assumes "hkdf_lawful c" "hashSha256 c (remoteDhPublicKey ws) = Inr dhHash" "currentDh (remoteDhPublicKey ws) h"
    and "inStep c ck (lookupKey sid dhHash) s0 b0 D m ws" "hdr_n h = int n" "n < N" "n \<notin> D"
    and "int N \<le> maxSkip ws + 1" "s0 + int N \<le> maxSkippedKeys ws" "b0 + 32 * int N \<le> maxSkippedBytes ws"
  shows "\<exists>st ns used. deriveReceivingKeyForHeader c alg ws h sid = (st, Inr (keyAt c ck n, ns, used))
     \<and> inStep c ck (lookupKey sid dhHash) s0 b0 (insert n D) (max m (Suc n)) ns \<and> sameSession ws ns"
proof -
  let ?key = "lookupKey sid dhHash"
  have inj: "inj ?key" by (rule injI) simp
  have rc: "receivingChain ws = Some (chainState c ck m)" and wf: "skipped_wf (skipped ws)"
    and get: "\<And>j. skipped_get (skipped ws) (?key (int j)) = (if j < m \<and> j \<notin> D then Some (keyAt c ck j) else None)"
    using assms(4) by (simp_all add: inStep_def)
  have keyeq: "?key (int j) = ?key (int n) \<longleftrightarrow> j = n" for j by simp
  have step: "headerStep c alg ws h = Inr ws"
    using assms(3) by (auto simp: currentDh_def headerStep_def)
  show ?thesis
  proof (cases "n < m")
    case True
    let ?st = "fst (skipped_delete (skipped ws) (?key (int n)))"
    have m: "max m (Suc n) = m" using True by simp
    have "inStep c ck ?key s0 b0 (insert n D) (max m (Suc n)) (ws\<lparr>skipped := ?st\<rparr>)"
      unfolding m using assms(4) True skipped.lookup_remove [OF wf, of "?key (int n)"] skipped_wf_delete [OF wf]
        skipped_size_delete [of "skipped ws" "?key (int n)"] skipped_bytes_delete [of "skipped ws" "?key (int n)"]
      by (auto simp: inStep_def keyeq)
    then show ?thesis
      using True assms(2,5,7) rc get [of n] step by (fastforce simp add: deriveReceivingKeyForHeader_def keyFromStoreOrChain_def Let_def)
  next
    case False
    obtain ws' where ws': "skipLoop c ?key (int n) ws = (skipped ws', Inr ws')" "inStep c ck ?key s0 b0 D n ws'" "sameSession ws ws'"
      using skipLoop_inStep [OF assms(1) inj _ assms(4), of n] False assms(6,9,10) by auto
    have rc': "receivingChain ws' = Some (chainState c ck n)" using ws'(2) by (simp add: inStep_def)
    have "inStep c ck ?key s0 b0 (insert n D) (max m (Suc n)) (ws'\<lparr>receivingChain := Some (chainState c ck (Suc n))\<rparr>)"
      using ws'(2) False by (auto simp: inStep_def max_def less_Suc_eq)
    moreover have "sameSession ws (ws'\<lparr>receivingChain := Some (chainState c ck (Suc n))\<rparr>)"
      using sameSession_trans [OF ws'(3)] by simp
    moreover have "deriveReceivingKeyForHeader c alg ws h sid
        = (skipped ws', Inr (keyAt c ck n, ws'\<lparr>receivingChain := Some (chainState c ck (Suc n))\<rparr>, False))"
      using False assms(2,5,6,8) rc get [of n] step ws'(1) nextReceiving_at [OF assms(1) rc']
      by (simp add: deriveReceivingKeyForHeader_def keyFromStoreOrChain_def)
    ultimately show ?thesis by blast
  qed
qed

text \<open>A message that was delivered before is refused and leaves the state as it was.\<close>

lemma derive_replay:
  assumes "hashSha256 c (remoteDhPublicKey ws) = Inr dhHash" "currentDh (remoteDhPublicKey ws) h"
    and "inStep c ck (lookupKey sid dhHash) s0 b0 D m ws" "hdr_n h = int n" "n \<in> D"
  shows "deriveReceivingKeyForHeader c alg ws h sid = (skipped ws, Inl (Error ''SkippedKeyNotFound''))"
proof -
  have "n < m" using assms(3,5) by (auto simp: inStep_def)
  then show ?thesis
    using assms by (auto simp: deriveReceivingKeyForHeader_def keyFromStoreOrChain_def headerStep_def inStep_def currentDh_def)
qed

section \<open>Sending and receiving a stream\<close>

text \<open>The sender derives the keys of its next \<open>k\<close> messages.\<close>

fun sendKeys :: "crypto_provider \<Rightarrow> RatchetState \<Rightarrow> nat \<Rightarrow> (bytes list \<times> RatchetState) result" where
  "sendKeys c state 0 = Inr ([], state)"
| "sendKeys c state (Suc k) =
     bindR (nextSendingMessageKey c state) (\<lambda>(mk, ns). bindR (sendKeys c ns k) (\<lambda>(mks, s'). Inr (mk # mks, s')))"

text \<open>The receiver meets the headers one after the other, commits the state of each success, and keeps the shared
  store of each failure.\<close>

fun receiveKeys :: "crypto_provider \<Rightarrow> string \<Rightarrow> bytes \<Rightarrow> RatchetState \<Rightarrow> RatchetHeaderV1 list \<Rightarrow> bytes result list" where
  "receiveKeys c alg sid ws [] = []"
| "receiveKeys c alg sid ws (h # hs) =
     (case deriveReceivingKeyForHeader c alg ws h sid of
        (st, Inr (mk, ns, used)) \<Rightarrow> Inr mk # receiveKeys c alg sid ns hs
      | (st, Inl e) \<Rightarrow> Inl e # receiveKeys c alg sid (ws\<lparr>skipped := st\<rparr>) hs)"

text \<open>What the stream should give: the key of each index the first time, a refusal every other time.\<close>

fun exactlyOnce :: "bytes list \<Rightarrow> nat set \<Rightarrow> nat list \<Rightarrow> bytes result list" where
  "exactlyOnce keys D [] = []"
| "exactlyOnce keys D (n # ns) =
     (if n \<in> D then Inl (Error ''SkippedKeyNotFound'') else Inr (keys ! n)) # exactlyOnce keys (insert n D) ns"

lemma sendKeys_chain:
  assumes "hkdf_lawful c" "sendingChain ws = Some (chainState c ck m)"
  shows "sendKeys c ws k = Inr (map (keyAt c ck) [m..<m + k], ws\<lparr>sendingChain := Some (chainState c ck (m + k))\<rparr>)"
  using assms(2)
proof (induction k arbitrary: m ws)
  case 0
  then show ?case by (cases ws) simp
next
  case (Suc k)
  show ?case
    using nextSending_at [OF assms(1) Suc.prems] Suc.IH [of "ws\<lparr>sendingChain := Some (chainState c ck (Suc m))\<rparr>" "Suc m"]
    by (simp add: result_simps upt_conv_Cons del: upt_Suc)
qed

lemma receiveKeys_inStep:
  assumes "hkdf_lawful c" "hashSha256 c pk = Inr dhHash"
    and "inStep c ck (lookupKey sid dhHash) s0 b0 D m ws" "remoteDhPublicKey ws = pk"
    and "list_all2 (\<lambda>h n. currentDh pk h \<and> hdr_n h = int n \<and> n < N) hs ns"
    and "int N \<le> maxSkip ws + 1" "s0 + int N \<le> maxSkippedKeys ws" "b0 + 32 * int N \<le> maxSkippedBytes ws"
  shows "receiveKeys c alg sid ws hs = exactlyOnce (map (keyAt c ck) [0..<N]) D ns"
  using assms(5,3,4,6-8)
proof (induction hs ns arbitrary: D m ws rule: list_all2_induct)
  case (Cons h hs n ns)
  have h: "currentDh (remoteDhPublicKey ws) h" "hdr_n h = int n" "n < N" using Cons.hyps(1) Cons.prems(2) by simp_all
  have hash: "hashSha256 c (remoteDhPublicKey ws) = Inr dhHash" using assms(2) Cons.prems(2) by simp
  show ?case
  proof (cases "n \<in> D")
    case True
    have "receiveKeys c alg sid ws hs = exactlyOnce (map (keyAt c ck) [0..<N]) D ns"
      using Cons.IH [OF Cons.prems] .
    with True derive_replay [OF hash h(1) Cons.prems(1) h(2) True] show ?thesis
      by (simp add: insert_absorb)
  next
    case False
    obtain st ws' used where d: "deriveReceivingKeyForHeader c alg ws h sid = (st, Inr (keyAt c ck n, ws', used))"
      "inStep c ck (lookupKey sid dhHash) s0 b0 (insert n D) (max m (Suc n)) ws'" "sameSession ws ws'"
      using derive_deliver [OF assms(1) hash h(1) Cons.prems(1) h(2,3) False Cons.prems(3-5)] by blast
    have "receiveKeys c alg sid ws' hs = exactlyOnce (map (keyAt c ck) [0..<N]) (insert n D) ns"
      using Cons.prems sameSession_fields [OF d(3)] by (intro Cons.IH [OF d(2)]) simp_all
    with d(1) False h(3) show ?thesis by simp
  qed
qed simp

section \<open>The Diffie-Hellman step\<close>

text \<open>Both ends of a step derive one root key, and what one end sends on is what the other receives on, because the
  order of the two public keys, which both ends see, decides the direction.\<close>

lemma ratchetStep_mirror:
  assumes "dh_agree c (selfDhKeyPair a) (selfDhKeyPair b)" "rootKey a = rootKey b"
    and "publicKey (selfDhKeyPair a) \<noteq> publicKey (selfDhKeyPair b)"
    and "hkdf_lawful c" "dhDerive c (privateKey (selfDhKeyPair a)) (publicKey (selfDhKeyPair b)) alg (inferDhFormat (publicKey (selfDhKeyPair b))) = Inr secret"
  shows "\<exists>rk sk. ratchetStep c alg a (publicKey (selfDhKeyPair b)) ''sending''
       = Inr (a\<lparr>rootKey := rk, sendingChain := Some \<lparr>chainKey = sk, messageIndex = 0\<rparr>, remoteDhPublicKey := publicKey (selfDhKeyPair b)\<rparr>)
     \<and> ratchetStep c alg b (publicKey (selfDhKeyPair a)) ''receiving''
       = Inr (b\<lparr>rootKey := rk, receivingChain := Some \<lparr>chainKey = sk, messageIndex = 0\<rparr>, remoteDhPublicKey := publicKey (selfDhKeyPair a)\<rparr>)"
proof -
  let ?pa = "publicKey (selfDhKeyPair a)" and ?pb = "publicKey (selfDhKeyPair b)"
  have secret: "dhDerive c (privateKey (selfDhKeyPair b)) ?pa alg (inferDhFormat ?pa) = Inr secret"
    using assms(1,5) unfolding dh_agree_def by metis
  obtain rk s1 s2 where root: "deriveRootKey c (rootKey a) secret = Inr (rk, s1, s2)"
    using deriveRootKey_total [OF assms(4)] by metis
  have "compareBytes ?pa ?pb < 0 \<longleftrightarrow> \<not> compareBytes ?pb ?pa < 0"
    using assms(3) compareBytes_0 [of ?pa ?pb] compareBytes_swap [of ?pa ?pb] by linarith
  then have "(if compareBytes ?pb ?pa < 0 then s2 else s1) = (if compareBytes ?pa ?pb < 0 then s1 else s2)" by auto
  with secret root assms(2,5) show ?thesis
    by (intro exI [of _ rk] exI [of _ "if compareBytes ?pa ?pb < 0 then s1 else s2"])
       (simp add: ratchetStep_def result_simps Let_def)
qed

lemma derive_new_remote:
  assumes "hdr_dh h = Some dh" "dh \<noteq> remoteDhPublicKey a" "ratchetStep c alg a dh ''receiving'' = Inr ws"
    and "remoteDhPublicKey ws = dh" "0 \<le> hdr_n h"
  shows "deriveReceivingKeyForHeader c alg a h sid = deriveReceivingKeyForHeader c alg ws h sid"
  using assms by (simp add: deriveReceivingKeyForHeader_def headerStep_def)

section \<open>Bounds on the store\<close>

definition storeBounded :: "RatchetState \<Rightarrow> bool" where
  "storeBounded ws \<longleftrightarrow> skipped_wf (skipped ws) \<and> int (skipped_size (skipped ws)) \<le> maxSkippedKeys ws
     \<and> totalBytes (skipped ws) \<le> maxSkippedBytes ws"

lemma totalBytes_put_le: "totalBytes (skipped_put st key mk) \<le> totalBytes st + int (length mk)"
  by (auto simp: skipped_put_def split: option.splits)

lemma nextReceiving_frame: "nextReceivingMessageKey c ws = Inr (mk, ns) \<Longrightarrow> sameSession ws ns \<and> skipped ns = skipped ws"
  by (auto simp: nextReceivingMessageKey_def result_simps split: option.splits sum.splits)

lemma skipLoop_bounded:
  assumes "skipLoop c key n ws = (st, r)" "storeBounded ws"
  shows "storeBounded (ws\<lparr>skipped := st\<rparr>) \<and> (\<forall>ws'. r = Inr ws' \<longrightarrow> sameSession ws ws' \<and> skipped ws' = st)"
  using assms
proof (induction c key n ws arbitrary: st r rule: skipLoop.induct)
  case (1 c key n ws)
  show ?case
  proof (cases "recvIndex ws < n")
    case True
    show ?thesis
    proof (cases "nextReceivingMessageKey c ws")
      case (Inl e)
      with True 1(2,3) show ?thesis by (subst (asm) skipLoop.simps) (auto simp: storeBounded_def)
    next
      case (Inr p)
      obtain mk ns where p: "p = (mk, ns)" by (cases p)
      show ?thesis
      proof (cases "int (skipped_size (skipped ws)) + 1 > maxSkippedKeys ws \<or> totalBytes (skipped ws) + int (length mk) > maxSkippedBytes ws
          \<or> key (recvIndex ws) = []")
        case True
        with \<open>recvIndex ws < n\<close> 1(2,3) Inr p show ?thesis
          by (subst (asm) skipLoop.simps) (auto simp: skipped_set_def Let_def storeBounded_def split: if_splits)
      next
        case False
        let ?st = "skipped_put (skipped ws) (key (recvIndex ws)) mk"
        have frame: "sameSession ws ns" "skipped ns = skipped ws" using nextReceiving_frame Inr p by auto
        have "storeBounded (ns\<lparr>skipped := ?st\<rparr>)"
          using False 1(3) skipped_size_put [of "skipped ws" "key (recvIndex ws)" mk] totalBytes_put_le [of "skipped ws" "key (recvIndex ws)" mk]
            sameSession_fields [OF frame(1)]
          by (auto simp: storeBounded_def skipped_wf_put split: if_splits)
        moreover have "skipLoop c key n (ns\<lparr>skipped := ?st\<rparr>) = (st, r)"
          using \<open>recvIndex ws < n\<close> False 1(2) Inr p by (subst (asm) skipLoop.simps) (simp add: skipped_set_def)
        moreover have "skipped_set (skipped ws) (key (recvIndex ws)) mk = Inr ?st"
          "\<not> maxSkippedKeys ws < int (skipped_size (skipped ws)) + 1" "\<not> maxSkippedBytes ws < totalBytes (skipped ws) + int (length mk)"
          using False by (simp_all add: skipped_set_def)
        ultimately have "storeBounded (ns\<lparr>skipped := ?st, skipped := st\<rparr>) \<and> (\<forall>ws'. r = Inr ws' \<longrightarrow> sameSession (ns\<lparr>skipped := ?st\<rparr>) ws' \<and> skipped ws' = st)"
          by (intro 1(1) [OF True Inr p [symmetric] refl refl])
        then have "storeBounded (ns\<lparr>skipped := st\<rparr>) \<and> (\<forall>ws'. r = Inr ws' \<longrightarrow> sameSession (ns\<lparr>skipped := ?st\<rparr>) ws' \<and> skipped ws' = st)"
          by simp
        moreover have "sameSession ws (ns\<lparr>skipped := ?st\<rparr>)" using frame(1) sameSession_trans by force
        ultimately show ?thesis
          using sameSession_trans sameSession_fields [OF frame(1)] by (auto simp: storeBounded_def)
      qed
    qed
  next
    case False
    with 1(2,3) show ?thesis by (subst (asm) skipLoop.simps) (auto simp: storeBounded_def)
  qed
qed

lemma ratchetStep_frame:
  "ratchetStep c alg a pk e = Inr ws \<Longrightarrow> skipped ws = skipped a \<and> maxSkip ws = maxSkip a \<and> maxSkippedKeys ws = maxSkippedKeys a
     \<and> maxSkippedBytes ws = maxSkippedBytes a \<and> remoteDhPublicKey ws = pk \<and> selfDhKeyPair ws = selfDhKeyPair a"
  by (auto simp: ratchetStep_def result_simps Let_def split: sum.splits)

lemma headerStep_frame:
  assumes "headerStep c alg state h = Inr ws"
  shows "skipped ws = skipped state" "maxSkippedKeys ws = maxSkippedKeys state" "maxSkippedBytes ws = maxSkippedBytes state"
  using assms by (auto simp: headerStep_def split: option.splits if_splits dest: ratchetStep_frame)

definition receiveStep :: "crypto_provider \<Rightarrow> string \<Rightarrow> bytes \<times> RatchetHeaderV1 \<Rightarrow> RatchetState \<Rightarrow> RatchetState" where
  "receiveStep c alg p ws =
     (case deriveReceivingKeyForHeader c alg ws (snd p) (fst p) of
        (st, Inr (mk, ns, used)) \<Rightarrow> ns
      | (st, Inl e) \<Rightarrow> ws\<lparr>skipped := st\<rparr>)"

lemma storeBounded_delete: "storeBounded ws \<Longrightarrow> storeBounded (ws\<lparr>skipped := fst (skipped_delete (skipped ws) key)\<rparr>)"
  using skipped_size_delete [of "skipped ws" key] skipped_bytes_delete [of "skipped ws" key]
  by (auto simp: storeBounded_def skipped_wf_delete)

text \<open>Limits and store of the states a receiving operation returns.\<close>

definition keepsBounds :: "RatchetState \<Rightarrow> SkippedKeyStore \<times> (bytes \<times> RatchetState \<times> bool) result \<Rightarrow> bool" where
  "keepsBounds ws out \<longleftrightarrow> storeBounded (ws\<lparr>skipped := fst out\<rparr>)
     \<and> (\<forall>mk ns used. snd out = Inr (mk, ns, used) \<longrightarrow> skipped ns = fst out \<and> storeBounded ns
          \<and> maxSkippedKeys ns = maxSkippedKeys ws \<and> maxSkippedBytes ns = maxSkippedBytes ws)"

lemma keepsBounds_Inl: "storeBounded ws \<Longrightarrow> keepsBounds ws (skipped ws, Inl e)"
  by (simp add: keepsBounds_def storeBounded_def)

lemma keyFromStoreOrChain_bounded:
  assumes "storeBounded ws"
  shows "keepsBounds ws (keyFromStoreOrChain c ws ch key n)"
proof (cases "skipped_get (skipped ws) (key n)")
  case (Some existing)
  with storeBounded_delete [OF assms, of "key n"] show ?thesis
    by (simp add: keyFromStoreOrChain_def keepsBounds_def Let_def)
next
  case None
  obtain st r where loop: "skipLoop c key n ws = (st, r)" by (cases "skipLoop c key n ws")
  note lb = skipLoop_bounded [OF loop assms]
  have "keepsBounds ws (case r of Inl e \<Rightarrow> (st, Inl e)
      | Inr ws' \<Rightarrow> (case nextReceivingMessageKey c ws' of Inl e \<Rightarrow> (st, Inl e) | Inr (mk, ns) \<Rightarrow> (st, Inr (mk, ns, False))))"
  proof (cases r)
    case (Inr ws')
    show ?thesis
    proof (cases "nextReceivingMessageKey c ws'")
      case (Inr p)
      then show ?thesis
        using lb \<open>r = Inr ws'\<close> nextReceiving_frame [of c ws' "fst p" "snd p"] sameSession_fields
        by (auto simp: keepsBounds_def storeBounded_def split: prod.splits)
    qed (use lb Inr in \<open>simp add: keepsBounds_def\<close>)
  qed (use lb in \<open>simp add: keepsBounds_def\<close>)
  with None loop keepsBounds_Inl [OF assms] show ?thesis by (simp add: keyFromStoreOrChain_def)
qed

lemma derive_bounded:
  assumes "storeBounded state"
  shows "keepsBounds state (deriveReceivingKeyForHeader c alg state h sid)"
proof (cases "headerStep c alg state h")
  case (Inr ws)
  note fr = headerStep_frame [OF Inr]
  have "storeBounded ws" using assms fr by (simp add: storeBounded_def)
  moreover have "keepsBounds ws = keepsBounds state"
    by (rule ext) (simp add: keepsBounds_def storeBounded_def fr)
  ultimately show ?thesis
    using Inr keepsBounds_Inl [OF assms] keyFromStoreOrChain_bounded [of ws] fr(1)
    by (simp add: deriveReceivingKeyForHeader_def split: option.split sum.split)
qed (simp add: deriveReceivingKeyForHeader_def keepsBounds_Inl [OF assms])

interpretation receiver: stepper "receiveStep c alg" storeBounded for c alg
proof
  fix ws p assume "storeBounded ws"
  then show "storeBounded (receiveStep c alg p ws)"
    using derive_bounded [of ws c alg "snd p" "fst p"] by (auto simp: receiveStep_def keepsBounds_def split: prod.splits sum.splits)
qed

section \<open>Properties of the ratchet\<close>

lemma inStep_start:
  assumes "receivingChain ws = Some \<lparr>chainKey = ck, messageIndex = 0\<rparr>" "skipped ws = emptySkippedKeyStore"
  shows "inStep c ck key 0 0 {} 0 ws"
  using assms by (simp add: inStep_def skipped_get_map_of) (simp add: emptySkippedKeyStore_def skipped_size_def)


abbreviation demo_header :: "bytes option \<Rightarrow> int \<Rightarrow> RatchetHeaderV1" where
  "demo_header dh n \<equiv> \<lparr>hdr_sid = [7], hdr_dh = dh, hdr_dhAlg = ''X25519'', hdr_dhFmt = ''raw'', hdr_pn = 0, hdr_n = n\<rparr>"




text \<open>C26: The store of skipped keys stays within its two limits forever. From a state within the limits, any sequence
  of headers, honest or forged, accepted or refused, for any session identifier, leaves a well-formed store
  whose number of keys and number of bytes are within the limits.\<close>

theorem skipped_store_bounded:
  assumes "storeBounded ws"
  shows "storeBounded (fold (receiveStep c alg) msgs ws)"
  using assms by (rule receiver.inv_run)

theorem skipped_store_bounded_witness:
  "storeBounded (fold (receiveStep demo_crypto ''X25519'') [([7], demo_header None 150), ([8], demo_header None 900), ([7], demo_header None 3)]
     (initializeAsResponder [1, 2] (demo_keys 4) (publicKey (demo_keys 3))))"
  by (rule skipped_store_bounded)
     (simp add: storeBounded_def initializeAsResponder_def DEFAULT_MAX_SKIPPED_KEYS_def DEFAULT_MAX_SKIPPED_BYTES_def,
      simp add: emptySkippedKeyStore_def skipped_size_def)

end
