(* ===== verification/Json_Parse.thy ===== *)
theory Json_Parse
  imports Canonical_Json
begin

text \<open>
  \<^verbatim>\<open>TextDecoder\<close> and \<^verbatim>\<open>JSON.parse\<close> as the library uses them, over the strings of the model (code units below 256) and
  integer numbers: a text with another code unit, a fraction or an exponent has no value here. The recursion is by
  fuel; twice the length of the text is enough, since every second call consumes a character.
\<close>

section \<open>UTF-8\<close>

fun utf8Decode :: "bytes \<Rightarrow> string option" where
  "utf8Decode [] = Some []"
| "utf8Decode (b # bs) =
     (if b < 128 then map_option (\<lambda>s. char_of (unat b) # s) (utf8Decode bs)
      else case bs of
        [] \<Rightarrow> None
      | b' # bs' \<Rightarrow>
          if (b = 194 \<or> b = 195) \<and> 128 \<le> b' \<and> b' < 192
          then map_option (\<lambda>s. char_of ((unat b - 192) * 64 + (unat b' - 128)) # s) (utf8Decode bs')
          else None)"

section \<open>Strings\<close>

definition jsonSpace :: "char \<Rightarrow> bool" where
  "jsonSpace c \<longleftrightarrow> of_char c \<in> {32, 9, 10, 13 :: nat}"

definition skipWs :: "string \<Rightarrow> string" where
  "skipWs s = dropWhile jsonSpace s"

definition hexVal :: "char \<Rightarrow> nat option" where
  "hexVal c = (let i = indexOf HEX_ALPHABET (toLowerCase c) in if i < 0 then None else Some (nat i))"

text \<open>The character after a backslash.\<close>

definition unescape :: "string \<Rightarrow> (char \<times> string) option" where
  "unescape s =
     (case s of
        [] \<Rightarrow> None
      | e # rest \<Rightarrow>
          if e = CHR 0x22 \<or> e = CHR 0x5C \<or> e = CHR ''/'' then Some (e, rest)
          else if e = CHR ''b'' then Some (CHR 0x08, rest)
          else if e = CHR ''f'' then Some (CHR 0x0C, rest)
          else if e = CHR ''n'' then Some (CHR 0x0A, rest)
          else if e = CHR ''r'' then Some (CHR 0x0D, rest)
          else if e = CHR ''t'' then Some (CHR 0x09, rest)
          else if e = CHR ''u'' then
            (case (map hexVal (take 4 rest)) of
               [Some a, Some b, Some x, Some y] \<Rightarrow>
                 let n = ((a * 16 + b) * 16 + x) * 16 + y in if n < 256 then Some (char_of n, drop 4 rest) else None
             | _ \<Rightarrow> None)
          else None)"

lemma unescape_shorter: "unescape s = Some (c, r) \<Longrightarrow> length r < length s"
  by (auto simp: unescape_def Let_def split: list.splits if_splits option.splits)

text \<open>The characters up to the closing quote.\<close>

function parseChars :: "string \<Rightarrow> (string \<times> string) option" where
  "parseChars [] = None"
| "parseChars (c # cs) =
     (if c = CHR 0x22 then Some ([], cs)
      else if c = CHR 0x5C then
        (case unescape cs of
           None \<Rightarrow> None
         | Some (d, r) \<Rightarrow> map_option (\<lambda>(t, r'). (d # t, r')) (parseChars r))
      else if (of_char c :: nat) < 32 then None
      else map_option (\<lambda>(t, r). (c # t, r)) (parseChars cs))"
  by pat_completeness auto
termination
  by (relation "measure length") (auto dest: unescape_shorter)

section \<open>Numbers\<close>

definition parseNum :: "string \<Rightarrow> (jsval \<times> string) option" where
  "parseNum s =
     (let neg = (s \<noteq> [] \<and> hd s = CHR ''-'');
          t = (if neg then tl s else s);
          ds = takeWhile isDigit t;
          rest = dropWhile isDigit t
      in if ds = [] \<or> (hd ds = CHR ''0'' \<and> tl ds \<noteq> []) \<or> (rest \<noteq> [] \<and> hd rest \<in> {CHR ''.'', CHR ''e'', CHR ''E''}) then None
         else Some (JInt (if neg then - int (digitsVal ds) else int (digitsVal ds)), rest))"

section \<open>Values\<close>

text \<open>The parser defines own properties: unlike an assignment it has no special case for \<^verbatim>\<open>__proto__\<close>.\<close>

definition defineProp :: "string \<Rightarrow> 'v \<Rightarrow> (string \<times> 'v) list \<Rightarrow> (string \<times> 'v) list" where
  "defineProp k v kvs =
     (if k \<in> fst ` set kvs then AList.update k v kvs
      else case arrayIndex k of None \<Rightarrow> kvs @ [(k, v)] | Some i \<Rightarrow> insertIndex i k v kvs)"

definition expectWord :: "string \<Rightarrow> jsval \<Rightarrow> string \<Rightarrow> (jsval \<times> string) option" where
  "expectWord w v s = (if take (length w) s = w then Some (v, drop (length w) s) else None)"

fun parseV :: "nat \<Rightarrow> string \<Rightarrow> (jsval \<times> string) option"
  and parseElems :: "nat \<Rightarrow> string \<Rightarrow> (jsval list \<times> string) option"
  and parseMembers :: "nat \<Rightarrow> string \<Rightarrow> ((string \<times> jsval) list \<times> string) option" where
  "parseV 0 s = None"
| "parseV (Suc k) s =
     (case skipWs s of
        [] \<Rightarrow> None
      | c # cs \<Rightarrow>
          if c = CHR 0x22 then map_option (\<lambda>(t, r). (JStr t, r)) (parseChars cs)
          else if c = CHR ''['' then
            (case skipWs cs of
               d # r \<Rightarrow> if d = CHR '']'' then Some (JArr [], r) else map_option (\<lambda>(xs, r). (JArr xs, r)) (parseElems k (d # r))
             | [] \<Rightarrow> None)
          else if c = CHR ''{'' then
            (case skipWs cs of
               d # r \<Rightarrow> if d = CHR ''}'' then Some (JObj [], r)
                        else map_option (\<lambda>(kvs, r). (JObj (foldl (\<lambda>out p. defineProp (fst p) (snd p) out) [] kvs), r)) (parseMembers k (d # r))
             | [] \<Rightarrow> None)
          else if c = CHR ''n'' then expectWord ''null'' JNull (c # cs)
          else if c = CHR ''t'' then expectWord ''true'' (JBool True) (c # cs)
          else if c = CHR ''f'' then expectWord ''false'' (JBool False) (c # cs)
          else parseNum (c # cs))"
| "parseElems 0 s = None"
| "parseElems (Suc k) s =
     (case parseV k s of
        None \<Rightarrow> None
      | Some (v, r) \<Rightarrow>
          (case skipWs r of
             [] \<Rightarrow> None
           | d # r' \<Rightarrow>
               if d = CHR '','' then map_option (\<lambda>(vs, r''). (v # vs, r'')) (parseElems k r')
               else if d = CHR '']'' then Some ([v], r') else None))"
| "parseMembers 0 s = None"
| "parseMembers (Suc k) s =
     (case skipWs s of
        [] \<Rightarrow> None
      | q # cs \<Rightarrow>
          if q \<noteq> CHR 0x22 then None
          else case parseChars cs of
            None \<Rightarrow> None
          | Some (key, r) \<Rightarrow>
              (case skipWs r of
                 [] \<Rightarrow> None
               | d # r1 \<Rightarrow>
                   if d \<noteq> CHR '':'' then None
                   else case parseV k r1 of
                     None \<Rightarrow> None
                   | Some (v, r2) \<Rightarrow>
                       (case skipWs r2 of
                          [] \<Rightarrow> None
                        | e # r3 \<Rightarrow>
                            if e = CHR '','' then map_option (\<lambda>(kvs, r4). ((key, v) # kvs, r4)) (parseMembers k r3)
                            else if e = CHR ''}'' then Some ([(key, v)], r3) else None)))"

definition jsonParse :: "string \<Rightarrow> jsval result" where
  "jsonParse text =
     (case parseV (2 * length text) text of
        Some (v, r) \<Rightarrow> if skipWs r = [] then Inr v else Inl (SyntaxError ''JSON.parse'')
      | None \<Rightarrow> Inl (SyntaxError ''JSON.parse''))"

definition jsonParseBytes :: "bytes \<Rightarrow> jsval result" where
  "jsonParseBytes bs = (case utf8Decode bs of None \<Rightarrow> Inl (SyntaxError ''JSON.parse'') | Some s \<Rightarrow> jsonParse s)"

section \<open>Parsing inverts printing\<close>

lemma byte_unat: "n < 256 \<Longrightarrow> unat (of_nat n :: byte) = n"
  by (simp add: unat_of_nat)

lemma utf8Decode_char: "utf8Decode (utf8Char c @ bs) = map_option (\<lambda>s. c # s) (utf8Decode bs)"
proof (cases "(of_char c :: nat) < 128")
  case True
  then have "(of_nat (of_char c) :: byte) < 128" "unat (of_nat (of_char c) :: byte) = of_char c"
    by (simp_all add: word_less_nat_alt byte_unat)
  with True show ?thesis by (simp add: utf8Char_def)
next
  case False
  define n where "n = (of_char c :: nat)"
  have n: "128 \<le> n" "n < 256" using False by (simp_all add: n_def)
  then have d: "n div 64 = 2 \<or> n div 64 = 3" by linarith
  have b: "(of_nat (192 + n div 64) :: byte) = 194 \<or> (of_nat (192 + n div 64) :: byte) = 195" using d by auto
  have u: "unat (of_nat (192 + n div 64) :: byte) = 192 + n div 64" using d by (intro byte_unat) auto
  have m: "n mod 64 < 64" by simp
  have u': "unat (of_nat (128 + n mod 64) :: byte) = 128 + n mod 64" using m by (intro byte_unat) simp
  have r: "128 \<le> (of_nat (128 + n mod 64) :: byte)" "(of_nat (128 + n mod 64) :: byte) < 192"
    using m by (simp_all only: word_le_nat_alt word_less_nat_alt u') simp_all
  have "n div 64 * 64 + n mod 64 = n" by simp
  then have v: "char_of (n div 64 * 64 + n mod 64) = c" by (simp add: n_def)
  have "\<not> (of_nat (192 + n div 64) :: byte) < 128" using b by auto
  then show ?thesis
    using False b r v unfolding utf8Char_def Let_def n_def [symmetric]
    by (simp only: if_False append.simps utf8Decode.simps list.simps u u' n_def [symmetric] simp_thms if_True) simp
qed

lemma utf8Decode_encode: "utf8Decode (utf8Encode s) = Some s"
  by (induction s) (simp_all add: utf8Encode_def utf8Decode_char)

lemma hexVal_nth: "i < 16 \<Longrightarrow> hexVal (HEX_ALPHABET ! i) = Some i"
  using HEX_distinct HEX_lower [of "HEX_ALPHABET ! i"] indexOf_nth_distinct [of HEX_ALPHABET i] by (simp add: hexVal_def)

lemma char_codes:
  "(of_char c :: nat) = 34 \<Longrightarrow> c = CHR 0x22" "(of_char c :: nat) = 92 \<Longrightarrow> c = CHR 0x5C" "(of_char c :: nat) = 8 \<Longrightarrow> c = CHR 0x08"
  "(of_char c :: nat) = 9 \<Longrightarrow> c = CHR 0x09" "(of_char c :: nat) = 10 \<Longrightarrow> c = CHR 0x0A" "(of_char c :: nat) = 12 \<Longrightarrow> c = CHR 0x0C"
  "(of_char c :: nat) = 13 \<Longrightarrow> c = CHR 0x0D"
  using of_char_eq_iff [where 'a = nat, of c "CHR 0x22"] of_char_eq_iff [where 'a = nat, of c "CHR 0x5C"] of_char_eq_iff [where 'a = nat, of c "CHR 0x08"]
    of_char_eq_iff [where 'a = nat, of c "CHR 0x09"] of_char_eq_iff [where 'a = nat, of c "CHR 0x0A"] of_char_eq_iff [where 'a = nat, of c "CHR 0x0C"]
    of_char_eq_iff [where 'a = nat, of c "CHR 0x0D"] by simp_all

lemma parseChars_esc: "parseChars (escChar c @ r) = map_option (\<lambda>(t, r'). (c # t, r')) (parseChars r)"
proof -
  define n where "n = (of_char c :: nat)"
  have n256: "n < 256" by (simp add: n_def)
  consider "n = 34" | "n = 92" | "n = 8" | "n = 9" | "n = 10" | "n = 12" | "n = 13"
    | "n < 32" "n \<notin> {8, 9, 10, 12, 13}" | "32 \<le> n" "n \<noteq> 34" "n \<noteq> 92" by force
  then show ?thesis
  proof cases
    case 8
    have z: "hexVal (CHR ''0'') = Some 0" using hexVal_nth [of 0] by (simp add: HEX_ALPHABET_def)
    have "n div 16 * 16 + n mod 16 = n" by simp
    with 8 n256 have "char_of (n div 16 * 16 + n mod 16) = c" by (simp add: n_def)
    moreover have "n div 16 < 16" "n mod 16 < 16" using n256 by simp_all
    moreover have "n div 16 * 16 + n mod 16 < 256" using n256 by simp
    ultimately show ?thesis
      using 8 hexVal_nth [of "n div 16"] hexVal_nth [of "n mod 16"] z
      by (simp add: escChar_def Let_def n_def [symmetric] unescape_def)
  next
    case 9
    then have "c \<noteq> CHR 0x22" "c \<noteq> CHR 0x5C" by (auto simp: n_def)
    with 9 show ?thesis by (simp add: escChar_def Let_def n_def [symmetric])
  qed (unfold n_def, (drule char_codes, simp add: escChar_def unescape_def)+)
qed

lemma parseChars_quoted: "parseChars (concat (map escChar s) @ CHR 0x22 # r) = Some (s, r)"
  by (induction s) (simp_all add: parseChars_esc)


lemma skipWs_solid: "s \<noteq> [] \<Longrightarrow> \<not> jsonSpace (hd s) \<Longrightarrow> skipWs s = s"
  by (cases s) (simp_all add: skipWs_def)

lemma solid_chars [simp]:
  "\<not> jsonSpace (CHR 0x22)" "\<not> jsonSpace (CHR ''['')" "\<not> jsonSpace (CHR '']'')" "\<not> jsonSpace (CHR ''{'')" "\<not> jsonSpace (CHR ''}'')"
  "\<not> jsonSpace (CHR '','')" "\<not> jsonSpace (CHR '':'')" "\<not> jsonSpace (CHR ''n'')" "\<not> jsonSpace (CHR ''t'')" "\<not> jsonSpace (CHR ''f'')" "\<not> jsonSpace (CHR ''-'')"
  by (simp_all add: jsonSpace_def)

lemma skipWs_Cons [simp]: "\<not> jsonSpace c \<Longrightarrow> skipWs (c # s) = c # s"
  by (simp add: skipWs_def)

lemma digit_solid: "isDigit c \<Longrightarrow> \<not> jsonSpace c"
  by (auto simp: isDigit_def jsonSpace_def Let_def)

lemma nat_str_takeWhile: "takeWhile isDigit (nat_str n @ r) = nat_str n @ takeWhile isDigit r" "dropWhile isDigit (nat_str n @ r) = dropWhile isDigit r"
  using nat_str_isDigit [of _ n] by (simp_all add: takeWhile_append2 dropWhile_append2)

lemma nat_str_no_leading_zero: "hd (nat_str n) = CHR ''0'' \<Longrightarrow> tl (nat_str n) = []"
proof (induction n rule: nat_str.induct)
  case (1 n)
  show ?case
  proof (cases "n < 10")
    case True
    then show ?thesis by (subst nat_str.simps) simp
  next
    case False
    have "nat_str n = nat_str (n div 10) @ [digit_char (n mod 10)]" using False by (subst nat_str.simps) simp
    moreover have "nat_str (n div 10) \<noteq> []" by simp
    ultimately have "hd (nat_str (n div 10)) = CHR ''0''" using "1.prems" by simp
    then have "tl (nat_str (n div 10)) = []" using 1 False by simp
    then have "nat_str (n div 10) = ''0''" using \<open>hd (nat_str (n div 10)) = CHR ''0''\<close> \<open>nat_str (n div 10) \<noteq> []\<close>
      by (metis list.collapse)
    moreover have "nat_str 0 = ''0''" by code_simp
    ultimately have "n div 10 = 0" using nat_str_inj [of "n div 10" 0] by simp
    then show ?thesis using False by simp
  qed
qed

lemma parseNum_int_str:
  assumes "stop r"
  shows "parseNum (int_str i @ r) = Some (JInt i, r)"
proof -
  have d: "takeWhile isDigit r = []" "dropWhile isDigit r = r" "r = [] \<or> hd r \<noteq> CHR ''.'' \<and> hd r \<noteq> CHR ''e'' \<and> hd r \<noteq> CHR ''E''"
    using assms by (cases r; auto simp: stop_def isDigit_def)+
  have nz: "nat_str n \<noteq> []" "\<not> (hd (nat_str n) = CHR ''0'' \<and> tl (nat_str n) \<noteq> [])" for n using nat_str_no_leading_zero by auto
  have h: "hd (nat_str n @ r) \<noteq> CHR ''-''" for n
    using nat_str_isDigit [of "hd (nat_str n)" n] by (auto simp: isDigit_def)
  have nd: "takeWhile isDigit (nat_str n @ r) = nat_str n" "dropWhile isDigit (nat_str n @ r) = r" for n
    using d by (simp_all add: nat_str_takeWhile)
  show ?thesis
    using d(3) nz h by (cases "i < 0") (simp_all add: parseNum_def int_str_def Let_def nd digitsVal_nat_str del: dropWhile_eq_Nil_conv)
qed


lemma defineProps_stable:
  assumes "distinct (map fst kvs)" "list_all (\<lambda>p. \<not> isIndexEntry p) kvs"
  shows "foldl (\<lambda>out p. defineProp (fst p) (snd p) out) [] kvs = kvs"
  using assms
proof (induction kvs rule: rev_induct)
  case (snoc p kvs)
  then have "arrayIndex (fst p) = None" "fst p \<notin> fst ` set kvs" by (auto simp: isIndexEntry_def)
  with snoc show ?case by (simp add: defineProp_def)
qed simp

text \<open>The text of a value starts with a solid character and is not empty.\<close>

lemma render_solid:
  assumes "json_data v"
  shows "\<exists>c cs. render v = c # cs \<and> \<not> jsonSpace c \<and> c \<noteq> CHR '']'' \<and> c \<noteq> CHR ''}''"
proof (cases v)
  case (JNum n)
  with assms obtain i where "v = JInt i" by (cases n) auto
  moreover obtain c cs where c: "int_str i = c # cs" "isDigit c \<or> c = CHR ''-''" using int_str_hd by blast
  moreover have "\<not> jsonSpace c" using c(2) digit_solid by auto
  moreover have "c \<noteq> CHR '']'' \<and> c \<noteq> CHR ''}''" using c(2) isDigit_letters by auto
  ultimately show ?thesis by simp
next
  case (JBool b)
  then show ?thesis by (cases b) simp_all
qed (use assms in \<open>simp_all add: quoteStr_def\<close>)

primrec stableData :: "jsval \<Rightarrow> bool" where
  "stableData JUndef = False"
| "stableData JNull = True"
| "stableData (JBool b) = True"
| "stableData (JNum n) = (case n of NInt _ \<Rightarrow> True | _ \<Rightarrow> False)"
| "stableData (JStr s) = True"
| "stableData (JBytes bs) = False"
| "stableData (JArr xs) = list_all id (map stableData xs)"
| "stableData (JObj kvs) = (distinct (map fst kvs) \<and> list_all (\<lambda>p. \<not> isIndexEntry p) kvs \<and> list_all snd (map (map_prod id stableData) kvs))"

lemma stableData_json: "stableData v \<Longrightarrow> json_data v"
  by (induction v) (auto simp: list_all_iff snds.simps)

definition parses :: "jsval \<Rightarrow> bool" where
  "parses v \<longleftrightarrow> (\<forall>k r. 2 * length (render v) \<le> k \<longrightarrow> stop r \<longrightarrow> parseV k (render v @ r) = Some (v, r))"

lemma parsesD: "parses v \<Longrightarrow> 2 * length (render v) \<le> k \<Longrightarrow> stop r \<Longrightarrow> parseV k (render v @ r) = Some (v, r)"
  by (simp add: parses_def)

lemma parseElems_join:
  assumes "\<forall>x\<in>set xs. parses x" "xs \<noteq> []" "2 * length (join '','' (map render xs)) + 1 \<le> k"
  shows "parseElems k (join '','' (map render xs) @ CHR '']'' # r) = Some (xs, r)"
  using assms
proof (induction xs arbitrary: k)
  case (Cons x xs)
  then obtain k' where k: "k = Suc k'" by (cases k) auto
  show ?case
  proof (cases xs)
    case Nil
    have "parseV k' (render x @ CHR '']'' # r) = Some (x, CHR '']'' # r)"
      using Cons.prems k Nil by (intro parsesD) (simp_all add: stop_def)
    then show ?thesis using k Nil by simp
  next
    case (Cons y ys)
    let ?rest = "join '','' (map render xs) @ CHR '']'' # r"
    have j: "join '','' (map render (x # xs)) = render x @ CHR '','' # join '','' (map render xs)" using Cons by simp
    have "parseV k' (render x @ CHR '','' # ?rest) = Some (x, CHR '','' # ?rest)"
      using Cons.prems k unfolding j by (intro parsesD) (simp_all add: stop_def)
    moreover have "parseElems k' ?rest = Some (xs, r)"
      using Cons.prems k Cons unfolding j by (intro Cons.IH) simp_all
    ultimately show ?thesis using k unfolding j by simp
  qed
qed simp

lemma parsesI:
  assumes "render v \<noteq> []" "\<And>k r. stop r \<Longrightarrow> 2 * length (render v) \<le> Suc k \<Longrightarrow> parseV (Suc k) (render v @ r) = Some (v, r)"
  shows "parses v"
  unfolding parses_def
proof (intro allI impI)
  fix k r assume "2 * length (render v) \<le> k" "stop r"
  then show "parseV k (render v @ r) = Some (v, r)" using assms by (cases k) auto
qed

abbreviation renderMember :: "string \<times> jsval \<Rightarrow> string" where
  "renderMember p \<equiv> quoteStr (fst p) @ '':'' @ render (snd p)"

lemma parseMembers_one:
  assumes "parses v" "2 * length (render v) \<le> k" "stop (e # r)" "\<not> jsonSpace e"
  shows "parseMembers (Suc k) (renderMember (key, v) @ e # r)
     = (if e = CHR '','' then map_option (\<lambda>(kvs, r'). ((key, v) # kvs, r')) (parseMembers k r)
        else if e = CHR ''}'' then Some ([(key, v)], r) else None)"
  using parsesD [OF assms(1,2,3)] assms(4) by (simp add: quoteStr_def parseChars_quoted)

lemma parseMembers_join:
  assumes "\<forall>p\<in>set kvs. parses (snd p)" "kvs \<noteq> []" "2 * length (join '','' (map renderMember kvs)) + 1 \<le> k"
  shows "parseMembers k (join '','' (map renderMember kvs) @ CHR ''}'' # r) = Some (kvs, r)"
  using assms
proof (induction kvs arbitrary: k)
  case (Cons p kvs)
  then obtain k' where k: "k = Suc k'" by (cases k) auto
  obtain key v where p: "p = (key, v)" by (cases p)
  have v: "parses v" using Cons.prems(1) p by simp
  show ?case
  proof (cases kvs)
    case Nil
    then show ?thesis using parseMembers_one [OF v, of k' "CHR ''}''" r key] Cons.prems(3) k p by (simp add: stop_def)
  next
    case (Cons q qs)
    let ?rest = "join '','' (map renderMember kvs) @ CHR ''}'' # r"
    have j: "join '','' (map renderMember (p # kvs)) = renderMember (key, v) @ CHR '','' # join '','' (map renderMember kvs)" using Cons p by simp
    have len: "2 * length (render v) \<le> k'" "2 * length (join '','' (map renderMember kvs)) + 1 \<le> k'"
      using Cons.prems(3) k unfolding j by simp_all
    have "parseMembers k' ?rest = Some (kvs, r)"
      using Cons.prems(1) Cons len(2) by (intro Cons.IH) simp_all
    then show ?thesis
      using parseMembers_one [OF v len(1), of "CHR '',''" ?rest key] unfolding j by (simp add: k p stop_def)
  qed
qed simp

lemma renderMembers: "map (\<lambda>p. quoteStr (fst p) @ '':'' @ snd p) (map (map_prod id render) kvs) = map renderMember kvs"
  by simp

lemma join_first:
  assumes "xs \<noteq> []" "g (hd xs) = c # cs"
  shows "\<exists>cs'. join '','' (map g xs) = c # cs'"
  using assms by (cases xs) (simp_all add: join_Cons)

lemma parses_stable: "stableData v \<Longrightarrow> parses v"
proof (induction v)
  case (JArr xs)
  have all: "\<forall>x\<in>set xs. parses x" "\<forall>x\<in>set xs. json_data x" using JArr stableData_json by (auto simp: list_all_iff)
  show ?case
  proof (cases "xs = []")
    case True
    then show ?thesis by (intro parsesI) simp_all
  next
    case False
    obtain c cs where "render (hd xs) = c # cs" "\<not> jsonSpace c" "c \<noteq> CHR '']''"
      using render_solid all(2) False by (metis list.set_sel(1))
    then obtain cs' where first: "join '','' (map render xs) = c # cs'" using join_first [OF False, of render] by blast
    show ?thesis
    proof (rule parsesI)
      fix k' r assume k: "2 * length (render (JArr xs)) \<le> Suc k'" and "stop r"
      have "parseElems k' (join '','' (map render xs) @ CHR '']'' # r) = Some (xs, r)"
        using k by (intro parseElems_join [OF all(1) False]) simp
      then show "parseV (Suc k') (render (JArr xs) @ r) = Some (JArr xs, r)"
        using first \<open>\<not> jsonSpace c\<close> \<open>c \<noteq> CHR '']''\<close> by simp
    qed simp
  qed
next
  case (JObj kvs)
  have all: "\<forall>p\<in>set kvs. parses (snd p)" using JObj by (auto simp: list_all_iff snds.simps)
  have stable: "foldl (\<lambda>out p. defineProp (fst p) (snd p) out) [] kvs = kvs" using JObj.prems by (intro defineProps_stable) simp_all
  show ?case
  proof (cases "kvs = []")
    case True
    then show ?thesis by (intro parsesI) simp_all
  next
    case False
    obtain cs' where first: "join '','' (map renderMember kvs) = CHR 0x22 # cs'"
      using join_first [OF False, of renderMember "CHR 0x22"] by (auto simp: quoteStr_def)
    show ?thesis
    proof (rule parsesI)
      fix k' r assume k: "2 * length (render (JObj kvs)) \<le> Suc k'" and "stop r"
      have rv: "render (JObj kvs) = ''{'' @ join '','' (map renderMember kvs) @ ''}''" by (simp only: render.simps renderMembers)
      have "parseMembers k' (join '','' (map renderMember kvs) @ CHR ''}'' # r) = Some (kvs, r)"
        using k unfolding rv by (intro parseMembers_join [OF all False]) simp
      then show "parseV (Suc k') (render (JObj kvs) @ r) = Some (JObj kvs, r)"
        unfolding rv using first stable by simp
    qed simp
  qed
next
  case (JNum n)
  then obtain i where i: "n = NInt i" by (cases n) auto
  obtain c cs where c: "int_str i = c # cs" "isDigit c \<or> c = CHR ''-''" using int_str_hd by blast
  then have "\<not> jsonSpace c" "c \<noteq> CHR 0x22" "c \<noteq> CHR ''[''" "c \<noteq> CHR ''{''" "c \<noteq> CHR ''n''" "c \<noteq> CHR ''t''" "c \<noteq> CHR ''f''"
    using digit_solid isDigit_letters by auto
  with c parseNum_int_str [of _ i] show ?case
    by (intro parsesI) (simp_all add: i)
next
  case (JStr s)
  then show ?case
    using parseChars_quoted [of s] by (intro parsesI) (simp_all add: quoteStr_def)
next
  case (JBool b)
  then show ?case by (cases b) (rule parsesI; simp add: expectWord_def)+
next
  case JNull
  then show ?case by (intro parsesI) (simp_all add: expectWord_def)
qed simp_all

lemma jsonParse_render: "stableData v \<Longrightarrow> jsonParse (render v) = Inr v"
  using parsesD [OF parses_stable, of v "2 * length (render v)" "[]"] by (simp add: jsonParse_def stop_def skipWs_def)

lemma jsonParseBytes_stringify:
  assumes "stableData v"
  shows "\<exists>s. jsonStringify v = Some s \<and> jsonParseBytes (utf8Encode s) = Inr v"
  using jsonParse_render [OF assms] jsonStringify_render [OF stableData_json [OF assms]]
  by (simp add: jsonParseBytes_def utf8Decode_encode)

section \<open>Objects as bytes\<close>

text \<open>\<^verbatim>\<open>src/util/jsonBytes.js\<close>.\<close>

definition objectToBytes :: "jsval \<Rightarrow> bytes result" where
  "objectToBytes obj =
     (if \<not> truthy obj \<or> \<not> typeofObject obj \<or> isArray obj then Inl (Error ''objectToBytes(obj) requires a plain object'')
      else Inr (case jsonStringify obj of Some s \<Rightarrow> utf8Encode s | None \<Rightarrow> []))"

definition bytesToObject :: "bytes \<Rightarrow> jsval result" where
  "bytesToObject bs = bindR (jsonParseBytes bs) (\<lambda>parsed.
     if \<not> truthy parsed \<or> \<not> typeofObject parsed \<or> isArray parsed then Inl (Error ''bytesToObject(bytes) produced a non-object'')
     else Inr parsed)"

text \<open>An object printed to bytes is read back as the object, with its members in their order, and only objects are
  read: strings with every escape, integers, nesting to any depth. The parser is total, so reading ends on every input.\<close>

theorem object_bytes_roundtrip:
  assumes "stableData (JObj kvs)"
  shows "\<exists>bs. objectToBytes (JObj kvs) = Inr bs \<and> bytesToObject bs = Inr (JObj kvs)"
  using jsonParseBytes_stringify [OF assms] by (auto simp: objectToBytes_def bytesToObject_def)

theorem object_bytes_roundtrip_witness:
  "\<exists>bs. objectToBytes (JObj [(''b'', JStr [CHR 0x22, CHR 0x0A, CHR 0xE9]), (''a'', JArr [JInt (- 12), JNull, JObj []])]) = Inr bs
     \<and> bytesToObject bs = Inr (JObj [(''b'', JStr [CHR 0x22, CHR 0x0A, CHR 0xE9]), (''a'', JArr [JInt (- 12), JNull, JObj []])])"
proof (rule object_bytes_roundtrip)
  have "arrayIndex ''b'' = None" "arrayIndex ''a'' = None" by code_simp+
  then show "stableData (JObj [(''b'', JStr [CHR 0x22, CHR 0x0A, CHR 0xE9]), (''a'', JArr [JInt (- 12), JNull, JObj []])])"
    by (simp add: isIndexEntry_def)
qed

end
