(* ===== verification/Envelope.thy ===== *)
theory Envelope
  imports Ratchet Json_Parse
begin

text \<open>
  Messages (\<^verbatim>\<open>src/objects/{Link,Header,Envelope}.js\<close>), the encrypted body (\<^verbatim>\<open>src/objects/encryption\<close>), the inner
  codec chain (\<^verbatim>\<open>src/codec\<close>) and the encrypting and decrypting codecs. Every \<^verbatim>\<open>fromJSON\<close> is translated
  with its checks over arbitrary JavaScript values. The combination \<^verbatim>\<open>JSON.parse(new TextDecoder().decode(bytes))\<close> is
  the argument \<open>parse\<close>; what is used of it is that it inverts \<^verbatim>\<open>JSON.stringify\<close> on JSON data.
\<close>

section \<open>Links, headers and envelopes\<close>

record Link =
  link_rel :: string
  link_target :: string
  link_meta :: jsval

record Header =
  header_id :: string
  header_type :: string
  header_createdAt :: int
  header_links :: "Link list"

record Envelope =
  env_header :: Header
  env_body :: jsval
  env_meta :: jsval

fun isPlainObject :: "jsval \<Rightarrow> bool" where
  "isPlainObject (JBytes _) = True"
| "isPlainObject (JObj _) = True"
| "isPlainObject _ = False"

definition strOf :: "jsval \<Rightarrow> string" where
  "strOf v = (case v of JStr s \<Rightarrow> s | _ \<Rightarrow> [])"

definition newLink :: "jsval \<Rightarrow> jsval \<Rightarrow> jsval \<Rightarrow> Link result" where
  "newLink rel target meta =
     (if \<not> isNonEmptyString rel then Inl (RezInvariantError ''Link.rel must be a non-empty string'')
      else if \<not> isNonEmptyString target then Inl (RezInvariantError ''Link.target must be a non-empty string'')
      else if meta \<noteq> JUndef \<and> \<not> isPlainObject meta then Inl (RezInvariantError ''Link.meta must be a plain object'')
      else Inr \<lparr>link_rel = strOf rel, link_target = strOf target, link_meta = meta\<rparr>)"

definition link_toJSON :: "Link \<Rightarrow> jsval" where
  "link_toJSON l = JObj [(''schemaVersion'', JInt 1), (''rel'', JStr (link_rel l)), (''target'', JStr (link_target l)), (''meta'', link_meta l)]"

definition link_fromJSON :: "jsval \<Rightarrow> Link result" where
  "link_fromJSON json =
     (if \<not> truthy json \<or> \<not> typeofObject json then Inl (Error ''Link.fromJSON(json) requires an object'')
      else newLink (getProp json ''rel'') (getProp json ''target'') (getProp json ''meta''))"

definition newHeader :: "jsval \<Rightarrow> jsval \<Rightarrow> jsval \<Rightarrow> Link list \<Rightarrow> Header result" where
  "newHeader i ty createdAt links =
     (if \<not> isNonEmptyString i then Inl (RezInvariantError ''Header.id must be a non-empty string'')
      else if \<not> isNonEmptyString ty then Inl (RezInvariantError ''Header.type must be a non-empty string'')
      else case createdAt of
        JNum (NInt t) \<Rightarrow> Inr \<lparr>header_id = strOf i, header_type = strOf ty, header_createdAt = t, header_links = links\<rparr>
      | _ \<Rightarrow> Inl (RezInvariantError ''Header.createdAt must be a finite number''))"

definition header_toJSON :: "Header \<Rightarrow> jsval" where
  "header_toJSON h = JObj [(''schemaVersion'', JInt 1), (''id'', JStr (header_id h)), (''type'', JStr (header_type h)),
     (''createdAt'', JInt (header_createdAt h)), (''links'', JArr (map link_toJSON (header_links h)))]"

text \<open>\<^verbatim>\<open>(json.links ?? []).map((link) => Link.fromJSON(link))\<close>: an array, nothing, or a value without \<^verbatim>\<open>map\<close>. The
  \<^verbatim>\<open>map\<close> of a typed array gives a typed array, which the constructor refuses after the other fields.\<close>

definition header_fromJSON :: "jsval \<Rightarrow> Header result" where
  "header_fromJSON json =
     (if \<not> truthy json \<or> \<not> typeofObject json then Inl (Error ''Header.fromJSON(json) requires an object'')
      else
        let make = newHeader (getProp json ''id'') (getProp json ''type'') (getProp json ''createdAt'')
        in case getProp json ''links'' of
             JUndef \<Rightarrow> make []
           | JNull \<Rightarrow> make []
           | JArr xs \<Rightarrow> bindR (mapR link_fromJSON xs) make
           | JBytes bs \<Rightarrow> (if bs = [] then bindR (make []) (\<lambda>_. Inl (RezInvariantError ''Header.links must be an array''))
                           else Inl (Error ''Link.fromJSON(json) requires an object''))
           | _ \<Rightarrow> Inl (TypeError ''(json.links ?? []).map is not a function''))"

definition newEnvelope :: "Header \<Rightarrow> jsval \<Rightarrow> jsval \<Rightarrow> Envelope result" where
  "newEnvelope header body meta =
     (if body = JUndef then Inl (RezInvariantError ''Envelope.body is required'')
      else if meta \<noteq> JUndef \<and> \<not> isPlainObject meta then Inl (RezInvariantError ''Envelope.meta must be a plain object'')
      else Inr \<lparr>env_header = header, env_body = body, env_meta = meta\<rparr>)"

definition envelope_toJSON :: "Envelope \<Rightarrow> jsval" where
  "envelope_toJSON e = JObj [(''schemaVersion'', JInt 1), (''header'', header_toJSON (env_header e)), (''body'', env_body e), (''meta'', env_meta e)]"

definition envelope_fromJSON :: "jsval \<Rightarrow> Envelope result" where
  "envelope_fromJSON json =
     (if \<not> truthy json \<or> \<not> typeofObject json then Inl (Error ''Envelope.fromJSON(json) requires an object'')
      else if \<not> truthy (getProp json ''header'') then Inl (Error ''Envelope.fromJSON(json) requires header'')
      else bindR (header_fromJSON (getProp json ''header'')) (\<lambda>h. newEnvelope h (getProp json ''body'') (getProp json ''meta'')))"

section \<open>The inner codec chain\<close>

text \<open>\<^verbatim>\<open>CodecChain([CanonicalizeCodec, JsonCodec])\<close>: canonicalise, then print; decoding parses (the canonicalising codec
  decodes to itself).\<close>

definition canonicalizeCodec_encode :: "Envelope \<Rightarrow> Envelope result" where
  "canonicalizeCodec_encode e = envelope_fromJSON (canonicalize (envelope_toJSON e))"

definition stringifyBytes :: "jsval \<Rightarrow> bytes" where
  "stringifyBytes v = (case jsonStringify v of Some s \<Rightarrow> utf8Encode s | None \<Rightarrow> [])"

definition jsonCodec_encode :: "Envelope \<Rightarrow> bytes" where
  "jsonCodec_encode e = stringifyBytes (envelope_toJSON e)"

definition jsonCodec_decode :: "(bytes \<Rightarrow> jsval result) \<Rightarrow> bytes \<Rightarrow> Envelope result" where
  "jsonCodec_decode parse bs = bindR (parse bs) envelope_fromJSON"

definition innerChain_encode :: "Envelope \<Rightarrow> bytes result" where
  "innerChain_encode e = bindR (canonicalizeCodec_encode e) (\<lambda>e'. Inr (jsonCodec_encode e'))"

definition innerChain_decode :: "(bytes \<Rightarrow> jsval result) \<Rightarrow> bytes \<Rightarrow> Envelope result" where
  "innerChain_decode parse bs = jsonCodec_decode parse bs"

section \<open>The encrypted body\<close>

definition SUITE_V1 :: string where
  "SUITE_V1 = ''HKDF-SHA256/AES-256-GCM''"

record EncryptedEnvelopeV1 =
  enc_header :: RatchetHeaderV1
  enc_nonce :: bytes
  enc_ct :: bytes

definition newRatchetHeaderV1 :: "jsval \<Rightarrow> bytes \<Rightarrow> bytes option \<Rightarrow> jsval \<Rightarrow> jsval \<Rightarrow> jsval \<Rightarrow> jsval \<Rightarrow> RatchetHeaderV1 result" where
  "newRatchetHeaderV1 v sid dh dhAlg dhFmt pn n =
     (if v \<noteq> JInt 1 then Inl (RezInvariantError ''RatchetHeaderV1.v must be 1'')
      else if \<not> isString dhAlg \<or> strOf dhAlg = [] then Inl (RezInvariantError ''RatchetHeaderV1.dhAlg must be non-empty string'')
      else if dhFmt \<noteq> JStr ''raw'' \<and> dhFmt \<noteq> JStr ''spki'' then Inl (RezInvariantError ''RatchetHeaderV1.dhFmt must be raw or spki'')
      else case pn of
        JNum (NInt p) \<Rightarrow>
          if p < 0 then Inl (RezInvariantError ''RatchetHeaderV1.pn must be >= 0'')
          else (case n of
                  JNum (NInt i) \<Rightarrow>
                    if i < 0 then Inl (RezInvariantError ''RatchetHeaderV1.n must be >= 0'')
                    else Inr \<lparr>hdr_sid = sid, hdr_dh = dh, hdr_dhAlg = strOf dhAlg, hdr_dhFmt = strOf dhFmt, hdr_pn = p, hdr_n = i\<rparr>
                | _ \<Rightarrow> Inl (RezInvariantError ''RatchetHeaderV1.n must be >= 0''))
      | _ \<Rightarrow> Inl (RezInvariantError ''RatchetHeaderV1.pn must be >= 0''))"

definition ratchetHeader_toJSON :: "RatchetHeaderV1 \<Rightarrow> jsval" where
  "ratchetHeader_toJSON h = JObj [(''v'', JInt 1), (''sid'', arrayFrom (hdr_sid h)),
     (''dh'', case hdr_dh h of None \<Rightarrow> JNull | Some d \<Rightarrow> arrayFrom d), (''dhAlg'', JStr (hdr_dhAlg h)), (''dhFmt'', JStr (hdr_dhFmt h)),
     (''pn'', JInt (hdr_pn h)), (''n'', JInt (hdr_n h))]"

definition ratchetHeader_fromJSON :: "jsval \<Rightarrow> RatchetHeaderV1 result" where
  "ratchetHeader_fromJSON json =
     (if \<not> truthy json \<or> \<not> typeofObject json then Inl (Error ''RatchetHeaderV1.fromJSON(json) requires object'')
      else bindR (toBytes ''RatchetHeaderV1'' ''sid'' (getProp json ''sid'')) (\<lambda>sid.
        bindR (if isNullish (getProp json ''dh'') then Inr None
               else bindR (toBytes ''RatchetHeaderV1'' ''dh'' (getProp json ''dh'')) (\<lambda>d. Inr (Some d))) (\<lambda>dh.
          newRatchetHeaderV1 (getProp json ''v'') sid dh (getProp json ''dhAlg'') (getProp json ''dhFmt'') (getProp json ''pn'') (getProp json ''n''))))"

definition newEncryptedEnvelopeV1 :: "jsval \<Rightarrow> jsval \<Rightarrow> RatchetHeaderV1 \<Rightarrow> bytes \<Rightarrow> bytes \<Rightarrow> EncryptedEnvelopeV1 result" where
  "newEncryptedEnvelopeV1 v suite header nonce ct =
     (if v \<noteq> JInt 1 then Inl (RezInvariantError ''EncryptedEnvelopeV1.v must be 1'')
      else if suite \<noteq> JStr SUITE_V1 then Inl (RezInvariantError ''EncryptedEnvelopeV1.suite must be HKDF-SHA256/AES-256-GCM'')
      else if length nonce \<noteq> 12 then Inl (RezInvariantError ''EncryptedEnvelopeV1.nonce must be 12 bytes'')
      else if ct = [] then Inl (RezInvariantError ''EncryptedEnvelopeV1.ct must be non-empty bytes'')
      else Inr \<lparr>enc_header = header, enc_nonce = nonce, enc_ct = ct\<rparr>)"

definition encrypted_toJSON :: "EncryptedEnvelopeV1 \<Rightarrow> jsval" where
  "encrypted_toJSON e = JObj [(''v'', JInt 1), (''suite'', JStr SUITE_V1), (''header'', ratchetHeader_toJSON (enc_header e)),
     (''nonce'', arrayFrom (enc_nonce e)), (''ct'', arrayFrom (enc_ct e))]"

definition encrypted_fromJSON :: "jsval \<Rightarrow> EncryptedEnvelopeV1 result" where
  "encrypted_fromJSON json =
     (if \<not> truthy json \<or> \<not> typeofObject json then Inl (Error ''EncryptedEnvelopeV1.fromJSON(json) requires object'')
      else bindR (ratchetHeader_fromJSON (getProp json ''header'')) (\<lambda>header.
        bindR (toBytes ''EncryptedEnvelopeV1'' ''nonce'' (getProp json ''nonce'')) (\<lambda>nonce.
        bindR (toBytes ''EncryptedEnvelopeV1'' ''ct'' (getProp json ''ct'')) (\<lambda>ct.
          newEncryptedEnvelopeV1 (getProp json ''v'') (getProp json ''suite'') header nonce ct))))"

section \<open>Associated data\<close>

definition aadObject :: "Header \<Rightarrow> RatchetHeaderV1 \<Rightarrow> jsval" where
  "aadObject h rh = JObj [(''envSchemaVersion'', JInt 1),
     (''header'', JObj [(''schemaVersion'', JInt 1), (''id'', JStr (header_id h)), (''type'', JStr (header_type h)),
        (''createdAt'', JInt (header_createdAt h)), (''links'', JArr (map link_toJSON (header_links h)))]),
     (''encrypted'', JObj [(''v'', JInt 1), (''suite'', JStr SUITE_V1), (''ratchetHeader'', ratchetHeader_toJSON rh)])]"

definition buildAadBytesV1 :: "Header \<Rightarrow> EncryptedEnvelopeV1 \<Rightarrow> bytes" where
  "buildAadBytesV1 h enc = stringifyBytes (canonicalize (aadObject h (enc_header enc)))"

section \<open>Encrypting and decrypting\<close>

text \<open>The fields of \<^verbatim>\<open>ctx.meta.secureChannel\<close> are the session identifier, the ratchet state and the flag \<open>includeDh\<close>.\<close>

definition encryptEnvelope ::
  "crypto_provider \<Rightarrow> string \<Rightarrow> bytes \<Rightarrow> RatchetState \<Rightarrow> bool \<Rightarrow> Envelope \<Rightarrow> (Envelope \<times> RatchetState) result" where
  "encryptEnvelope c alg sid state includeDh envelope =
     bindR (innerChain_encode envelope) (\<lambda>innerBytes.
     let n = (case sendingChain state of Some ch \<Rightarrow> messageIndex ch | None \<Rightarrow> 0);
         pn = (case receivingChain state of Some ch \<Rightarrow> messageIndex ch | None \<Rightarrow> 0);
         dh = (if includeDh then Some (publicKey (selfDhKeyPair state)) else None);
         dhFmt = (if length (publicKey (selfDhKeyPair state)) = 32 then ''raw'' else ''spki'')
     in
     bindR (nextSendingMessageKey c state) (\<lambda>(messageKey, newState).
     bindR (deriveAeadKeyNonceV1 c messageKey sid pn n dh) (\<lambda>(aeadKey, nonce).
     bindR (newRatchetHeaderV1 (JInt 1) sid dh (JStr alg) (JStr dhFmt) (JInt pn) (JInt n)) (\<lambda>header.
     bindR (newEncryptedEnvelopeV1 (JInt 1) (JStr SUITE_V1) header nonce [0]) (\<lambda>encrypted.
     bindR (newHeader (JStr (header_id (env_header envelope))) (JStr ''rez.encrypted.v1'')
              (JInt (header_createdAt (env_header envelope))) (header_links (env_header envelope))) (\<lambda>outerHeader.
     bindR (encryptAes256Gcm c aeadKey nonce innerBytes (buildAadBytesV1 outerHeader encrypted)) (\<lambda>ct.
     bindR (newEncryptedEnvelopeV1 (JInt 1) (JStr SUITE_V1) header nonce ct) (\<lambda>final.
     bindR (newEnvelope outerHeader (encrypted_toJSON final) (env_meta envelope)) (\<lambda>outer.
       Inr (outer, newState))))))))))"

text \<open>Decryption. Like the receiving operation of the ratchet it returns the store of skipped keys it leaves behind.\<close>

definition decryptEnvelope ::
  "crypto_provider \<Rightarrow> string \<Rightarrow> (bytes \<Rightarrow> jsval result) \<Rightarrow> bytes \<Rightarrow> RatchetState \<Rightarrow> Envelope \<Rightarrow> SkippedKeyStore \<times> (Envelope \<times> RatchetState) result" where
  "decryptEnvelope c alg parse sid state envelope =
     (if header_type (env_header envelope) \<noteq> ''rez.encrypted.v1''
      then (skipped state, Inl (Error ''DecryptEnvelopeCodec.decode requires rez.encrypted.v1 envelope''))
      else case encrypted_fromJSON (env_body envelope) of
        Inl e \<Rightarrow> (skipped state, Inl e)
      | Inr encrypted \<Rightarrow>
          (case deriveReceivingKeyForHeader c alg state (enc_header encrypted) sid of
             (st, Inl e) \<Rightarrow> (st, Inl e)
           | (st, Inr (messageKey, nextState, used)) \<Rightarrow>
               (st, bindR (deriveAeadKeyNonceV1 c messageKey sid (hdr_pn (enc_header encrypted)) (hdr_n (enc_header encrypted)) (hdr_dh (enc_header encrypted)))
                      (\<lambda>(aeadKey, nonce).
                    bindR (decryptAes256Gcm c aeadKey nonce (enc_ct encrypted) (buildAadBytesV1 (env_header envelope) encrypted)) (\<lambda>innerBytes.
                    bindR (innerChain_decode parse innerBytes) (\<lambda>inner. Inr (inner, nextState)))))))"

section \<open>Parsing what was printed\<close>

text \<open>The value is its own property order: what a parser that assigns the members in the order of the text builds.\<close>

primrec propStable :: "jsval \<Rightarrow> bool" where
  "propStable JUndef = True"
| "propStable JNull = True"
| "propStable (JBool b) = True"
| "propStable (JNum n) = True"
| "propStable (JStr s) = True"
| "propStable (JBytes bs) = True"
| "propStable (JArr xs) = list_all id (map propStable xs)"
| "propStable (JObj kvs) = (list_all (\<lambda>p. \<not> isIndexEntry p) kvs \<and> list_all snd (map (map_prod id propStable) kvs))"

text \<open>The law of \<^verbatim>\<open>JSON.parse\<close> after \<^verbatim>\<open>TextDecoder\<close>: it inverts printing on JSON data.\<close>

definition parse_lawful :: "(bytes \<Rightarrow> jsval result) \<Rightarrow> bool" where
  "parse_lawful parse \<longleftrightarrow> (\<forall>v. json_data v \<longrightarrow> wf_js v \<longrightarrow> propStable v \<longrightarrow> parse (stringifyBytes v) = Inr v)"

text \<open>The parser of \<^verbatim>\<open>Json_Parse\<close> satisfies the law.\<close>

lemma stableData_iff: "json_data v \<Longrightarrow> wf_js v \<Longrightarrow> propStable v \<Longrightarrow> stableData v"
  by (induction v) (auto simp: list_all_iff snds.simps)

lemma jsonParseBytes_lawful [simp]: "parse_lawful jsonParseBytes"
  unfolding parse_lawful_def stringifyBytes_def using stableData_iff jsonParseBytes_stringify by (metis option.simps(5))

lemma not_index_key: "k \<noteq> [] \<Longrightarrow> \<not> isDigit (hd k) \<Longrightarrow> arrayIndex k = None"
proof -
  assume "k \<noteq> []" "\<not> isDigit (hd k)"
  then have "k \<noteq> nat_str n" for n using nat_str_isDigit [of "hd k" n] by (metis hd_in_set)
  then show ?thesis by (simp add: arrayIndex_def Let_def)
qed

lemma not_index_entry: "k \<noteq> [] \<Longrightarrow> \<not> isDigit (hd k) \<Longrightarrow> \<not> isIndexEntry (k, v)"
  by (simp add: isIndexEntry_def not_index_key)

lemma arrayFrom_json [simp]: "json_data (arrayFrom bs)" "wf_js (arrayFrom bs)" "propStable (arrayFrom bs)"
  by (simp_all add: arrayFrom_def list_all_iff)

text \<open>A member that is undefined is not printed.\<close>

lemma stringify_undef_last: "stringifyBytes (JObj (kvs @ [(k, JUndef)])) = stringifyBytes (JObj kvs)"
  by (simp add: stringifyBytes_def List.map_filter_def jsonMember_def)

section \<open>Round trips of the records\<close>

definition header_ok :: "Header \<Rightarrow> bool" where
  "header_ok h \<longleftrightarrow> trim (header_id h) \<noteq> [] \<and> trim (header_type h) \<noteq> [] \<and> header_links h = []"

lemma header_fromJSON_toJSON: "header_ok h \<Longrightarrow> header_fromJSON (header_toJSON h) = Inr h"
  by (cases h) (simp add: header_ok_def header_fromJSON_def header_toJSON_def newHeader_def strOf_def)

lemma header_toJSON_json [simp]: "header_ok h \<Longrightarrow> json_data (header_toJSON h) \<and> wf_js (header_toJSON h) \<and> propStable (header_toJSON h)"
  by (simp add: header_ok_def header_toJSON_def) (simp add: not_index_entry isDigit_def)

lemma map_of_filter_keys: "P k \<Longrightarrow> map_of (filter (\<lambda>p. P (fst p)) kvs) k = map_of kvs k"
  by (induction kvs) auto

lemma map_of_mset_cong: "mset xs = mset ys \<Longrightarrow> distinct (map fst xs) \<Longrightarrow> map_of xs = map_of ys"
  by (metis map_of_eqI mset_eq_setD mset_map mset_eq_imp_distinct_iff map_of_inject_set set_map)

lemma getProp_canonicalize:
  assumes "distinct (map fst kvs)" "k \<noteq> ''__proto__''"
  shows "getProp (canonicalize (JObj kvs)) k = canonicalize (getProp (JObj kvs) k)"
proof -
  let ?E = "map (map_prod id canonicalize) kvs"
  let ?F = "filter (\<lambda>p. fst p \<noteq> ''__proto__'') (sort_key fst ?E)"
  have "distinct (map fst (sort_key fst ?E))" using assms(1) by (intro distinct_sort_entries) simp
  then have dF: "distinct (map fst ?F)" by (rule distinct_map_filter)
  have "map_of (propOrder ?F) = map_of ?F" using dF by (intro map_of_mset_cong [symmetric]) simp_all
  then have "map_of (propOrder ?F) k = map_of (sort_key fst ?E) k" using assms(2) map_of_filter_keys [of "\<lambda>x. x \<noteq> ''__proto__''"] by simp
  also have "\<dots> = map_of ?E k" using assms(1) by (intro fun_cong [OF map_of_mset_cong [symmetric]]) simp_all
  also have "\<dots> = map_option canonicalize (map_of kvs k)" by (induction kvs) auto
  finally show ?thesis using assms(1) by (simp add: canonicalize_JObj del: canonicalize.simps(8) split: option.splits)
qed

text \<open>The envelopes the secure channel sends: a text body, no meta.\<close>

definition payloadEnvelope :: "Header \<Rightarrow> string \<Rightarrow> Envelope" where
  "payloadEnvelope h raw = \<lparr>env_header = h, env_body = JObj [(''raw'', JStr raw)], env_meta = JUndef\<rparr>"

lemma canonicalize_raw [simp]: "canonicalize (JObj [(''raw'', JStr raw)]) = JObj [(''raw'', JStr raw)]"
  by (simp add: setProp_def not_index_key isDigit_def)

lemma canonicalize_header:
  assumes "header_ok h"
  shows "header_fromJSON (canonicalize (header_toJSON h)) = Inr h"
proof -
  let ?kvs = "[(''schemaVersion'', JInt 1), (''id'', JStr (header_id h)), (''type'', JStr (header_type h)),
     (''createdAt'', JInt (header_createdAt h)), (''links'', JArr (map link_toJSON (header_links h)))]"
  obtain kvs' where obj: "canonicalize (JObj ?kvs) = JObj kvs'" by simp
  have "getProp (JObj kvs') k = canonicalize (getProp (JObj ?kvs) k)" if "k \<noteq> ''__proto__''" for k
    using getProp_canonicalize [of ?kvs k] that unfolding obj [symmetric] by simp
  then have "getProp (JObj kvs') ''id'' = JStr (header_id h)" "getProp (JObj kvs') ''type'' = JStr (header_type h)"
    "getProp (JObj kvs') ''createdAt'' = JInt (header_createdAt h)" "getProp (JObj kvs') ''links'' = JArr []"
    using assms by (simp_all add: header_ok_def)
  moreover have "canonicalize (header_toJSON h) = JObj kvs'" by (simp only: header_toJSON_def obj)
  ultimately show ?thesis
    using assms by (cases h) (simp add: header_fromJSON_def newHeader_def strOf_def header_ok_def del: getProp.simps)
qed

lemma canonicalizeCodec_payload:
  assumes "header_ok h"
  shows "canonicalizeCodec_encode (payloadEnvelope h raw) = Inr (payloadEnvelope h raw)"
proof -
  let ?kvs = "[(''schemaVersion'', JInt 1), (''header'', header_toJSON h), (''body'', JObj [(''raw'', JStr raw)]), (''meta'', JUndef)]"
  obtain kvs' where obj: "canonicalize (JObj ?kvs) = JObj kvs'" by simp
  have "getProp (JObj kvs') k = canonicalize (getProp (JObj ?kvs) k)" if "k \<noteq> ''__proto__''" for k
    using getProp_canonicalize [of ?kvs k] that unfolding obj [symmetric] by simp
  then have "getProp (JObj kvs') ''header'' = canonicalize (header_toJSON h)" "getProp (JObj kvs') ''body'' = JObj [(''raw'', JStr raw)]"
    "getProp (JObj kvs') ''meta'' = JUndef"
    by (simp_all del: canonicalize.simps(8))
  moreover have "truthy (canonicalize (header_toJSON h))" by (simp add: header_toJSON_def)
  ultimately show ?thesis
    using canonicalize_header [OF assms]
    by (simp add: canonicalizeCodec_encode_def payloadEnvelope_def envelope_toJSON_def obj envelope_fromJSON_def newEnvelope_def del: getProp.simps canonicalize.simps)
qed

lemma envelope_reparsed:
  assumes "header_ok h" "body \<noteq> JUndef"
  shows "envelope_fromJSON (JObj [(''schemaVersion'', JInt 1), (''header'', header_toJSON h), (''body'', body)])
     = Inr \<lparr>env_header = h, env_body = body, env_meta = JUndef\<rparr>"
proof -
  have "truthy (header_toJSON h)" by (simp add: header_toJSON_def)
  then show ?thesis using assms header_fromJSON_toJSON by (simp add: envelope_fromJSON_def newEnvelope_def)
qed

lemma parse_envelope:
  assumes "parse_lawful parse" "header_ok h" "json_data body" "wf_js body" "propStable body"
  shows "parse (stringifyBytes (envelope_toJSON \<lparr>env_header = h, env_body = body, env_meta = JUndef\<rparr>))
     = Inr (JObj [(''schemaVersion'', JInt 1), (''header'', header_toJSON h), (''body'', body)])"
proof -
  let ?v = "JObj [(''schemaVersion'', JInt 1), (''header'', header_toJSON h), (''body'', body)]"
  have "json_data ?v" "wf_js ?v" "propStable ?v"
    using assms header_toJSON_json [OF assms(2)] by (simp_all add: not_index_entry isDigit_def)
  then have "parse (stringifyBytes ?v) = Inr ?v" using assms(1) unfolding parse_lawful_def by blast
  moreover have "stringifyBytes (envelope_toJSON \<lparr>env_header = h, env_body = body, env_meta = JUndef\<rparr>) = stringifyBytes ?v"
    using stringify_undef_last [of "[(''schemaVersion'', JInt 1), (''header'', header_toJSON h), (''body'', body)]" "''meta''"]
    by (simp add: envelope_toJSON_def)
  ultimately show ?thesis by simp
qed

lemma innerChain_roundtrip:
  assumes "parse_lawful parse" "header_ok h"
  shows "\<exists>bs. innerChain_encode (payloadEnvelope h raw) = Inr bs \<and> innerChain_decode parse bs = Inr (payloadEnvelope h raw)"
proof -
  have "innerChain_encode (payloadEnvelope h raw) = Inr (stringifyBytes (envelope_toJSON (payloadEnvelope h raw)))"
    using canonicalizeCodec_payload [OF assms(2)] by (simp add: innerChain_encode_def jsonCodec_encode_def)
  moreover have "innerChain_decode parse (stringifyBytes (envelope_toJSON (payloadEnvelope h raw))) = Inr (payloadEnvelope h raw)"
    using parse_envelope [OF assms, of "JObj [(''raw'', JStr raw)]"] envelope_reparsed [OF assms(2), of "JObj [(''raw'', JStr raw)]"]
    by (simp add: innerChain_decode_def jsonCodec_decode_def payloadEnvelope_def not_index_entry isDigit_def)
  ultimately show ?thesis by simp
qed

text \<open>The encrypted body.\<close>

definition ratchetHeader_ok :: "RatchetHeaderV1 \<Rightarrow> bool" where
  "ratchetHeader_ok h \<longleftrightarrow> hdr_dhAlg h \<noteq> [] \<and> hdr_dhFmt h \<in> {''raw'', ''spki''} \<and> 0 \<le> hdr_pn h \<and> 0 \<le> hdr_n h"

definition encrypted_ok :: "EncryptedEnvelopeV1 \<Rightarrow> bool" where
  "encrypted_ok e \<longleftrightarrow> ratchetHeader_ok (enc_header e) \<and> length (enc_nonce e) = 12 \<and> enc_ct e \<noteq> []"

lemma isNullish_arrayFrom [simp]: "\<not> isNullish (arrayFrom bs)"
  by (simp add: arrayFrom_def)

lemma ratchetHeader_roundtrip: "ratchetHeader_ok h \<Longrightarrow> ratchetHeader_fromJSON (ratchetHeader_toJSON h) = Inr h"
  by (cases h) (auto simp: ratchetHeader_ok_def ratchetHeader_fromJSON_def ratchetHeader_toJSON_def newRatchetHeaderV1_def strOf_def split: option.splits)

lemma encrypted_roundtrip: "encrypted_ok e \<Longrightarrow> encrypted_fromJSON (encrypted_toJSON e) = Inr e"
  by (cases e) (simp add: encrypted_ok_def encrypted_fromJSON_def encrypted_toJSON_def newEncryptedEnvelopeV1_def ratchetHeader_roundtrip)

lemma encrypted_json [simp]: "json_data (encrypted_toJSON e)" "wf_js (encrypted_toJSON e)" "propStable (encrypted_toJSON e)"
  by (simp_all add: encrypted_toJSON_def ratchetHeader_toJSON_def not_index_entry isDigit_def split: option.splits)

section \<open>Encryption and decryption\<close>

text \<open>The plaintext bytes, the header and the keys that the encrypting codec uses for a message of index \<open>n\<close>.\<close>

lemma encryptEnvelope_payload:
  assumes "hkdf_lawful c" "hash_lawful c" "aead_lawful c" "parse_lawful parse" "header_ok h" "alg \<noteq> []"
    and "sendingChain state = Some (chainState c ck n)" "pred_option (\<lambda>ch. 0 \<le> messageIndex ch) (receivingChain state)"
  shows "\<exists>enc key nonce. encryptEnvelope c alg sid state includeDh (payloadEnvelope h raw)
       = Inr (\<lparr>env_header = h\<lparr>header_type := ''rez.encrypted.v1''\<rparr>, env_body = encrypted_toJSON enc, env_meta = JUndef\<rparr>,
              state\<lparr>sendingChain := Some (chainState c ck (Suc n))\<rparr>)
     \<and> encrypted_ok enc \<and> hdr_sid (enc_header enc) = sid \<and> hdr_n (enc_header enc) = int n
     \<and> hdr_dh (enc_header enc) = (if includeDh then Some (publicKey (selfDhKeyPair state)) else None)
     \<and> deriveAeadKeyNonceV1 c (keyAt c ck n) sid (hdr_pn (enc_header enc)) (int n) (hdr_dh (enc_header enc)) = Inr (key, nonce)
     \<and> bindR (decryptAes256Gcm c key nonce (enc_ct enc) (buildAadBytesV1 (h\<lparr>header_type := ''rez.encrypted.v1''\<rparr>) enc)) (innerChain_decode parse)
         = Inr (payloadEnvelope h raw)"
proof -
  obtain inner where inner: "innerChain_encode (payloadEnvelope h raw) = Inr inner" "innerChain_decode parse inner = Inr (payloadEnvelope h raw)"
    using innerChain_roundtrip [OF assms(4,5)] by blast
  define pn where "pn = (case receivingChain state of Some ch \<Rightarrow> messageIndex ch | None \<Rightarrow> 0)"
  define dh where "dh = (if includeDh then Some (publicKey (selfDhKeyPair state)) else None)"
  define fmt where "fmt = (if length (publicKey (selfDhKeyPair state)) = 32 then ''raw'' else ''spki'')"
  have pn: "0 \<le> pn" using assms(8) by (auto simp: pn_def split: option.splits)
  obtain key nonce where kn: "deriveAeadKeyNonceV1 c (keyAt c ck n) sid pn (int n) dh = Inr (key, nonce)" "length key = 32" "length nonce = 12"
    using deriveAeadKeyNonceV1_total [OF assms(1,2) pn, of "int n" "keyAt c ck n" sid dh] by auto
  define rh where "rh = \<lparr>hdr_sid = sid, hdr_dh = dh, hdr_dhAlg = alg, hdr_dhFmt = fmt, hdr_pn = pn, hdr_n = int n\<rparr>"
  let ?h = "h\<lparr>header_type := ''rez.encrypted.v1''\<rparr>"
  let ?aad = "stringifyBytes (canonicalize (aadObject ?h rh))"
  obtain ct where ct: "aeadEncrypt c key nonce inner ?aad = Inr ct" "16 \<le> length ct" "aeadDecrypt c key nonce ct ?aad = Inr inner"
    using assms(3) unfolding aead_lawful_def by blast
  define enc where "enc = \<lparr>enc_header = rh, enc_nonce = nonce, enc_ct = ct\<rparr>"
  have fmt: "fmt \<in> {''raw'', ''spki''}" by (simp add: fmt_def)
  have ok: "encrypted_ok enc" using fmt assms(6) pn kn(3) ct(2) by (auto simp: enc_def encrypted_ok_def ratchetHeader_ok_def rh_def)
  have rh: "newRatchetHeaderV1 (JInt 1) sid dh (JStr alg) (JStr fmt) (JInt pn) (JInt (int n)) = Inr rh"
    using fmt assms(6) pn by (auto simp: newRatchetHeaderV1_def strOf_def rh_def)
  have outer: "newHeader (JStr (header_id h)) (JStr ''rez.encrypted.v1'') (JInt (header_createdAt h)) (header_links h) = Inr ?h"
    using assms(5) by (cases h) (simp add: newHeader_def strOf_def header_ok_def trim_def isSpace_def)
  have "ct \<noteq> []" using ct(2) by auto
  then have "encryptEnvelope c alg sid state includeDh (payloadEnvelope h raw)
      = Inr (\<lparr>env_header = ?h, env_body = encrypted_toJSON enc, env_meta = JUndef\<rparr>, state\<lparr>sendingChain := Some (chainState c ck (Suc n))\<rparr>)"
    using inner(1) nextSending_at [OF assms(1,7)] assms(7) kn rh outer ct(1)
    by (simp add: encryptEnvelope_def Let_def pn_def dh_def fmt_def newEncryptedEnvelopeV1_def buildAadBytesV1_def encryptAes256Gcm_def
        payloadEnvelope_def newEnvelope_def enc_def) (simp add: encrypted_toJSON_def)
  moreover have "bindR (decryptAes256Gcm c key nonce (enc_ct enc) (buildAadBytesV1 ?h enc)) (innerChain_decode parse) = Inr (payloadEnvelope h raw)"
    using kn ct inner by (simp add: decryptAes256Gcm_def enc_def buildAadBytesV1_def)
  ultimately show ?thesis using ok kn(1) by (intro exI [of _ enc] exI [of _ key] exI [of _ nonce]) (simp add: enc_def rh_def dh_def)
qed

text \<open>Decryption of such a message by a receiver in step with the chain.\<close>

lemma decryptEnvelope_payload:
  assumes "header_type eh = ''rez.encrypted.v1''" "encrypted_ok enc"
    and "deriveReceivingKeyForHeader c alg state (enc_header enc) sid = (st, Inr (mk, ns, used))"
    and "deriveAeadKeyNonceV1 c mk sid (hdr_pn (enc_header enc)) (hdr_n (enc_header enc)) (hdr_dh (enc_header enc)) = Inr (key, nonce)"
    and "bindR (decryptAes256Gcm c key nonce (enc_ct enc) (buildAadBytesV1 eh enc)) (innerChain_decode parse) = Inr inner"
  shows "decryptEnvelope c alg parse sid state \<lparr>env_header = eh, env_body = encrypted_toJSON enc, env_meta = m\<rparr> = (st, Inr (inner, ns))"
  using assms by (auto simp: decryptEnvelope_def encrypted_roundtrip bindR_eq_Inr)

end
