(* ===== verification/Session_Manager.thy ===== *)
theory Session_Manager
  imports Envelope
begin

text \<open>
  Persistence of the ratchet (\<^verbatim>\<open>toJSON\<close>/\<^verbatim>\<open>fromJSON\<close> in \<^verbatim>\<open>src/objects/ratchet\<close>) and the session table
  (\<^verbatim>\<open>src/services/sessions/MemorySessionManager.js\<close>). The table's two maps point to one mutable record, so the
  records live in a list of cells and the maps hold cell numbers: a commit through the send context is seen by the
  receive context.
\<close>

section \<open>Persistence of ratchet states\<close>

definition chain_toJSON :: "RatchetChainState \<Rightarrow> jsval" where
  "chain_toJSON ch = JObj [(''chainKey'', arrayFrom (chainKey ch)), (''messageIndex'', JInt (messageIndex ch))]"

definition chain_fromJSON :: "jsval \<Rightarrow> RatchetChainState result" where
  "chain_fromJSON json =
     (if \<not> truthy json \<or> \<not> typeofObject json then Inl (Error ''RatchetChainState.fromJSON(json) requires object'')
      else bindR (toBytes ''RatchetChainState'' ''chainKey'' (getProp json ''chainKey'')) (\<lambda>ck.
        case getProp json ''messageIndex'' of
          JNum (NInt i) \<Rightarrow> if 0 \<le> i then Inr \<lparr>chainKey = ck, messageIndex = i\<rparr>
                          else Inl (RezInvariantError ''RatchetChainState.messageIndex must be >= 0'')
        | _ \<Rightarrow> Inl (RezInvariantError ''RatchetChainState.messageIndex must be >= 0'')))"

definition keyPair_toJSON :: "key_pair \<Rightarrow> jsval" where
  "keyPair_toJSON kp = JObj [(''publicKey'', arrayFrom (publicKey kp)), (''privateKey'', arrayFrom (privateKey kp))]"

definition keyPair_fromJSON :: "jsval \<Rightarrow> key_pair result" where
  "keyPair_fromJSON json =
     (if \<not> truthy json \<or> \<not> typeofObject json then Inl (Error ''RatchetKeyPair.fromJSON(json) requires object'')
      else bindR (toBytes ''RatchetKeyPair'' ''publicKey'' (getProp json ''publicKey'')) (\<lambda>pub.
        bindR (toBytes ''RatchetKeyPair'' ''privateKey'' (getProp json ''privateKey'')) (\<lambda>priv.
          Inr \<lparr>publicKey = pub, privateKey = priv\<rparr>)))"

text \<open>A limit: \<^verbatim>\<open>json.maxSkip ?? DEFAULT\<close>, then the check of the constructor.\<close>

definition limitOf :: "jsval \<Rightarrow> int \<Rightarrow> string \<Rightarrow> int result" where
  "limitOf v dflt label =
     (let bad = Inl (RezInvariantError (''RatchetState.'' @ label @ '' must be number >= 0''))
      in if isNullish v then Inr dflt
         else case v of JNum (NInt i) \<Rightarrow> if 0 \<le> i then Inr i else bad | _ \<Rightarrow> bad)"

definition ratchetState_toJSON :: "RatchetState \<Rightarrow> jsval" where
  "ratchetState_toJSON s = JObj [(''rootKey'', arrayFrom (rootKey s)),
     (''sendingChain'', case sendingChain s of None \<Rightarrow> JNull | Some ch \<Rightarrow> chain_toJSON ch),
     (''receivingChain'', case receivingChain s of None \<Rightarrow> JNull | Some ch \<Rightarrow> chain_toJSON ch),
     (''selfDhKeyPair'', keyPair_toJSON (selfDhKeyPair s)), (''remoteDhPublicKey'', arrayFrom (remoteDhPublicKey s)),
     (''skipped'', skipped_toJSON (skipped s)), (''maxSkip'', JInt (maxSkip s)),
     (''maxSkippedKeys'', JInt (maxSkippedKeys s)), (''maxSkippedBytes'', JInt (maxSkippedBytes s))]"

definition optionalFromJSON :: "(jsval \<Rightarrow> 'a result) \<Rightarrow> jsval \<Rightarrow> 'a option result" where
  "optionalFromJSON f v = (if truthy v then bindR (f v) (\<lambda>x. Inr (Some x)) else Inr None)"

definition ratchetState_fromJSON :: "jsval \<Rightarrow> RatchetState result" where
  "ratchetState_fromJSON json =
     (if \<not> truthy json \<or> \<not> typeofObject json then Inl (Error ''RatchetState.fromJSON(json) requires object'')
      else bindR (toBytes ''RatchetState'' ''rootKey'' (getProp json ''rootKey'')) (\<lambda>root.
        bindR (optionalFromJSON chain_fromJSON (getProp json ''sendingChain'')) (\<lambda>sc.
        bindR (optionalFromJSON chain_fromJSON (getProp json ''receivingChain'')) (\<lambda>rc.
        bindR (keyPair_fromJSON (getProp json ''selfDhKeyPair'')) (\<lambda>kp.
        bindR (toBytes ''RatchetState'' ''remoteDhPublicKey'' (getProp json ''remoteDhPublicKey'')) (\<lambda>remote.
        bindR (if truthy (getProp json ''skipped'') then skipped_fromJSON (getProp json ''skipped'') else Inr emptySkippedKeyStore) (\<lambda>sk.
        bindR (limitOf (getProp json ''maxSkip'') DEFAULT_MAX_SKIP ''maxSkip'') (\<lambda>ms.
        bindR (limitOf (getProp json ''maxSkippedKeys'') DEFAULT_MAX_SKIPPED_KEYS ''maxSkippedKeys'') (\<lambda>mk.
        bindR (limitOf (getProp json ''maxSkippedBytes'') DEFAULT_MAX_SKIPPED_BYTES ''maxSkippedBytes'') (\<lambda>mb.
          Inr \<lparr>rootKey = root, sendingChain = sc, receivingChain = rc, selfDhKeyPair = kp, remoteDhPublicKey = remote,
               skipped = sk, maxSkip = ms, maxSkippedKeys = mk, maxSkippedBytes = mb\<rparr>))))))))))"

text \<open>What every state of the library satisfies: the constructors check it and the operations keep it.\<close>

definition ratchetState_ok :: "RatchetState \<Rightarrow> bool" where
  "ratchetState_ok s \<longleftrightarrow> pred_option (\<lambda>ch. 0 \<le> messageIndex ch) (sendingChain s) \<and> pred_option (\<lambda>ch. 0 \<le> messageIndex ch) (receivingChain s)
     \<and> skipped_wf (skipped s) \<and> (\<forall>e\<in>set (entries (skipped s)). fst e \<noteq> [])
     \<and> 0 \<le> maxSkip s \<and> 0 \<le> maxSkippedKeys s \<and> 0 \<le> maxSkippedBytes s"

lemma chain_roundtrip: "0 \<le> messageIndex ch \<Longrightarrow> optionalFromJSON chain_fromJSON (chain_toJSON ch) = Inr (Some ch)"
  by (cases ch) (simp add: chain_fromJSON_def chain_toJSON_def optionalFromJSON_def)

lemma keyPair_roundtrip: "keyPair_fromJSON (keyPair_toJSON kp) = Inr kp"
  by (cases kp) (simp add: keyPair_fromJSON_def keyPair_toJSON_def)

lemma limitOf_int: "0 \<le> i \<Longrightarrow> limitOf (JInt i) d l = Inr i"
  by (simp add: limitOf_def)

lemma ratchetState_roundtrip:
  assumes "ratchetState_ok s"
  shows "ratchetState_fromJSON (ratchetState_toJSON s) = Inr s"
proof -
  have sc: "optionalFromJSON chain_fromJSON (case sendingChain s of None \<Rightarrow> JNull | Some ch \<Rightarrow> chain_toJSON ch) = Inr (sendingChain s)"
    using assms by (cases "sendingChain s") (simp_all add: ratchetState_ok_def chain_roundtrip, simp add: optionalFromJSON_def)
  have rc: "optionalFromJSON chain_fromJSON (case receivingChain s of None \<Rightarrow> JNull | Some ch \<Rightarrow> chain_toJSON ch) = Inr (receivingChain s)"
    using assms by (cases "receivingChain s") (simp_all add: ratchetState_ok_def chain_roundtrip, simp add: optionalFromJSON_def)
  have sk: "skipped_fromJSON (skipped_toJSON (skipped s)) = Inr (skipped s)" "truthy (skipped_toJSON (skipped s))"
    using assms by (simp_all add: ratchetState_ok_def skipped_roundtrip) (simp add: skipped_toJSON_def)
  have lim: "0 \<le> maxSkip s" "0 \<le> maxSkippedKeys s" "0 \<le> maxSkippedBytes s" using assms by (simp_all add: ratchetState_ok_def)
  show ?thesis
    unfolding ratchetState_fromJSON_def ratchetState_toJSON_def
    by (cases s) (use sc rc sk lim in \<open>simp add: keyPair_roundtrip limitOf_int\<close>)
qed

section \<open>The session table\<close>

record SecureSessionRecord =
  ses_sid :: bytes
  ses_peerId :: string
  ses_ratchetState :: RatchetState
  ses_includeDh :: bool

record SessionManager =
  cells :: "SecureSessionRecord list"
  bySidHex :: "(string \<times> nat) list"
  byPeerId :: "(string \<times> nat) list"

definition newSecureSessionRecord :: "bytes \<Rightarrow> string \<Rightarrow> RatchetState \<Rightarrow> bool \<Rightarrow> SecureSessionRecord result" where
  "newSecureSessionRecord sid peerId state includeDh =
     (if sid = [] then Inl (RezInvariantError ''SecureSessionRecord.sid must be non-empty Uint8Array'')
      else if trim peerId = [] then Inl (RezInvariantError ''SecureSessionRecord.peerId must be non-empty string'')
      else Inr \<lparr>ses_sid = sid, ses_peerId = peerId, ses_ratchetState = state, ses_includeDh = includeDh\<rparr>)"

definition session_toJSON :: "SecureSessionRecord \<Rightarrow> jsval" where
  "session_toJSON r = JObj [(''sid'', JStr (bytesToBase64 (ses_sid r))), (''peerId'', JStr (ses_peerId r)),
     (''ratchetState'', ratchetState_toJSON (ses_ratchetState r)), (''includeDh'', JBool (ses_includeDh r))]"

text \<open>\<^verbatim>\<open>base64ToBytes\<close> requires a string; the constructor requires the other types.\<close>

definition session_fromJSON :: "jsval \<Rightarrow> SecureSessionRecord result" where
  "session_fromJSON json =
     (if \<not> truthy json \<or> \<not> typeofObject json then Inl (Error ''SecureSessionRecord.fromJSON requires object'')
      else bindR (case getProp json ''sid'' of JStr s \<Rightarrow> base64ToBytes s
                  | _ \<Rightarrow> Inl (Error ''base64ToBytes(base64) requires string'')) (\<lambda>sid.
        bindR (ratchetState_fromJSON (getProp json ''ratchetState'')) (\<lambda>state.
        if sid = [] then Inl (RezInvariantError ''SecureSessionRecord.sid must be non-empty Uint8Array'')
        else if \<not> isNonEmptyString (getProp json ''peerId'') then Inl (RezInvariantError ''SecureSessionRecord.peerId must be non-empty string'')
        else case getProp json ''includeDh'' of
               JBool b \<Rightarrow> Inr \<lparr>ses_sid = sid, ses_peerId = strOf (getProp json ''peerId''), ses_ratchetState = state, ses_includeDh = b\<rparr>
             | _ \<Rightarrow> Inl (RezInvariantError ''SecureSessionRecord.includeDh must be boolean''))))"

definition emptySessions :: SessionManager where
  "emptySessions = \<lparr>cells = [], bySidHex = [], byPeerId = []\<rparr>"

text \<open>A new record in a new cell, entered in both maps.\<close>

definition addSession :: "SessionManager \<Rightarrow> SecureSessionRecord \<Rightarrow> SessionManager" where
  "addSession m r = m\<lparr>cells := cells m @ [r],
     bySidHex := AList.update (bytesToHex (ses_sid r)) (length (cells m)) (bySidHex m),
     byPeerId := AList.update (ses_peerId r) (length (cells m)) (byPeerId m)\<rparr>"

definition createInitiatorSession ::
  "crypto_provider \<Rightarrow> SessionManager \<Rightarrow> string \<Rightarrow> bytes \<Rightarrow> key_pair \<Rightarrow> bytes \<Rightarrow> (bytes \<times> SessionManager) result" where
  "createInitiatorSession c m peerId sharedSecret self remote =
     (if trim peerId = [] then Inl (Error ''MemorySessionManager.createInitiatorSession requires peerId'')
      else bindR (deriveSessionIdV1 c sharedSecret) (\<lambda>sid.
        bindR (newSecureSessionRecord sid peerId (initializeAsInitiator sharedSecret self remote) False) (\<lambda>r.
          Inr (sid, addSession m r))))"

definition createResponderSession ::
  "crypto_provider \<Rightarrow> SessionManager \<Rightarrow> string \<Rightarrow> bytes \<Rightarrow> key_pair \<Rightarrow> bytes \<Rightarrow> (bytes \<times> SessionManager) result" where
  "createResponderSession c m peerId sharedSecret self remote =
     (if trim peerId = [] then Inl (Error ''MemorySessionManager.createResponderSession requires peerId'')
      else bindR (deriveSessionIdV1 c sharedSecret) (\<lambda>sid.
        bindR (newSecureSessionRecord sid peerId (initializeAsResponder sharedSecret self remote) False) (\<lambda>r.
          Inr (sid, addSession m r))))"

text \<open>A context names the cell its \<^verbatim>\<open>commit\<close> closure writes to.\<close>

definition getSendContext :: "SessionManager \<Rightarrow> string \<Rightarrow> nat result" where
  "getSendContext m peerId = (case map_of (byPeerId m) peerId of None \<Rightarrow> Inl (NoSessionForPeerError peerId) | Some i \<Rightarrow> Inr i)"

definition getRecvContext :: "SessionManager \<Rightarrow> bytes \<Rightarrow> nat result" where
  "getRecvContext m sid = (case map_of (bySidHex m) (bytesToHex sid) of None \<Rightarrow> Inl (UnknownSessionError (bytesToHex sid)) | Some i \<Rightarrow> Inr i)"

definition writeCell :: "SessionManager \<Rightarrow> nat \<Rightarrow> SecureSessionRecord \<Rightarrow> SessionManager" where
  "writeCell m i r = m\<lparr>cells := (cells m)[i := r]\<rparr>"

definition commitSend :: "SessionManager \<Rightarrow> nat \<Rightarrow> RatchetState \<Rightarrow> bool \<Rightarrow> SessionManager" where
  "commitSend m i nextState keepIncludeDh =
     (let r = cells m ! i
      in writeCell m i (r\<lparr>ses_ratchetState := nextState, ses_includeDh := (if keepIncludeDh then ses_includeDh r else False)\<rparr>))"

definition commitRecv :: "SessionManager \<Rightarrow> nat \<Rightarrow> RatchetState \<Rightarrow> SessionManager" where
  "commitRecv m i nextState = writeCell m i ((cells m ! i)\<lparr>ses_ratchetState := nextState\<rparr>)"

definition rotateDh :: "SessionManager \<Rightarrow> string \<Rightarrow> key_pair \<Rightarrow> SessionManager result" where
  "rotateDh m peerId keyPair =
     (case map_of (byPeerId m) peerId of
        None \<Rightarrow> Inl (NoSessionForPeerError peerId)
      | Some i \<Rightarrow> let r = cells m ! i
                  in Inr (writeCell m i (r\<lparr>ses_ratchetState := (ses_ratchetState r)\<lparr>selfDhKeyPair := keyPair\<rparr>, ses_includeDh := True\<rparr>)))"

definition exportRow :: "string \<Rightarrow> SecureSessionRecord \<Rightarrow> jsval" where
  "exportRow peerId r = JObj [(''peerId'', JStr peerId), (''sidB64'', JStr (bytesToBase64 (ses_sid r))),
     (''ratchetState'', ratchetState_toJSON (ses_ratchetState r)), (''includeDh'', JBool (ses_includeDh r))]"

definition exportSnapshot :: "SessionManager \<Rightarrow> jsval" where
  "exportSnapshot m = JObj [(''v'', JInt 1), (''sessions'', JArr (map (\<lambda>p. exportRow (fst p) (cells m ! snd p)) (byPeerId m)))]"

definition importRow :: "SessionManager \<Rightarrow> jsval \<Rightarrow> SessionManager" where
  "importRow m row =
     (let peerId = (case getProp row ''peerId'' of JStr s \<Rightarrow> trim s | _ \<Rightarrow> []);
          sidB64 = (case getProp row ''sidB64'' of JStr s \<Rightarrow> trim s | _ \<Rightarrow> []);
          rs = getProp row ''ratchetState''
      in if \<not> truthy row \<or> peerId = [] \<or> sidB64 = [] then m
         else case bindR (base64ToBytes sidB64) (\<lambda>sid.
                   bindR (ratchetState_fromJSON (if truthy rs then rs else JObj [])) (\<lambda>state.
                     newSecureSessionRecord sid peerId state (getProp row ''includeDh'' = JBool True))) of
                Inl e \<Rightarrow> m
              | Inr r \<Rightarrow> addSession m r)"

definition importSnapshot :: "jsval \<Rightarrow> SessionManager" where
  "importSnapshot snapshot =
     foldl importRow emptySessions (case getProp snapshot ''sessions'' of JArr rows \<Rightarrow> rows | _ \<Rightarrow> [])"

section \<open>The table is a map of records\<close>

definition peerRecord :: "SessionManager \<Rightarrow> string \<Rightarrow> SecureSessionRecord option" where
  "peerRecord m p = map_option (\<lambda>i. cells m ! i) (map_of (byPeerId m) p)"

definition sidRecord :: "SessionManager \<Rightarrow> bytes \<Rightarrow> SecureSessionRecord option" where
  "sidRecord m sid = map_option (\<lambda>i. cells m ! i) (map_of (bySidHex m) (bytesToHex sid))"

definition session_ok :: "SecureSessionRecord \<Rightarrow> bool" where
  "session_ok r \<longleftrightarrow> ses_sid r \<noteq> [] \<and> trim (ses_peerId r) \<noteq> [] \<and> ratchetState_ok (ses_ratchetState r)"

text \<open>The cells that the maps name exist, and hold the record of that peer or session.\<close>

definition sessions_ok :: "SessionManager \<Rightarrow> bool" where
  "sessions_ok m \<longleftrightarrow> map_wf (byPeerId m) \<and> map_wf (bySidHex m)
     \<and> (\<forall>p i. map_of (byPeerId m) p = Some i \<longrightarrow> i < length (cells m) \<and> ses_peerId (cells m ! i) = p)
     \<and> (\<forall>h i. map_of (bySidHex m) h = Some i \<longrightarrow> i < length (cells m) \<and> bytesToHex (ses_sid (cells m ! i)) = h)
     \<and> list_all session_ok (cells m)"

lemma sessions_ok_empty [simp]: "sessions_ok emptySessions"
  by (simp add: sessions_ok_def emptySessions_def map_wf_def)

lemma sessions_ok_peer:
  assumes "sessions_ok m" "map_of (byPeerId m) p = Some i"
  shows "i < length (cells m)" "ses_peerId (cells m ! i) = p" "session_ok (cells m ! i)"
  using assms by (auto simp: sessions_ok_def list_all_length)

lemma sessions_ok_sid:
  assumes "sessions_ok m" "map_of (bySidHex m) h = Some i"
  shows "i < length (cells m)" "bytesToHex (ses_sid (cells m ! i)) = h" "session_ok (cells m ! i)"
  using assms by (auto simp: sessions_ok_def list_all_length)

lemma sessions_ok_add:
  assumes "sessions_ok m" "session_ok r"
  shows "sessions_ok (addSession m r)"
proof -
  have wf: "map_wf (byPeerId m)" "map_wf (bySidHex m)" using assms(1) by (simp_all add: sessions_ok_def)
  show ?thesis
    using assms by (auto simp: sessions_ok_def addSession_def js_map.wf_write [OF wf(1)] js_map.wf_write [OF wf(2)] update_conv' nth_append less_Suc_eq
        split: if_splits)
qed

lemma peerRecord_add:
  assumes "sessions_ok m"
  shows "peerRecord (addSession m r) p = (if p = ses_peerId r then Some r else peerRecord m p)"
  using sessions_ok_peer(1) [OF assms, of p]
  by (cases "map_of (byPeerId m) p") (auto simp: peerRecord_def addSession_def update_conv' nth_append)

lemma sidRecord_add:
  assumes "sessions_ok m"
  shows "sidRecord (addSession m r) s = (if s = ses_sid r then Some r else sidRecord m s)"
  using sessions_ok_sid(1) [OF assms, of "bytesToHex s"]
  by (cases "map_of (bySidHex m) (bytesToHex s)")
     (auto simp: sidRecord_def addSession_def update_conv' nth_append hex.enc_inj)

lemma sessions_ok_write:
  assumes "sessions_ok m" "i < length (cells m)" "session_ok r" "ses_peerId r = ses_peerId (cells m ! i)" "ses_sid r = ses_sid (cells m ! i)"
  shows "sessions_ok (writeCell m i r)"
  using assms by (auto simp: sessions_ok_def writeCell_def nth_list_update list_all_length split: prod.splits)

text \<open>Contexts of one record share its cell: a commit through one map is what the other map reads.\<close>

lemma records_shared:
  assumes "sessions_ok m" "map_of (byPeerId m) p = Some i" "map_of (bySidHex m) (bytesToHex s) = Some i"
  shows "sidRecord (writeCell m i r) s = Some r" "peerRecord (writeCell m i r) p = Some r"
  using assms sessions_ok_peer(1) [OF assms(1,2)] by (simp_all add: sidRecord_def peerRecord_def writeCell_def)

section \<open>Snapshots\<close>

lemma bytesToBase64_no_space: "trim (bytesToBase64 bs) = bytesToBase64 bs"
proof -
  have "\<not> isSpace c" if "c \<in> set (bytesToBase64 bs)" for c
    using bytesToBase64_clean [of bs] that by (metis filter_id_conv)
  then show ?thesis unfolding trim_def by (metis dropWhile_eq_self_iff hd_in_set rev_rev_ident set_rev)
qed

lemma bytesToBase64_nonempty: "bs \<noteq> [] \<Longrightarrow> bytesToBase64 bs \<noteq> []"
  using b64.enc_inj [of bs "[]"] by auto

lemma importRow_exportRow:
  assumes "session_ok r" "trim (ses_peerId r) = ses_peerId r"
  shows "importRow m (exportRow (ses_peerId r) r) = addSession m r"
proof -
  have "truthy (ratchetState_toJSON (ses_ratchetState r))" by (simp add: ratchetState_toJSON_def)
  moreover have "ses_peerId r \<noteq> []" using assms by (auto simp: session_ok_def)
  ultimately show ?thesis
    using assms by (cases r)
      (simp add: importRow_def exportRow_def session_ok_def bytesToBase64_no_space bytesToBase64_nonempty b64.dec_enc
        ratchetState_roundtrip newSecureSessionRecord_def)
qed

lemma import_adds:
  assumes "sessions_ok m" "\<forall>r\<in>set rs. session_ok r \<and> trim (ses_peerId r) = ses_peerId r" "distinct (map ses_peerId rs)"
  shows "sessions_ok (foldl importRow m (map (\<lambda>r. exportRow (ses_peerId r) r) rs))
     \<and> peerRecord (foldl importRow m (map (\<lambda>r. exportRow (ses_peerId r) r) rs)) p
        = (case map_of (map (\<lambda>r. (ses_peerId r, r)) rs) p of Some r \<Rightarrow> Some r | None \<Rightarrow> peerRecord m p)"
  using assms
proof (induction rs arbitrary: m)
  case (Cons r rs)
  have "sessions_ok (addSession m r)" using Cons.prems sessions_ok_add by simp
  moreover have "p = ses_peerId r \<Longrightarrow> map_of (map (\<lambda>r. (ses_peerId r, r)) rs) p = None"
    using Cons.prems(3) by (auto simp: map_of_eq_None_iff)
  ultimately show ?case
    using Cons.IH [of "addSession m r"] Cons.prems importRow_exportRow [of r m] peerRecord_add [OF Cons.prems(1), of r p]
    by (auto split: option.splits)
qed simp


definition demo_sessions :: SessionManager where
  "demo_sessions = addSession emptySessions \<lparr>ses_sid = [9], ses_peerId = ''bob'',
     ses_ratchetState = initializeAsInitiator [1, 2] (demo_keys 3) [4], ses_includeDh = True\<rparr>"

lemma initialize_ok [simp]: "ratchetState_ok (initializeAsInitiator secret self remote)" "ratchetState_ok (initializeAsResponder secret self remote)"
  by (simp_all add: ratchetState_ok_def initializeAsInitiator_def initializeAsResponder_def DEFAULT_MAX_SKIP_def DEFAULT_MAX_SKIPPED_KEYS_def DEFAULT_MAX_SKIPPED_BYTES_def)
     (simp_all add: emptySkippedKeyStore_def)

lemma demo_sessions_ok [simp]: "sessions_ok demo_sessions"
  unfolding demo_sessions_def by (rule sessions_ok_add) (simp_all add: session_ok_def trim_def isSpace_def)




text \<open>A stored session record loads back as the record.\<close>

theorem session_record_roundtrip:
  assumes "session_ok r"
  shows "session_fromJSON (session_toJSON r) = Inr r"
  using assms
  by (cases r) (simp add: session_fromJSON_def session_toJSON_def session_ok_def b64.dec_enc ratchetState_roundtrip strOf_def)

theorem session_record_roundtrip_witness:
  "session_fromJSON (session_toJSON \<lparr>ses_sid = [9], ses_peerId = '' bob '', ses_ratchetState = initializeAsResponder [1, 2] (demo_keys 3) [4], ses_includeDh = True\<rparr>)
     = Inr \<lparr>ses_sid = [9], ses_peerId = '' bob '', ses_ratchetState = initializeAsResponder [1, 2] (demo_keys 3) [4], ses_includeDh = True\<rparr>"
  by (rule session_record_roundtrip) (simp add: session_ok_def trim_def isSpace_def)

end
