(* ===== verification/X3DH.thy ===== *)
theory X3DH
  imports Crypto_Provider
begin

text \<open>
  The X3DH key agreement (\<^verbatim>\<open>src/services/X3DHService.js\<close>, \<^verbatim>\<open>src/objects/x3dh\<close>): the receiver's pre-key
  bundle, the initiator's computation with its signature checks, and the receiver's computation from the
  handshake. The ephemeral key pair the initiator draws is an argument.
\<close>

section \<open>Records\<close>

record X3DHPreKeyBundle =
  bundle_receiverId :: string
  identitySigningPublicKey :: bytes
  identityDhPublicKey :: bytes
  identityDhSignature :: bytes
  signedPreKeyPublic :: bytes
  signedPreKeySignature :: bytes
  oneTimePreKeyPublic :: "bytes option"

record X3DHInitiatorHandshake =
  handshake_receiverId :: string
  senderIdentitySigningPublicKey :: bytes
  senderIdentityDhPublicKey :: bytes
  senderIdentityDhSignature :: bytes
  ephemeralPublicKey :: bytes
  usedOneTimePreKey :: bool

definition newX3DHInitiatorHandshake :: "X3DHInitiatorHandshake \<Rightarrow> X3DHInitiatorHandshake result" where
  "newX3DHInitiatorHandshake h =
     (if \<not> isNonEmptyString (JStr (handshake_receiverId h))
      then Inl (RezInvariantError ''X3DHInitiatorHandshake.receiverId must be a non-empty string'') else Inr h)"

definition newX3DHPreKeyBundle :: "X3DHPreKeyBundle \<Rightarrow> X3DHPreKeyBundle result" where
  "newX3DHPreKeyBundle b =
     (if \<not> isNonEmptyString (JStr (bundle_receiverId b))
      then Inl (RezInvariantError ''X3DHPreKeyBundle.receiverId must be a non-empty string'') else Inr b)"

section \<open>Guards\<close>

definition X3DH_INFO :: bytes where
  "X3DH_INFO = utf8Encode ''rez-x3dh-v2''"

definition assertMinKeyBytes :: "string \<Rightarrow> bytes \<Rightarrow> unit result" where
  "assertMinKeyBytes label bs =
     (if length bs < 32 then Inl (Error (''X3DHService requires '' @ label @ '' length >= 32'')) else Inr ())"

definition assertSecretBytes :: "bytes \<Rightarrow> unit result" where
  "assertSecretBytes bs =
     (if length bs \<noteq> 32 then Inl (Error ''X3DHService requires shared secret length 32'')
      else if foldl (\<lambda>acc b. acc OR b) 0 bs = 0 then Inl (Error ''X3DHService rejects all-zero (contributory) shared secret'')
      else Inr ())"

text \<open>A Diffie-Hellman value, checked at once.\<close>

definition x3dhSecret :: "crypto_provider \<Rightarrow> bytes \<Rightarrow> bytes \<Rightarrow> bytes result" where
  "x3dhSecret c priv pub =
     bindR (dhDerive c priv pub ''X25519'' ''spki'') (\<lambda>dh. bindR (assertSecretBytes dh) (\<lambda>_. Inr dh))"

definition requireVerified :: "crypto_provider \<Rightarrow> bytes \<Rightarrow> bytes \<Rightarrow> bytes \<Rightarrow> string \<Rightarrow> unit result" where
  "requireVerified c pub msg sig message =
     bindR (verify c pub msg sig) (\<lambda>ok. if ok then Inr () else Inl (Error message))"

section \<open>Operations\<close>

definition createReceiverBundle ::
  "crypto_provider \<Rightarrow> string \<Rightarrow> key_pair \<Rightarrow> key_pair \<Rightarrow> key_pair \<Rightarrow> bytes option \<Rightarrow> X3DHPreKeyBundle result" where
  "createReceiverBundle c receiverId identityKeyPair identityDhKeyPair signedPreKeyKeyPair opk =
     (if \<not> isNonEmptyString (JStr receiverId) then Inl (Error ''X3DHService.createReceiverBundle requires receiverId'')
      else
      bindR (assertMinKeyBytes ''signedPreKeyKeyPair.publicKey'' (publicKey signedPreKeyKeyPair)) (\<lambda>_.
      bindR (assertMinKeyBytes ''identityDhKeyPair.publicKey'' (publicKey identityDhKeyPair)) (\<lambda>_.
      bindR (case opk of None \<Rightarrow> Inr () | Some k \<Rightarrow> assertMinKeyBytes ''oneTimePreKeyPublic'' k) (\<lambda>_.
      bindR (sign c (privateKey identityKeyPair) (publicKey signedPreKeyKeyPair)) (\<lambda>spkSig.
      bindR (sign c (privateKey identityKeyPair) (publicKey identityDhKeyPair)) (\<lambda>idkSig.
        newX3DHPreKeyBundle
          \<lparr>bundle_receiverId = receiverId, identitySigningPublicKey = publicKey identityKeyPair,
           identityDhPublicKey = publicKey identityDhKeyPair, identityDhSignature = idkSig,
           signedPreKeyPublic = publicKey signedPreKeyKeyPair, signedPreKeySignature = spkSig,
           oneTimePreKeyPublic = opk\<rparr>))))))"

definition initiatorCompute ::
  "crypto_provider \<Rightarrow> X3DHPreKeyBundle \<Rightarrow> key_pair \<Rightarrow> key_pair \<Rightarrow> bytes \<Rightarrow> key_pair \<Rightarrow> (X3DHInitiatorHandshake \<times> bytes \<times> key_pair) result" where
  "initiatorCompute c bundle identityKeyPair identityDhKeyPair identityDhSig ephemeral =
     bindR (assertMinKeyBytes ''receiverBundle.signedPreKeyPublic'' (signedPreKeyPublic bundle)) (\<lambda>_.
     bindR (assertMinKeyBytes ''receiverBundle.identityDhPublicKey'' (identityDhPublicKey bundle)) (\<lambda>_.
     bindR (case oneTimePreKeyPublic bundle of None \<Rightarrow> Inr ()
            | Some k \<Rightarrow> assertMinKeyBytes ''receiverBundle.oneTimePreKeyPublic'' k) (\<lambda>_.
     bindR (requireVerified c (identitySigningPublicKey bundle) (signedPreKeyPublic bundle) (signedPreKeySignature bundle)
              ''X3DHService.initiatorCompute receiver signedPreKey signature verification failed'') (\<lambda>_.
     bindR (requireVerified c (identitySigningPublicKey bundle) (identityDhPublicKey bundle) (identityDhSignature bundle)
              ''X3DHService.initiatorCompute receiver identityDh signature verification failed'') (\<lambda>_.
     bindR (requireVerified c (publicKey identityKeyPair) (publicKey identityDhKeyPair) identityDhSig
              ''X3DHService.initiatorCompute initiatorIdentityDhSignature does not verify against initiatorIdentityKeyPair'') (\<lambda>_.
     bindR (x3dhSecret c (privateKey identityDhKeyPair) (signedPreKeyPublic bundle)) (\<lambda>dh1.
     bindR (x3dhSecret c (privateKey ephemeral) (identityDhPublicKey bundle)) (\<lambda>dh2.
     bindR (x3dhSecret c (privateKey ephemeral) (signedPreKeyPublic bundle)) (\<lambda>dh3.
     bindR (case oneTimePreKeyPublic bundle of None \<Rightarrow> Inr []
            | Some k \<Rightarrow> bindR (x3dhSecret c (privateKey ephemeral) k) (\<lambda>dh4. Inr [dh4])) (\<lambda>dh4s.
     bindR (hkdfSha256 c (concat ([dh1, dh2, dh3] @ dh4s)) [] X3DH_INFO 32) (\<lambda>sharedSecret.
     bindR (newX3DHInitiatorHandshake
              \<lparr>handshake_receiverId = bundle_receiverId bundle, senderIdentitySigningPublicKey = publicKey identityKeyPair,
               senderIdentityDhPublicKey = publicKey identityDhKeyPair, senderIdentityDhSignature = identityDhSig,
               ephemeralPublicKey = publicKey ephemeral, usedOneTimePreKey = (oneTimePreKeyPublic bundle \<noteq> None)\<rparr>) (\<lambda>handshake.
       Inr (handshake, sharedSecret, ephemeral)))))))))))))"

definition receiverCompute ::
  "crypto_provider \<Rightarrow> X3DHPreKeyBundle \<Rightarrow> bytes \<Rightarrow> bytes \<Rightarrow> bytes option \<Rightarrow> X3DHInitiatorHandshake \<Rightarrow> bytes result" where
  "receiverCompute c bundle identityDhPrivate signedPreKeyPrivate opkPrivate handshake =
     bindR (assertMinKeyBytes ''receiverIdentityDhPrivate'' identityDhPrivate) (\<lambda>_.
     bindR (assertMinKeyBytes ''receiverSignedPreKeyPrivate'' signedPreKeyPrivate) (\<lambda>_.
     bindR (assertMinKeyBytes ''initiatorHandshake.ephemeralPublicKey'' (ephemeralPublicKey handshake)) (\<lambda>_.
     bindR (assertMinKeyBytes ''initiatorHandshake.senderIdentitySigningPublicKey'' (senderIdentitySigningPublicKey handshake)) (\<lambda>_.
     bindR (assertMinKeyBytes ''initiatorHandshake.senderIdentityDhPublicKey'' (senderIdentityDhPublicKey handshake)) (\<lambda>_.
     if handshake_receiverId handshake \<noteq> bundle_receiverId bundle
     then Inl (Error ''X3DHService.receiverCompute receiverId mismatch'')
     else
     bindR (requireVerified c (senderIdentitySigningPublicKey handshake) (senderIdentityDhPublicKey handshake) (senderIdentityDhSignature handshake)
              ''X3DHService.receiverCompute sender identityDh signature verification failed'') (\<lambda>_.
     bindR (x3dhSecret c signedPreKeyPrivate (senderIdentityDhPublicKey handshake)) (\<lambda>dh1.
     bindR (x3dhSecret c identityDhPrivate (ephemeralPublicKey handshake)) (\<lambda>dh2.
     bindR (x3dhSecret c signedPreKeyPrivate (ephemeralPublicKey handshake)) (\<lambda>dh3.
     bindR (if usedOneTimePreKey handshake
            then (case opkPrivate of
                    None \<Rightarrow> Inl (Error ''X3DHService.receiverCompute requires receiverOneTimePreKeyPrivate for OPK'')
                  | Some k \<Rightarrow> bindR (assertMinKeyBytes ''receiverOneTimePreKeyPrivate'' k)
                      (\<lambda>_. bindR (x3dhSecret c k (ephemeralPublicKey handshake)) (\<lambda>dh4. Inr [dh4])))
            else Inr []) (\<lambda>dh4s.
       hkdfSha256 c (concat ([dh1, dh2, dh3] @ dh4s)) [] X3DH_INFO 32))))))))))"

section \<open>The all-zero check\<close>

lemma or_acc_zero: "foldl (\<lambda>acc b. acc OR b) a bs = 0 \<longleftrightarrow> a = (0 :: byte) \<and> (\<forall>b\<in>set bs. b = 0)"
proof (induction bs arbitrary: a)
  case (Cons b bs)
  have "a OR b = 0 \<longleftrightarrow> a = 0 \<and> b = 0" by (auto simp: bit_eq_iff bit_or_iff)
  with Cons show ?case by auto
qed simp

lemma assertSecretBytes_iff: "assertSecretBytes bs = Inr u \<longleftrightarrow> length bs = 32 \<and> (\<exists>b\<in>set bs. b \<noteq> 0)"
  by (auto simp: assertSecretBytes_def or_acc_zero)

lemma x3dhSecret_iff:
  "x3dhSecret c priv pub = Inr s \<longleftrightarrow> dhDerive c priv pub ''X25519'' ''spki'' = Inr s \<and> length s = 32 \<and> (\<exists>b\<in>set s. b \<noteq> 0)"
  by (auto simp: x3dhSecret_def result_simps assertSecretBytes_iff split: sum.splits)

lemma requireVerified_iff: "requireVerified c pub msg sig m = Inr u \<longleftrightarrow> verify c pub msg sig = Inr True"
  by (auto simp: requireVerified_def result_simps split: sum.splits if_splits)

lemma assertMinKeyBytes_iff: "assertMinKeyBytes label bs = Inr u \<longleftrightarrow> 32 \<le> length bs"
  by (auto simp: assertMinKeyBytes_def)

lemmas x3dh_guards = x3dhSecret_iff requireVerified_iff assertMinKeyBytes_iff

section \<open>Properties of the key agreement\<close>

text \<open>The pair of key pairs has a usable common secret: both sides derive it, it has 32 bytes and is not zero.\<close>

definition dh_usable :: "crypto_provider \<Rightarrow> key_pair \<Rightarrow> key_pair \<Rightarrow> bool" where
  "dh_usable c a b \<longleftrightarrow> dh_agree c a b \<and> (\<exists>s. dhDerive c (privateKey a) (publicKey b) ''X25519'' ''spki'' = Inr s
     \<and> length s = 32 \<and> (\<exists>x\<in>set s. x \<noteq> 0))"

definition key_pair_sized :: "key_pair \<Rightarrow> bool" where
  "key_pair_sized kp \<longleftrightarrow> 32 \<le> length (publicKey kp) \<and> 32 \<le> length (privateKey kp)"

lemma dh_usable_secret:
  assumes "dh_usable c a b"
  obtains s where "x3dhSecret c (privateKey a) (publicKey b) = Inr s" "x3dhSecret c (privateKey b) (publicKey a) = Inr s"
  using assms unfolding dh_usable_def dh_agree_def by (metis x3dhSecret_iff)

text \<open>The honest run, with the bundle and the handshake it exchanges.\<close>

lemma x3dh_honest_run:
  assumes "hkdf_lawful c" "sign_lawful c idR" "sign_lawful c idI" "trim rid \<noteq> []"
    and "key_pair_sized idDhR" "key_pair_sized spkR" "key_pair_sized idDhI" "key_pair_sized eph" "key_pair_sized idI" "pred_option key_pair_sized opk"
    and "dh_usable c idDhI spkR" "dh_usable c eph idDhR" "dh_usable c eph spkR" "pred_option (dh_usable c eph) opk"
    and "sign c (privateKey idI) (publicKey idDhI) = Inr idDhSig"
  shows "\<exists>bundle handshake secret. createReceiverBundle c rid idR idDhR spkR (map_option publicKey opk) = Inr bundle
     \<and> initiatorCompute c bundle idI idDhI idDhSig eph = Inr (handshake, secret, eph)
     \<and> receiverCompute c bundle (privateKey idDhR) (privateKey spkR) (map_option privateKey opk) handshake = Inr secret
     \<and> length secret = 32 \<and> signedPreKeyPublic bundle = publicKey spkR
     \<and> handshake = \<lparr>handshake_receiverId = rid, senderIdentitySigningPublicKey = publicKey idI, senderIdentityDhPublicKey = publicKey idDhI,
          senderIdentityDhSignature = idDhSig, ephemeralPublicKey = publicKey eph, usedOneTimePreKey = (opk \<noteq> None)\<rparr>"
proof -
  obtain spkSig idkSig where sigs: "sign c (privateKey idR) (publicKey spkR) = Inr spkSig" "verify c (publicKey idR) (publicKey spkR) spkSig = Inr True"
    "sign c (privateKey idR) (publicKey idDhR) = Inr idkSig" "verify c (publicKey idR) (publicKey idDhR) idkSig = Inr True"
    using assms(2) unfolding sign_lawful_def by metis
  have self: "verify c (publicKey idI) (publicKey idDhI) idDhSig = Inr True"
    using assms(3,15) unfolding sign_lawful_def by (metis sum.inject(2))
  obtain dh1 where dh1: "x3dhSecret c (privateKey idDhI) (publicKey spkR) = Inr dh1" "x3dhSecret c (privateKey spkR) (publicKey idDhI) = Inr dh1"
    using dh_usable_secret [OF assms(11)] .
  obtain dh2 where dh2: "x3dhSecret c (privateKey eph) (publicKey idDhR) = Inr dh2" "x3dhSecret c (privateKey idDhR) (publicKey eph) = Inr dh2"
    using dh_usable_secret [OF assms(12)] .
  obtain dh3 where dh3: "x3dhSecret c (privateKey eph) (publicKey spkR) = Inr dh3" "x3dhSecret c (privateKey spkR) (publicKey eph) = Inr dh3"
    using dh_usable_secret [OF assms(13)] .
  have "\<forall>k. opk = Some k \<longrightarrow> (\<exists>dh4. x3dhSecret c (privateKey eph) (publicKey k) = Inr dh4 \<and> x3dhSecret c (privateKey k) (publicKey eph) = Inr dh4)"
    using assms(14) dh_usable_secret by (auto simp: option.pred_set) metis
  then obtain dh4 where dh4: "\<And>k. opk = Some k \<Longrightarrow> x3dhSecret c (privateKey eph) (publicKey k) = Inr dh4 \<and> x3dhSecret c (privateKey k) (publicKey eph) = Inr dh4"
    by (cases opk) auto
  let ?dh4s = "case opk of None \<Rightarrow> [] | Some k \<Rightarrow> [dh4]"
  obtain secret where secret: "hkdfSha256 c (concat ([dh1, dh2, dh3] @ ?dh4s)) [] X3DH_INFO 32 = Inr secret" "length secret = 32"
    using assms(1) unfolding hkdf_lawful_def by blast
  let ?pre = "\<lparr>bundle_receiverId = rid, identitySigningPublicKey = publicKey idR, identityDhPublicKey = publicKey idDhR,
     identityDhSignature = idkSig, signedPreKeyPublic = publicKey spkR, signedPreKeySignature = spkSig, oneTimePreKeyPublic = map_option publicKey opk\<rparr>"
  let ?hs = "\<lparr>handshake_receiverId = rid, senderIdentitySigningPublicKey = publicKey idI, senderIdentityDhPublicKey = publicKey idDhI,
     senderIdentityDhSignature = idDhSig, ephemeralPublicKey = publicKey eph, usedOneTimePreKey = (opk \<noteq> None)\<rparr>"
  have "createReceiverBundle c rid idR idDhR spkR (map_option publicKey opk) = Inr ?pre"
    using assms(4-6,10) sigs
    by (cases opk) (simp_all add: createReceiverBundle_def newX3DHPreKeyBundle_def assertMinKeyBytes_def key_pair_sized_def)
  moreover have "initiatorCompute c ?pre idI idDhI idDhSig eph = Inr (?hs, secret, eph)"
    using assms(4-6,10) sigs self dh1 dh2 dh3 dh4 secret
    by (cases opk) (simp_all add: initiatorCompute_def newX3DHInitiatorHandshake_def requireVerified_def assertMinKeyBytes_def key_pair_sized_def)
  moreover have "receiverCompute c ?pre (privateKey idDhR) (privateKey spkR) (map_option privateKey opk) ?hs = Inr secret"
    using assms(5-10) self dh1 dh2 dh3 dh4 secret
    by (cases opk) (simp_all add: receiverCompute_def requireVerified_def assertMinKeyBytes_def key_pair_sized_def)
  ultimately show ?thesis using secret(2) by (intro exI [of _ ?pre] exI [of _ ?hs] exI [of _ secret]) simp
qed



text \<open>No secret without the checks. When the initiator's computation returns, the receiver's signed pre-key and identity
  key verified under the receiver's signing key and every Diffie-Hellman value was a 32-byte value other than zero.\<close>

theorem x3dh_initiator_checked:
  assumes "initiatorCompute c bundle idI idDhI idDhSig eph = Inr (handshake, secret, e)"
  shows "verify c (identitySigningPublicKey bundle) (signedPreKeyPublic bundle) (signedPreKeySignature bundle) = Inr True
     \<and> verify c (identitySigningPublicKey bundle) (identityDhPublicKey bundle) (identityDhSignature bundle) = Inr True
     \<and> verify c (publicKey idI) (publicKey idDhI) idDhSig = Inr True
     \<and> (\<exists>dh1 dh2 dh3 dh4s. hkdfSha256 c (concat ([dh1, dh2, dh3] @ dh4s)) [] X3DH_INFO 32 = Inr secret
          \<and> dhDerive c (privateKey idDhI) (signedPreKeyPublic bundle) ''X25519'' ''spki'' = Inr dh1
          \<and> length dh4s = (if usedOneTimePreKey handshake then 1 else 0)
          \<and> (\<forall>d\<in>set ([dh1, dh2, dh3] @ dh4s). length d = 32 \<and> (\<exists>b\<in>set d. b \<noteq> 0)))
     \<and> handshake_receiverId handshake = bundle_receiverId bundle \<and> senderIdentityDhSignature handshake = idDhSig"
proof -
  obtain dh1 dh2 dh3 dh4s where s: "x3dhSecret c (privateKey idDhI) (signedPreKeyPublic bundle) = Inr dh1"
      "x3dhSecret c (privateKey eph) (identityDhPublicKey bundle) = Inr dh2" "x3dhSecret c (privateKey eph) (signedPreKeyPublic bundle) = Inr dh3"
      "(case oneTimePreKeyPublic bundle of None \<Rightarrow> Inr [] | Some k \<Rightarrow> bindR (x3dhSecret c (privateKey eph) k) (\<lambda>dh4. Inr [dh4])) = Inr dh4s"
      "hkdfSha256 c (concat ([dh1, dh2, dh3] @ dh4s)) [] X3DH_INFO 32 = Inr secret"
    and h: "handshake = \<lparr>handshake_receiverId = bundle_receiverId bundle, senderIdentitySigningPublicKey = publicKey idI,
      senderIdentityDhPublicKey = publicKey idDhI, senderIdentityDhSignature = idDhSig, ephemeralPublicKey = publicKey eph,
      usedOneTimePreKey = (oneTimePreKeyPublic bundle \<noteq> None)\<rparr>"
    and v: "verify c (identitySigningPublicKey bundle) (signedPreKeyPublic bundle) (signedPreKeySignature bundle) = Inr True"
      "verify c (identitySigningPublicKey bundle) (identityDhPublicKey bundle) (identityDhSignature bundle) = Inr True"
      "verify c (publicKey idI) (publicKey idDhI) idDhSig = Inr True"
    using assms unfolding initiatorCompute_def bindR_eq_Inr requireVerified_iff
    by (auto simp: newX3DHInitiatorHandshake_def split: if_splits)
  have "length dh4s = (if usedOneTimePreKey handshake then 1 else 0) \<and> (\<forall>d\<in>set dh4s. length d = 32 \<and> (\<exists>b\<in>set d. b \<noteq> 0))"
    using s(4) h by (auto simp: result_simps x3dh_guards split: option.splits)
  with s have "hkdfSha256 c (concat ([dh1, dh2, dh3] @ dh4s)) [] X3DH_INFO 32 = Inr secret
      \<and> dhDerive c (privateKey idDhI) (signedPreKeyPublic bundle) ''X25519'' ''spki'' = Inr dh1
      \<and> length dh4s = (if usedOneTimePreKey handshake then 1 else 0)
      \<and> (\<forall>d\<in>set ([dh1, dh2, dh3] @ dh4s). length d = 32 \<and> (\<exists>b\<in>set d. b \<noteq> 0))"
    unfolding x3dh_guards by simp
  moreover have "handshake_receiverId handshake = bundle_receiverId bundle" "senderIdentityDhSignature handshake = idDhSig"
    using h by simp_all
  ultimately show ?thesis using v by blast
qed

theorem x3dh_initiator_checked_witness:
  "\<exists>bundle handshake secret. initiatorCompute demo_crypto bundle (demo_keys 5) (demo_keys 6) (replicate 32 5 @ replicate 32 6) (demo_keys 7)
       = Inr (handshake, secret, demo_keys 7)
     \<and> verify demo_crypto (identitySigningPublicKey bundle) (signedPreKeyPublic bundle) (signedPreKeySignature bundle) = Inr True"
proof -
  let ?pre = "\<lparr>bundle_receiverId = ''bob'', identitySigningPublicKey = replicate 32 1, identityDhPublicKey = replicate 32 2,
     identityDhSignature = replicate 32 1 @ replicate 32 2, signedPreKeyPublic = replicate 32 3,
     signedPreKeySignature = replicate 32 1 @ replicate 32 3, oneTimePreKeyPublic = None\<rparr>"
  obtain hs secret where "initiatorCompute demo_crypto ?pre (demo_keys 5) (demo_keys 6) (replicate 32 5 @ replicate 32 6) (demo_keys 7)
      = Inr (hs, secret, demo_keys 7)"
    by (simp add: initiatorCompute_def newX3DHInitiatorHandshake_def requireVerified_def assertMinKeyBytes_def
        x3dhSecret_def assertSecretBytes_def or_acc_zero trim_def isSpace_def) (simp add: demo_crypto_def)
  then show ?thesis using x3dh_initiator_checked by blast
qed



end
