(* ===== verification/Secure_Channel.thy ===== *)
theory Secure_Channel
  imports Session_Manager X3DH
begin

text \<open>
  The end-to-end channel (\<^verbatim>\<open>src/e2ee/SecureChannelManager.js\<close>): it runs X3DH, enters the session in the table, and
  encrypts and decrypts payloads through the codecs. The state of the manager is the session table. Key pairs that
  the code draws and the readings of the clock are arguments; the Diffie-Hellman algorithm is the default of the
  ratchet service. Logging is left out.
\<close>

definition DH_ALG :: string where
  "DH_ALG = ''X25519''"

text \<open>\<^verbatim>\<open>base64ToBytes\<close> of a member of a parsed object.\<close>

definition base64Member :: "jsval \<Rightarrow> string \<Rightarrow> bytes result" where
  "base64Member v k = (case getProp v k of JStr s \<Rightarrow> base64ToBytes s | _ \<Rightarrow> Inl (Error ''base64ToBytes(base64) requires string''))"

definition generatePreKeyBundle ::
  "crypto_provider \<Rightarrow> string \<Rightarrow> key_pair \<Rightarrow> key_pair \<Rightarrow> key_pair \<Rightarrow> (X3DHPreKeyBundle \<times> key_pair) result" where
  "generatePreKeyBundle c accountId identityKeyPair identityDhKeyPair signedPreKeyPair =
     (if accountId = [] then Inl (Error ''generatePreKeyBundle requires accountId string'')
      else bindR (createReceiverBundle c accountId identityKeyPair identityDhKeyPair signedPreKeyPair None)
        (\<lambda>bundle. Inr (bundle, signedPreKeyPair)))"

definition handshakeData :: "X3DHInitiatorHandshake \<Rightarrow> bytes \<Rightarrow> bytes \<Rightarrow> jsval" where
  "handshakeData hs initiatorDhPublic signedPreKey = JObj [(''receiverId'', JStr (handshake_receiverId hs)),
     (''senderIdentitySigningPubKeyB64'', JStr (bytesToBase64 (senderIdentitySigningPublicKey hs))),
     (''senderIdentityDhPubKeyB64'', JStr (bytesToBase64 (senderIdentityDhPublicKey hs))),
     (''senderIdentityDhSignatureB64'', JStr (bytesToBase64 (senderIdentityDhSignature hs))),
     (''ephemeralPublicKeyB64'', JStr (bytesToBase64 (ephemeralPublicKey hs))),
     (''usedOneTimePreKey'', JBool (usedOneTimePreKey hs)),
     (''initiatorDhPublicKeyB64'', JStr (bytesToBase64 initiatorDhPublic)),
     (''receiverSignedPreKeyPubB64'', JStr (bytesToBase64 signedPreKey))]"

definition establishInitiatorSession ::
  "crypto_provider \<Rightarrow> SessionManager \<Rightarrow> string \<Rightarrow> X3DHPreKeyBundle \<Rightarrow> key_pair \<Rightarrow> key_pair \<Rightarrow> bytes \<Rightarrow> key_pair \<Rightarrow> key_pair
     \<Rightarrow> (bytes \<times> jsval \<times> SessionManager) result" where
  "establishInitiatorSession c m peerId bundle identityKeyPair identityDhKeyPair identityDhSig ephemeral selfDh =
     (if peerId = [] then Inl (Error ''establishInitiatorSession requires peerId string'')
      else bindR (initiatorCompute c bundle identityKeyPair identityDhKeyPair identityDhSig ephemeral) (\<lambda>(handshake, sharedSecret, ephemeralKeyPair).
        bindR (createInitiatorSession c m peerId sharedSecret selfDh (signedPreKeyPublic bundle)) (\<lambda>(sid, m').
          Inr (sid, handshakeData handshake (publicKey selfDh) (signedPreKeyPublic bundle), m'))))"

definition establishResponderSession ::
  "crypto_provider \<Rightarrow> SessionManager \<Rightarrow> string \<Rightarrow> bytes \<Rightarrow> bytes \<Rightarrow> X3DHPreKeyBundle \<Rightarrow> jsval \<Rightarrow> key_pair \<Rightarrow> key_pair
     \<Rightarrow> (bytes \<times> bytes \<times> SessionManager) result" where
  "establishResponderSession c m peerId signedPreKeyPrivate identityDhPrivate bundle hsData selfDh rotatedDh =
     (if peerId = [] then Inl (Error ''establishResponderSession requires peerId string'')
      else if \<not> truthy hsData then Inl (Error ''establishResponderSession requires handshakeData'')
      else
      bindR (base64Member hsData ''senderIdentitySigningPubKeyB64'') (\<lambda>signing.
      bindR (base64Member hsData ''senderIdentityDhPubKeyB64'') (\<lambda>idDh.
      bindR (base64Member hsData ''senderIdentityDhSignatureB64'') (\<lambda>idDhSig.
      bindR (base64Member hsData ''ephemeralPublicKeyB64'') (\<lambda>eph.
      bindR (if isNonEmptyString (getProp hsData ''receiverId'')
             then newX3DHInitiatorHandshake
               \<lparr>handshake_receiverId = strOf (getProp hsData ''receiverId''), senderIdentitySigningPublicKey = signing,
                senderIdentityDhPublicKey = idDh, senderIdentityDhSignature = idDhSig, ephemeralPublicKey = eph,
                usedOneTimePreKey = truthy (getProp hsData ''usedOneTimePreKey'')\<rparr>
             else Inl (RezInvariantError ''X3DHInitiatorHandshake.receiverId must be a non-empty string'')) (\<lambda>handshake.
      bindR (receiverCompute c bundle identityDhPrivate signedPreKeyPrivate None handshake) (\<lambda>sharedSecret.
      bindR (base64Member hsData ''initiatorDhPublicKeyB64'') (\<lambda>remoteDh.
      bindR (createResponderSession c m peerId sharedSecret selfDh remoteDh) (\<lambda>(sid, m').
      bindR (rotateDh m' peerId rotatedDh) (\<lambda>m''.
        Inr (sid, signing, m'')))))))))))"

text \<open>The state a message is sent from: a responder that has not sent yet first steps its ratchet.\<close>

definition sendState :: "crypto_provider \<Rightarrow> SecureSessionRecord \<Rightarrow> (RatchetState \<times> bool) result" where
  "sendState c r =
     (if sendingChain (ses_ratchetState r) = None
      then bindR (ratchetStep c DH_ALG (ses_ratchetState r) (remoteDhPublicKey (ses_ratchetState r)) ''sending'') (\<lambda>s. Inr (s, True))
      else Inr (ses_ratchetState r, ses_includeDh r))"

definition encryptPayload ::
  "crypto_provider \<Rightarrow> SessionManager \<Rightarrow> string \<Rightarrow> bytes \<Rightarrow> int \<Rightarrow> int \<Rightarrow> (bytes \<times> SessionManager) result" where
  "encryptPayload c m peerId plaintext now1 now2 =
     (if peerId = [] then Inl (Error ''encryptPayload requires peerId string'')
      else bindR (getSendContext m peerId) (\<lambda>i.
        let r = cells m ! i
        in bindR (sendState c r) (\<lambda>(state, includeDh).
           bindR (newHeader (JStr (''enc-'' @ int_str now1)) (JStr ''rez.payload'') (JInt now2) []) (\<lambda>header.
           bindR (newEnvelope header (JObj [(''raw'', JStr (bytesToBase64 plaintext))]) JUndef) (\<lambda>envelope.
           bindR (encryptEnvelope c DH_ALG (ses_sid r) state includeDh envelope) (\<lambda>(outer, newState).
             Inr (stringifyBytes (envelope_toJSON outer), commitSend m i newState False)))))))"

text \<open>\<^verbatim>\<open>new Uint8Array(value)\<close> for a value that came from JSON: an array or array-like object is copied, anything else is a
  length. A length that is not finite or negative throws (\<open>None\<close>).\<close>

definition uint8ArrayOf :: "jsval \<Rightarrow> bytes option" where
  "uint8ArrayOf v =
     (case v of
        JBytes bs \<Rightarrow> Some bs
      | JArr xs \<Rightarrow> Some (map (numByte \<circ> elementNumber) xs)
      | JObj kvs \<Rightarrow> (case elementNumber (getProp v ''length'') of
                       NInt i \<Rightarrow> Some (map (\<lambda>k. numByte (elementNumber (getProp v (nat_str k)))) [0..<nat i])
                     | NNaN \<Rightarrow> Some []
                     | NInf neg \<Rightarrow> if neg then Some [] else None)
      | _ \<Rightarrow> (case elementNumber v of
                NInt i \<Rightarrow> if 0 \<le> i then Some (replicate (nat i) 0) else None
              | NNaN \<Rightarrow> Some []
              | NInf _ \<Rightarrow> None))"

text \<open>Decryption returns the table it leaves behind: after a failure the shared store of the session may have changed.\<close>

definition storeInCell :: "SessionManager \<Rightarrow> nat \<Rightarrow> SkippedKeyStore \<Rightarrow> SessionManager" where
  "storeInCell m i st = writeCell m i ((cells m ! i)\<lparr>ses_ratchetState := (ses_ratchetState (cells m ! i))\<lparr>skipped := st\<rparr>\<rparr>)"

definition decryptPayload ::
  "crypto_provider \<Rightarrow> (bytes \<Rightarrow> jsval result) \<Rightarrow> SessionManager \<Rightarrow> bytes \<Rightarrow> SessionManager \<times> (bytes \<times> string) option result" where
  "decryptPayload c parse m encryptedBytes =
     (case parse encryptedBytes of
        Inl e \<Rightarrow> (m, Inr None)
      | Inr outerJson \<Rightarrow>
          if \<not> truthy outerJson \<or> \<not> truthy (getProp outerJson ''header'')
             \<or> getProp (getProp outerJson ''header'') ''type'' \<noteq> JStr ''rez.encrypted.v1'' then (m, Inr None)
          else case envelope_fromJSON outerJson of
            Inl e \<Rightarrow> (m, Inl e)
          | Inr envelope \<Rightarrow>
              let body = getProp outerJson ''body'';
                  bodyHeader = (if truthy body then getProp body ''header'' else JNull)
              in if \<not> truthy bodyHeader \<or> \<not> truthy (getProp bodyHeader ''sid'') then (m, Inr None)
                 else case uint8ArrayOf (getProp bodyHeader ''sid'') of
                   None \<Rightarrow> (m, Inr None)
                 | Some sid \<Rightarrow>
                     (case getRecvContext m sid of
                        Inl e \<Rightarrow> (m, Inl e)
                      | Inr i \<Rightarrow>
                          (case decryptEnvelope c DH_ALG parse sid (ses_ratchetState (cells m ! i)) envelope of
                             (st, Inl e) \<Rightarrow> (storeInCell m i st, Inl e)
                           | (st, Inr (inner, nextState)) \<Rightarrow>
                               let m' = commitRecv m i nextState;
                                   raw = (if truthy (env_body inner) then getProp (env_body inner) ''raw'' else JUndef)
                               in if \<not> truthy raw \<or> \<not> isString raw then (m', Inr None)
                                  else (m', bindR (base64ToBytes (strOf raw)) (\<lambda>pt. Inr (Some (pt, ses_peerId (cells m ! i))))))))"

definition hasSession :: "SessionManager \<Rightarrow> string \<Rightarrow> bool" where
  "hasSession m peerId = isOk (getSendContext m peerId)"

definition channel_exportSnapshot :: "SessionManager \<Rightarrow> jsval" where
  "channel_exportSnapshot m = JObj [(''v'', JInt 1), (''sessions'', exportSnapshot m)]"

definition channel_importSnapshot :: "jsval \<Rightarrow> SessionManager" where
  "channel_importSnapshot snapshot =
     importSnapshot (if truthy (getProp snapshot ''sessions'') then getProp snapshot ''sessions'' else JObj [])"

section \<open>One message\<close>

lemma raw_truthy: "pt \<noteq> [] \<Longrightarrow> truthy (JStr (bytesToBase64 pt))"
  by (simp add: bytesToBase64_nonempty)

lemma payload_header: "newHeader (JStr (''enc-'' @ int_str t)) (JStr ''rez.payload'') (JInt u) []
     = Inr \<lparr>header_id = ''enc-'' @ int_str t, header_type = ''rez.payload'', header_createdAt = u, header_links = []\<rparr>"
proof -
  have "trim (''enc-'' @ int_str t) \<noteq> []" by (simp add: trim_eq_Nil isSpace_def)
  then show ?thesis by (simp add: newHeader_def strOf_def trim_eq_Nil isSpace_def)
qed

lemma derive_cong:
  assumes "hdr_n h = hdr_n h'" "hdr_dh h = hdr_dh h'"
  shows "deriveReceivingKeyForHeader c alg s h sid = deriveReceivingKeyForHeader c alg s h' sid"
  unfolding deriveReceivingKeyForHeader_def headerStep_def assms by (rule refl)

lemma uint8ArrayOf_arrayFrom [simp]: "uint8ArrayOf (arrayFrom bs) = Some bs"
  by (simp add: uint8ArrayOf_def arrayFrom_def o_def)

lemma truthy_arrayFrom [simp]: "truthy (arrayFrom bs)"
  by (simp add: arrayFrom_def)

text \<open>The receiving side, for a wire message that carries an encrypted body.\<close>

lemma decryptPayload_wire:
  assumes "parse_lawful parse" "header_ok h" "header_type h = ''rez.encrypted.v1''" "encrypted_ok enc"
    and "getRecvContext m (hdr_sid (enc_header enc)) = Inr i"
    and "decryptEnvelope c DH_ALG parse (hdr_sid (enc_header enc)) (ses_ratchetState (cells m ! i))
           \<lparr>env_header = h, env_body = encrypted_toJSON enc, env_meta = JUndef\<rparr> = (st, Inr (payloadEnvelope h' (bytesToBase64 pt), ns))"
  shows "decryptPayload c parse m (stringifyBytes (envelope_toJSON \<lparr>env_header = h, env_body = encrypted_toJSON enc, env_meta = JUndef\<rparr>))
     = (commitRecv m i ns, Inr (if pt = [] then None else Some (pt, ses_peerId (cells m ! i))))"
proof -
  let ?json = "JObj [(''schemaVersion'', JInt 1), (''header'', header_toJSON h), (''body'', encrypted_toJSON enc)]"
  have p: "parse (stringifyBytes (envelope_toJSON \<lparr>env_header = h, env_body = encrypted_toJSON enc, env_meta = JUndef\<rparr>)) = Inr ?json"
    by (rule parse_envelope [OF assms(1,2)]) simp_all
  have e: "envelope_fromJSON ?json = Inr \<lparr>env_header = h, env_body = encrypted_toJSON enc, env_meta = JUndef\<rparr>"
    by (rule envelope_reparsed [OF assms(2)]) (simp add: encrypted_toJSON_def)
  have hdr: "truthy (header_toJSON h)" "getProp (header_toJSON h) ''type'' = JStr ''rez.encrypted.v1''"
    using assms(3) by (simp_all add: header_toJSON_def)
  have body: "truthy (encrypted_toJSON enc)" "getProp (encrypted_toJSON enc) ''header'' = ratchetHeader_toJSON (enc_header enc)"
    "truthy (ratchetHeader_toJSON (enc_header enc))" "getProp (ratchetHeader_toJSON (enc_header enc)) ''sid'' = arrayFrom (hdr_sid (enc_header enc))"
    by (simp_all add: encrypted_toJSON_def ratchetHeader_toJSON_def)
  show ?thesis
  proof (cases "pt = []")
    case True
    then show ?thesis
      using p e hdr body assms(5,6) by (simp add: decryptPayload_def Let_def payloadEnvelope_def)
  next
    case False
    then show ?thesis
      using p e hdr body assms(5,6) bytesToBase64_nonempty [OF False]
      by (simp add: decryptPayload_def Let_def payloadEnvelope_def strOf_def b64.dec_enc)
  qed
qed

text \<open>A message from a sender whose next key is key \<open>n\<close> of a chain, to a receiver that derives that key for index \<open>n\<close>.\<close>

lemma encrypt_then_decrypt:
  assumes laws: "hkdf_lawful c" "hash_lawful c" "aead_lawful c" "parse_lawful parse"
    and snd: "peer \<noteq> []" "getSendContext mS peer = Inr i" "sendState c (cells mS ! i) = Inr (state, incl)"
      "sendingChain state = Some (chainState c ck n)" "pred_option (\<lambda>ch. 0 \<le> messageIndex ch) (receivingChain state)"
    and rcv: "getRecvContext mR (ses_sid (cells mS ! i)) = Inr j" "hdr_n hdr = int n"
      "hdr_dh hdr = (if incl then Some (publicKey (selfDhKeyPair state)) else None)"
      "deriveReceivingKeyForHeader c DH_ALG (ses_ratchetState (cells mR ! j)) hdr (ses_sid (cells mS ! i)) = (st, Inr (keyAt c ck n, ns, used))"
  shows "\<exists>wire. encryptPayload c mS peer pt t1 t2 = Inr (wire, commitSend mS i (state\<lparr>sendingChain := Some (chainState c ck (Suc n))\<rparr>) False)
     \<and> decryptPayload c parse mR wire = (commitRecv mR j ns, Inr (if pt = [] then None else Some (pt, ses_peerId (cells mR ! j))))"
proof -
  let ?sid = "ses_sid (cells mS ! i)"
  define h where "h = \<lparr>header_id = ''enc-'' @ int_str t1, header_type = ''rez.payload'', header_createdAt = t2, header_links = []\<rparr>"
  let ?h = "h\<lparr>header_type := ''rez.encrypted.v1''\<rparr>"
  have ok: "header_ok h" "header_ok ?h" by (simp_all add: header_ok_def h_def trim_eq_Nil isSpace_def)
  have alg: "DH_ALG \<noteq> []" by (simp add: DH_ALG_def)
  obtain enc key nonce where e: "encryptEnvelope c DH_ALG ?sid state incl (payloadEnvelope h (bytesToBase64 pt))
       = Inr (\<lparr>env_header = ?h, env_body = encrypted_toJSON enc, env_meta = JUndef\<rparr>, state\<lparr>sendingChain := Some (chainState c ck (Suc n))\<rparr>)"
     "encrypted_ok enc" "hdr_sid (enc_header enc) = ?sid" "hdr_n (enc_header enc) = int n"
     "hdr_dh (enc_header enc) = (if incl then Some (publicKey (selfDhKeyPair state)) else None)"
     "deriveAeadKeyNonceV1 c (keyAt c ck n) ?sid (hdr_pn (enc_header enc)) (int n) (hdr_dh (enc_header enc)) = Inr (key, nonce)"
     "bindR (decryptAes256Gcm c key nonce (enc_ct enc) (buildAadBytesV1 ?h enc)) (innerChain_decode parse) = Inr (payloadEnvelope h (bytesToBase64 pt))"
    using encryptEnvelope_payload [OF laws ok(1) alg snd(4,5)] by blast
  have send: "encryptPayload c mS peer pt t1 t2 = Inr (stringifyBytes (envelope_toJSON \<lparr>env_header = ?h, env_body = encrypted_toJSON enc, env_meta = JUndef\<rparr>),
      commitSend mS i (state\<lparr>sendingChain := Some (chainState c ck (Suc n))\<rparr>) False)"
    using snd(1-3) e(1) payload_header [of t1 t2]
    by (simp add: encryptPayload_def Let_def newEnvelope_def h_def payloadEnvelope_def)
  have "decryptEnvelope c DH_ALG parse ?sid (ses_ratchetState (cells mR ! j)) \<lparr>env_header = ?h, env_body = encrypted_toJSON enc, env_meta = JUndef\<rparr>
      = (st, Inr (payloadEnvelope h (bytesToBase64 pt), ns))"
    using e rcv derive_cong [of "enc_header enc" hdr] by (intro decryptEnvelope_payload) simp_all
  then have "decryptPayload c parse mR (stringifyBytes (envelope_toJSON \<lparr>env_header = ?h, env_body = encrypted_toJSON enc, env_meta = JUndef\<rparr>))
      = (commitRecv mR j ns, Inr (if pt = [] then None else Some (pt, ses_peerId (cells mR ! j))))"
    using e(3) rcv(1) by (intro decryptPayload_wire [OF laws(4) ok(2) _ e(2)]) simp_all
  with send show ?thesis by blast
qed

section \<open>From the bundle to the first reply\<close>

lemma base64Member_JStr: "getProp v k = JStr (bytesToBase64 bs) \<Longrightarrow> base64Member v k = Inr bs"
  by (simp add: base64Member_def b64.dec_enc)

text \<open>An honest party's keys: sizes, signatures and usable secrets.\<close>

definition honest_setup :: "crypto_provider \<Rightarrow> string \<Rightarrow> key_pair \<Rightarrow> key_pair \<Rightarrow> key_pair \<Rightarrow> key_pair \<Rightarrow> key_pair \<Rightarrow> key_pair \<Rightarrow> bytes \<Rightarrow> bool" where
  "honest_setup c rid idR idDhR spkR idI idDhI eph sig \<longleftrightarrow>
     hkdf_lawful c \<and> hash_lawful c \<and> aead_lawful c \<and> sign_lawful c idR \<and> sign_lawful c idI \<and> trim rid \<noteq> []
     \<and> list_all key_pair_sized [idDhR, spkR, idDhI, eph, idI]
     \<and> dh_usable c idDhI spkR \<and> dh_usable c eph idDhR \<and> dh_usable c eph spkR
     \<and> sign c (privateKey idI) (publicKey idDhI) = Inr sig"

text \<open>Both sides establish a session with one identifier and one shared secret.\<close>

lemma sessions_established:
  assumes "honest_setup c rid idR idDhR spkR idI idDhI eph sig" "trim peerR \<noteq> []" "trim peerI \<noteq> []"
  shows "\<exists>bundle secret sid hs. generatePreKeyBundle c rid idR idDhR spkR = Inr (bundle, spkR)
     \<and> hashSha256 c secret = Inr sid \<and> sid \<noteq> []
     \<and> establishInitiatorSession c emptySessions peerR bundle idI idDhI sig eph dhI
         = Inr (sid, hs, addSession emptySessions \<lparr>ses_sid = sid, ses_peerId = peerR,
             ses_ratchetState = initializeAsInitiator secret dhI (publicKey spkR), ses_includeDh = False\<rparr>)
     \<and> establishResponderSession c emptySessions peerI (privateKey spkR) (privateKey idDhR) bundle hs dhR0 dhR
         = Inr (sid, publicKey idI, addSession emptySessions \<lparr>ses_sid = sid, ses_peerId = peerI,
             ses_ratchetState = (initializeAsResponder secret dhR0 (publicKey dhI))\<lparr>selfDhKeyPair := dhR\<rparr>, ses_includeDh = True\<rparr>)"
proof -
  obtain bnd handshake secret where x: "createReceiverBundle c rid idR idDhR spkR None = Inr bnd"
      "initiatorCompute c bnd idI idDhI sig eph = Inr (handshake, secret, eph)"
      "receiverCompute c bnd (privateKey idDhR) (privateKey spkR) None handshake = Inr secret" "signedPreKeyPublic bnd = publicKey spkR"
    and hs: "handshake = \<lparr>handshake_receiverId = rid, senderIdentitySigningPublicKey = publicKey idI, senderIdentityDhPublicKey = publicKey idDhI,
          senderIdentityDhSignature = sig, ephemeralPublicKey = publicKey eph, usedOneTimePreKey = False\<rparr>"
    using x3dh_honest_run [of c idR idI rid idDhR spkR idDhI eph None sig] assms(1) unfolding honest_setup_def by auto
  obtain sid where sid: "hashSha256 c secret = Inr sid" "length sid = 32"
    using assms(1) unfolding honest_setup_def hash_lawful_def by blast
  have sid0: "sid \<noteq> []" using sid(2) by auto
  have names: "peerR \<noteq> []" "peerI \<noteq> []" "rid \<noteq> []" "trim rid \<noteq> []" using assms by (auto simp: honest_setup_def trim_def)
  let ?hd = "handshakeData handshake (publicKey dhI) (publicKey spkR)"
  have init: "establishInitiatorSession c emptySessions peerR bnd idI idDhI sig eph dhI
      = Inr (sid, ?hd, addSession emptySessions \<lparr>ses_sid = sid, ses_peerId = peerR,
             ses_ratchetState = initializeAsInitiator secret dhI (publicKey spkR), ses_includeDh = False\<rparr>)"
    using x(2,4) sid sid0 names assms(2)
    by (simp add: establishInitiatorSession_def createInitiatorSession_def deriveSessionIdV1_def newSecureSessionRecord_def)
  have members: "base64Member ?hd ''senderIdentitySigningPubKeyB64'' = Inr (publicKey idI)" "base64Member ?hd ''senderIdentityDhPubKeyB64'' = Inr (publicKey idDhI)"
    "base64Member ?hd ''senderIdentityDhSignatureB64'' = Inr sig" "base64Member ?hd ''ephemeralPublicKeyB64'' = Inr (publicKey eph)"
    "base64Member ?hd ''initiatorDhPublicKeyB64'' = Inr (publicKey dhI)"
    by (simp_all add: base64Member_JStr handshakeData_def hs)
  have rest: "getProp ?hd ''receiverId'' = JStr rid" "getProp ?hd ''usedOneTimePreKey'' = JBool False" "truthy ?hd"
    by (simp_all add: handshakeData_def hs)
  have "newX3DHInitiatorHandshake \<lparr>handshake_receiverId = rid, senderIdentitySigningPublicKey = publicKey idI, senderIdentityDhPublicKey = publicKey idDhI,
      senderIdentityDhSignature = sig, ephemeralPublicKey = publicKey eph, usedOneTimePreKey = False\<rparr> = Inr handshake"
    using names by (simp add: newX3DHInitiatorHandshake_def hs)
  then have resp: "establishResponderSession c emptySessions peerI (privateKey spkR) (privateKey idDhR) bnd ?hd dhR0 dhR
      = Inr (sid, publicKey idI, addSession emptySessions \<lparr>ses_sid = sid, ses_peerId = peerI,
             ses_ratchetState = (initializeAsResponder secret dhR0 (publicKey dhI))\<lparr>selfDhKeyPair := dhR\<rparr>, ses_includeDh = True\<rparr>)"
    using x(3) sid sid0 names members rest assms(3)
    by (simp add: establishResponderSession_def createResponderSession_def deriveSessionIdV1_def newSecureSessionRecord_def strOf_def)
       (simp add: rotateDh_def addSession_def emptySessions_def writeCell_def)
  have "generatePreKeyBundle c rid idR idDhR spkR = Inr (bnd, spkR)" using x(1) names by (simp add: generatePreKeyBundle_def)
  with init resp sid sid0 show ?thesis by blast
qed

text \<open>The first key of a fresh receiving chain.\<close>

lemma derive_first:
  assumes "hkdf_lawful c" "hash_lawful c" "receivingChain ws = Some \<lparr>chainKey = ck, messageIndex = 0\<rparr>" "skipped ws = emptySkippedKeyStore"
    and "maxSkip ws = 200" "maxSkippedKeys ws = 500" "maxSkippedBytes ws = 65536" "currentDh (remoteDhPublicKey ws) h" "hdr_n h = 0"
  shows "\<exists>st ns used. deriveReceivingKeyForHeader c alg ws h sid = (st, Inr (keyAt c ck 0, ns, used)) \<and> sameSession ws ns
     \<and> pred_option (\<lambda>ch. 0 \<le> messageIndex ch) (receivingChain ns)"
proof -
  obtain dhHash where hash: "hashSha256 c (remoteDhPublicKey ws) = Inr dhHash" using assms(2) unfolding hash_lawful_def by blast
  have start: "inStep c ck (lookupKey sid dhHash) 0 0 {} 0 ws" using assms(3,4) by (rule inStep_start)
  obtain st ns used where "deriveReceivingKeyForHeader c alg ws h sid = (st, Inr (keyAt c ck 0, ns, used))" "sameSession ws ns"
      "inStep c ck (lookupKey sid dhHash) 0 0 (insert 0 {}) (max 0 (Suc 0)) ns"
    using derive_deliver [OF assms(1) hash assms(8) start, of 0 1 alg] assms(5-7,9) by auto
  then show ?thesis by (auto simp: inStep_def)
qed

lemma addSession_empty:
  "cells (addSession emptySessions r) = [r]" "getSendContext (addSession emptySessions r) (ses_peerId r) = Inr 0"
  "getRecvContext (addSession emptySessions r) (ses_sid r) = Inr 0"
  by (simp_all add: addSession_def emptySessions_def getSendContext_def getRecvContext_def)

lemma commit_contexts:
  "getSendContext (commitSend m i s k) p = getSendContext m p" "getRecvContext (commitSend m i s k) sid = getRecvContext m sid"
  "getSendContext (commitRecv m i s) p = getSendContext m p" "getRecvContext (commitRecv m i s) sid = getRecvContext m sid"
  by (simp_all add: getSendContext_def getRecvContext_def commitSend_def commitRecv_def writeCell_def Let_def)

lemma commit_cells:
  "i < length (cells m) \<Longrightarrow> cells (commitRecv m i s) ! i = (cells m ! i)\<lparr>ses_ratchetState := s\<rparr>"
  "i < length (cells m) \<Longrightarrow> cells (commitSend m i s False) ! i = (cells m ! i)\<lparr>ses_ratchetState := s, ses_includeDh := False\<rparr>"
  by (simp_all add: commitRecv_def commitSend_def writeCell_def Let_def)

text \<open>The initiator's first message, and the responder's reply to it.\<close>

lemma first_message:
  assumes laws: "hkdf_lawful c" "hash_lawful c" "aead_lawful c" "parse_lawful parse" and "peerR \<noteq> []"
    and mI: "mI = addSession emptySessions \<lparr>ses_sid = sid, ses_peerId = peerR, ses_ratchetState = initializeAsInitiator secret dhI pkB, ses_includeDh = False\<rparr>"
    and mR: "mR = addSession emptySessions \<lparr>ses_sid = sid, ses_peerId = peerI,
       ses_ratchetState = (initializeAsResponder secret dhR0 (publicKey dhI))\<lparr>selfDhKeyPair := dhR\<rparr>, ses_includeDh = True\<rparr>"
  shows "\<exists>wire ns. encryptPayload c mI peerR pt t1 t2
       = Inr (wire, commitSend mI 0 ((initializeAsInitiator secret dhI pkB)\<lparr>sendingChain := Some (chainState c secret 1)\<rparr>) False)
     \<and> decryptPayload c parse mR wire = (commitRecv mR 0 ns, Inr (if pt = [] then None else Some (pt, peerI)))
     \<and> sameSession ((initializeAsResponder secret dhR0 (publicKey dhI))\<lparr>selfDhKeyPair := dhR\<rparr>) ns
     \<and> pred_option (\<lambda>ch. 0 \<le> messageIndex ch) (receivingChain ns)"
proof -
  let ?I = "initializeAsInitiator secret dhI pkB" and ?R = "(initializeAsResponder secret dhR0 (publicKey dhI))\<lparr>selfDhKeyPair := dhR\<rparr>"
  let ?h = "\<lparr>hdr_sid = sid, hdr_dh = None, hdr_dhAlg = [], hdr_dhFmt = [], hdr_pn = 0, hdr_n = 0\<rparr>"
  obtain st ns used where d: "deriveReceivingKeyForHeader c DH_ALG ?R ?h sid = (st, Inr (keyAt c secret 0, ns, used))" "sameSession ?R ns"
      "pred_option (\<lambda>ch. 0 \<le> messageIndex ch) (receivingChain ns)"
    using derive_first [OF laws(1,2), of ?R secret ?h DH_ALG sid]
    by (auto simp: initializeAsResponder_def currentDh_def DEFAULT_MAX_SKIP_def DEFAULT_MAX_SKIPPED_KEYS_def DEFAULT_MAX_SKIPPED_BYTES_def)
  have ctx: "getSendContext mI peerR = Inr 0" "getRecvContext mR sid = Inr 0"
    using addSession_empty(2,3) unfolding mI mR by (metis SecureSessionRecord.select_convs(1,2))+
  have cellsI: "cells mI ! 0 = \<lparr>ses_sid = sid, ses_peerId = peerR, ses_ratchetState = ?I, ses_includeDh = False\<rparr>"
    and cellsR: "ses_ratchetState (cells mR ! 0) = ?R" "ses_peerId (cells mR ! 0) = peerI"
    by (simp_all add: mI mR addSession_empty)
  have "sendState c (cells mI ! 0) = Inr (?I, False)" by (simp add: cellsI sendState_def initializeAsInitiator_def)
  then have "\<exists>wire. encryptPayload c mI peerR pt t1 t2 = Inr (wire, commitSend mI 0 (?I\<lparr>sendingChain := Some (chainState c secret (Suc 0))\<rparr>) False)
      \<and> decryptPayload c parse mR wire = (commitRecv mR 0 ns, Inr (if pt = [] then None else Some (pt, ses_peerId (cells mR ! 0))))"
    using assms(5) ctx d(1) cellsR cellsI
    by (intro encrypt_then_decrypt [OF laws, where hdr = "?h"]) (simp_all add: initializeAsInitiator_def)
  with d cellsR show ?thesis by auto
qed

lemma first_reply:
  assumes laws: "hkdf_lawful c" "hash_lawful c" "aead_lawful c" "parse_lawful parse" and "peerI \<noteq> []"
    and dh: "dh_agree c dhR dhI" "publicKey dhR \<noteq> publicKey dhI" "publicKey dhR \<noteq> pkB"
      "dhDerive c (privateKey dhR) (publicKey dhI) DH_ALG (inferDhFormat (publicKey dhI)) = Inr dhSecret"
    and R: "sameSession ((initializeAsResponder secret dhR0 (publicKey dhI))\<lparr>selfDhKeyPair := dhR\<rparr>) ns"
      "pred_option (\<lambda>ch. 0 \<le> messageIndex ch) (receivingChain ns)"
    and mR: "getSendContext mR peerI = Inr i" "ses_ratchetState (cells mR ! i) = ns" "ses_sid (cells mR ! i) = sid"
    and mI: "getRecvContext mI sid = Inr j" "ses_ratchetState (cells mI ! j) = (initializeAsInitiator secret dhI pkB)\<lparr>sendingChain := sc\<rparr>"
  shows "\<exists>wire mR' mI'. encryptPayload c mR peerI pt t1 t2 = Inr (wire, mR')
     \<and> decryptPayload c parse mI wire = (mI', Inr (if pt = [] then None else Some (pt, ses_peerId (cells mI ! j))))"
proof -
  let ?I = "(initializeAsInitiator secret dhI pkB)\<lparr>sendingChain := sc\<rparr>"
  have ns: "rootKey ns = secret" "sendingChain ns = None" "selfDhKeyPair ns = dhR" "remoteDhPublicKey ns = publicKey dhI"
    using sameSession_fields [OF R(1)] by (simp_all add: initializeAsResponder_def)
  have I: "rootKey ?I = secret" "selfDhKeyPair ?I = dhI" "remoteDhPublicKey ?I = pkB" by (simp_all add: initializeAsInitiator_def)
  obtain rk ck where step: "ratchetStep c DH_ALG ns (publicKey dhI) ''sending''
        = Inr (ns\<lparr>rootKey := rk, sendingChain := Some \<lparr>chainKey = ck, messageIndex = 0\<rparr>, remoteDhPublicKey := publicKey dhI\<rparr>)"
      "ratchetStep c DH_ALG ?I (publicKey dhR) ''receiving''
        = Inr (?I\<lparr>rootKey := rk, receivingChain := Some \<lparr>chainKey = ck, messageIndex = 0\<rparr>, remoteDhPublicKey := publicKey dhR\<rparr>)"
    using ratchetStep_mirror [of c ns ?I DH_ALG dhSecret] dh laws(1) unfolding ns I by auto
  let ?h = "\<lparr>hdr_sid = sid, hdr_dh = Some (publicKey dhR), hdr_dhAlg = [], hdr_dhFmt = [], hdr_pn = 0, hdr_n = 0\<rparr>"
  let ?I1 = "?I\<lparr>rootKey := rk, receivingChain := Some \<lparr>chainKey = ck, messageIndex = 0\<rparr>, remoteDhPublicKey := publicKey dhR\<rparr>"
  let ?s = "ns\<lparr>rootKey := rk, sendingChain := Some \<lparr>chainKey = ck, messageIndex = 0\<rparr>, remoteDhPublicKey := publicKey dhI\<rparr>"
  have "deriveReceivingKeyForHeader c DH_ALG ?I ?h sid = deriveReceivingKeyForHeader c DH_ALG ?I1 ?h sid"
    using dh(3) by (intro derive_new_remote [OF _ _ step(2)]) (simp_all add: I)
  moreover obtain st ns' used where "deriveReceivingKeyForHeader c DH_ALG ?I1 ?h sid = (st, Inr (keyAt c ck 0, ns', used))"
    using derive_first [OF laws(1,2), of ?I1 ck ?h DH_ALG sid]
    by (auto simp: initializeAsInitiator_def currentDh_def DEFAULT_MAX_SKIP_def DEFAULT_MAX_SKIPPED_KEYS_def DEFAULT_MAX_SKIPPED_BYTES_def)
  ultimately have d: "deriveReceivingKeyForHeader c DH_ALG ?I ?h sid = (st, Inr (keyAt c ck 0, ns', used))" by simp
  have "sendState c (cells mR ! i) = Inr (?s, True)" using step(1) by (simp add: sendState_def mR(2) ns)
  then have "\<exists>wire. encryptPayload c mR peerI pt t1 t2 = Inr (wire, commitSend mR i (?s\<lparr>sendingChain := Some (chainState c ck (Suc 0))\<rparr>) False)
      \<and> decryptPayload c parse mI wire = (commitRecv mI j ns', Inr (if pt = [] then None else Some (pt, ses_peerId (cells mI ! j))))"
    using assms(5) mR mI d R(2) by (intro encrypt_then_decrypt [OF laws, where hdr = "?h"]) (simp_all add: ns)
  then show ?thesis by blast
qed

section \<open>Properties of the channel\<close>




text \<open>A session that waits for message 0 of a peer, and a provider that rejects every ciphertext.\<close>

definition demo_waiting :: RatchetState where
  "demo_waiting = (initializeAsResponder [1, 2] (demo_keys 3) [4])
     \<lparr>skipped := \<lparr>entries = [(lookupKey [9] (replicate 32 4) 0, [7])], totalBytes = 1\<rparr>\<rparr>"

definition demo_forged :: EncryptedEnvelopeV1 where
  "demo_forged = \<lparr>enc_header = \<lparr>hdr_sid = [9], hdr_dh = None, hdr_dhAlg = ''X25519'', hdr_dhFmt = ''raw'', hdr_pn = 0, hdr_n = 0\<rparr>,
     enc_nonce = replicate 12 0, enc_ct = [1]\<rparr>"


text \<open>An empty payload does not arrive. It is encrypted and decrypted without an error and both ratchets advance, but the
  receiver's result is the one for a message that is not for the channel.\<close>

theorem empty_payload_lost:
  assumes "honest_setup c rid idR idDhR spkR idI idDhI eph sig" "parse_lawful parse" "trim peerR \<noteq> []" "trim peerI \<noteq> []"
  shows "\<exists>pre sid hs mI mR wire mI1 mR1. generatePreKeyBundle c rid idR idDhR spkR = Inr (pre, spkR)
     \<and> establishInitiatorSession c emptySessions peerR pre idI idDhI sig eph dhI = Inr (sid, hs, mI)
     \<and> establishResponderSession c emptySessions peerI (privateKey spkR) (privateKey idDhR) pre hs dhR0 dhR = Inr (sid, publicKey idI, mR)
     \<and> encryptPayload c mI peerR [] t1 t2 = Inr (wire, mI1) \<and> decryptPayload c parse mR wire = (mR1, Inr None)"
proof -
  have laws: "hkdf_lawful c" "hash_lawful c" "aead_lawful c" using assms(1) by (simp_all add: honest_setup_def)
  have names: "peerR \<noteq> []" using assms(3) by (auto simp: trim_def)
  show ?thesis
    using sessions_established [OF assms(1,3,4), of dhI dhR0 dhR] first_message [OF laws assms(2) names refl refl, where pt = "[]"] by fastforce
qed

theorem empty_payload_lost_witness:
  "\<exists>pre sid hs mI mR wire mI1 mR1. generatePreKeyBundle demo_crypto ''bob'' (demo_keys 1) (demo_keys 2) (demo_keys 3) = Inr (pre, demo_keys 3)
     \<and> establishInitiatorSession demo_crypto emptySessions ''bob'' pre (demo_keys 5) (demo_keys 6) (replicate 32 5 @ replicate 32 6) (demo_keys 7) (demo_keys 8) = Inr (sid, hs, mI)
     \<and> establishResponderSession demo_crypto emptySessions ''alice'' (privateKey (demo_keys 3)) (privateKey (demo_keys 2)) pre hs (demo_keys 9) (demo_keys 10)
         = Inr (sid, publicKey (demo_keys 5), mR)
     \<and> encryptPayload demo_crypto mI ''bob'' [] 1 2 = Inr (wire, mI1) \<and> decryptPayload demo_crypto jsonParseBytes mR wire = (mR1, Inr None)"
  by (rule empty_payload_lost) (simp_all add: honest_setup_def key_pair_sized_def dh_usable_def trim_eq_Nil isSpace_def)

end
