(* ===== verification/Hashing.thy ===== *)
theory Hashing
  imports Canonical_Json
begin

text \<open>
  The two hash functions the library carries itself: SHA-256 (\<^verbatim>\<open>src/base/util/Hash.js\<close>) and the 64-bit FNV-1a
  fingerprint (\<^verbatim>\<open>src/network/FrameFingerprint.js\<close>). The sums and bit operations of the source work on
  numbers that are read modulo \<open>2^32\<close>, so the model computes on 32-bit words. The padding is computed with
  a 32-bit \<^verbatim>\<open>&\<close>, which is exact for inputs below 2 GiB.
\<close>

unbundle bit_operations_syntax

section \<open>Hexadecimal numbers\<close>

fun toString16 :: "nat \<Rightarrow> string" where
  "toString16 n = (if n < 16 then [HEX_ALPHABET ! n] else toString16 (n div 16) @ [HEX_ALPHABET ! (n mod 16)])"

declare toString16.simps [simp del]

definition padStart :: "nat \<Rightarrow> char \<Rightarrow> string \<Rightarrow> string" where
  "padStart n c s = replicate (n - length s) c @ s"

definition toHex :: "bytes \<Rightarrow> string" where
  "toHex bs = concat (map (\<lambda>b. padStart 2 CHR ''0'' (toString16 (unat b))) bs)"

section \<open>SHA-256\<close>

definition rotr :: "u32 \<Rightarrow> nat \<Rightarrow> u32" where
  "rotr v n = drop_bit n v OR push_bit (32 - n) v"

definition SHA_K :: "u32 list" where
  "SHA_K = concat [
    [0x428a2f98, 0x71374491, 0xb5c0fbcf, 0xe9b5dba5],
    [0x3956c25b, 0x59f111f1, 0x923f82a4, 0xab1c5ed5],
    [0xd807aa98, 0x12835b01, 0x243185be, 0x550c7dc3],
    [0x72be5d74, 0x80deb1fe, 0x9bdc06a7, 0xc19bf174],
    [0xe49b69c1, 0xefbe4786, 0x0fc19dc6, 0x240ca1cc],
    [0x2de92c6f, 0x4a7484aa, 0x5cb0a9dc, 0x76f988da],
    [0x983e5152, 0xa831c66d, 0xb00327c8, 0xbf597fc7],
    [0xc6e00bf3, 0xd5a79147, 0x06ca6351, 0x14292967],
    [0x27b70a85, 0x2e1b2138, 0x4d2c6dfc, 0x53380d13],
    [0x650a7354, 0x766a0abb, 0x81c2c92e, 0x92722c85],
    [0xa2bfe8a1, 0xa81a664b, 0xc24b8b70, 0xc76c51a3],
    [0xd192e819, 0xd6990624, 0xf40e3585, 0x106aa070],
    [0x19a4c116, 0x1e376c08, 0x2748774c, 0x34b0bcb5],
    [0x391c0cb3, 0x4ed8aa4a, 0x5b9cca4f, 0x682e6ff3],
    [0x748f82ee, 0x78a5636f, 0x84c87814, 0x8cc70208],
    [0x90befffa, 0xa4506ceb, 0xbef9a3f7, 0xc67178f2]]"

definition SHA_H :: "u32 list" where
  "SHA_H = [0x6a09e667, 0xbb67ae85, 0x3c6ef372, 0xa54ff53a, 0x510e527f, 0x9b05688c, 0x1f83d9ab, 0x5be0cd19]"

text \<open>\<^verbatim>\<open>DataView.setUint32\<close> and \<^verbatim>\<open>getUint32\<close>, big-endian.\<close>

definition setUint32 :: "bytes \<Rightarrow> nat \<Rightarrow> u32 \<Rightarrow> bytes" where
  "setUint32 buf i v = buf[i := ucast (drop_bit 24 v), i + 1 := ucast (drop_bit 16 v), i + 2 := ucast (drop_bit 8 v), i + 3 := ucast v]"

definition getUint32 :: "bytes \<Rightarrow> nat \<Rightarrow> u32" where
  "getUint32 buf i = push_bit 24 (ucast (buf ! i)) OR push_bit 16 (ucast (buf ! (i + 1))) OR push_bit 8 (ucast (buf ! (i + 2))) OR ucast (buf ! (i + 3))"

definition sha_padLen :: "nat \<Rightarrow> nat" where
  "sha_padLen len = unat ((of_nat (len + 9 + 63) :: u32) AND NOT 63) - len"

definition sha_padded :: "bytes \<Rightarrow> bytes" where
  "sha_padded bs =
     (let len = length bs; bitLen = len * 8; padded = bs @ replicate (sha_padLen len) 0;
          padded = padded[len := 0x80];
          padded = setUint32 padded (length padded - 4) (of_nat bitLen)
      in setUint32 padded (length padded - 8) (of_nat (bitLen div 0x100000000)))"

text \<open>The message schedule: the array \<open>w\<close> of 64 words, filled from the block and then extended in place.\<close>

definition sha_extend :: "nat \<Rightarrow> u32 list \<Rightarrow> u32 list" where
  "sha_extend i w =
     (let s0 = rotr (w ! (i - 15)) 7 XOR rotr (w ! (i - 15)) 18 XOR drop_bit 3 (w ! (i - 15));
          s1 = rotr (w ! (i - 2)) 17 XOR rotr (w ! (i - 2)) 19 XOR drop_bit 10 (w ! (i - 2))
      in w[i := w ! (i - 16) + s0 + w ! (i - 7) + s1])"

definition sha_schedule :: "bytes \<Rightarrow> nat \<Rightarrow> u32 list \<Rightarrow> u32 list" where
  "sha_schedule padded off w = fold sha_extend [16..<64] (fold (\<lambda>i w. w[i := getUint32 padded (off + i * 4)]) [0..<16] w)"

type_synonym sha_vars = "u32 \<times> u32 \<times> u32 \<times> u32 \<times> u32 \<times> u32 \<times> u32 \<times> u32"

fun sha_round :: "u32 \<Rightarrow> u32 \<Rightarrow> sha_vars \<Rightarrow> sha_vars" where
  "sha_round k w (a, b, c, d, e, f, g, h) =
     (let S1 = rotr e 6 XOR rotr e 11 XOR rotr e 25;
          ch = (e AND f) XOR (NOT e AND g);
          temp1 = h + S1 + ch + k + w;
          S0 = rotr a 2 XOR rotr a 13 XOR rotr a 22;
          maj = (a AND b) XOR (a AND c) XOR (b AND c);
          temp2 = S0 + maj
      in (temp1 + temp2, a, b, c, d + temp1, e, f, g))"

fun sha_add :: "sha_vars \<Rightarrow> u32 list \<Rightarrow> u32 list" where
  "sha_add (a, b, c, d, e, f, g, h) H = map2 (+) H [a, b, c, d, e, f, g, h]"

definition sha_vars_of :: "u32 list \<Rightarrow> sha_vars" where
  "sha_vars_of H = (H ! 0, H ! 1, H ! 2, H ! 3, H ! 4, H ! 5, H ! 6, H ! 7)"

definition sha_block :: "bytes \<Rightarrow> nat \<Rightarrow> u32 list \<times> u32 list \<Rightarrow> u32 list \<times> u32 list" where
  "sha_block padded off = (\<lambda>(H, w).
     let w = sha_schedule padded off w
     in (sha_add (fold (\<lambda>i. sha_round (SHA_K ! i) (w ! i)) [0..<64] (sha_vars_of H)) H, w))"

function sha_blocks :: "bytes \<Rightarrow> nat \<Rightarrow> u32 list \<times> u32 list \<Rightarrow> u32 list \<times> u32 list" where
  "sha_blocks padded off st =
     (if off < length padded then sha_blocks padded (off + 64) (sha_block padded off st) else st)"
  by pat_completeness auto
termination
  by (relation "measure (\<lambda>(padded, off, st). length padded - off)") auto

declare sha_blocks.simps [simp del]

definition sha256Internal :: "bytes \<Rightarrow> bytes" where
  "sha256Internal bs =
     (let H = fst (sha_blocks (sha_padded bs) 0 (SHA_H, replicate 64 0))
      in fold (\<lambda>i out. setUint32 out (i * 4) (H ! i)) [0..<length H] (replicate 32 0))"

definition sha256Hex :: "string \<Rightarrow> string" where
  "sha256Hex input = toHex (sha256Internal (utf8Encode input))"

definition sha256HexBytes :: "bytes \<Rightarrow> string" where
  "sha256HexBytes input = toHex (sha256Internal input)"

section \<open>FNV-1a\<close>

definition FNV_64_OFFSET :: nat where "FNV_64_OFFSET = 0xcbf29ce484222325"
definition FNV_64_PRIME :: nat where "FNV_64_PRIME = 0x100000001b3"

text \<open>The source computes on unbounded BigInt values and masks every round.\<close>

definition fnv1a64Hex :: "bytes \<Rightarrow> string" where
  "fnv1a64Hex bs = padStart 16 CHR ''0''
     (toString16 (foldl (\<lambda>hash b. ((hash XOR unat b) * FNV_64_PRIME) AND 0xffffffffffffffff) FNV_64_OFFSET bs))"

section \<open>The published algorithm\<close>

text \<open>
  The reference for SHA-256 as FIPS 180-4 states it: padding by length arithmetic, the blocks of the padded message in
  order, the schedule by its recurrence and the rotations of the word library.
\<close>

definition be32 :: "u32 \<Rightarrow> bytes" where
  "be32 v = [ucast (drop_bit 24 v), ucast (drop_bit 16 v), ucast (drop_bit 8 v), ucast v]"

definition fips_pad :: "bytes \<Rightarrow> bytes" where
  "fips_pad m = m @ [0x80] @ replicate (nat ((55 - int (length m)) mod 64)) 0
     @ be32 (of_nat (8 * length m div 2 ^ 32)) @ be32 (of_nat (8 * length m))"

fun fips_W :: "bytes \<Rightarrow> nat \<Rightarrow> u32" where
  "fips_W M t =
     (if t < 16 then getUint32 M (4 * t)
      else (let s = (\<lambda>x. word_rotr 17 x XOR word_rotr 19 x XOR drop_bit 10 x) (fips_W M (t - 2));
                r = (\<lambda>x. word_rotr 7 x XOR word_rotr 18 x XOR drop_bit 3 x) (fips_W M (t - 15))
            in s + fips_W M (t - 7) + r + fips_W M (t - 16)))"

declare fips_W.simps [simp del]

fun fips_round :: "u32 \<Rightarrow> u32 \<Rightarrow> sha_vars \<Rightarrow> sha_vars" where
  "fips_round K W (a, b, c, d, e, f, g, h) =
     (let T1 = h + (word_rotr 6 e XOR word_rotr 11 e XOR word_rotr 25 e) + ((e AND f) XOR (NOT e AND g)) + K + W;
          T2 = (word_rotr 2 a XOR word_rotr 13 a XOR word_rotr 22 a) + ((a AND b) XOR (a AND c) XOR (b AND c))
      in (T1 + T2, a, b, c, d + T1, e, f, g))"

definition fips_compress :: "bytes \<Rightarrow> u32 list \<Rightarrow> u32 list" where
  "fips_compress M H = sha_add (fold (\<lambda>t. fips_round (SHA_K ! t) (fips_W M t)) [0..<64] (sha_vars_of H)) H"

function fips_blocks :: "bytes \<Rightarrow> bytes list" where
  "fips_blocks m = (if m = [] then [] else take 64 m # fips_blocks (drop 64 m))"
  by pat_completeness auto
termination by (relation "measure length") auto

declare fips_blocks.simps [simp del]

definition fips_sha256 :: "bytes \<Rightarrow> bytes" where
  "fips_sha256 m = concat (map be32 (fold fips_compress (fips_blocks (fips_pad m)) SHA_H))"

section \<open>The implementation computes it\<close>

lemma rotr_word_rotr: "0 < n \<Longrightarrow> n < 32 \<Longrightarrow> rotr v n = word_rotr n v"
proof (rule bit_word_eqI)
  fix k assume n: "0 < n" "n < 32" and k: "k < LENGTH(32)"
  show "bit (rotr v n) k = bit (word_rotr n v) k"
  proof (cases "k + n < 32")
    case True
    with k n show ?thesis by (auto simp: rotr_def bit_word_rotr_iff bit_simps add.commute)
  next
    case False
    then have "(k + n) mod 32 = k - (32 - n)" using k n by (simp add: mod_if)
    with False k n show ?thesis by (auto simp: rotr_def bit_word_rotr_iff bit_simps dest: bit_imp_le_length)
  qed
qed

lemma sha_padLen_eq:
  assumes "len < 2 ^ 31 - 72"
  shows "sha_padLen len = (len + 72) div 64 * 64 - len"
proof -
  let ?x = "of_nat (len + 72) :: u32"
  have 63: "(63 :: u32) = mask 6" by (simp add: mask_eq_exp_minus_1)
  have eq: "(x :: u32) AND NOT 63 = push_bit 6 (drop_bit 6 x)" for x
    unfolding 63 by (rule bit_word_eqI) (auto simp: bit_simps)
  have x: "unat ?x = len + 72" using assms by (simp only: unat_of_nat) simp
  have le: "(len + 72) div 64 * 64 \<le> len + 72" by simp
  have "unat (push_bit 6 (drop_bit 6 ?x)) = take_bit 32 (push_bit 6 (drop_bit 6 (len + 72)))"
    using assms by (simp only: unsigned_push_bit_eq unsigned_drop_bit_eq x) (simp add: take_bit_nat_eq_self)
  also have "\<dots> = (len + 72) div 64 * 64"
    using le assms by (simp add: push_bit_eq_mult drop_bit_eq_div take_bit_nat_eq_self)
  moreover have "len + 9 + 63 = len + 72" by simp
  ultimately show ?thesis unfolding sha_padLen_def eq by (simp add: add.commute)
qed

lemma setUint32_end: "setUint32 (p @ [x, y, z, u] @ q) (length p) v = p @ be32 v @ q"
  by (simp add: setUint32_def be32_def list_update_append)

lemma fips_zeros:
  fixes n :: nat
  shows "(n + 72) div 64 * 64 = n + 9 + nat ((55 - int n) mod 64)"
proof -
  define q r where "q = int n div 64" and "r = int n mod 64"
  then have n: "int n = 64 * q + r" and r: "0 \<le> r" "r < 64" by simp_all
  have "(55 - int n) mod 64 = (55 - r + 64 * (- q)) mod 64" by (simp add: n algebra_simps)
  then have m: "(55 - int n) mod 64 = (55 - r) mod 64" by (simp only: mod_mult_self2)
  have "(int n + 72) div 64 = (r + 72 + 64 * q) div 64" by (simp add: n algebra_simps)
  then have d: "(int n + 72) div 64 = q + (r + 72) div 64" by (simp only: div_mult_self2)
  have "(r + 72) div 64 * 64 = r + 9 + (55 - r) mod 64"
  proof (cases "r \<le> 55")
    case True
    then have "(r + 72) div 64 = 1" "(55 - r) mod 64 = 55 - r" using r by (simp_all add: div_eq_minus1 mod_pos_pos_trivial)
    then show ?thesis by simp
  next
    case False
    then have "(r + 72) div 64 = 2" "(55 - r) mod 64 = 119 - r" using r mod_pos_pos_trivial [of "119 - r" 64] mod_add_self2 [of "55 - r" 64]
      by (simp_all add: div_pos_geq)
    then show ?thesis by simp
  qed
  then have "int ((n + 72) div 64 * 64) = int n + 9 + (55 - int n) mod 64"
    using d n m by (simp add: zdiv_int algebra_simps)
  moreover have "0 \<le> (55 - int n) mod 64" by simp
  ultimately show ?thesis by linarith
qed

lemma sha_padded_eq:
  assumes "length m < 2 ^ 31 - 72"
  shows "sha_padded m = fips_pad m" and "64 dvd length (sha_padded m)"
proof -
  let ?k = "nat ((55 - int (length m)) mod 64)" and ?z = "[0, 0, 0, 0] :: bytes"
  have pl: "sha_padLen (length m) = Suc (?k + 8)"
    using sha_padLen_eq [OF assms] fips_zeros [of "length m"] by simp
  have zeros: "replicate (?k + 8) (0 :: byte) = replicate ?k 0 @ ?z @ ?z"
    using replicate_add [of ?k 8 "0 :: byte"] by (simp add: numeral_eq_Suc)
  let ?p = "m @ [0x80] @ replicate ?k 0"
  have "(m @ replicate (sha_padLen (length m)) 0)[length m := 0x80] = ?p @ ?z @ ?z"
    unfolding pl replicate_Suc zeros list_update_length by simp
  moreover have "setUint32 (?p @ ?z @ ?z) (length (?p @ ?z @ ?z) - 4) v = ?p @ ?z @ be32 v" for v
    using setUint32_end [of "?p @ ?z" 0 0 0 0 "[]" v] by simp
  moreover have "setUint32 (?p @ ?z @ be32 v) (length (?p @ ?z @ be32 v) - 8) u = ?p @ be32 u @ be32 v" for u v
    using setUint32_end [of ?p 0 0 0 0 "be32 v" u] by (simp add: be32_def)
  ultimately show eq: "sha_padded m = fips_pad m"
    by (simp only: sha_padded_def Let_def fips_pad_def) (simp add: mult.commute)
  have "length (fips_pad m) = (length m + 72) div 64 * 64"
    using fips_zeros [of "length m"] by (simp add: fips_pad_def be32_def)
  then show "64 dvd length (sha_padded m)" unfolding eq by simp
qed

lemma fill_nth:
  assumes "n \<le> length w"
  shows "length (fold (\<lambda>i w. w[i := f i]) [0..<n] w) = length w \<and> (\<forall>t<n. fold (\<lambda>i w. w[i := f i]) [0..<n] w ! t = f t)"
  using assms by (induction n) (auto simp: nth_list_update less_Suc_eq)

lemma block_word: "t < 16 \<Longrightarrow> off + 64 \<le> length p \<Longrightarrow> getUint32 p (off + t * 4) = getUint32 (take 64 (drop off p)) (4 * t)"
  by (simp add: getUint32_def mult.commute add.assoc)

lemma schedule_nth:
  assumes "length w = 64" "off + 64 \<le> length p"
  shows "length (sha_schedule p off w) = 64" and "t < 64 \<Longrightarrow> sha_schedule p off w ! t = fips_W (take 64 (drop off p)) t"
proof -
  let ?M = "take 64 (drop off p)"
  define v where "v = fold (\<lambda>i w. w[i := getUint32 p (off + i * 4)]) [0..<16] w"
  have v: "length v = 64" "\<forall>t<16. v ! t = fips_W ?M t"
    using fill_nth [of 16 w "\<lambda>i. getUint32 p (off + i * 4)"] assms block_word unfolding v_def
    by (auto simp: fips_W.simps [of ?M])
  have "j \<le> 48 \<Longrightarrow> length (fold sha_extend [16..<16 + j] v) = 64 \<and> (\<forall>t<16 + j. fold sha_extend [16..<16 + j] v ! t = fips_W ?M t)" for j
  proof (induction j)
    case (Suc j)
    let ?u = "fold sha_extend [16..<16 + j] v"
    have u: "length ?u = 64" "\<And>t. t < 16 + j \<Longrightarrow> ?u ! t = fips_W ?M t" using Suc by auto
    have "fold sha_extend [16..<16 + Suc j] v = ?u[16 + j := fips_W ?M (16 + j)]"
    proof -
      have W: "fips_W ?M (16 + j) = ?u ! (16 + j - 16) + (word_rotr 7 (?u ! (16 + j - 15)) XOR word_rotr 18 (?u ! (16 + j - 15)) XOR drop_bit 3 (?u ! (16 + j - 15)))
          + ?u ! (16 + j - 7) + (word_rotr 17 (?u ! (16 + j - 2)) XOR word_rotr 19 (?u ! (16 + j - 2)) XOR drop_bit 10 (?u ! (16 + j - 2)))"
        by (subst fips_W.simps) (simp add: u(2) Let_def)
      have "fold sha_extend [16..<16 + Suc j] v = sha_extend (16 + j) ?u" unfolding add_Suc_right upt_Suc by simp
      then show ?thesis unfolding W by (simp only: sha_extend_def Let_def) (simp add: rotr_word_rotr)
    qed
    then show ?case using u Suc.prems by (auto simp: nth_list_update less_Suc_eq)
  qed (use v in auto)
  from this [of 48] show "length (sha_schedule p off w) = 64" "t < 64 \<Longrightarrow> sha_schedule p off w ! t = fips_W ?M t"
    by (simp_all add: sha_schedule_def v_def)
qed

lemma round_fips: "sha_round k w s = fips_round k w s"
  by (cases "(k, w, s)" rule: sha_round.cases) (simp add: rotr_word_rotr Let_def)

lemma block_fips:
  assumes "length w = 64" "off + 64 \<le> length p"
  shows "sha_block p off (H, w) = (fips_compress (take 64 (drop off p)) H, sha_schedule p off w)"
proof -
  have "fold (\<lambda>i. sha_round (SHA_K ! i) (sha_schedule p off w ! i)) [0..<64] s = fold (\<lambda>t. fips_round (SHA_K ! t) (fips_W (take 64 (drop off p)) t)) [0..<64] s" for s
    by (rule fold_cong) (simp_all add: schedule_nth [OF assms] round_fips fun_eq_iff)
  then show ?thesis by (simp add: sha_block_def fips_compress_def)
qed

lemma blocks_fips:
  assumes "64 dvd length p" "64 dvd off" "length w = 64"
  shows "fst (sha_blocks p off (H, w)) = fold fips_compress (fips_blocks (drop off p)) H"
  using assms(2,3)
proof (induction "length p - off" arbitrary: off H w rule: less_induct)
  case less
  show ?case
  proof (cases "off < length p")
    case True
    then have le: "off + 64 \<le> length p" using assms(1) less.prems(1) by (auto simp: dvd_def)
    then show ?thesis
      using True less.hyps [of "off + 64" "sha_schedule p off w"] less.prems block_fips [OF less.prems(2) le] schedule_nth(1) [OF less.prems(2) le]
      by (subst sha_blocks.simps, subst fips_blocks.simps) (simp add: add.commute)
  qed (simp add: sha_blocks.simps fips_blocks.simps)
qed

lemma length_sha_add [simp]: "length H = 8 \<Longrightarrow> length (sha_add s H) = 8"
  by (cases "(0 :: u32, 0 :: u32, s)" rule: sha_round.cases) simp

lemma length_compress: "length H = 8 \<Longrightarrow> length (fold fips_compress Ms H) = 8"
  by (induction Ms arbitrary: H) (simp_all add: fips_compress_def)

lemma length_be32s: "length (concat (map be32 H)) = length H * 4"
  by (induction H) (simp_all add: be32_def)

lemma output_prefix:
  "k \<le> length H \<Longrightarrow> fold (\<lambda>i out. setUint32 out (i * 4) (H ! i)) [0..<k] (replicate (k * 4) 0 @ r) = concat (map be32 (take k H)) @ r"
proof (induction k arbitrary: r)
  case (Suc k)
  have "replicate (Suc k * 4) (0 :: byte) = replicate (k * 4) 0 @ [0, 0, 0, 0]"
    using replicate_add [of "k * 4" 4 "0 :: byte"] by (simp add: numeral_eq_Suc)
  then show ?case
    using Suc setUint32_end [of "concat (map be32 (take k H))" 0 0 0 0 r "H ! k"]
    by (simp add: length_be32s take_Suc_conv_app_nth)
qed simp

lemma output_be32: "length H = 8 \<Longrightarrow> fold (\<lambda>i out. setUint32 out (i * 4) (H ! i)) [0..<length H] (replicate 32 0) = concat (map be32 H)"
  using output_prefix [of 8 H "[]"] by simp

lemma sha256_fips:
  assumes "length m < 2 ^ 31 - 72"
  shows "sha256Internal m = fips_sha256 m"
proof -
  have "fst (sha_blocks (sha_padded m) 0 (SHA_H, replicate 64 0)) = fold fips_compress (fips_blocks (fips_pad m)) SHA_H" (is "_ = ?H")
    using blocks_fips [OF sha_padded_eq(2) [OF assms], of 0 "replicate 64 0" SHA_H] sha_padded_eq(1) [OF assms] by simp
  moreover have "length ?H = 8" by (rule length_compress) (simp add: SHA_H_def)
  ultimately show ?thesis using output_be32 by (simp only: sha256Internal_def fips_sha256_def Let_def)
qed

section \<open>Hexadecimal output\<close>

lemma unat_byte_less: "unat (b :: byte) < 256"
  using unsigned_less [of b] by simp

lemma unat_div16: "unat (drop_bit 4 (b :: byte)) = unat b div 16" and unat_mod16: "unat (b AND 15 :: byte) = unat b mod 16"
  using unat_byte_less [of b]
  by (simp_all add: drop_bit_eq_div and_masks take_bit_eq_mod unat_div_distrib unat_mod_distrib)

lemma toHex_bytesToHex: "toHex bs = bytesToHex bs"
proof -
  have "padStart 2 CHR ''0'' (toString16 (unat b)) = [HEX_ALPHABET ! (unat b div 16), HEX_ALPHABET ! (unat b mod 16)]" for b :: byte
  proof -
    have "unat b div 16 < 16" using unat_byte_less [of b] by simp
    moreover have "HEX_ALPHABET ! 0 = CHR ''0''" by (simp add: HEX_ALPHABET_def)
    ultimately show ?thesis by (subst toString16.simps) (auto simp: padStart_def toString16.simps)
  qed
  then show ?thesis by (induction bs) (simp_all add: toHex_def unat_div16 unat_mod16)
qed

lemma length_fips: "length (fips_sha256 m) = 32"
proof -
  have "length (fold fips_compress (fips_blocks (fips_pad m)) SHA_H) = 8" by (rule length_compress) (simp add: SHA_H_def)
  then show ?thesis by (simp add: fips_sha256_def length_be32s)
qed

text \<open>Whatever the input, the result is 32 bytes and its text 64 lowercase digits.\<close>

lemma length_sha256Internal [simp]: "length (sha256Internal m) = 32"
proof -
  have "length (fold (\<lambda>i out. setUint32 out (i * 4) (H ! i)) ks out) = length out" for H ks and out :: bytes
    by (induction ks arbitrary: out) (simp_all add: setUint32_def)
  then show ?thesis by (simp add: sha256Internal_def Let_def)
qed

lemma length_sha256Hex [simp]: "length (sha256Hex s) = 64"
  by (simp add: sha256Hex_def toHex_bytesToHex length_bytesToHex)

lemma sha256Hex_lower: "list_all isLowerHex (sha256Hex s)"
proof -
  have "list_all isLowerHex HEX_ALPHABET" by (simp add: HEX_ALPHABET_def isLowerHex_def)
  then show ?thesis using bytesToHex_alphabet by (auto simp: sha256Hex_def toHex_bytesToHex list_all_iff)
qed



section \<open>The fingerprint as 64-bit arithmetic\<close>

fun hexDigits :: "nat \<Rightarrow> nat \<Rightarrow> string" where
  "hexDigits 0 n = []"
| "hexDigits (Suc k) n = hexDigits k (n div 16) @ [HEX_ALPHABET ! (n mod 16)]"

definition fnv_word :: "bytes \<Rightarrow> 64 word" where
  "fnv_word = foldl (\<lambda>h b. (h XOR ucast b) * 0x100000001b3) 0xcbf29ce484222325"

lemma hexDigits_0: "hexDigits k 0 = replicate k CHR ''0''"
  by (induction k) (simp_all add: HEX_ALPHABET_def replicate_append_same)

lemma length_hexDigits [simp]: "length (hexDigits k n) = k"
  by (induction k arbitrary: n) simp_all

lemma padded_hex: "n < 16 ^ Suc k \<Longrightarrow> length (toString16 n) \<le> Suc k \<and> padStart (Suc k) CHR ''0'' (toString16 n) = hexDigits (Suc k) n"
proof (induction k arbitrary: n)
  case 0
  then show ?case by (simp add: toString16.simps padStart_def)
next
  case (Suc k)
  show ?case
  proof (cases "n < 16")
    case True
    then show ?thesis using hexDigits_0 [of "Suc k"] by (simp add: toString16.simps padStart_def)
  next
    case False
    from Suc.prems have "n div 16 < 16 ^ Suc k" by (simp add: div_less_iff_less_mult)
    from Suc.IH [OF this] False show ?thesis
      by (simp add: toString16.simps [of n] padStart_def)
  qed
qed

lemma fnv_round:
  fixes w :: "64 word"
  shows "((unat w XOR unat (b :: byte)) * FNV_64_PRIME) AND 0xffffffffffffffff = unat ((w XOR ucast b) * 0x100000001b3)"
proof -
  have mask: "(0xffffffffffffffff :: nat) = mask 64" by (simp add: mask_eq_exp_minus_1)
  have "unat (w XOR ucast b) = unat w XOR unat b"
    using unat_byte_less [of b] by (simp add: unsigned_xor_eq unsigned_ucast_eq take_bit_nat_eq_self)
  then show ?thesis
    unfolding mask by (simp add: FNV_64_PRIME_def unat_word_ariths take_bit_eq_mask [symmetric] take_bit_eq_mod)
qed

lemma fnv_fold: "foldl (\<lambda>hash b. ((hash XOR unat b) * FNV_64_PRIME) AND 0xffffffffffffffff) (unat w) (bs :: bytes)
    = unat (foldl (\<lambda>h b. (h XOR ucast b) * (0x100000001b3 :: 64 word)) w bs)"
proof (induction bs arbitrary: w)
  case (Cons b bs)
  then show ?case unfolding foldl.simps fnv_round by blast
qed simp

text \<open>The frame fingerprint is 64-bit FNV-1a: the unbounded arithmetic with a mask per round is wrap-around multiplication
  of 64-bit words, and the result is printed as exactly 16 lowercase hexadecimal digits.\<close>

theorem fnv1a64_is_word_hash: "fnv1a64Hex bs = hexDigits 16 (unat (fnv_word bs)) \<and> length (fnv1a64Hex bs) = 16"
proof -
  have "unat (fnv_word bs) < 16 ^ Suc 15" using unsigned_less [of "fnv_word bs"] by simp
  note digits = padded_hex [OF this]
  have "FNV_64_OFFSET = unat (0xcbf29ce484222325 :: 64 word)" by (simp add: FNV_64_OFFSET_def)
  then have "foldl (\<lambda>hash b. ((hash XOR unat b) * FNV_64_PRIME) AND 0xffffffffffffffff) FNV_64_OFFSET bs = unat (fnv_word bs)"
    unfolding fnv_word_def by (metis fnv_fold)
  moreover have "Suc 15 = 16" by simp
  ultimately have "fnv1a64Hex bs = padStart (Suc 15) CHR ''0'' (toString16 (unat (fnv_word bs)))"
    by (simp only: fnv1a64Hex_def)
  with digits show ?thesis by simp
qed

end
