(* ===== verification/Device_Records.thy ===== *)
theory Device_Records
  imports Hashing Envelope
begin

text \<open>
  The signed records of the account and device family (\<^verbatim>\<open>src/objects/device/*.js\<close>): the shared encoding checks, the
  capability vocabulary and its content-addressed certificate identifiers, and the constructors that validate a
  record. A constructor takes the value it is called with and returns the sealed record or the error that its
  \<^verbatim>\<open>validate\<close> throws first.
\<close>

unbundle bit_operations_syntax

section \<open>Reading values\<close>

text \<open>A destructuring default replaces \<^verbatim>\<open>undefined\<close> only.\<close>

definition dflt :: "jsval \<Rightarrow> jsval \<Rightarrow> jsval" where
  "dflt v d = (if v = JUndef then d else v)"

definition intOf :: "jsval \<Rightarrow> int" where
  "intOf v = (case v of JNum (NInt i) \<Rightarrow> i | _ \<Rightarrow> 0)"

lemma reading_simps [simp]: "strOf (JStr s) = s" "intOf (JInt i) = i" "dflt (JStr s) d = JStr s" "dflt (JInt i) d = JInt i" "dflt JUndef d = d"
    "dflt JNull d = JNull" "dflt (JArr xs) d = JArr xs" "dflt (JObj kvs) d = JObj kvs"
  by (simp_all add: strOf_def intOf_def dflt_def)

text \<open>The bytes that are hashed or signed: canonical JSON in UTF-8.\<close>

definition canonicalText :: "jsval \<Rightarrow> string" where
  "canonicalText v = (case canonicalJSONStringify v of Some s \<Rightarrow> s | None \<Rightarrow> [])"

definition signable :: "jsval \<Rightarrow> bytes" where
  "signable v = utf8Encode (canonicalText v)"

section \<open>Shared checks: deviceRecordShared.js\<close>

definition ED25519_SPKI_PREFIX_HEX :: string where "ED25519_SPKI_PREFIX_HEX = ''302a300506032b6570032100''"
definition ED25519_SPKI_LEN :: nat where "ED25519_SPKI_LEN = 44"
definition X25519_SPKI_PREFIX_HEX :: string where "X25519_SPKI_PREFIX_HEX = ''302a300506032b656e032100''"
definition X25519_SPKI_LEN :: nat where "X25519_SPKI_LEN = 44"

text \<open>The regular expression: at least one character of the alphabet, then at most two equals signs.\<close>

definition CANONICAL_B64 :: "string \<Rightarrow> bool" where
  "CANONICAL_B64 s \<longleftrightarrow> takeWhile (\<lambda>c. c \<in> set B64_ALPHABET) s \<noteq> []
     \<and> dropWhile (\<lambda>c. c \<in> set B64_ALPHABET) s \<in> {[], ''='', ''==''}"

fun errMessage :: "js_error \<Rightarrow> string" where
  "errMessage (Error m) = m"
| "errMessage (RezInvariantError m) = m"
| "errMessage (TypeError m) = m"
| "errMessage (SyntaxError m) = m"
| "errMessage (CodedError c m) = m"
| "errMessage _ = ''unknown''"

definition requireCanonicalB64 :: "jsval \<Rightarrow> string \<Rightarrow> nat option \<Rightarrow> string result" where
  "requireCanonicalB64 value label len =
     (case value of
        JStr s \<Rightarrow>
          if s = [] then Inl (Error (label @ '' must be a non-empty canonical base64 string''))
          else if \<not> CANONICAL_B64 s then Inl (Error (label @ '' must be canonical standard base64 (no whitespace)''))
          else (case base64ToBytes s of
                  Inl e \<Rightarrow> Inl (Error (label @ '' is not decodable base64: '' @ errMessage e))
                | Inr bytes \<Rightarrow>
                    if bytesToBase64 bytes \<noteq> s then Inl (Error (label @ '' must be canonical base64 (round-trip mismatch)''))
                    else (case len of
                            Some n \<Rightarrow> if length bytes \<noteq> n
                                then Inl (Error (label @ '' must decode to '' @ nat_str n @ '' bytes, got '' @ nat_str (length bytes))) else Inr s
                          | None \<Rightarrow> Inr s))
      | _ \<Rightarrow> Inl (Error (label @ '' must be a non-empty canonical base64 string'')))"

definition requireSpki :: "nat \<Rightarrow> string \<Rightarrow> string \<Rightarrow> jsval \<Rightarrow> string \<Rightarrow> string result" where
  "requireSpki len prefixHex curve value label =
     bindR (requireCanonicalB64 value label None) (\<lambda>v.
     bindR (base64ToBytes v) (\<lambda>bytes.
       if length bytes \<noteq> len
       then Inl (Error (label @ '' must be a 44-byte '' @ curve @ '' SPKI DER public key, got '' @ nat_str (length bytes) @ '' bytes''))
       else if bytesToHex (subarray 0 12 bytes) \<noteq> prefixHex
       then Inl (Error (label @ '' must carry the '' @ curve @ '' SPKI DER prefix''))
       else Inr v))"

definition requireCanonicalSpkiB64 :: "jsval \<Rightarrow> string \<Rightarrow> string result" where
  "requireCanonicalSpkiB64 = requireSpki ED25519_SPKI_LEN ED25519_SPKI_PREFIX_HEX ''Ed25519''"

definition requireCanonicalX25519SpkiB64 :: "jsval \<Rightarrow> string \<Rightarrow> string result" where
  "requireCanonicalX25519SpkiB64 = requireSpki X25519_SPKI_LEN X25519_SPKI_PREFIX_HEX ''X25519''"

definition normalizeSig :: "jsval \<Rightarrow> jsval" where
  "normalizeSig sig =
     (if \<not> truthy sig \<or> \<not> typeofObject sig then sig
      else JObj [(''alg'', getProp sig ''alg''), (''sigB64'', getProp sig ''sigB64'')])"

text \<open>Returns the signature text, which is all a later reader uses.\<close>

definition validateEd25519Sig :: "jsval \<Rightarrow> string \<Rightarrow> string result" where
  "validateEd25519Sig sig label =
     (if \<not> truthy sig \<or> \<not> typeofObject sig then Inl (Error (label @ '' must be an object''))
      else if getProp sig ''alg'' \<noteq> JStr ''ed25519'' then Inl (Error (label @ ''.alg must be \"ed25519\"''))
      else case getProp sig ''sigB64'' of
        JStr s \<Rightarrow> if s = [] \<or> \<not> CANONICAL_B64 s then Inl (Error (label @ ''.sigB64 must be a non-empty canonical base64 string'')) else Inr s
      | _ \<Rightarrow> Inl (Error (label @ ''.sigB64 must be a non-empty canonical base64 string'')))"

definition sigJSON :: "string \<Rightarrow> jsval" where
  "sigJSON s = JObj [(''alg'', JStr ''ed25519''), (''sigB64'', JStr s)]"

section \<open>Capability vocabulary: accountCapabilityShared.js\<close>

definition CAP_DEVICE_SET_PUBLISH :: string where "CAP_DEVICE_SET_PUBLISH = ''deviceSet.publish''"

definition ACCOUNT_CAPABILITY_ACTIONS :: "string list" where
  "ACCOUNT_CAPABILITY_ACTIONS =
     [''peerLink.create'', CAP_DEVICE_SET_PUBLISH, ''device.add'', ''device.revoke'', ''capability.delegate'', ''capability.revoke'']"

definition isKnownCapability :: "jsval \<Rightarrow> bool" where
  "isKnownCapability action = (isString action \<and> strOf action \<in> set ACCOUNT_CAPABILITY_ACTIONS)"

fun checkCapabilities :: "string \<Rightarrow> string list \<Rightarrow> jsval list \<Rightarrow> string list result" where
  "checkCapabilities label seen [] = Inr seen"
| "checkCapabilities label seen (action # rest) =
     (if \<not> isString action \<or> strOf action \<notin> set ACCOUNT_CAPABILITY_ACTIONS
      then Inl (Error (label @ '' has unknown capability \"'' @ toStr action @ ''\"''))
      else if strOf action \<in> set seen then Inl (Error (label @ '' has duplicate capability \"'' @ toStr action @ ''\"''))
      else checkCapabilities label (seen @ [strOf action]) rest)"

definition requireCapabilityList :: "jsval \<Rightarrow> string \<Rightarrow> string list result" where
  "requireCapabilityList capabilities label =
     (case capabilities of
        JArr xs \<Rightarrow> if xs = [] then Inl (Error (label @ '' must be a non-empty array of capabilities'')) else checkCapabilities label [] xs
      | _ \<Rightarrow> Inl (Error (label @ '' must be a non-empty array of capabilities'')))"

definition ACCOUNT_CAPABILITY_CERT_ID_PREFIX :: string where "ACCOUNT_CAPABILITY_CERT_ID_PREFIX = ''rez:cap:''"

definition hex64Id :: "string \<Rightarrow> string \<Rightarrow> bool" where
  "hex64Id pre s \<longleftrightarrow> startsWith s pre \<and> length (drop (length pre) s) = 64 \<and> list_all isLowerHex (drop (length pre) s)"

definition isCanonicalAccountCapabilityCertId :: "jsval \<Rightarrow> bool" where
  "isCanonicalAccountCapabilityCertId v = (isString v \<and> hex64Id ''rez:cap:'' (strOf v))"

definition deriveAccountCapabilityCertId :: "jsval \<Rightarrow> string" where
  "deriveAccountCapabilityCertId coreBody = ACCOUNT_CAPABILITY_CERT_ID_PREFIX @ sha256Hex (canonicalText coreBody)"

section \<open>Device identifiers and the device-signed inbox binding\<close>

definition isCanonicalDeviceId :: "jsval \<Rightarrow> bool" where
  "isCanonicalDeviceId v = (isString v \<and> hex64Id ''rez:dev:'' (strOf v))"

definition deviceIdFor :: "jsval \<Rightarrow> string result" where
  "deviceIdFor devicePublicKeyB64 =
     bindR (requireCanonicalSpkiB64 devicePublicKeyB64 ''DeviceRegistrationV1.deviceIdFor devicePublicKeyB64'')
       (\<lambda>pub. Inr (''rez:dev:'' @ sha256Hex pub))"

text \<open>The checks every record of the family makes of a device key and its identifier, and of its time window.\<close>

definition checkDeviceId :: "string \<Rightarrow> string \<Rightarrow> string \<Rightarrow> jsval \<Rightarrow> jsval \<Rightarrow> string result" where
  "checkDeviceId at idField keyField deviceId key =
     (if \<not> isNonEmptyString deviceId then Inl (RezInvariantError (at @ ''.'' @ idField @ '' must be non-empty string''))
      else bindR (deviceIdFor key) (\<lambda>expected.
        if deviceId \<noteq> JStr expected
        then Inl (RezInvariantError (at @ ''.'' @ idField @ '' must equal rez:dev:sha256('' @ keyField @ '')'')) else Inr expected))"

definition checkWindow :: "string \<Rightarrow> jsval \<Rightarrow> jsval \<Rightarrow> (int \<times> int) result" where
  "checkWindow at issued expires =
     (if \<not> isFiniteNumber issued then Inl (RezInvariantError (at @ ''.issuedAtMs must be number''))
      else if \<not> isFiniteNumber expires then Inl (RezInvariantError (at @ ''.expiresAtMs must be number''))
      else if \<not> intOf expires > intOf issued then Inl (RezInvariantError (at @ ''.expiresAtMs must be after issuedAtMs''))
      else Inr (intOf issued, intOf expires))"

record DeviceInboxBindingV1 =
  dib_devicePublicKeyB64 :: string
  dib_deviceId :: string
  dib_inboxId :: string
  dib_issuedAtMs :: int
  dib_expiresAtMs :: int
  dib_sigB64 :: string

definition newDeviceInboxBindingV1 :: "jsval \<Rightarrow> DeviceInboxBindingV1 result" where
  "newDeviceInboxBindingV1 j =
     (let at = ''DeviceInboxBindingV1'' in
      if dflt (getProp j ''v'') (JInt 1) \<noteq> JInt 1 then Inl (RezInvariantError (at @ ''.v must be 1''))
      else if dflt (getProp j ''purpose'') (JStr ''rez:device-inbox-binding:v1'') \<noteq> JStr ''rez:device-inbox-binding:v1''
      then Inl (RezInvariantError (at @ ''.purpose must be rez:device-inbox-binding:v1''))
      else bindR (requireCanonicalSpkiB64 (getProp j ''devicePublicKeyB64'') (at @ ''.devicePublicKeyB64'')) (\<lambda>key.
      bindR (checkDeviceId at ''deviceId'' ''devicePublicKeyB64'' (getProp j ''deviceId'') (getProp j ''devicePublicKeyB64'')) (\<lambda>did.
      if \<not> isNonEmptyString (getProp j ''inboxId'') then Inl (RezInvariantError (at @ ''.inboxId must be non-empty string''))
      else bindR (checkWindow at (getProp j ''issuedAtMs'') (getProp j ''expiresAtMs'')) (\<lambda>(issued, expires).
      bindR (validateEd25519Sig (normalizeSig (getProp j ''sig'')) (at @ ''.sig'')) (\<lambda>sig.
        Inr \<lparr>dib_devicePublicKeyB64 = key, dib_deviceId = did, dib_inboxId = strOf (getProp j ''inboxId''),
             dib_issuedAtMs = issued, dib_expiresAtMs = expires, dib_sigB64 = sig\<rparr>)))))"

section \<open>The capability certificate: AccountDeviceCapabilityV1.js\<close>

definition ACCOUNT_DEVICE_CAPABILITY_PURPOSE :: string where
  "ACCOUNT_DEVICE_CAPABILITY_PURPOSE = ''rez:account-device-capability:v1''"

record AccountDeviceCapabilityV1 =
  accountIdentityPublicKeyB64 :: string
  parentCertId :: "string option"
  granteeDevicePublicKeyB64 :: string
  granteeDeviceId :: string
  capabilities :: "string list"
  maxDelegationDepth :: int
  issuedAtMs :: int
  expiresAtMs :: int
  certId :: string
  signerPublicKeyB64 :: string
  sigB64 :: string

definition capability_coreBody :: "AccountDeviceCapabilityV1 \<Rightarrow> jsval" where
  "capability_coreBody r = JObj [(''v'', JInt 1), (''purpose'', JStr ACCOUNT_DEVICE_CAPABILITY_PURPOSE),
     (''accountIdentityPublicKeyB64'', JStr (accountIdentityPublicKeyB64 r)),
     (''parentCertId'', case parentCertId r of None \<Rightarrow> JNull | Some p \<Rightarrow> JStr p),
     (''granteeDevicePublicKeyB64'', JStr (granteeDevicePublicKeyB64 r)), (''granteeDeviceId'', JStr (granteeDeviceId r)),
     (''capabilities'', JArr (map JStr (capabilities r))), (''maxDelegationDepth'', JInt (maxDelegationDepth r)),
     (''issuedAtMs'', JInt (issuedAtMs r)), (''expiresAtMs'', JInt (expiresAtMs r)), (''signerPublicKeyB64'', JStr (signerPublicKeyB64 r))]"

definition capability_deriveCertId :: "AccountDeviceCapabilityV1 \<Rightarrow> string" where
  "capability_deriveCertId r = deriveAccountCapabilityCertId (capability_coreBody r)"

definition capability_signableBody :: "AccountDeviceCapabilityV1 \<Rightarrow> jsval" where
  "capability_signableBody r = (case capability_coreBody r of JObj kvs \<Rightarrow> JObj (kvs @ [(''certId'', JStr (certId r))]) | v \<Rightarrow> v)"

definition capability_signableBytes :: "AccountDeviceCapabilityV1 \<Rightarrow> bytes" where
  "capability_signableBytes r = signable (capability_signableBody r)"

definition capability_toJSON :: "AccountDeviceCapabilityV1 \<Rightarrow> jsval" where
  "capability_toJSON r = (case capability_coreBody r of JObj kvs \<Rightarrow>
      JObj (filter (\<lambda>(k, v). k \<noteq> ''signerPublicKeyB64'') kvs
        @ [(''certId'', JStr (certId r)), (''signerPublicKeyB64'', JStr (signerPublicKeyB64 r)), (''sig'', sigJSON (sigB64 r))]) | v \<Rightarrow> v)"

definition newAccountDeviceCapabilityV1 :: "jsval \<Rightarrow> AccountDeviceCapabilityV1 result" where
  "newAccountDeviceCapabilityV1 j =
     (let at = ''AccountDeviceCapabilityV1''; parent = dflt (getProp j ''parentCertId'') JNull; depth = getProp j ''maxDelegationDepth'' in
      if dflt (getProp j ''v'') (JInt 1) \<noteq> JInt 1 then Inl (RezInvariantError (at @ ''.v must be 1''))
      else if dflt (getProp j ''purpose'') (JStr ACCOUNT_DEVICE_CAPABILITY_PURPOSE) \<noteq> JStr ACCOUNT_DEVICE_CAPABILITY_PURPOSE
      then Inl (RezInvariantError (at @ ''.purpose must be '' @ ACCOUNT_DEVICE_CAPABILITY_PURPOSE))
      else bindR (requireCanonicalSpkiB64 (getProp j ''accountIdentityPublicKeyB64'') (at @ ''.accountIdentityPublicKeyB64'')) (\<lambda>account.
      if \<not> (parent = JNull \<or> isCanonicalAccountCapabilityCertId parent)
      then Inl (RezInvariantError (at @ ''.parentCertId must be null or a canonical rez:cap:<64-hex> id''))
      else bindR (requireCanonicalSpkiB64 (getProp j ''granteeDevicePublicKeyB64'') (at @ ''.granteeDevicePublicKeyB64'')) (\<lambda>grantee.
      bindR (checkDeviceId at ''granteeDeviceId'' ''granteeDevicePublicKeyB64'' (getProp j ''granteeDeviceId'') (getProp j ''granteeDevicePublicKeyB64'')) (\<lambda>did.
      bindR (requireCapabilityList (getProp j ''capabilities'') (at @ ''.capabilities'')) (\<lambda>caps.
      if \<not> (isInteger depth \<and> intOf depth \<ge> 0) then Inl (RezInvariantError (at @ ''.maxDelegationDepth must be a non-negative integer''))
      else bindR (requireCanonicalSpkiB64 (getProp j ''signerPublicKeyB64'') (at @ ''.signerPublicKeyB64'')) (\<lambda>signer.
      bindR (checkWindow at (getProp j ''issuedAtMs'') (getProp j ''expiresAtMs'')) (\<lambda>(issued, expires).
      if \<not> isNonEmptyString (getProp j ''certId'') then Inl (RezInvariantError (at @ ''.certId must be non-empty string''))
      else let r = \<lparr>accountIdentityPublicKeyB64 = account, parentCertId = (if parent = JNull then None else Some (strOf parent)),
                  granteeDevicePublicKeyB64 = grantee, granteeDeviceId = did, capabilities = caps, maxDelegationDepth = intOf depth,
                  issuedAtMs = issued, expiresAtMs = expires, certId = strOf (getProp j ''certId''), signerPublicKeyB64 = signer, sigB64 = []\<rparr> in
        if certId r \<noteq> capability_deriveCertId r
        then Inl (RezInvariantError (at @ ''.certId must be the deterministic rez:cap:sha256(coreBody)''))
        else bindR (validateEd25519Sig (normalizeSig (getProp j ''sig'')) (at @ ''.sig'')) (\<lambda>sig. Inr (r\<lparr>sigB64 := sig\<rparr>)))))))))"

section \<open>Accepted encodings\<close>

lemma CANONICAL_B64_enc: "bs \<noteq> [] \<Longrightarrow> CANONICAL_B64 (bytesToBase64 bs)"
proof -
  assume bs: "bs \<noteq> []"
  obtain core where core: "bytesToBase64 bs = core @ replicate ((3 - length bs mod 3) mod 3) (CHR ''='')" "set core \<subseteq> set B64_ALPHABET"
    using bytesToBase64_core by blast
  let ?k = "(3 - length bs mod 3) mod 3"
  have k: "?k \<in> {0, 1, 2}" by auto
  have "0 < (length bs + 2) div 3" using bs by (cases bs) (simp_all add: div_greater_zero_iff)
  then have "4 \<le> length (bytesToBase64 bs)" by (simp add: length_bytesToBase64)
  then have ne: "core \<noteq> []" using core(1) by auto
  have all: "\<forall>c\<in>set core. c \<in> set B64_ALPHABET" using core(2) by auto
  have eq: "CHR ''='' \<notin> set B64_ALPHABET" by (rule B64_no_equals)
  have "takeWhile (\<lambda>c. c \<in> set B64_ALPHABET) (bytesToBase64 bs) = core"
      "dropWhile (\<lambda>c. c \<in> set B64_ALPHABET) (bytesToBase64 bs) = replicate ?k (CHR ''='')"
    unfolding core(1) using all eq by (cases ?k; simp add: takeWhile_append2 dropWhile_append2)+
  with ne k show ?thesis by (auto simp: CANONICAL_B64_def numeral_2_eq_2)
qed

text \<open>A key of the wanted kind: the text is the encoding of the wanted number of bytes with the wanted prefix.\<close>

definition spkiKey :: "string \<Rightarrow> bool" where
  "spkiKey s \<longleftrightarrow> (\<exists>bytes. s = bytesToBase64 bytes \<and> length bytes = ED25519_SPKI_LEN \<and> bytesToHex (subarray 0 12 bytes) = ED25519_SPKI_PREFIX_HEX)"

lemma requireCanonicalB64_iff: "requireCanonicalB64 v label None = Inr s \<longleftrightarrow> v = JStr s \<and> (\<exists>bytes. bytes \<noteq> [] \<and> s = bytesToBase64 bytes)"
proof
  assume L: "requireCanonicalB64 v label None = Inr s"
  then obtain bytes where b: "v = JStr s" "s \<noteq> []" "s = bytesToBase64 bytes"
    by (auto simp: requireCanonicalB64_def split: jsval.splits if_splits sum.splits)
  moreover have "bytes \<noteq> []" using b(2,3) by auto
  ultimately show "v = JStr s \<and> (\<exists>bytes. bytes \<noteq> [] \<and> s = bytesToBase64 bytes)" by blast
next
  assume R: "v = JStr s \<and> (\<exists>bytes. bytes \<noteq> [] \<and> s = bytesToBase64 bytes)"
  then obtain bytes where b: "v = JStr s" "bytes \<noteq> []" "s = bytesToBase64 bytes" by blast
  have "s \<noteq> []" using CANONICAL_B64_enc [OF b(2)] b(3) by (auto simp: CANONICAL_B64_def)
  then show "requireCanonicalB64 v label None = Inr s"
    using b CANONICAL_B64_enc [OF b(2)] by (simp add: requireCanonicalB64_def b64.dec_enc)
qed

lemma requireSpki_iff: "requireCanonicalSpkiB64 v label = Inr s \<longleftrightarrow> v = JStr s \<and> spkiKey s"
proof -
  have "bytes \<noteq> []" if "length bytes = ED25519_SPKI_LEN" for bytes :: bytes using that by (auto simp: ED25519_SPKI_LEN_def)
  then show ?thesis
    by (auto simp: requireCanonicalSpkiB64_def requireSpki_def result_simps requireCanonicalB64_iff spkiKey_def b64.dec_enc split: if_splits) blast+
qed

lemma deviceIdFor_iff: "deviceIdFor v = Inr i \<longleftrightarrow> (\<exists>s. v = JStr s \<and> spkiKey s \<and> i = ''rez:dev:'' @ sha256Hex s)"
  by (auto simp: deviceIdFor_def result_simps requireSpki_iff)

lemma checkDeviceId_iff:
  "checkDeviceId at f k i v = Inr d \<longleftrightarrow> (\<exists>s. v = JStr s \<and> spkiKey s \<and> i = JStr d \<and> d = ''rez:dev:'' @ sha256Hex s)"
proof -
  have "trim (''rez:dev:'' @ x) \<noteq> []" for x by (simp add: trim_eq_Nil isSpace_def)
  then show ?thesis by (auto simp: checkDeviceId_def result_simps deviceIdFor_iff split: if_splits)
qed

lemma checkWindow_iff: "checkWindow at i e = Inr w \<longleftrightarrow> (\<exists>a b. i = JInt a \<and> e = JInt b \<and> a < b \<and> w = (a, b))"
  by (cases i rule: isFiniteNumber.cases; cases e rule: isFiniteNumber.cases) (auto simp: checkWindow_def)

lemma validateSig_iff:
  "validateEd25519Sig (normalizeSig v) label = Inr s
     \<longleftrightarrow> truthy v \<and> typeofObject v \<and> getProp v ''alg'' = JStr ''ed25519'' \<and> getProp v ''sigB64'' = JStr s \<and> CANONICAL_B64 s"
proof -
  have "CANONICAL_B64 s \<Longrightarrow> s \<noteq> []" for s by (auto simp: CANONICAL_B64_def)
  then show ?thesis by (auto simp: validateEd25519Sig_def normalizeSig_def split: jsval.splits if_splits)
qed

lemma checkCapabilities_iff:
  "checkCapabilities label seen xs = Inr ys \<longleftrightarrow> (\<exists>cs. xs = map JStr cs \<and> set cs \<subseteq> set ACCOUNT_CAPABILITY_ACTIONS \<and> distinct cs
     \<and> set cs \<inter> set seen = {} \<and> ys = seen @ cs)"
proof (induction xs arbitrary: seen)
  case (Cons x xs)
  show ?case
  proof (cases x)
    case (JStr s)
    have "checkCapabilities label seen (x # xs) = Inr ys
      \<longleftrightarrow> s \<in> set ACCOUNT_CAPABILITY_ACTIONS \<and> s \<notin> set seen \<and> checkCapabilities label (seen @ [s]) xs = Inr ys"
      by (simp add: JStr)
    then show ?thesis unfolding Cons.IH by (auto simp: JStr Cons_eq_map_conv)
  qed (auto simp: Cons_eq_map_conv)
qed auto

lemma requireCapabilityList_iff:
  "requireCapabilityList v label = Inr ys \<longleftrightarrow> v = JArr (map JStr ys) \<and> ys \<noteq> [] \<and> set ys \<subseteq> set ACCOUNT_CAPABILITY_ACTIONS \<and> distinct ys"
  by (cases v) (auto simp: requireCapabilityList_def checkCapabilities_iff)

lemmas record_checks = requireSpki_iff checkDeviceId_iff checkWindow_iff validateSig_iff requireCapabilityList_iff bindR_eq_Inr

section \<open>Certificates round trip, and their signature binds them\<close>

definition capability_ok :: "AccountDeviceCapabilityV1 \<Rightarrow> bool" where
  "capability_ok r \<longleftrightarrow> spkiKey (accountIdentityPublicKeyB64 r) \<and> spkiKey (granteeDevicePublicKeyB64 r) \<and> spkiKey (signerPublicKeyB64 r)
     \<and> (\<forall>p. parentCertId r = Some p \<longrightarrow> hex64Id ''rez:cap:'' p)
     \<and> granteeDeviceId r = ''rez:dev:'' @ sha256Hex (granteeDevicePublicKeyB64 r)
     \<and> capabilities r \<noteq> [] \<and> set (capabilities r) \<subseteq> set ACCOUNT_CAPABILITY_ACTIONS \<and> distinct (capabilities r)
     \<and> 0 \<le> maxDelegationDepth r \<and> issuedAtMs r < expiresAtMs r \<and> certId r = capability_deriveCertId r \<and> CANONICAL_B64 (sigB64 r)"

lemma sigJSON_simps [simp]: "truthy (sigJSON s)" "typeofObject (sigJSON s)" "getProp (sigJSON s) ''alg'' = JStr ''ed25519''" "getProp (sigJSON s) ''sigB64'' = JStr s"
  by (simp_all add: sigJSON_def)

lemma capability_deriveCertId_sig [simp]: "capability_deriveCertId (r\<lparr>sigB64 := s\<rparr>) = capability_deriveCertId r"
  by (simp add: capability_deriveCertId_def capability_coreBody_def)

lemma certId_nonblank: "trim (capability_deriveCertId r) \<noteq> []"
  by (simp add: capability_deriveCertId_def deriveAccountCapabilityCertId_def ACCOUNT_CAPABILITY_CERT_ID_PREFIX_def trim_eq_Nil isSpace_def)

text \<open>The records that the constructor accepts.\<close>

lemma newCapability_ok: "newAccountDeviceCapabilityV1 j = Inr r \<Longrightarrow> capability_ok r"
  unfolding newAccountDeviceCapabilityV1_def Let_def
  by (auto simp: record_checks capability_ok_def capability_deriveCertId_def capability_coreBody_def isCanonicalAccountCapabilityCertId_def
      split: if_splits prod.splits)

lemma capability_json_roundtrip:
  assumes "capability_ok r"
  shows "newAccountDeviceCapabilityV1 (capability_toJSON r) = Inr r"
proof -
  have spki: "requireCanonicalSpkiB64 (JStr s) l = Inr s" if "spkiKey s" for s l using that by (simp add: requireSpki_iff)
  have checks: "checkDeviceId at f k (JStr (granteeDeviceId r)) (JStr (granteeDevicePublicKeyB64 r)) = Inr (granteeDeviceId r)"
      "requireCapabilityList (JArr (map JStr (capabilities r))) l = Inr (capabilities r)"
      "checkWindow at (JInt (issuedAtMs r)) (JInt (expiresAtMs r)) = Inr (issuedAtMs r, expiresAtMs r)"
      "validateEd25519Sig (normalizeSig (sigJSON (sigB64 r))) l = Inr (sigB64 r)" for at f k l
    using assms by (simp_all add: record_checks capability_ok_def)
  have cid: "capability_deriveCertId r = certId r" "trim (certId r) \<noteq> []" using assms certId_nonblank [of r] by (simp_all add: capability_ok_def)
  have body: "\<lparr>accountIdentityPublicKeyB64 = accountIdentityPublicKeyB64 r, parentCertId = q, granteeDevicePublicKeyB64 = granteeDevicePublicKeyB64 r,
       granteeDeviceId = granteeDeviceId r, capabilities = capabilities r, maxDelegationDepth = maxDelegationDepth r, issuedAtMs = issuedAtMs r,
       expiresAtMs = expiresAtMs r, certId = certId r, signerPublicKeyB64 = signerPublicKeyB64 r, sigB64 = []\<rparr> = r\<lparr>sigB64 := []\<rparr>"
    if "parentCertId r = q" for q using that by (cases r) simp
  have keys: "spkiKey (accountIdentityPublicKeyB64 r)" "spkiKey (granteeDevicePublicKeyB64 r)" "spkiKey (signerPublicKeyB64 r)" "0 \<le> maxDelegationDepth r"
    using assms by (simp_all add: capability_ok_def)
  show ?thesis
  proof (cases "parentCertId r")
    case None
    show ?thesis unfolding newAccountDeviceCapabilityV1_def capability_toJSON_def capability_coreBody_def
      using cid by (simp add: None spki checks keys body Let_def)
  next
    case (Some p)
    then have "hex64Id ''rez:cap:'' p" using assms by (simp add: capability_ok_def)
    then show ?thesis unfolding newAccountDeviceCapabilityV1_def capability_toJSON_def capability_coreBody_def
      using cid by (simp add: Some spki checks keys body Let_def isCanonicalAccountCapabilityCertId_def)
  qed
qed

lemma canonicalize_strs: "canonicalize (JArr (map JStr xs)) = JArr (map JStr xs)"
  by (simp add: comp_def)

lemma signable_inj:
  assumes "json_data v" "wf_js v" "json_data w" "wf_js w" "signable v = signable w"
  shows "canonicalize v = canonicalize w"
proof -
  obtain s t where st: "canonicalJSONStringify v = Some s" "canonicalJSONStringify w = Some t"
    using assms canonicalize_json_data jsonStringify_render by (metis canonicalJSONStringify_def)
  with assms(5) have "s = t" by (auto simp: signable_def canonicalText_def dest: utf8Encode_inj)
  with st canonicalJSON_inj [OF assms(1-4)] show ?thesis by simp
qed

lemma signableBody_json [simp]: "json_data (capability_signableBody r)" "wf_js (capability_signableBody r)"
  by (simp_all add: capability_signableBody_def capability_coreBody_def list_all_iff split: option.splits)

lemma signableBody_fields:
  "getProp (canonicalize (capability_signableBody r)) k = canonicalize (getProp (capability_signableBody r) k)" if "k \<noteq> ''__proto__''"
proof -
  obtain kvs where "capability_signableBody r = JObj kvs" by (simp add: capability_signableBody_def capability_coreBody_def)
  then show ?thesis using getProp_canonicalize [of kvs k] signableBody_json(2) [of r] that by (simp del: canonicalize.simps)
qed

lemma capability_signable_inj:
  assumes "capability_signableBytes r = capability_signableBytes s"
  shows "r\<lparr>sigB64 := []\<rparr> = s\<lparr>sigB64 := []\<rparr>"
proof -
  have "canonicalize (capability_signableBody r) = canonicalize (capability_signableBody s)"
    using assms by (intro signable_inj) (simp_all add: capability_signableBytes_def)
  then have f: "canonicalize (getProp (capability_signableBody r) k) = canonicalize (getProp (capability_signableBody s) k)" if "k \<noteq> ''__proto__''" for k
    using signableBody_fields that by metis
  note body = capability_signableBody_def capability_coreBody_def canonicalize_strs
  have "accountIdentityPublicKeyB64 r = accountIdentityPublicKeyB64 s" using f [of "''accountIdentityPublicKeyB64''"] by (simp add: body)
  moreover have "parentCertId r = parentCertId s" using f [of "''parentCertId''"] by (simp add: body split: option.splits)
  moreover have "granteeDevicePublicKeyB64 r = granteeDevicePublicKeyB64 s" using f [of "''granteeDevicePublicKeyB64''"] by (simp add: body)
  moreover have "granteeDeviceId r = granteeDeviceId s" using f [of "''granteeDeviceId''"] by (simp add: body)
  moreover have "capabilities r = capabilities s" using f [of "''capabilities''"] by (simp add: body inj_map_eq_map [of JStr] inj_def del: canonicalize.simps)
  moreover have "maxDelegationDepth r = maxDelegationDepth s" using f [of "''maxDelegationDepth''"] by (simp add: body)
  moreover have "issuedAtMs r = issuedAtMs s" using f [of "''issuedAtMs''"] by (simp add: body)
  moreover have "expiresAtMs r = expiresAtMs s" using f [of "''expiresAtMs''"] by (simp add: body)
  moreover have "signerPublicKeyB64 r = signerPublicKeyB64 s" using f [of "''signerPublicKeyB64''"] by (simp add: body)
  moreover have "certId r = certId s" using f [of "''certId''"] by (simp add: body)
  ultimately show ?thesis by (cases r; cases s) simp
qed

text \<open>A capability certificate survives its JSON form, and what the constructor returns is always a certificate with
  canonical keys, a self-certifying grantee, known and distinct capabilities, a proper window and its own content address.\<close>

theorem capability_roundtrip:
  "(newAccountDeviceCapabilityV1 (capability_toJSON r) = Inr r) = capability_ok r
   \<and> (\<exists>j. newAccountDeviceCapabilityV1 j = Inr r) = capability_ok r"
  using capability_json_roundtrip newCapability_ok by blast

text \<open>A certificate signature binds every field: two certificates have the same signed bytes exactly when they agree on
  all fields but the signature.\<close>

theorem capability_signature_binds:
  "capability_signableBytes r = capability_signableBytes s \<longleftrightarrow> r\<lparr>sigB64 := []\<rparr> = s\<lparr>sigB64 := []\<rparr>"
proof
  assume "r\<lparr>sigB64 := []\<rparr> = s\<lparr>sigB64 := []\<rparr>"
  then have "capability_signableBody r = capability_signableBody s" by (cases r; cases s) (simp add: capability_signableBody_def capability_coreBody_def)
  then show "capability_signableBytes r = capability_signableBytes s" by (simp add: capability_signableBytes_def)
qed (rule capability_signable_inj)

end
