(* ===== verification/Account_Authority.thy ===== *)
theory Account_Authority
  imports Device_Records
begin

text \<open>
  The authority decision (\<^verbatim>\<open>src/objects/device/verifyAccountAuthority.js\<close>): whether the signer of an operation may act
  for an account, as the account root itself or through a chain of capability certificates. The verification key
  operation is the provider's and may throw; every refusal carries the source's reason and, for a certificate, its index.
\<close>

record RevocationState =
  revokedCertIds :: "string list"
  minValidIssuedAtMs :: "int option"

datatype authority_mode = Direct | Delegated

datatype authority =
    Refused string "nat option"
  | Granted authority_mode string "string list" "string option" "int option"

text \<open>The reasons that one certificate of a chain is refused for, in the order of the checks. \<open>parent\<close> is the preceding
  certificate, none at index 0.\<close>

definition linkCheck :: "string \<Rightarrow> AccountDeviceCapabilityV1 option \<Rightarrow> AccountDeviceCapabilityV1 \<Rightarrow> string option" where
  "linkCheck expected parent r =
     (case parent of
        None \<Rightarrow>
          if parentCertId r \<noteq> None then Some ''root cert must have parentCertId === null''
          else if trim (signerPublicKeyB64 r) \<noteq> trim expected then Some ''root cert must be signed by the account root''
          else None
      | Some p \<Rightarrow>
          if parentCertId r \<noteq> Some (certId p) then Some ''parentCertId does not link to the preceding cert''
          else if signerPublicKeyB64 r \<noteq> granteeDevicePublicKeyB64 p
          then Some (''cert signer is not the parent'' @ [CHR 0x27] @ ''s grantee (delegation linkage)'')
          else if ''capability.delegate'' \<notin> set (capabilities p) then Some ''parent lacks capability.delegate''
          else if maxDelegationDepth p < 1 then Some ''parent has no remaining delegation depth''
          else if maxDelegationDepth r > maxDelegationDepth p - 1 then Some ''cert does not consume delegation depth''
          else case find (\<lambda>action. action \<notin> set (capabilities p)) (capabilities r) of
            Some action \<Rightarrow> Some (''cert grants \"'' @ action @ ''\" not held by parent'')
          | None \<Rightarrow> if expiresAtMs r > expiresAtMs p then Some ''cert outlives its parent'' else None)"

definition standingCheck :: "string \<Rightarrow> int \<Rightarrow> string list \<Rightarrow> int option \<Rightarrow> string list \<Rightarrow> AccountDeviceCapabilityV1 \<Rightarrow> string option" where
  "standingCheck expected now revoked minValid seen r =
     (if trim (accountIdentityPublicKeyB64 r) \<noteq> trim expected then Some ''cert account mismatch (not the expected account)''
      else if certId r \<in> set seen then Some ''duplicate cert in chain''
      else if certId r \<in> set revoked then Some ''cert revoked''
      else if (case minValid of None \<Rightarrow> False | Some m \<Rightarrow> issuedAtMs r < m) then Some ''cert predates the account authority cutoff''
      else if now < issuedAtMs r then Some ''cert not yet valid''
      else if now \<ge> expiresAtMs r then Some ''cert expired''
      else None)"

definition signatureCheck :: "crypto_provider \<Rightarrow> AccountDeviceCapabilityV1 \<Rightarrow> string option result" where
  "signatureCheck c r =
     (case bindR (base64ToBytes (sigB64 r)) (\<lambda>sig. bindR (base64ToBytes (signerPublicKeyB64 r)) (\<lambda>pub. Inr (sig, pub))) of
        Inl e \<Rightarrow> Inr (Some (''malformed cert signature or signer key: '' @ errMessage e))
      | Inr (sig, pub) \<Rightarrow>
          bindR (verify c pub (capability_signableBytes r) sig) (\<lambda>ok. Inr (if ok then None else Some ''cert signature invalid'')))"

fun checkChain :: "crypto_provider \<Rightarrow> string \<Rightarrow> int \<Rightarrow> string list \<Rightarrow> int option
    \<Rightarrow> nat \<Rightarrow> AccountDeviceCapabilityV1 option \<Rightarrow> string list \<Rightarrow> int option \<Rightarrow> AccountDeviceCapabilityV1 list \<Rightarrow> (string \<times> nat + int option) result" where
  "checkChain c expected now revoked minValid i parent seen chainExpires [] = Inr (Inr chainExpires)"
| "checkChain c expected now revoked minValid i parent seen chainExpires (r # rs) =
     (case standingCheck expected now revoked minValid seen r of
        Some reason \<Rightarrow> Inr (Inl (reason, i))
      | None \<Rightarrow>
          bindR (signatureCheck c r) (\<lambda>bad.
            case bad of
              Some reason \<Rightarrow> Inr (Inl (reason, i))
            | None \<Rightarrow>
                (case linkCheck expected parent r of
                   Some reason \<Rightarrow> Inr (Inl (reason, i))
                 | None \<Rightarrow>
                     checkChain c expected now revoked minValid (i + 1) (Some r) (certId r # seen)
                       (case chainExpires of None \<Rightarrow> Some (expiresAtMs r) | Some e \<Rightarrow> Some (if expiresAtMs r < e then expiresAtMs r else e)) rs)))"

text \<open>Reconstruction of the certificates; the first that fails ends it with a reason.\<close>

fun readChain :: "nat \<Rightarrow> jsval list \<Rightarrow> string \<times> nat + AccountDeviceCapabilityV1 list" where
  "readChain i [] = Inr []"
| "readChain i (j # js) =
     (if \<not> truthy j \<or> \<not> typeofObject j then Inl (''cert is not an object'', i)
      else if getProp j ''purpose'' \<noteq> JStr ACCOUNT_DEVICE_CAPABILITY_PURPOSE then Inl (''cert purpose mismatch'', i)
      else case newAccountDeviceCapabilityV1 j of
        Inl e \<Rightarrow> Inl (''cert failed structural validation: '' @ errMessage e, i)
      | Inr r \<Rightarrow> (case readChain (i + 1) js of Inl f \<Rightarrow> Inl f | Inr rs \<Rightarrow> Inr (r # rs)))"

definition verifyAccountAuthority ::
  "crypto_provider \<Rightarrow> string \<Rightarrow> jsval \<Rightarrow> string \<Rightarrow> jsval \<Rightarrow> int \<Rightarrow> RevocationState option \<Rightarrow> authority result" where
  "verifyAccountAuthority c expected required opSigner certChain now revocation =
     (if trim expected = [] then Inr (Refused ''expectedAccountIdentityPublicKeyB64 required (trust anchor)'' None)
      else if trim opSigner = [] then Inr (Refused ''opSignerPublicKeyB64 required'' None)
      else if required \<noteq> JNull \<and> \<not> isKnownCapability required
      then Inr (Refused (''unknown requiredCapability \"'' @ toStr required @ ''\"'') None)
      else case certChain of
        JArr (x # xs) \<Rightarrow>
          (let revoked = (case revocation of None \<Rightarrow> [] | Some s \<Rightarrow> revokedCertIds s);
               minValid = (case revocation of None \<Rightarrow> None | Some s \<Rightarrow> minValidIssuedAtMs s)
           in case readChain 0 (x # xs) of
                Inl (reason, i) \<Rightarrow> Inr (Refused reason (Some i))
              | Inr recs \<Rightarrow>
                  bindR (checkChain c expected now revoked minValid 0 None [] None recs) (\<lambda>outcome.
                    case outcome of
                      Inl (reason, i) \<Rightarrow> Inr (Refused reason (Some i))
                    | Inr chainExpires \<Rightarrow>
                        let leaf = last recs in
                        if granteeDevicePublicKeyB64 leaf \<noteq> opSigner
                        then Inr (Refused ''operation signer is not the leaf cert grantee'' (Some (length recs - 1)))
                        else if required \<noteq> JNull \<and> strOf required \<notin> set (capabilities leaf)
                        then Inr (Refused (''leaf cert does not grant \"'' @ toStr required @ ''\"'') (Some (length recs - 1)))
                        else Inr (Granted Delegated expected (capabilities leaf) (Some (certId leaf)) chainExpires)))
      | _ \<Rightarrow>
          if trim opSigner = trim expected then Inr (Granted Direct expected ACCOUNT_CAPABILITY_ACTIONS None None)
          else Inr (Refused ''no cert chain and op signer is not the account root (direct mode requires B-sign)'' None))"

section \<open>Delegation, abstractly\<close>

text \<open>
  A certificate in force: of the expected account, not revoked, not older than the cutoff, inside its window, and signed by
  the key it names. A derivation, with the leaf first, starts at a certificate of the account root and lets a grantee hand
  on part of what it holds.
\<close>

definition inForce :: "crypto_provider \<Rightarrow> string \<Rightarrow> int \<Rightarrow> string list \<Rightarrow> int option \<Rightarrow> AccountDeviceCapabilityV1 \<Rightarrow> bool" where
  "inForce c account now revoked minValid r \<longleftrightarrow> trim (accountIdentityPublicKeyB64 r) = trim account \<and> certId r \<notin> set revoked
     \<and> (\<forall>m. minValid = Some m \<longrightarrow> m \<le> issuedAtMs r) \<and> issuedAtMs r \<le> now \<and> now < expiresAtMs r
     \<and> (\<exists>sig pub. base64ToBytes (sigB64 r) = Inr sig \<and> base64ToBytes (signerPublicKeyB64 r) = Inr pub
          \<and> verify c pub (capability_signableBytes r) sig = Inr True)"

inductive derived :: "(AccountDeviceCapabilityV1 \<Rightarrow> bool) \<Rightarrow> string \<Rightarrow> AccountDeviceCapabilityV1 list \<Rightarrow> bool" for good account where
  root: "good r \<Longrightarrow> parentCertId r = None \<Longrightarrow> trim (signerPublicKeyB64 r) = trim account \<Longrightarrow> derived good account [r]"
| hop: "derived good account (p # rest) \<Longrightarrow> good r \<Longrightarrow> parentCertId r = Some (certId p)
    \<Longrightarrow> signerPublicKeyB64 r = granteeDevicePublicKeyB64 p \<Longrightarrow> ''capability.delegate'' \<in> set (capabilities p)
    \<Longrightarrow> maxDelegationDepth r + 1 \<le> maxDelegationDepth p \<Longrightarrow> 1 \<le> maxDelegationDepth p
    \<Longrightarrow> set (capabilities r) \<subseteq> set (capabilities p) \<Longrightarrow> expiresAtMs r \<le> expiresAtMs p \<Longrightarrow> derived good account (r # p # rest)"

inductive_cases derived_NilE [elim!]: "derived good account []"
inductive_cases derived_singleE: "derived good account [r]"
inductive_cases derived_hopE: "derived good account (r # p # rest)"

fun linked :: "(AccountDeviceCapabilityV1 \<Rightarrow> bool) \<Rightarrow> string \<Rightarrow> AccountDeviceCapabilityV1 option \<Rightarrow> AccountDeviceCapabilityV1 list \<Rightarrow> bool" where
  "linked good account parent [] = True"
| "linked good account parent (r # rs) = (good r \<and> linkCheck account parent r = None \<and> linked good account (Some r) rs)"

lemma linkCheck_root: "linkCheck account None r = None \<longleftrightarrow> parentCertId r = None \<and> trim (signerPublicKeyB64 r) = trim account"
  by (simp add: linkCheck_def)

lemma linkCheck_hop:
  "linkCheck account (Some p) r = None \<longleftrightarrow> parentCertId r = Some (certId p) \<and> signerPublicKeyB64 r = granteeDevicePublicKeyB64 p
     \<and> ''capability.delegate'' \<in> set (capabilities p) \<and> maxDelegationDepth r + 1 \<le> maxDelegationDepth p \<and> 1 \<le> maxDelegationDepth p
     \<and> set (capabilities r) \<subseteq> set (capabilities p) \<and> expiresAtMs r \<le> expiresAtMs p"
proof -
  have "find (\<lambda>action. action \<notin> set (capabilities p)) (capabilities r) = None \<longleftrightarrow> set (capabilities r) \<subseteq> set (capabilities p)"
    by (auto simp: find_None_iff)
  then show ?thesis by (auto simp: linkCheck_def split: option.splits)
qed

lemma linked_snoc:
  "linked good account parent (rs @ [r]) \<longleftrightarrow> linked good account parent rs \<and> good r
     \<and> linkCheck account (if rs = [] then parent else Some (last rs)) r = None"
  by (induction rs arbitrary: parent) auto

lemma derived_iff_linked: "recs \<noteq> [] \<Longrightarrow> derived good account (rev recs) \<longleftrightarrow> linked good account None recs"
proof (induction recs rule: rev_induct)
  case (snoc r rs)
  show ?case
  proof (cases rs rule: rev_cases)
    case Nil
    then show ?thesis by (auto simp: linkCheck_root intro: derived.root elim: derived_singleE)
  next
    case (snoc ps p)
    have "linked good account None (rs @ [r]) \<longleftrightarrow> derived good account (p # rev ps) \<and> good r \<and> linkCheck account (Some p) r = None"
      using snoc.IH snoc linked_snoc [of good account None "ps @ [p]" r] by simp
    then show ?thesis using snoc by (auto simp: linkCheck_hop intro: derived.hop elim!: derived_hopE)
  qed
qed simp

lemma derived_all: "derived good account ch \<Longrightarrow> r \<in> set ch \<Longrightarrow> good r"
  by (induction rule: derived.induct) auto

lemma derived_narrows:
  assumes "derived good account ch" "r \<in> set ch"
  shows "set (capabilities (hd ch)) \<subseteq> set (capabilities r) \<and> expiresAtMs (hd ch) \<le> expiresAtMs r"
  using assms by (induction rule: derived.induct) auto

lemma derived_depth: "derived good account ch \<Longrightarrow> maxDelegationDepth (hd ch) + int (length ch) \<le> maxDelegationDepth (last ch) + 1"
  by (induction rule: derived.induct) auto

lemma derived_root: "derived good account ch \<Longrightarrow> parentCertId (last ch) = None \<and> trim (signerPublicKeyB64 (last ch)) = trim account"
  by (induction rule: derived.induct) auto

lemma derived_mono: "derived good account ch \<Longrightarrow> (\<And>r. r \<in> set ch \<Longrightarrow> good' r) \<Longrightarrow> derived good' account ch"
  by (induction rule: derived.induct) (auto intro: derived.intros)

section \<open>The chain check decides derivations\<close>

lemma inForce_checks:
  "standingCheck account now revoked minValid seen r = None \<and> signatureCheck c r = Inr None
     \<longleftrightarrow> inForce c account now revoked minValid r \<and> certId r \<notin> set seen"
  by (auto simp: standingCheck_def signatureCheck_def inForce_def result_simps split: sum.splits option.splits if_splits)

definition earliest :: "int option \<Rightarrow> AccountDeviceCapabilityV1 list \<Rightarrow> int option" where
  "earliest = foldl (\<lambda>e r. case e of None \<Rightarrow> Some (expiresAtMs r) | Some x \<Rightarrow> Some (min (expiresAtMs r) x))"

lemma checkChain_iff:
  "checkChain c account now revoked minValid i parent seen ce recs = Inr (Inr e)
     \<longleftrightarrow> linked (inForce c account now revoked minValid) account parent recs \<and> distinct (map certId recs)
         \<and> set (map certId recs) \<inter> set seen = {} \<and> e = earliest ce recs"
proof (induction recs arbitrary: i parent seen ce)
  case Nil
  then show ?case by (auto simp: earliest_def)
next
  case (Cons r rs)
  have e: "(case ce of None \<Rightarrow> Some (expiresAtMs r) | Some x \<Rightarrow> Some (if expiresAtMs r < x then expiresAtMs r else x))
      = (case ce of None \<Rightarrow> Some (expiresAtMs r) | Some x \<Rightarrow> Some (min (expiresAtMs r) x))"
    by (auto split: option.splits)
  have "checkChain c account now revoked minValid i parent seen ce (r # rs) = Inr (Inr e)
      \<longleftrightarrow> (standingCheck account now revoked minValid seen r = None \<and> signatureCheck c r = Inr None) \<and> linkCheck account parent r = None
        \<and> checkChain c account now revoked minValid (i + 1) (Some r) (certId r # seen)
            (case ce of None \<Rightarrow> Some (expiresAtMs r) | Some x \<Rightarrow> Some (min (expiresAtMs r) x)) rs = Inr (Inr e)"
    unfolding e [symmetric] by (auto simp: result_simps split: option.splits)
  then show ?case unfolding inForce_checks Cons.IH by (auto simp: earliest_def)
qed

section \<open>What the decision means\<close>

abbreviation revokedIds :: "RevocationState option \<Rightarrow> string list" where
  "revokedIds s \<equiv> (case s of None \<Rightarrow> [] | Some x \<Rightarrow> revokedCertIds x)"

abbreviation cutoff :: "RevocationState option \<Rightarrow> int option" where
  "cutoff s \<equiv> (case s of None \<Rightarrow> None | Some x \<Rightarrow> minValidIssuedAtMs x)"

lemma readChain_Nil: "readChain i js = Inr recs \<Longrightarrow> js \<noteq> [] \<Longrightarrow> recs \<noteq> []"
  by (cases js) (auto split: if_splits sum.splits)

lemma delegated_iff:
  "verifyAccountAuthority c account required opSigner chain now rs = Inr (Granted Delegated a caps leaf e)
   \<longleftrightarrow> (trim account \<noteq> [] \<and> trim opSigner \<noteq> [] \<and> (required = JNull \<or> isKnownCapability required))
     \<and> (\<exists>js recs. chain = JArr js \<and> js \<noteq> [] \<and> readChain 0 js = Inr recs
         \<and> derived (inForce c account now (revokedIds rs) (cutoff rs)) account (rev recs) \<and> distinct (map certId recs)
         \<and> granteeDevicePublicKeyB64 (last recs) = opSigner \<and> (required = JNull \<or> strOf required \<in> set (capabilities (last recs)))
         \<and> a = account \<and> caps = capabilities (last recs) \<and> leaf = Some (certId (last recs)) \<and> e = earliest None recs)" (is "?L \<longleftrightarrow> ?G \<and> ?R")
proof (cases "\<exists>x xs. chain = JArr (x # xs)")
  case False
  then have "\<not> ?L" by (auto simp: verifyAccountAuthority_def split: jsval.splits list.splits if_splits)
  moreover from False have "\<not> ?R" by (auto simp: neq_Nil_conv)
  ultimately show ?thesis by blast
next
  case True
  then obtain x xs where ch: "chain = JArr (x # xs)" by blast
  show ?thesis
  proof (cases "readChain 0 (x # xs)")
    case (Inl f)
    then show ?thesis by (cases f) (simp add: ch verifyAccountAuthority_def Let_def del: readChain.simps)
  next
    case (Inr recs)
    then have ne: "recs \<noteq> []" by (rule readChain_Nil) simp
    let ?X = "checkChain c account now (revokedIds rs) (cutoff rs) 0 None [] None recs"
    have "?L \<longleftrightarrow> ?G \<and> (\<exists>e'. ?X = Inr (Inr e') \<and> granteeDevicePublicKeyB64 (last recs) = opSigner
        \<and> (required = JNull \<or> strOf required \<in> set (capabilities (last recs)))
        \<and> a = account \<and> caps = capabilities (last recs) \<and> leaf = Some (certId (last recs)) \<and> e = e')"
      using Inr by (cases ?X rule: sum.exhaust) (auto simp: ch verifyAccountAuthority_def Let_def simp del: readChain.simps split: sum.splits)
    then show ?thesis using Inr ne
      by (auto simp: ch checkChain_iff derived_iff_linked simp del: readChain.simps)
  qed
qed

lemma direct_iff:
  "verifyAccountAuthority c account required opSigner chain now rs = Inr (Granted Direct a caps leaf e)
   \<longleftrightarrow> trim account \<noteq> [] \<and> (required = JNull \<or> isKnownCapability required) \<and> (\<forall>x xs. chain \<noteq> JArr (x # xs))
     \<and> trim opSigner = trim account \<and> a = account \<and> caps = ACCOUNT_CAPABILITY_ACTIONS \<and> leaf = None \<and> e = None"
proof (cases "\<exists>x xs. chain = JArr (x # xs)")
  case True
  then obtain x xs where ch: "chain = JArr (x # xs)" by blast
  have "verifyAccountAuthority c account required opSigner chain now rs \<noteq> Inr (Granted Direct a caps leaf e)"
    by (auto simp: ch verifyAccountAuthority_def Let_def result_simps simp del: readChain.simps split: sum.splits if_splits)
  with ch show ?thesis by blast
next
  case False
  then have "(case chain of JArr (x # xs) \<Rightarrow> f x xs | _ \<Rightarrow> g) = g" for f :: "jsval \<Rightarrow> jsval list \<Rightarrow> authority result" and g
    by (auto split: jsval.splits list.splits)
  then show ?thesis using False by (auto simp: verifyAccountAuthority_def)
qed

lemma earliest_min: "recs \<noteq> [] \<Longrightarrow> earliest None recs = Some (Min (expiresAtMs ` set recs))"
proof -
  have "earliest (Some x) rs = Some (Min (insert x (expiresAtMs ` set rs)))" for x rs
  proof (induction rs arbitrary: x)
    case (Cons r rs)
    then show ?case by (cases "rs = []") (simp_all add: earliest_def min.assoc min.commute min.left_commute)
  qed (simp add: earliest_def)
  then show "recs \<noteq> [] \<Longrightarrow> ?thesis" by (cases recs) (auto simp: earliest_def)
qed

text \<open>C3: The authority decision is exact. It grants directly exactly when no chain is given and the signer is the account root,
  and through a chain exactly when the certificates read from it form a derivation from the account root to the signer, each
  one in force and signed, that includes the required capability.\<close>

theorem authority_decision_exact:
  "(verifyAccountAuthority c account required opSigner chain now rs = Inr (Granted Direct a caps leaf e))
     = (trim account \<noteq> [] \<and> (required = JNull \<or> isKnownCapability required) \<and> (\<forall>x xs. chain \<noteq> JArr (x # xs))
        \<and> trim opSigner = trim account \<and> a = account \<and> caps = ACCOUNT_CAPABILITY_ACTIONS \<and> leaf = None \<and> e = None)
   \<and> (verifyAccountAuthority c account required opSigner chain now rs = Inr (Granted Delegated a caps leaf e))
     = ((trim account \<noteq> [] \<and> trim opSigner \<noteq> [] \<and> (required = JNull \<or> isKnownCapability required))
        \<and> (\<exists>js recs. chain = JArr js \<and> js \<noteq> [] \<and> readChain 0 js = Inr recs
            \<and> derived (inForce c account now (revokedIds rs) (cutoff rs)) account (rev recs) \<and> distinct (map certId recs)
            \<and> granteeDevicePublicKeyB64 (last recs) = opSigner \<and> (required = JNull \<or> strOf required \<in> set (capabilities (last recs)))
            \<and> a = account \<and> caps = capabilities (last recs) \<and> leaf = Some (certId (last recs)) \<and> e = earliest None recs))"
  by (rule conjI, rule direct_iff, rule delegated_iff)

section \<open>A concrete chain\<close>

definition demo_spki :: "byte \<Rightarrow> string" where
  "demo_spki b = bytesToBase64 ([0x30, 0x2a, 0x30, 0x05, 0x06, 0x03, 0x2b, 0x65, 0x70, 0x03, 0x21, 0x00] @ replicate 32 b)"

text \<open>The account root (key 1) grants device 2 two capabilities with one further hop.\<close>

definition demo_cert :: "string option \<Rightarrow> byte \<Rightarrow> byte \<Rightarrow> string list \<Rightarrow> int \<Rightarrow> AccountDeviceCapabilityV1" where
  "demo_cert parent signer grantee caps depth =
     (let r = \<lparr>accountIdentityPublicKeyB64 = demo_spki 1, parentCertId = parent, granteeDevicePublicKeyB64 = demo_spki grantee,
           granteeDeviceId = ''rez:dev:'' @ sha256Hex (demo_spki grantee), capabilities = caps, maxDelegationDepth = depth,
           issuedAtMs = 10, expiresAtMs = 90, certId = [], signerPublicKeyB64 = demo_spki signer, sigB64 = ''AAAA''\<rparr>
      in r\<lparr>certId := capability_deriveCertId r\<rparr>)"

definition demo_root :: AccountDeviceCapabilityV1 where
  "demo_root = demo_cert None 1 2 [''device.add'', ''capability.delegate''] 1"

definition demo_verifier :: crypto_provider where
  "demo_verifier = demo_crypto\<lparr>verify := \<lambda>pk msg sg. Inr True\<rparr>"

lemma spkiKey_demo [simp]: "spkiKey (demo_spki b)"
proof -
  have "bytesToHex [0x30, 0x2a, 0x30, 0x05, 0x06, 0x03, 0x2b, 0x65, 0x70, 0x03, 0x21, 0x00] = ED25519_SPKI_PREFIX_HEX" by code_simp
  then show ?thesis unfolding spkiKey_def demo_spki_def
    by (intro exI conjI) (rule refl, simp_all add: ED25519_SPKI_LEN_def subarray_def)
qed

lemma demo_cert_certId: "certId (demo_cert p s g caps d) = capability_deriveCertId (demo_cert p s g caps d)"
  by (simp add: demo_cert_def Let_def capability_deriveCertId_def capability_coreBody_def)

lemma demo_cert_fields [simp]:
  "accountIdentityPublicKeyB64 (demo_cert p s g caps d) = demo_spki 1" "parentCertId (demo_cert p s g caps d) = p"
  "granteeDevicePublicKeyB64 (demo_cert p s g caps d) = demo_spki g" "capabilities (demo_cert p s g caps d) = caps"
  "maxDelegationDepth (demo_cert p s g caps d) = d" "issuedAtMs (demo_cert p s g caps d) = 10" "expiresAtMs (demo_cert p s g caps d) = 90"
  "signerPublicKeyB64 (demo_cert p s g caps d) = demo_spki s" "sigB64 (demo_cert p s g caps d) = ''AAAA''"
  "granteeDeviceId (demo_cert p s g caps d) = ''rez:dev:'' @ sha256Hex (demo_spki g)"
  by (simp_all add: demo_cert_def Let_def)

lemma certId_canonical: "hex64Id ''rez:cap:'' (capability_deriveCertId r)"
  using sha256Hex_lower startsWith_append [of "''rez:cap:''"]
  by (simp add: hex64Id_def capability_deriveCertId_def deriveAccountCapabilityCertId_def ACCOUNT_CAPABILITY_CERT_ID_PREFIX_def)

lemma demo_cert_ok:
  assumes "\<forall>q. p = Some q \<longrightarrow> hex64Id ''rez:cap:'' q" "caps \<noteq> []" "set caps \<subseteq> set ACCOUNT_CAPABILITY_ACTIONS" "distinct caps" "0 \<le> d"
  shows "capability_ok (demo_cert p s g caps d)"
  using assms demo_cert_certId by (simp add: capability_ok_def CANONICAL_B64_def B64_ALPHABET_def)

lemma demo_ok: "capability_ok demo_root"
  unfolding demo_root_def by (rule demo_cert_ok) (simp_all add: ACCOUNT_CAPABILITY_ACTIONS_def)

lemma readChain_toJSON: "list_all capability_ok rs \<Longrightarrow> readChain i (map capability_toJSON rs) = Inr rs"
proof (induction rs arbitrary: i)
  case (Cons r rs)
  then have "newAccountDeviceCapabilityV1 (capability_toJSON r) = Inr r" by (simp add: capability_json_roundtrip)
  moreover have "truthy (capability_toJSON r)" "typeofObject (capability_toJSON r)" "getProp (capability_toJSON r) ''purpose'' = JStr ACCOUNT_DEVICE_CAPABILITY_PURPOSE"
    by (simp_all add: capability_toJSON_def capability_coreBody_def)
  ultimately show ?case using Cons by simp
qed simp

lemma base64_nonblank: "bs \<noteq> [] \<Longrightarrow> trim (bytesToBase64 bs) \<noteq> []"
proof -
  assume "bs \<noteq> []"
  then have "bytesToBase64 bs \<noteq> []" using CANONICAL_B64_enc [of bs] by (auto simp: CANONICAL_B64_def simp del: takeWhile_eq_Nil_iff)
  moreover have "\<forall>c\<in>set (bytesToBase64 bs). \<not> isSpace c" using bytesToBase64_clean [of bs] by (simp add: filter_id_conv)
  ultimately show ?thesis by (auto simp: trim_eq_Nil)
qed

lemma spki_nonblank: "trim (demo_spki b) \<noteq> []"
  unfolding demo_spki_def by (rule base64_nonblank) simp

lemma demo_granted:
  assumes "certId demo_root \<notin> set (revokedIds rs)" "cutoff rs = None"
  shows "verifyAccountAuthority demo_verifier (demo_spki 1) (JStr ''device.add'') (demo_spki 2) (JArr [capability_toJSON demo_root]) 50 rs
     = Inr (Granted Delegated (demo_spki 1) (capabilities demo_root) (Some (certId demo_root)) (Some 90))"
proof -
  have sig: "\<exists>sig. base64ToBytes ''AAAA'' = Inr sig" by (rule exI [of _ "[0, 0, 0]"]) code_simp
  have "base64ToBytes (demo_spki 1) = Inr ([0x30, 0x2a, 0x30, 0x05, 0x06, 0x03, 0x2b, 0x65, 0x70, 0x03, 0x21, 0x00] @ replicate 32 1)"
    unfolding demo_spki_def by (rule b64.dec_enc)
  then have "inForce demo_verifier (demo_spki 1) 50 (revokedIds rs) (cutoff rs) demo_root"
    using sig assms by (simp add: inForce_def demo_root_def demo_verifier_def)
  then have "derived (inForce demo_verifier (demo_spki 1) 50 (revokedIds rs) (cutoff rs)) (demo_spki 1) [demo_root]"
    by (rule derived.root) (simp_all add: demo_root_def)
  moreover have "readChain 0 [capability_toJSON demo_root] = Inr [demo_root]" using readChain_toJSON [of "[demo_root]" 0] demo_ok by simp
  ultimately show ?thesis unfolding delegated_iff
    by (simp add: spki_nonblank isKnownCapability_def ACCOUNT_CAPABILITY_ACTIONS_def earliest_def del: readChain.simps) (simp add: demo_root_def)
qed



text \<open>C22: Revocation is final and monotone. No chain that contains a revoked certificate is granted, and revoking more
  certificates never grants what was refused before.\<close>

theorem revocation_monotone:
  assumes "verifyAccountAuthority c account required opSigner (JArr js) now (Some \<lparr>revokedCertIds = extra @ ids, minValidIssuedAtMs = m\<rparr>)
      = Inr (Granted Delegated a caps leaf e)"
  shows "verifyAccountAuthority c account required opSigner (JArr js) now (Some \<lparr>revokedCertIds = ids, minValidIssuedAtMs = m\<rparr>)
      = Inr (Granted Delegated a caps leaf e) \<and> (\<exists>recs. readChain 0 js = Inr recs \<and> certId ` set recs \<inter> (set extra \<union> set ids) = {})"
proof -
  obtain recs where r: "js \<noteq> []" "readChain 0 js = Inr recs" "derived (inForce c account now (extra @ ids) m) account (rev recs)"
    using assms unfolding delegated_iff by auto
  then have "derived (inForce c account now ids m) account (rev recs)"
    by (rule_tac derived_mono) (auto simp: inForce_def dest!: derived_all)
  moreover have "certId ` set recs \<inter> (set extra \<union> set ids) = {}" using derived_all [OF r(3)] by (auto simp: inForce_def)
  ultimately show ?thesis using assms r(2) unfolding delegated_iff by auto
qed

theorem revocation_monotone_witness:
  "certId demo_root \<noteq> ''rez:cap:x''
   \<and> verifyAccountAuthority demo_verifier (demo_spki 1) (JStr ''device.add'') (demo_spki 2) (JArr [capability_toJSON demo_root]) 50 (Some \<lparr>revokedCertIds = [], minValidIssuedAtMs = None\<rparr>)
     = Inr (Granted Delegated (demo_spki 1) (capabilities demo_root) (Some (certId demo_root)) (Some 90))"
proof -
  have ne: "certId demo_root \<noteq> ''rez:cap:x''"
    using demo_ok certId_canonical [of demo_root] by (auto simp: capability_ok_def hex64Id_def)
  have "verifyAccountAuthority demo_verifier (demo_spki 1) (JStr ''device.add'') (demo_spki 2) (JArr [capability_toJSON demo_root]) 50
      (Some \<lparr>revokedCertIds = [''rez:cap:x''] @ [], minValidIssuedAtMs = None\<rparr>)
     = Inr (Granted Delegated (demo_spki 1) (capabilities demo_root) (Some (certId demo_root)) (Some 90))"
    using ne by (intro demo_granted) simp_all
  from revocation_monotone [OF this] ne show ?thesis by blast
qed

end
