(* ===== verification/Durable_Records.thy ===== *)
theory Durable_Records
  imports Account_Authority
begin

text \<open>
  Signed records stored on the overlay (\<^verbatim>\<open>src/protocol/durableRecordV1.js\<close>, \<^verbatim>\<open>durableRecordV2.js\<close>) and the account's
  authority snapshot that is published as one (\<^verbatim>\<open>src/objects/device/AccountAuthorityStateV1.js\<close>): the slot a record
  lives at, the bytes its signature covers, and the verification every holder runs.
\<close>

section \<open>The authority snapshot\<close>

definition ACCOUNT_AUTHORITY_STATE_PURPOSE :: string where "ACCOUNT_AUTHORITY_STATE_PURPOSE = ''rez:account-authority-state:v1''"
definition ACCOUNT_AUTHORITY_STATE_RECORD_KIND :: string where "ACCOUNT_AUTHORITY_STATE_RECORD_KIND = ''account-authority-state''"

record AccountAuthorityStateV1 =
  aas_accountIdentityPublicKeyB64 :: string
  aas_epoch :: int
  aas_revokedCertIds :: "string list"
  aas_minValidIssuedAtMs :: int
  aas_issuedAtMs :: int
  aas_signerPublicKeyB64 :: string
  aas_sigB64 :: string

text \<open>\<^verbatim>\<open>[...new Set(value)].sort()\<close>, on the texts that the validation accepts.\<close>

definition normalizeCertIds :: "string list \<Rightarrow> string list" where
  "normalizeCertIds ids = sort (remdups ids)"

definition newAccountAuthorityStateV1 :: "jsval \<Rightarrow> AccountAuthorityStateV1 result" where
  "newAccountAuthorityStateV1 j =
     (let at = ''AccountAuthorityStateV1''; epoch = getProp j ''epoch''; minValid = getProp j ''minValidIssuedAtMs'' in
      if dflt (getProp j ''v'') (JInt 1) \<noteq> JInt 1 then Inl (RezInvariantError (at @ ''.v must be 1''))
      else if dflt (getProp j ''purpose'') (JStr ACCOUNT_AUTHORITY_STATE_PURPOSE) \<noteq> JStr ACCOUNT_AUTHORITY_STATE_PURPOSE
      then Inl (RezInvariantError (at @ ''.purpose must be '' @ ACCOUNT_AUTHORITY_STATE_PURPOSE))
      else bindR (requireCanonicalSpkiB64 (getProp j ''accountIdentityPublicKeyB64'') (at @ ''.accountIdentityPublicKeyB64'')) (\<lambda>account.
      if \<not> (isInteger epoch \<and> intOf epoch \<ge> 0) then Inl (RezInvariantError (at @ ''.epoch must be a non-negative integer''))
      else case getProp j ''revokedCertIds'' of
        JArr ids \<Rightarrow>
          if \<not> list_all isCanonicalAccountCapabilityCertId ids
          then Inl (RezInvariantError (at @ ''.revokedCertIds entries must be canonical rez:cap:<64-hex> ids''))
          else if \<not> (isFiniteNumber minValid \<and> intOf minValid \<ge> 0)
          then Inl (RezInvariantError (at @ ''.minValidIssuedAtMs must be a non-negative number''))
          else if \<not> isFiniteNumber (getProp j ''issuedAtMs'') then Inl (RezInvariantError (at @ ''.issuedAtMs must be number''))
          else bindR (requireCanonicalSpkiB64 (getProp j ''signerPublicKeyB64'') (at @ ''.signerPublicKeyB64'')) (\<lambda>signer.
            bindR (validateEd25519Sig (normalizeSig (getProp j ''sig'')) (at @ ''.sig'')) (\<lambda>sig.
              Inr \<lparr>aas_accountIdentityPublicKeyB64 = account, aas_epoch = intOf epoch, aas_revokedCertIds = normalizeCertIds (map strOf ids),
                   aas_minValidIssuedAtMs = intOf minValid, aas_issuedAtMs = intOf (getProp j ''issuedAtMs''), aas_signerPublicKeyB64 = signer,
                   aas_sigB64 = sig\<rparr>))
      | _ \<Rightarrow> Inl (RezInvariantError (at @ ''.revokedCertIds must be an array''))))"

definition toRevocationState :: "AccountAuthorityStateV1 \<Rightarrow> RevocationState" where
  "toRevocationState s = \<lparr>revokedCertIds = aas_revokedCertIds s, minValidIssuedAtMs = Some (aas_minValidIssuedAtMs s)\<rparr>"

definition isSafeInteger :: "jsval \<Rightarrow> bool" where
  "isSafeInteger v \<longleftrightarrow> isInteger v \<and> \<bar>intOf v\<bar> \<le> 2 ^ 53 - 1"

definition monotonicBindingOf :: "jsval \<Rightarrow> (string \<times> int) result" where
  "monotonicBindingOf json =
     (if \<not> truthy json \<or> \<not> typeofObject json \<or> isArray json then Inl (Error ''AccountAuthorityStateV1 payload must be an object'')
      else case getProp json ''accountIdentityPublicKeyB64'' of
        JStr account \<Rightarrow>
          if trim account = [] then Inl (Error ''AccountAuthorityStateV1 payload is missing accountIdentityPublicKeyB64'')
          else if \<not> isSafeInteger (getProp json ''epoch'') \<or> intOf (getProp json ''epoch'') < 0
          then Inl (Error ''AccountAuthorityStateV1 payload epoch must be a non-negative safe integer'')
          else Inr (trim account, intOf (getProp json ''epoch''))
      | _ \<Rightarrow> Inl (Error ''AccountAuthorityStateV1 payload is missing accountIdentityPublicKeyB64''))"

section \<open>Slots and signed bytes\<close>

text \<open>\<^verbatim>\<open>String(value || "").trim()\<close>\<close>

definition textOf :: "jsval \<Rightarrow> string" where
  "textOf v = toStr (if truthy v then v else JStr [])"

definition durableRecordLocalId :: "jsval \<Rightarrow> jsval \<Rightarrow> jsval \<Rightarrow> string result" where
  "durableRecordLocalId publisher recordKind recordId =
     (let pub = trim (textOf publisher); kind = trim (textOf recordKind); i = trim (textOf recordId) in
      if pub = [] then Inl (Error ''durableRecordLocalId requires publisherPublicKeyB64'')
      else if kind = [] then Inl (Error ''durableRecordLocalId requires recordKind'')
      else if i = [] then Inl (Error ''durableRecordLocalId requires recordId'')
      else Inr (sha256Hex (pub @ ''|'' @ kind @ '':'' @ i)))"

definition durableRecordSignableBytes :: "jsval \<Rightarrow> bytes result" where
  "durableRecordSignableBytes r =
     (if \<not> truthy r \<or> \<not> typeofObject r then Inl (Error ''durableRecordSignableBytes requires a record object'')
      else Inr (signable (JObj [(''v'', getProp r ''v''), (''recordKind'', getProp r ''recordKind''), (''recordId'', getProp r ''recordId''),
        (''publisherPublicKeyB64'', getProp r ''publisherPublicKeyB64''), (''issuedAtMs'', getProp r ''issuedAtMs''),
        (''expiresAtMs'', getProp r ''expiresAtMs''), (''payloadB64'', getProp r ''payloadB64'')])))"

definition buildDurableRecordV1 :: "jsval \<Rightarrow> jsval" where
  "buildDurableRecordV1 a = JObj [(''v'', JInt 1), (''recordKind'', JStr (trim (textOf (getProp a ''recordKind'')))),
     (''recordId'', JStr (trim (textOf (getProp a ''recordId'')))), (''publisherPublicKeyB64'', JStr (trim (textOf (getProp a ''publisherPublicKeyB64'')))),
     (''issuedAtMs'', getProp a ''issuedAtMs''), (''expiresAtMs'', getProp a ''expiresAtMs''), (''payloadB64'', JStr (textOf (getProp a ''payloadB64'')))]"

definition durableRecordV2Slot :: "jsval \<Rightarrow> jsval \<Rightarrow> jsval \<Rightarrow> string result" where
  "durableRecordV2Slot owner kind i = durableRecordLocalId owner kind i"

definition certIdOf :: "nat \<Rightarrow> jsval \<Rightarrow> jsval result" where
  "certIdOf i cert =
     (case getProp cert ''certId'' of
        JStr s \<Rightarrow> if trim s = [] then Inl (Error (''durableRecordV2: cert at index '' @ nat_str i @ '' is missing certId'')) else Inr (JStr s)
      | _ \<Rightarrow> Inl (Error (''durableRecordV2: cert at index '' @ nat_str i @ '' is missing certId'')))"

fun certIdsOf :: "nat \<Rightarrow> jsval list \<Rightarrow> jsval list result" where
  "certIdsOf i [] = Inr []"
| "certIdsOf i (x # xs) = bindR (certIdOf i x) (\<lambda>c. bindR (certIdsOf (i + 1) xs) (\<lambda>cs. Inr (c # cs)))"

definition chainOf :: "jsval \<Rightarrow> jsval list" where
  "chainOf v = (case v of JArr xs \<Rightarrow> xs | _ \<Rightarrow> [])"

definition durableRecordV2SignableBytes :: "jsval \<Rightarrow> bytes result" where
  "durableRecordV2SignableBytes r =
     (if \<not> truthy r \<or> \<not> typeofObject r then Inl (Error ''durableRecordV2SignableBytes requires a record object'')
      else bindR (certIdsOf 0 (chainOf (getProp r ''certChain''))) (\<lambda>ids.
        Inr (signable (JObj [(''v'', getProp r ''v''), (''recordKind'', getProp r ''recordKind''), (''recordId'', getProp r ''recordId''),
          (''ownerPublicKeyB64'', getProp r ''ownerPublicKeyB64''), (''signerPublicKeyB64'', getProp r ''signerPublicKeyB64''),
          (''requiredCapability'', dflt (getProp r ''requiredCapability'') JNull), (''certChainCertIds'', JArr ids),
          (''issuedAtMs'', getProp r ''issuedAtMs''), (''expiresAtMs'', getProp r ''expiresAtMs''), (''payloadB64'', getProp r ''payloadB64'')]))))"

definition buildDurableRecordV2 :: "jsval \<Rightarrow> jsval" where
  "buildDurableRecordV2 a =
     (let owner = trim (textOf (getProp a ''ownerPublicKeyB64'')); s = trim (textOf (getProp a ''signerPublicKeyB64''));
          signer = (if s = [] then owner else s) in
      JObj [(''v'', JInt 2), (''recordKind'', JStr (trim (textOf (getProp a ''recordKind'')))), (''recordId'', JStr (trim (textOf (getProp a ''recordId'')))),
        (''ownerPublicKeyB64'', JStr owner), (''signerPublicKeyB64'', JStr signer), (''certChain'', JArr (chainOf (getProp a ''certChain''))),
        (''requiredCapability'', dflt (getProp a ''requiredCapability'') JNull), (''issuedAtMs'', getProp a ''issuedAtMs''),
        (''expiresAtMs'', getProp a ''expiresAtMs''), (''payloadB64'', JStr (textOf (getProp a ''payloadB64'')))])"

section \<open>Epoch-ordered kinds\<close>

definition ROOT_SIGNED_ONLY_RECORD_KINDS :: "string list" where
  "ROOT_SIGNED_ONLY_RECORD_KINDS = [ACCOUNT_AUTHORITY_STATE_RECORD_KIND]"

definition recordKindCarriesMonotonicEpoch :: "jsval \<Rightarrow> bool" where
  "recordKindCarriesMonotonicEpoch kind = (trim (textOf kind) = ACCOUNT_AUTHORITY_STATE_RECORD_KIND)"

definition durableRecordMonotonicBinding :: "(bytes \<Rightarrow> jsval result) \<Rightarrow> jsval \<Rightarrow> (string \<times> int) option result" where
  "durableRecordMonotonicBinding parse r =
     (if \<not> truthy r \<or> \<not> typeofObject r then Inl (Error ''durableRecordMonotonicBinding requires a record object'')
      else let kind = trim (textOf (getProp r ''recordKind'')) in
        if kind \<noteq> ACCOUNT_AUTHORITY_STATE_RECORD_KIND then Inr None
        else case bindR (base64ToBytes (textOf (getProp r ''payloadB64''))) parse of
          Inl e \<Rightarrow> Inl (Error (''record kind '' @ kind @ '' payload is not decodable JSON: '' @ errMessage e))
        | Inr json \<Rightarrow> bindR (monotonicBindingOf json) (\<lambda>b. Inr (Some b)))"

section \<open>Verification\<close>

datatype record_outcome =
    Rejected string "nat option"
  | Accepted authority_mode string string string string string "string list" "string option" jsval

definition rootOnlyCheck :: "string \<Rightarrow> string \<Rightarrow> string \<Rightarrow> jsval \<Rightarrow> string option" where
  "rootOnlyCheck kind signer owner r =
     (if kind \<notin> set ROOT_SIGNED_ONLY_RECORD_KINDS then None
      else if signer \<noteq> owner then Some (''record kind '' @ kind @ '' must be signed by the account root (signer must equal owner)'')
      else if chainOf (getProp r ''certChain'') \<noteq> [] then Some (''record kind '' @ kind @ '' must carry no cert chain (root-signed, direct mode only)'')
      else if \<not> isNullish (getProp r ''requiredCapability'') then Some (''record kind '' @ kind @ '' must not assert a delegated capability'')
      else None)"

definition epochCheck :: "(bytes \<Rightarrow> jsval result) \<Rightarrow> string \<Rightarrow> string \<Rightarrow> jsval \<Rightarrow> string option" where
  "epochCheck parse kind owner r =
     (if \<not> recordKindCarriesMonotonicEpoch (JStr kind) then None
      else case durableRecordMonotonicBinding parse r of
        Inl e \<Rightarrow> Some (''record kind '' @ kind @ '' payload is unreadable: '' @ errMessage e)
      | Inr None \<Rightarrow> Some (''record kind '' @ kind @ '' is epoch-ordered but yielded no binding'')
      | Inr (Some (account, epoch)) \<Rightarrow>
          if account \<noteq> owner then Some (''record kind '' @ kind @ '' payload is not bound to the record owner'') else None)"

text \<open>The checks up to the signature: a reason, or the bytes to verify with.\<close>

definition envelopeCheck :: "jsval \<Rightarrow> int \<Rightarrow> string option \<Rightarrow> string + (string \<times> bytes \<times> bytes \<times> bytes)" where
  "envelopeCheck r now expectedLocalId =
     (let owner = trim (textOf (getProp r ''ownerPublicKeyB64'')); signer = trim (textOf (getProp r ''signerPublicKeyB64''));
          kind = trim (textOf (getProp r ''recordKind'')); i = trim (textOf (getProp r ''recordId'')) in
      if \<not> truthy r \<or> \<not> typeofObject r then Inl ''record required''
      else if getProp r ''v'' \<noteq> JInt 2 then Inl ''record.v must be 2''
      else if owner = [] then Inl ''ownerPublicKeyB64 required''
      else if signer = [] then Inl ''signerPublicKeyB64 required''
      else if kind = [] then Inl ''recordKind required''
      else if i = [] then Inl ''recordId required''
      else if \<not> isString (getProp r ''sigB64'') \<or> trim (strOf (getProp r ''sigB64'')) = [] then Inl ''sigB64 required''
      else if \<not> isFiniteNumber (getProp r ''issuedAtMs'') \<or> \<not> isFiniteNumber (getProp r ''expiresAtMs'') then Inl ''issuedAtMs/expiresAtMs must be finite''
      else if now < intOf (getProp r ''issuedAtMs'') then Inl ''record not yet valid''
      else if now \<ge> intOf (getProp r ''expiresAtMs'') then Inl ''record expired''
      else case durableRecordV2Slot (JStr owner) (JStr kind) (JStr i) of
        Inl e \<Rightarrow> Inl (errMessage e)
      | Inr localId \<Rightarrow>
          if (case expectedLocalId of None \<Rightarrow> False | Some x \<Rightarrow> trim x \<noteq> localId)
          then Inl ''record slot does not match the owner-keyed coordinate (substitution)''
          else (case bindR (base64ToBytes (strOf (getProp r ''sigB64''))) (\<lambda>sig. bindR (base64ToBytes signer) (\<lambda>pub. Inr (sig, pub))) of
                  Inl e \<Rightarrow> Inl (''malformed signature or signer key: '' @ errMessage e)
                | Inr (sig, pub) \<Rightarrow>
                    (case durableRecordV2SignableBytes r of
                       Inl e \<Rightarrow> Inl (''signable bytes: '' @ errMessage e)
                     | Inr msg \<Rightarrow> Inr (localId, pub, msg, sig))))"

definition verifyDurableRecordV2 ::
  "crypto_provider \<Rightarrow> (bytes \<Rightarrow> jsval result) \<Rightarrow> jsval \<Rightarrow> int \<Rightarrow> string option \<Rightarrow> RevocationState option \<Rightarrow> record_outcome result" where
  "verifyDurableRecordV2 c parse r now expectedLocalId revocation =
     (case envelopeCheck r now expectedLocalId of
        Inl reason \<Rightarrow> Inr (Rejected reason None)
      | Inr (localId, pub, msg, sig) \<Rightarrow>
          (let owner = trim (textOf (getProp r ''ownerPublicKeyB64'')); signer = trim (textOf (getProp r ''signerPublicKeyB64''));
               kind = trim (textOf (getProp r ''recordKind'')); i = trim (textOf (getProp r ''recordId'')) in
           bindR (verify c pub msg sig) (\<lambda>sigOk.
             if \<not> sigOk then Inr (Rejected ''record signature invalid'' None)
             else case rootOnlyCheck kind signer owner r of
               Some reason \<Rightarrow> Inr (Rejected reason None)
             | None \<Rightarrow>
                 (case epochCheck parse kind owner r of
                    Some reason \<Rightarrow> Inr (Rejected reason None)
                  | None \<Rightarrow>
                      bindR (verifyAccountAuthority c owner (dflt (getProp r ''requiredCapability'') JNull) signer
                               (getProp r ''certChain'') now revocation) (\<lambda>a.
                        case a of
                          Refused reason at \<Rightarrow> Inr (Rejected (''authority: '' @ reason) at)
                        | Granted mode _ caps leaf _ \<Rightarrow> Inr (Accepted mode localId owner signer kind i caps leaf (getProp r ''payloadB64'')))))))"

section \<open>What an accepted record guarantees\<close>

lemma envelopeCheck_Inr:
  assumes "envelopeCheck r now expectedLocalId = Inr (localId, pub, msg, sig)"
  shows "durableRecordV2Slot (JStr (trim (textOf (getProp r ''ownerPublicKeyB64'')))) (JStr (trim (textOf (getProp r ''recordKind''))))
           (JStr (trim (textOf (getProp r ''recordId'')))) = Inr localId"
    and "intOf (getProp r ''issuedAtMs'') \<le> now" "now < intOf (getProp r ''expiresAtMs'')"
    and "pred_option (\<lambda>x. trim x = localId) expectedLocalId"
    and "base64ToBytes (trim (textOf (getProp r ''signerPublicKeyB64''))) = Inr pub" "durableRecordV2SignableBytes r = Inr msg"
    and "base64ToBytes (strOf (getProp r ''sigB64'')) = Inr sig"
  using assms unfolding envelopeCheck_def Let_def
  by (auto simp: result_simps split: if_splits sum.splits option.splits)

lemma granted_case:
  "(case a of Refused reason at \<Rightarrow> Inr (Rejected (f reason) at) | Granted mode x caps leaf e \<Rightarrow> Inr (g mode caps leaf))
     = (Inr (Accepted m l ow s k i cs lf p) :: record_outcome result)
   \<longleftrightarrow> (\<exists>mode x caps leaf e. a = Granted mode x caps leaf e \<and> g mode caps leaf = Accepted m l ow s k i cs lf p)"
  by (cases a) auto

lemma accepted_parts:
  assumes "verifyDurableRecordV2 c parse r now expectedLocalId rs = Inr (Accepted mode localId owner signer kind i caps leaf payload)"
  shows "owner = trim (textOf (getProp r ''ownerPublicKeyB64''))" "signer = trim (textOf (getProp r ''signerPublicKeyB64''))"
    and "kind = trim (textOf (getProp r ''recordKind''))" "i = trim (textOf (getProp r ''recordId''))"
    and "\<exists>pub msg sig. envelopeCheck r now expectedLocalId = Inr (localId, pub, msg, sig) \<and> verify c pub msg sig = Inr True"
    and "rootOnlyCheck kind signer owner r = None" "epochCheck parse kind owner r = None"
    and "\<exists>a e. verifyAccountAuthority c owner (dflt (getProp r ''requiredCapability'') JNull) signer (getProp r ''certChain'') now rs
           = Inr (Granted mode a caps leaf e)"
  using assms unfolding verifyDurableRecordV2_def Let_def
  by (auto simp: result_simps granted_case split: if_split_asm sum.split_asm option.split_asm)

lemma rootOnly_direct:
  assumes "rootOnlyCheck ACCOUNT_AUTHORITY_STATE_RECORD_KIND signer owner r = None"
    and "verifyAccountAuthority c owner (dflt (getProp r ''requiredCapability'') JNull) signer (getProp r ''certChain'') now rs = Inr (Granted mode a caps leaf e)"
  shows "signer = owner \<and> mode = Direct \<and> leaf = None \<and> caps = ACCOUNT_CAPABILITY_ACTIONS"
proof -
  have r: "signer = owner" "chainOf (getProp r ''certChain'') = []"
    using assms(1) by (auto simp: rootOnlyCheck_def ROOT_SIGNED_ONLY_RECORD_KINDS_def split: if_splits)
  then have "\<not> (\<exists>js. getProp r ''certChain'' = JArr js \<and> js \<noteq> [])" by (auto simp: chainOf_def)
  then have "mode \<noteq> Delegated" using assms(2) delegated_iff by blast
  then have m: "mode = Direct" by (cases mode) simp_all
  with assms(2) have "leaf = None \<and> caps = ACCOUNT_CAPABILITY_ACTIONS" using direct_iff by blast
  with m r show ?thesis by blast
qed

lemma epochCheck_bound:
  "epochCheck parse ACCOUNT_AUTHORITY_STATE_RECORD_KIND owner r = None \<Longrightarrow> \<exists>epoch. durableRecordMonotonicBinding parse r = Inr (Some (owner, epoch))"
  by (auto simp: epochCheck_def recordKindCarriesMonotonicEpoch_def textOf_def ACCOUNT_AUTHORITY_STATE_RECORD_KIND_def trim_def isSpace_def
      split: if_splits sum.splits option.splits)

lemma binding_epoch: "durableRecordMonotonicBinding parse r = Inr (Some (a, epoch)) \<Longrightarrow> 0 \<le> epoch \<and> epoch \<le> 2 ^ 53 - 1"
  by (auto simp: durableRecordMonotonicBinding_def monotonicBindingOf_def isSafeInteger_def result_simps Let_def
      split: if_splits sum.splits jsval.splits)

text \<open>C10: An accepted record is authentic and in place: it is inside its window, its slot is the owner's coordinate and the one it was
  fetched from, its signature over all its fields and the chain's certificate identifiers verifies under the signer's key, and the
  signer is the owner or holds a granted chain of the owner.\<close>

theorem durable_record_v2_sound:
  assumes "verifyDurableRecordV2 c parse r now expectedLocalId rs = Inr (Accepted mode localId owner signer kind i caps leaf payload)"
  shows "durableRecordV2Slot (JStr owner) (JStr kind) (JStr i) = Inr localId \<and> pred_option (\<lambda>x. trim x = localId) expectedLocalId
     \<and> intOf (getProp r ''issuedAtMs'') \<le> now \<and> now < intOf (getProp r ''expiresAtMs'')
     \<and> (\<exists>pub msg sig. base64ToBytes signer = Inr pub \<and> durableRecordV2SignableBytes r = Inr msg
          \<and> base64ToBytes (strOf (getProp r ''sigB64'')) = Inr sig \<and> verify c pub msg sig = Inr True)
     \<and> (mode = Direct \<and> trim signer = trim owner
        \<or> mode = Delegated \<and> (\<exists>js recs. getProp r ''certChain'' = JArr js \<and> readChain 0 js = Inr recs
             \<and> derived (inForce c owner now (revokedIds rs) (cutoff rs)) owner (rev recs) \<and> granteeDevicePublicKeyB64 (last recs) = signer))"
proof -
  note p = accepted_parts [OF assms]
  obtain pub msg sig where e: "envelopeCheck r now expectedLocalId = Inr (localId, pub, msg, sig)" "verify c pub msg sig = Inr True"
    using p(5) by blast
  obtain a ex where g: "verifyAccountAuthority c owner (dflt (getProp r ''requiredCapability'') JNull) signer (getProp r ''certChain'') now rs
      = Inr (Granted mode a caps leaf ex)" using p(8) by blast
  have "mode = Direct \<and> trim signer = trim owner \<or> mode = Delegated \<and> (\<exists>js recs. getProp r ''certChain'' = JArr js \<and> readChain 0 js = Inr recs
      \<and> derived (inForce c owner now (revokedIds rs) (cutoff rs)) owner (rev recs) \<and> granteeDevicePublicKeyB64 (last recs) = signer)"
  proof (cases mode)
    case Direct
    with g direct_iff show ?thesis by blast
  next
    case Delegated
    with g have "\<exists>js recs. getProp r ''certChain'' = JArr js \<and> readChain 0 js = Inr recs
        \<and> derived (inForce c owner now (revokedIds rs) (cutoff rs)) owner (rev recs) \<and> granteeDevicePublicKeyB64 (last recs) = signer"
      unfolding Delegated delegated_iff by blast
    with Delegated show ?thesis by blast
  qed
  then show ?thesis using envelopeCheck_Inr [OF e(1), folded p(1-4)] e(2) by blast
qed


section \<open>A concrete record\<close>

definition demo_payload :: jsval where
  "demo_payload = JObj [(''accountIdentityPublicKeyB64'', JStr (demo_spki 1)), (''epoch'', JInt 3)]"

definition demo_record :: jsval where
  "demo_record = JObj [(''v'', JInt 2), (''recordKind'', JStr ''account-authority-state''), (''recordId'', JStr ''self''),
     (''ownerPublicKeyB64'', JStr (demo_spki 1)), (''signerPublicKeyB64'', JStr (demo_spki 1)), (''certChain'', JArr []),
     (''requiredCapability'', JNull), (''issuedAtMs'', JInt 10), (''expiresAtMs'', JInt 90),
     (''payloadB64'', JStr (bytesToBase64 (stringifyBytes demo_payload))), (''sigB64'', JStr ''AAAA'')]"

lemma trim_no_space: "(\<forall>c\<in>set s. \<not> isSpace c) \<Longrightarrow> trim s = s"
proof -
  assume s: "\<forall>c\<in>set s. \<not> isSpace c"
  have "dropWhile isSpace t = t" if "set t = set s" for t using s that by (auto simp: dropWhile_eq_self_iff)
  then show ?thesis by (simp add: trim_def)
qed

lemma demo_spki_trim: "trim (demo_spki b) = demo_spki b" "demo_spki b \<noteq> []"
proof -
  show "trim (demo_spki b) = demo_spki b"
    by (rule trim_no_space) (unfold demo_spki_def filter_id_conv [symmetric], rule bytesToBase64_clean)
  then show "demo_spki b \<noteq> []" using spki_nonblank [of b] by metis
qed

lemma demo_payload_parse: "jsonParseBytes (stringifyBytes demo_payload) = Inr demo_payload"
proof -
  have "stableData demo_payload" by (simp add: demo_payload_def not_index_entry isDigit_def)
  from jsonParseBytes_stringify [OF this] show ?thesis by (auto simp: stringifyBytes_def)
qed

lemma demo_record_fields [simp]:
  "getProp demo_record ''ownerPublicKeyB64'' = JStr (demo_spki 1)" "getProp demo_record ''signerPublicKeyB64'' = JStr (demo_spki 1)"
  "getProp demo_record ''recordKind'' = JStr ''account-authority-state''" "getProp demo_record ''recordId'' = JStr ''self''"
  "getProp demo_record ''certChain'' = JArr []" "getProp demo_record ''requiredCapability'' = JNull"
  "getProp demo_record ''issuedAtMs'' = JInt 10" "getProp demo_record ''expiresAtMs'' = JInt 90" "getProp demo_record ''sigB64'' = JStr ''AAAA''"
  "getProp demo_record ''payloadB64'' = JStr (bytesToBase64 (stringifyBytes demo_payload))" "getProp demo_record ''v'' = JInt 2"
  "truthy demo_record" "typeofObject demo_record"
  by (simp_all add: demo_record_def)

lemma textOf_JStr [simp]: "textOf (JStr s) = s"
  by (simp add: textOf_def)

lemma words_trim: "trim ''account-authority-state'' = ''account-authority-state''" "trim ''self'' = ''self''" "trim ''AAAA'' = ''AAAA''"
  by (rule trim_no_space, simp add: isSpace_def)+

lemma demo_accepted:
  "\<exists>localId. verifyDurableRecordV2 demo_verifier jsonParseBytes demo_record 50 None None
     = Inr (Accepted Direct localId (demo_spki 1) (demo_spki 1) ACCOUNT_AUTHORITY_STATE_RECORD_KIND ''self'' ACCOUNT_CAPABILITY_ACTIONS None
         (JStr (bytesToBase64 (stringifyBytes demo_payload))))"
proof -
  have sig: "base64ToBytes ''AAAA'' = Inr [0, 0, 0]" by code_simp
  have pub: "base64ToBytes (demo_spki 1) = Inr ([0x30, 0x2a, 0x30, 0x05, 0x06, 0x03, 0x2b, 0x65, 0x70, 0x03, 0x21, 0x00] @ replicate 32 1)"
    unfolding demo_spki_def by (rule b64.dec_enc)
  obtain localId where "durableRecordV2Slot (JStr (demo_spki 1)) (JStr ''account-authority-state'') (JStr ''self'') = Inr localId"
    by (simp add: durableRecordV2Slot_def durableRecordLocalId_def Let_def words_trim demo_spki_trim)
  moreover obtain msg where "durableRecordV2SignableBytes demo_record = Inr msg" by (simp add: durableRecordV2SignableBytes_def chainOf_def)
  ultimately have "envelopeCheck demo_record 50 None
      = Inr (localId, [0x30, 0x2a, 0x30, 0x05, 0x06, 0x03, 0x2b, 0x65, 0x70, 0x03, 0x21, 0x00] @ replicate 32 1, msg, [0, 0, 0])"
    using sig pub by (simp add: envelopeCheck_def words_trim demo_spki_trim)
  moreover have "verify demo_verifier p m s = Inr True" for p m s by (simp add: demo_verifier_def)
  moreover have "rootOnlyCheck ''account-authority-state'' (demo_spki 1) (demo_spki 1) demo_record = None"
    by (simp add: rootOnlyCheck_def chainOf_def)
  moreover have "epochCheck jsonParseBytes ''account-authority-state'' (demo_spki 1) demo_record = None"
    by (simp add: epochCheck_def durableRecordMonotonicBinding_def recordKindCarriesMonotonicEpoch_def ACCOUNT_AUTHORITY_STATE_RECORD_KIND_def words_trim
        b64.dec_enc demo_payload_parse) (simp add: demo_payload_def monotonicBindingOf_def isSafeInteger_def demo_spki_trim)
  moreover have "verifyAccountAuthority demo_verifier (demo_spki 1) JNull (demo_spki 1) (JArr []) 50 None
      = Inr (Granted Direct (demo_spki 1) ACCOUNT_CAPABILITY_ACTIONS None None)"
    by (simp add: verifyAccountAuthority_def demo_spki_trim)
  ultimately show ?thesis
    by (simp add: verifyDurableRecordV2_def Let_def words_trim demo_spki_trim ACCOUNT_AUTHORITY_STATE_RECORD_KIND_def)
qed

theorem durable_record_v2_sound_witness:
  "\<exists>localId. durableRecordV2Slot (JStr (demo_spki 1)) (JStr ACCOUNT_AUTHORITY_STATE_RECORD_KIND) (JStr ''self'') = Inr localId
     \<and> (\<exists>pub msg sig. base64ToBytes (demo_spki 1) = Inr pub \<and> durableRecordV2SignableBytes demo_record = Inr msg \<and> verify demo_verifier pub msg sig = Inr True)"
proof -
  obtain localId where "verifyDurableRecordV2 demo_verifier jsonParseBytes demo_record 50 None None
     = Inr (Accepted Direct localId (demo_spki 1) (demo_spki 1) ACCOUNT_AUTHORITY_STATE_RECORD_KIND ''self'' ACCOUNT_CAPABILITY_ACTIONS None
         (JStr (bytesToBase64 (stringifyBytes demo_payload))))" using demo_accepted by blast
  from durable_record_v2_sound [OF this] show ?thesis by blast
qed


text \<open>The slot coordinate does not separate kinds. The kind and the record identifier are joined with a colon that both may contain, so a
  record whose kind extends the authority kind shares the slot of an authority snapshot without being bound by the root-only rule.\<close>

theorem slot_kind_ambiguous:
  "durableRecordV2Slot (JStr owner) (JStr ''account-authority-state'') (JStr ''x:y'')
     = durableRecordV2Slot (JStr owner) (JStr ''account-authority-state:x'') (JStr ''y'')
   \<and> rootOnlyCheck ''account-authority-state:x'' signer owner r = None"
proof -
  have "trim ''account-authority-state:x'' = ''account-authority-state:x''" "trim ''x:y'' = ''x:y''" "trim ''y'' = ''y''"
    by (rule trim_no_space, simp add: isSpace_def)+
  then show ?thesis
    by (simp add: durableRecordV2Slot_def durableRecordLocalId_def Let_def words_trim rootOnlyCheck_def ROOT_SIGNED_ONLY_RECORD_KINDS_def ACCOUNT_AUTHORITY_STATE_RECORD_KIND_def)
qed

end
