(* ===== verification/Network_Guards.thy ===== *)
theory Network_Guards
  imports Complex_Main Device_Records
begin

text \<open>
  What protects a node's inbound side: the deduplication cache (\<^verbatim>\<open>src/network/DeduperLRU.js\<close>), the token-bucket flood gate
  (\<^verbatim>\<open>src/network/FloodGate.js\<close>) and the replay cache of the onion layer (\<^verbatim>\<open>src/services/onion/OnionReplayCacheV2.js\<close>).
  Times are integer milliseconds. Token counts are rational numbers: the source's doubles are read as the numbers they
  approximate.
\<close>

section \<open>DeduperLRU\<close>

definition PRUNE_INTERVAL_MS :: int where "PRUNE_INTERVAL_MS = 60000"

record DeduperLRU =
  dd_capacity :: int
  dd_ttlMs :: int
  dd_map :: "(string \<times> int) list"
  dd_lastPruneAtMs :: int

text \<open>\<^verbatim>\<open>Number(x) || d\<close> on integers replaces 0 only.\<close>

definition orDefault :: "int \<Rightarrow> int \<Rightarrow> int" where
  "orDefault x d = (if x = 0 then d else x)"

definition newDeduperLRU :: "int \<Rightarrow> int \<Rightarrow> DeduperLRU" where
  "newDeduperLRU capacity ttlMs = \<lparr>dd_capacity = max 100 (orDefault capacity 50000),
     dd_ttlMs = max 1000 (orDefault ttlMs (24 * 60 * 60 * 1000)), dd_map = [], dd_lastPruneAtMs = 0\<rparr>"

definition validKey :: "string \<Rightarrow> bool" where
  "validKey value = (trim value \<noteq> [])"

definition dd_prune :: "int \<Rightarrow> DeduperLRU \<Rightarrow> DeduperLRU" where
  "dd_prune nowMs d = d\<lparr>dd_map := filter (\<lambda>(k, ts). \<not> nowMs - ts > dd_ttlMs d) (dd_map d)\<rparr>"

definition dd_tick :: "int \<Rightarrow> DeduperLRU \<Rightarrow> DeduperLRU" where
  "dd_tick nowMs d =
     (if nowMs - dd_lastPruneAtMs d \<ge> PRUNE_INTERVAL_MS then (dd_prune nowMs d)\<lparr>dd_lastPruneAtMs := nowMs\<rparr> else d)"

definition dd_seen :: "string \<Rightarrow> int \<Rightarrow> DeduperLRU \<Rightarrow> bool \<times> DeduperLRU" where
  "dd_seen key nowMs d0 =
     (let d = dd_tick nowMs d0 in
      if \<not> validKey key then (False, d)
      else case map_of (dd_map d) key of
        None \<Rightarrow> (False, d)
      | Some ts \<Rightarrow>
          if nowMs - ts > dd_ttlMs d then (False, d\<lparr>dd_map := AList.delete key (dd_map d)\<rparr>)
          else (True, d))"

text \<open>The eviction loop: while the map is too large, delete its oldest key.\<close>

fun dd_evict :: "int \<Rightarrow> (string \<times> int) list \<Rightarrow> (string \<times> int) list" where
  "dd_evict capacity [] = []"
| "dd_evict capacity (e # es) = (if int (length (e # es)) > capacity then dd_evict capacity es else e # es)"

definition dd_mark :: "string \<Rightarrow> int \<Rightarrow> DeduperLRU \<Rightarrow> DeduperLRU" where
  "dd_mark key nowMs d0 =
     (let d = dd_tick nowMs d0 in
      if \<not> validKey key then d
      else d\<lparr>dd_map := dd_evict (dd_capacity d) (AList.delete key (dd_map d) @ [(key, nowMs)])\<rparr>)"

definition dd_clear :: "DeduperLRU \<Rightarrow> DeduperLRU" where
  "dd_clear d = d\<lparr>dd_map := [], dd_lastPruneAtMs := 0\<rparr>"

section \<open>FloodGate\<close>

record TokenBucket =
  tb_rate :: int
  tb_burst :: int
  tb_tokens :: rat
  tb_lastTs :: int

definition newTokenBucket :: "int \<Rightarrow> int \<Rightarrow> int \<Rightarrow> TokenBucket" where
  "newTokenBucket rate burst nowMs =
     (let r = max 1 (orDefault rate 1); b = max 1 (orDefault burst r)
      in \<lparr>tb_rate = r, tb_burst = b, tb_tokens = of_int b, tb_lastTs = nowMs\<rparr>)"

definition tb_allow :: "int \<Rightarrow> TokenBucket \<Rightarrow> bool \<times> TokenBucket" where
  "tb_allow nowMs t =
     (let elapsedSec = of_int (max 0 (nowMs - tb_lastTs t)) / 1000;
          tokens = min (of_int (tb_burst t)) (tb_tokens t + elapsedSec * of_int (tb_rate t))
      in if tokens \<ge> 1 then (True, t\<lparr>tb_lastTs := nowMs, tb_tokens := tokens - 1\<rparr>)
         else (False, t\<lparr>tb_lastTs := nowMs, tb_tokens := tokens\<rparr>))"

record FloodGate =
  fg_perConnRate :: int
  fg_perConnBurst :: int
  fg_global :: TokenBucket
  fg_warnIntervalMs :: int
  fg_pool :: "(string \<times> TokenBucket) list"
  fg_dropped :: int
  fg_lastWarn :: int

definition newFloodGate :: "int \<Rightarrow> int \<Rightarrow> int \<Rightarrow> int \<Rightarrow> int \<Rightarrow> int \<Rightarrow> FloodGate" where
  "newFloodGate perConnRate perConnBurst globalRate globalBurst warnIntervalMs nowMs =
     \<lparr>fg_perConnRate = max 1 (orDefault perConnRate 200), fg_perConnBurst = max 1 (orDefault perConnBurst 400),
      fg_global = newTokenBucket globalRate globalBurst nowMs, fg_warnIntervalMs = max 100 (orDefault warnIntervalMs 1000),
      fg_pool = [], fg_dropped = 0, fg_lastWarn = 0\<rparr>"

definition fg_key :: "string \<Rightarrow> string" where
  "fg_key connKey = (if connKey = [] then ''uplink:unknown'' else connKey)"

text \<open>The bucket of a connection, made on first use; \<open>clock\<close> is the wall clock that a new bucket reads, \<open>nowMs\<close> the time the caller passes.\<close>

definition fg_bucket :: "string \<Rightarrow> int \<Rightarrow> FloodGate \<Rightarrow> TokenBucket" where
  "fg_bucket connKey clock g =
     (case map_of (fg_pool g) (fg_key connKey) of
        Some b \<Rightarrow> b
      | None \<Rightarrow> newTokenBucket (fg_perConnRate g) (fg_perConnBurst g) clock)"

definition fg_allow :: "string \<Rightarrow> int \<Rightarrow> int \<Rightarrow> FloodGate \<Rightarrow> bool \<times> FloodGate" where
  "fg_allow connKey clock nowMs g =
     (let (own, bucket) = tb_allow nowMs (fg_bucket connKey clock g);
          g1 = g\<lparr>fg_pool := AList.update (fg_key connKey) bucket (fg_pool g)\<rparr>
      in if own
         then (let (all, global) = tb_allow nowMs (fg_global g1)
               in (all, g1\<lparr>fg_global := global, fg_dropped := (if all then fg_dropped g1 else fg_dropped g1 + 1)\<rparr>))
         else (False, g1\<lparr>fg_dropped := fg_dropped g1 + 1\<rparr>))"

definition fg_consumeWarn :: "int \<Rightarrow> FloodGate \<Rightarrow> int option \<times> FloodGate" where
  "fg_consumeWarn nowMs g =
     (if fg_dropped g \<le> 0 then (None, g)
      else if nowMs - fg_lastWarn g < fg_warnIntervalMs g then (None, g)
      else (Some (fg_dropped g), g\<lparr>fg_dropped := 0, fg_lastWarn := nowMs\<rparr>))"

definition fg_clear :: "FloodGate \<Rightarrow> FloodGate" where
  "fg_clear g = g\<lparr>fg_pool := [], fg_dropped := 0, fg_lastWarn := 0\<rparr>"

definition fg_release :: "string \<Rightarrow> FloodGate \<Rightarrow> FloodGate" where
  "fg_release connKey g = g\<lparr>fg_pool := AList.delete (fg_key connKey) (fg_pool g)\<rparr>"

section \<open>OnionReplayCacheV2\<close>

record OnionReplayCacheV2 =
  rc_maxEntries :: int
  rc_map :: "(string \<times> bool) list"

definition newOnionReplayCacheV2 :: "jsval \<Rightarrow> OnionReplayCacheV2 result" where
  "newOnionReplayCacheV2 maxEntries =
     (if \<not> isInteger (dflt maxEntries (JInt 50000)) \<or> intOf (dflt maxEntries (JInt 50000)) \<le> 0
      then Inl (Error ''OnionReplayCacheV2 requires maxEntries > 0'')
      else Inr \<lparr>rc_maxEntries = intOf (dflt maxEntries (JInt 50000)), rc_map = []\<rparr>)"

definition replayKey :: "string \<Rightarrow> int \<Rightarrow> string \<Rightarrow> string" where
  "replayKey packetIdHex hopIndex onionKeyId = packetIdHex @ '':'' @ int_str hopIndex @ '':'' @ onionKeyId"

definition checkAndMark :: "string \<Rightarrow> int \<Rightarrow> string \<Rightarrow> OnionReplayCacheV2 \<Rightarrow> OnionReplayCacheV2 result" where
  "checkAndMark packetIdHex hopIndex onionKeyId c =
     (if packetIdHex = [] then Inl (Error ''OnionReplayCacheV2.checkAndMark requires packetIdHex'')
      else if hopIndex < 0 then Inl (Error ''OnionReplayCacheV2.checkAndMark requires hopIndex >= 0'')
      else if onionKeyId = [] then Inl (Error ''OnionReplayCacheV2.checkAndMark requires onionKeyId'')
      else let key = replayKey packetIdHex hopIndex onionKeyId in
        if map_of (rc_map c) key \<noteq> None then Inl ReplayDetectedError
        else let m = rc_map c @ [(key, True)] in
          Inr (c\<lparr>rc_map := if int (length m) > rc_maxEntries c then tl m else m\<rparr>))"

section \<open>The deduplication cache over time\<close>

datatype dd_event = Seen string int | Mark string int

fun dd_step :: "dd_event \<Rightarrow> DeduperLRU \<Rightarrow> DeduperLRU" where
  "dd_step (Seen k t) d = snd (dd_seen k t d)"
| "dd_step (Mark k t) d = dd_mark k t d"

definition dd_inv :: "DeduperLRU \<Rightarrow> bool" where
  "dd_inv d \<longleftrightarrow> map_wf (dd_map d) \<and> 1 \<le> dd_capacity d \<and> int (length (dd_map d)) \<le> dd_capacity d"

lemma dd_evict_drop: "0 \<le> capacity \<Longrightarrow> dd_evict capacity m = drop (length m - nat capacity) m"
proof (induction m)
  case (Cons e es)
  then show ?case by (cases "int (length (e # es)) > capacity") (auto simp: Suc_diff_le)
qed simp

lemma map_wf_append_new: "map_wf m \<Longrightarrow> map_wf (AList.delete k m @ [(k, v)])"
  by (auto simp: map_wf_def distinct_delete) (auto simp: AList.delete_eq)

lemma map_wf_drop: "map_wf m \<Longrightarrow> map_wf (drop n m)"
  by (simp add: map_wf_def drop_map [symmetric])

lemma dd_tick_frame [simp]: "dd_capacity (dd_tick t d) = dd_capacity d" "dd_ttlMs (dd_tick t d) = dd_ttlMs d"
  by (simp_all add: dd_tick_def dd_prune_def)

lemma dd_tick_inv: "dd_inv d \<Longrightarrow> dd_inv (dd_tick t d)"
  by (auto simp: dd_inv_def dd_tick_def dd_prune_def intro: map_wf_filter dest: order_trans [OF of_nat_mono [OF length_filter_le]])

lemma dd_seen_snd: "snd (dd_seen k t d) = (if fst (dd_seen k t d) then dd_tick t d
    else (dd_tick t d)\<lparr>dd_map := (if validKey k then AList.delete k (dd_map (dd_tick t d)) else dd_map (dd_tick t d))\<rparr>)"
  by (auto simp: dd_seen_def Let_def split: option.splits simp: map_of_eq_None_iff delete_id)

lemma dd_step_frame [simp]: "dd_capacity (dd_step e d) = dd_capacity d" "dd_ttlMs (dd_step e d) = dd_ttlMs d"
  by (cases e; simp add: dd_seen_snd dd_mark_def Let_def)+

lemma dd_step_inv: "dd_inv d \<Longrightarrow> dd_inv (dd_step e d)"
proof (cases e)
  case (Seen k t)
  assume "dd_inv d"
  then have "dd_inv (dd_tick t d)" by (rule dd_tick_inv)
  then show ?thesis unfolding Seen by (auto simp: dd_inv_def dd_seen_snd dest: order_trans [OF of_nat_mono [OF length_delete_le]])
next
  case (Mark k t)
  assume "dd_inv d"
  then have "dd_inv (dd_tick t d)" by (rule dd_tick_inv)
  then show ?thesis unfolding Mark
    by (auto simp: dd_inv_def dd_mark_def Let_def dd_evict_drop simp del: drop_append intro: map_wf_drop map_wf_append_new)
qed

interpretation dedup: stepper dd_step dd_inv
  by unfold_locales (rule dd_step_inv)

text \<open>Key \<open>k\<close> is in the map, marked no earlier than \<open>lo\<close>, with at most \<open>n\<close> younger keys behind it.\<close>

definition dd_holds :: "string \<Rightarrow> int \<Rightarrow> nat \<Rightarrow> (string \<times> int) list \<Rightarrow> bool" where
  "dd_holds k lo n m \<longleftrightarrow> (\<exists>ts pre post. m = pre @ (k, ts) # post \<and> lo \<le> ts \<and> length post \<le> n \<and> k \<notin> fst ` set pre \<and> k \<notin> fst ` set post)"

lemma dd_holds_lookup: "dd_holds k lo n m \<Longrightarrow> \<exists>ts. map_of m k = Some ts \<and> lo \<le> ts"
  by (auto simp: dd_holds_def map_of_append map_add_def map_of_eq_None_iff [THEN iffD2] split: option.splits)

lemma dd_holds_filter:
  assumes "dd_holds k lo n m" "\<And>ts. lo \<le> ts \<Longrightarrow> P (k, ts)"
  shows "dd_holds k lo n (filter P m)"
proof -
  obtain ts pre post where m: "m = pre @ (k, ts) # post" "lo \<le> ts" "length post \<le> n" "k \<notin> fst ` set pre" "k \<notin> fst ` set post"
    using assms(1) by (auto simp: dd_holds_def)
  then have "filter P m = filter P pre @ (k, ts) # filter P post" using assms(2) by simp
  moreover have "length (filter P post) \<le> n" using m(3) length_filter_le [of P post] by linarith
  ultimately show ?thesis unfolding dd_holds_def using m by (intro exI [of _ ts] exI) auto
qed

lemma dd_holds_mono: "dd_holds k lo n m \<Longrightarrow> n \<le> n' \<Longrightarrow> dd_holds k lo n' m"
  by (force simp: dd_holds_def)

lemma dd_holds_delete: "dd_holds k lo n m \<Longrightarrow> k' \<noteq> k \<Longrightarrow> dd_holds k lo n (AList.delete k' m)"
  unfolding AList.delete_eq by (rule dd_holds_filter) auto

lemma dd_holds_push:
  assumes "dd_holds k lo n m" "k' \<noteq> k" "Suc n < nat c"
  shows "dd_holds k lo (Suc n) (drop (length (m @ [(k', t)]) - nat c) (m @ [(k', t)]))"
proof -
  obtain ts pre post where m: "m = pre @ (k, ts) # post" "lo \<le> ts" "length post \<le> n" "k \<notin> fst ` set pre" "k \<notin> fst ` set post"
    using assms(1) by (auto simp: dd_holds_def)
  let ?j = "length (m @ [(k', t)]) - nat c"
  have "?j \<le> length pre" using m(1,3) assms(3) by simp
  then have "drop ?j (m @ [(k', t)]) = drop ?j pre @ (k, ts) # (post @ [(k', t)])" using m(1) by simp
  moreover have "k \<notin> fst ` set (drop ?j pre)" using m(4) by (auto dest: in_set_dropD)
  ultimately show ?thesis unfolding dd_holds_def using m assms(2) by (intro exI [of _ ts] exI) auto
qed

lemma dd_holds_own: "1 \<le> c \<Longrightarrow> lo \<le> t \<Longrightarrow> dd_holds k lo 0 (drop (length (AList.delete k m @ [(k, t)]) - nat c) (AList.delete k m @ [(k, t)]))"
proof -
  assume c: "1 \<le> c" "lo \<le> t"
  let ?j = "length (AList.delete k m @ [(k, t)]) - nat c"
  have "?j \<le> length (AList.delete k m)" using c by simp
  then have "drop ?j (AList.delete k m @ [(k, t)]) = drop ?j (AList.delete k m) @ (k, t) # []" by simp
  moreover have "k \<notin> fst ` set (drop ?j (AList.delete k m))" by (auto simp: AList.delete_eq dest: in_set_dropD)
  ultimately show ?thesis unfolding dd_holds_def using c by (intro exI [of _ t] exI) auto
qed

lemma dd_holds_tick: "dd_holds k lo n (dd_map d) \<Longrightarrow> now \<le> lo + dd_ttlMs d \<Longrightarrow> dd_holds k lo n (dd_map (dd_tick now d))"
  by (auto simp: dd_tick_def dd_prune_def intro!: dd_holds_filter)

fun dd_time :: "dd_event \<Rightarrow> int" where
  "dd_time (Seen k t) = t"
| "dd_time (Mark k t) = t"

fun dd_pushes :: "string \<Rightarrow> dd_event \<Rightarrow> bool" where
  "dd_pushes k (Seen k' t) = False"
| "dd_pushes k (Mark k' t) = (k' \<noteq> k)"

lemma dd_holds_step:
  assumes "dd_holds k lo n (dd_map d)" "dd_inv d" "lo \<le> dd_time e" "dd_time e \<le> lo + dd_ttlMs d"
    and "(if dd_pushes k e then Suc n else n) < nat (dd_capacity d)"
  shows "dd_holds k lo (if dd_pushes k e then Suc n else n) (dd_map (dd_step e d))"
proof (cases e)
  case (Seen k' t)
  have h: "dd_holds k lo n (dd_map (dd_tick t d))" using assms Seen by (intro dd_holds_tick) auto
  show ?thesis
  proof (cases "k' = k")
    case True
    obtain ts where "map_of (dd_map (dd_tick t d)) k = Some ts" "lo \<le> ts" using dd_holds_lookup [OF h] by blast
    then show ?thesis using h True Seen assms(4) by (simp add: dd_seen_def Let_def)
  qed (use h Seen in \<open>simp add: dd_seen_snd dd_holds_delete\<close>)
next
  case (Mark k' t)
  have h: "dd_holds k lo n (dd_map (dd_tick t d))" using assms Mark by (intro dd_holds_tick) auto
  have c: "1 \<le> dd_capacity d" using assms(2) by (simp add: dd_inv_def)
  show ?thesis
  proof (cases "validKey k'")
    case True
    have ev: "dd_map (dd_step e d) = drop (length (AList.delete k' (dd_map (dd_tick t d)) @ [(k', t)]) - nat (dd_capacity d)) (AList.delete k' (dd_map (dd_tick t d)) @ [(k', t)])"
      using c True by (simp add: Mark dd_mark_def Let_def dd_evict_drop)
    show ?thesis
    proof (cases "k' = k")
      case True
      then have "dd_holds k lo 0 (dd_map (dd_step e d))" unfolding ev True using dd_holds_own [OF c] assms(3) Mark by simp
      then show ?thesis using True Mark by (auto intro: dd_holds_mono)
    next
      case False
      then show ?thesis unfolding ev using dd_holds_push [OF dd_holds_delete [OF h False] False] assms(5) Mark by simp
    qed
  qed (use h Mark in \<open>auto simp: dd_mark_def Let_def intro: dd_holds_mono\<close>)
qed

lemma dd_holds_run:
  assumes "dd_holds k lo n (dd_map d)" "dd_inv d" "\<forall>e\<in>set es. lo \<le> dd_time e \<and> dd_time e \<le> lo + dd_ttlMs d"
    and "n + length (filter (dd_pushes k) es) < nat (dd_capacity d)"
  shows "dd_holds k lo (n + length (filter (dd_pushes k) es)) (dd_map (fold dd_step es d))"
  using assms
proof (induction es arbitrary: n d)
  case (Cons e es)
  have "dd_holds k lo (if dd_pushes k e then Suc n else n) (dd_map (dd_step e d))"
    using Cons.prems by (intro dd_holds_step) (auto split: if_splits)
  from Cons.IH [OF this dd_step_inv] Cons.prems show ?case by (cases "dd_pushes k e") simp_all
qed simp

lemma dd_mark_holds: "dd_inv d \<Longrightarrow> validKey k \<Longrightarrow> dd_holds k t 0 (dd_map (dd_mark k t d))"
  using dd_holds_own [of "dd_capacity d" t t k "dd_map (dd_tick t d)"] by (simp add: dd_inv_def dd_mark_def Let_def dd_evict_drop)

lemma dd_seen_holds: "dd_holds k lo n (dd_map d) \<Longrightarrow> validKey k \<Longrightarrow> now \<le> lo + dd_ttlMs d \<Longrightarrow> fst (dd_seen k now d)"
  using dd_holds_lookup [OF dd_holds_tick] by (fastforce simp: dd_seen_def Let_def)

lemma dd_run_frame: "dd_capacity (fold dd_step es d) = dd_capacity d" "dd_ttlMs (fold dd_step es d) = dd_ttlMs d"
  by (induction es arbitrary: d) simp_all

lemma newDeduperLRU_inv: "dd_inv (newDeduperLRU capacity ttl)"
  by (simp add: dd_inv_def newDeduperLRU_def max_def)

text \<open>A marked frame is recognised. After any history of a deduplicator, a key that was marked is reported as seen for its whole
  time-to-live, whatever lookups and marks come in between, as long as fewer other marks than the capacity arrive.\<close>

theorem dedup_remembers:
  assumes "validKey k" "d = dd_mark k t (fold dd_step history (newDeduperLRU capacity ttl))"
    and "\<forall>e\<in>set es. t \<le> dd_time e \<and> dd_time e \<le> t + dd_ttlMs d" "int (length (filter (dd_pushes k) es)) < dd_capacity d"
    and "now \<le> t + dd_ttlMs d"
  shows "fst (dd_seen k now (fold dd_step es d))"
proof -
  have inv: "dd_inv (fold dd_step history (newDeduperLRU capacity ttl))" by (rule dedup.inv_run [OF newDeduperLRU_inv])
  have "dd_inv d" using dd_step_inv [OF inv, of "Mark k t"] assms(2) by simp
  moreover have "dd_holds k t 0 (dd_map d)" using dd_mark_holds [OF inv assms(1)] assms(2) by simp
  ultimately have "dd_holds k t (0 + length (filter (dd_pushes k) es)) (dd_map (fold dd_step es d))"
    using assms(3,4) by (intro dd_holds_run) auto
  then show ?thesis using assms(1,5) by (intro dd_seen_holds) (simp_all add: dd_run_frame)
qed

theorem dedup_remembers_witness:
  "fst (dd_seen ''a'' 500 (fold dd_step [Mark ''b'' 150, Seen ''a'' 200, Mark ''b'' 300] (dd_mark ''a'' 100 (fold dd_step [Mark ''c'' 50] (newDeduperLRU 0 0)))))"
  by (rule dedup_remembers [OF _ refl])
     (simp_all add: validKey_def trim_def isSpace_def newDeduperLRU_def orDefault_def dd_mark_def Let_def)

definition dd_marked :: "dd_event list \<Rightarrow> (string \<times> int) set" where
  "dd_marked es = {(k, t). Mark k t \<in> set es \<and> validKey k}"

lemma dd_step_marked: "set (dd_map (dd_step e d)) \<subseteq> set (dd_map d) \<union> dd_marked [e]"
proof -
  have tick: "set (dd_map (dd_tick t d)) \<subseteq> set (dd_map d)" for t by (auto simp: dd_tick_def dd_prune_def)
  have evict: "set (dd_evict c m) \<subseteq> set m" for c m by (induction m) auto
  show ?thesis
  proof (cases e)
    case (Seen k t)
    then show ?thesis using tick [of t] by (auto simp: dd_seen_snd AList.delete_eq)
  next
    case (Mark k t)
    then show ?thesis using tick [of t] evict [of "dd_capacity d" "AList.delete k (dd_map (dd_tick t d)) @ [(k, t)]"]
      by (auto simp: dd_mark_def Let_def dd_marked_def AList.delete_eq)
  qed
qed

lemma dd_run_marked: "set (dd_map (fold dd_step es d)) \<subseteq> set (dd_map d) \<union> dd_marked es"
proof (induction es arbitrary: d)
  case (Cons e es)
  have "dd_marked (e # es) = dd_marked [e] \<union> dd_marked es" by (auto simp: dd_marked_def)
  then show ?case using Cons [of "dd_step e d"] dd_step_marked [of e d] by auto
qed simp

text \<open>The deduplicator forgets nothing it should not invent. In every reachable state the map has distinct keys and at most the
  configured number of entries, and a key is reported as seen only if it was marked within the time-to-live.\<close>

theorem dedup_sound_and_bounded:
  "int (length (dd_map (fold dd_step es (newDeduperLRU capacity ttl)))) \<le> max 100 (orDefault capacity 50000)
   \<and> distinct (map fst (dd_map (fold dd_step es (newDeduperLRU capacity ttl))))
   \<and> (fst (dd_seen k now (fold dd_step es (newDeduperLRU capacity ttl)))
       \<longrightarrow> (\<exists>t. Mark k t \<in> set es \<and> validKey k \<and> now - t \<le> max 1000 (orDefault ttl 86400000)))"
proof -
  let ?d = "fold dd_step es (newDeduperLRU capacity ttl)"
  have inv: "dd_inv ?d" by (rule dedup.inv_run [OF newDeduperLRU_inv])
  have src: "set (dd_map ?d) \<subseteq> dd_marked es" using dd_run_marked [of es "newDeduperLRU capacity ttl"] by (simp add: newDeduperLRU_def)
  have "\<exists>t. Mark k t \<in> set es \<and> validKey k \<and> now - t \<le> dd_ttlMs ?d" if s: "fst (dd_seen k now ?d)"
  proof -
    obtain ts where ts: "map_of (dd_map (dd_tick now ?d)) k = Some ts" "now - ts \<le> dd_ttlMs ?d"
      using s by (auto simp: dd_seen_def Let_def split: if_splits option.splits)
    have "set (dd_map (dd_tick now ?d)) \<subseteq> set (dd_map ?d)" by (auto simp: dd_tick_def dd_prune_def)
    then have "(k, ts) \<in> dd_marked es" using map_of_SomeD [OF ts(1)] src by blast
    then show ?thesis using ts(2) by (auto simp: dd_marked_def)
  qed
  then show ?thesis using inv by (auto simp: dd_inv_def map_wf_def dd_run_frame newDeduperLRU_def)
qed

theorem dedup_sound_and_bounded_witness:
  "fst (dd_seen ''a'' 500 (fold dd_step [Mark ''a'' 100] (newDeduperLRU 0 0)))
   \<and> (\<exists>t. Mark ''a'' t \<in> set [Mark ''a'' 100] \<and> 500 - t \<le> (86400000 :: int))"
proof -
  have s: "fst (dd_seen ''a'' 500 (fold dd_step [Mark ''a'' 100] (newDeduperLRU 0 0)))"
    by (simp add: dd_seen_def dd_mark_def dd_tick_def PRUNE_INTERVAL_MS_def newDeduperLRU_def orDefault_def validKey_def trim_def isSpace_def)
  then show ?thesis using dedup_sound_and_bounded [of "[Mark ''a'' 100]" 0 0 "''a''" 500] by (simp add: orDefault_def)
qed

section \<open>The rate limit\<close>

definition tb_ok :: "TokenBucket \<Rightarrow> bool" where
  "tb_ok t \<longleftrightarrow> 1 \<le> tb_rate t \<and> 1 \<le> tb_burst t \<and> 0 \<le> tb_tokens t \<and> tb_tokens t \<le> of_int (tb_burst t)"

lemma newTokenBucket_ok: "tb_ok (newTokenBucket rate burst now)"
  by (simp add: tb_ok_def newTokenBucket_def Let_def)

lemma tb_allow_frame [simp]: "tb_rate (snd (tb_allow now t)) = tb_rate t" "tb_burst (snd (tb_allow now t)) = tb_burst t" "tb_lastTs (snd (tb_allow now t)) = now"
  by (simp_all add: tb_allow_def Let_def)

lemma tb_allow_tokens:
  assumes "tb_ok t" "tb_lastTs t \<le> now"
  shows "tb_ok (snd (tb_allow now t))"
    and "tb_tokens (snd (tb_allow now t)) + of_bool (fst (tb_allow now t)) \<le> tb_tokens t + of_int (now - tb_lastTs t) * of_int (tb_rate t) / 1000"
proof -
  have nn: "0 \<le> (of_int (now - tb_lastTs t) :: rat) / 1000 * of_int (tb_rate t)"
    using assms by (intro mult_nonneg_nonneg) (simp_all add: tb_ok_def)
  show "tb_ok (snd (tb_allow now t))" using assms nn by (auto simp: tb_ok_def tb_allow_def Let_def max_def min_def)
  show "tb_tokens (snd (tb_allow now t)) + of_bool (fst (tb_allow now t)) \<le> tb_tokens t + of_int (now - tb_lastTs t) * of_int (tb_rate t) / 1000"
    using assms nn by (auto simp: tb_allow_def Let_def max_def min_def)
qed

text \<open>A run of the gate: the number of admitted frames and the final state. A call names its connection, the wall clock and the time.\<close>

fun fg_run :: "(string \<times> int \<times> int) list \<Rightarrow> nat \<times> FloodGate \<Rightarrow> nat \<times> FloodGate" where
  "fg_run [] s = s"
| "fg_run ((k, clock, now) # cs) (n, g) = (case fg_allow k clock now g of (ok, g') \<Rightarrow> fg_run cs (if ok then Suc n else n, g'))"

fun fg_clocked :: "int \<Rightarrow> (string \<times> int \<times> int) list \<Rightarrow> bool" where
  "fg_clocked t [] = True"
| "fg_clocked t ((k, clock, now) # cs) = (t \<le> now \<and> fg_clocked now cs)"

lemma fg_allow_global:
  "(fst (fg_allow k clock now g) \<and> fst (tb_allow now (fg_global g)) \<and> fg_global (snd (fg_allow k clock now g)) = snd (tb_allow now (fg_global g)))
   \<or> (\<not> fst (fg_allow k clock now g) \<and> fg_global (snd (fg_allow k clock now g)) \<in> {fg_global g, snd (tb_allow now (fg_global g))})"
  by (auto simp: fg_allow_def Let_def split: prod.splits)

lemma fg_allow_dropped: "fg_dropped (snd (fg_allow k clock now g)) = fg_dropped g + (if fst (fg_allow k clock now g) then 0 else 1)"
  by (auto simp: fg_allow_def Let_def split: prod.splits)

lemma fg_run_bound:
  assumes "tb_ok (fg_global g)" "tb_lastTs (fg_global g) \<le> t" "fg_clocked t cs" "\<forall>(k, clock, now)\<in>set cs. now \<le> T" "t \<le> T"
    and "of_nat n + tb_tokens (fg_global g) \<le> b + of_int (tb_lastTs (fg_global g) - start) * of_int (tb_rate (fg_global g)) / 1000"
  shows "of_nat (fst (fg_run cs (n, g))) \<le> b + of_int (T - start) * of_int (tb_rate (fg_global g)) / (1000 :: rat)"
  using assms
proof (induction cs arbitrary: n g t)
  case Nil
  have "(of_int (tb_lastTs (fg_global g) - start) :: rat) * of_int (tb_rate (fg_global g)) \<le> of_int (T - start) * of_int (tb_rate (fg_global g))"
    using Nil.prems by (intro mult_right_mono) (auto simp: tb_ok_def)
  then have "(of_int (tb_lastTs (fg_global g) - start) :: rat) * of_int (tb_rate (fg_global g)) / 1000 \<le> of_int (T - start) * of_int (tb_rate (fg_global g)) / 1000"
    by (rule divide_right_mono) simp
  moreover have "0 \<le> tb_tokens (fg_global g)" using Nil.prems(1) by (simp add: tb_ok_def)
  ultimately have "of_nat n \<le> b + of_int (T - start) * of_int (tb_rate (fg_global g)) / 1000" using Nil.prems(6) by linarith
  then show ?case by simp
next
  case (Cons c cs)
  obtain k clock now where c: "c = (k, clock, now)" by (cases c)
  let ?G = "fg_global g" and ?r = "fg_allow k clock now g" and ?n = "if fst (fg_allow k clock now g) then Suc n else n"
  have le: "tb_lastTs ?G \<le> now" using Cons.prems(2,3) by (simp add: c)
  note tok = tb_allow_tokens [OF Cons.prems(1) le]
  have dist: "(of_int (now - start) :: rat) * of_int (tb_rate ?G) / 1000
      = of_int (tb_lastTs ?G - start) * of_int (tb_rate ?G) / 1000 + of_int (now - tb_lastTs ?G) * of_int (tb_rate ?G) / 1000"
    by (simp add: algebra_simps add_divide_distrib [symmetric] diff_divide_distrib [symmetric])
  have ok: "tb_ok (fg_global (snd ?r))" "tb_lastTs (fg_global (snd ?r)) \<le> now" "tb_rate (fg_global (snd ?r)) = tb_rate ?G"
    using fg_allow_global [of k clock now g] tok(1) Cons.prems(1) le by auto
  have "of_nat ?n + tb_tokens (fg_global (snd ?r)) \<le> b + of_int (tb_lastTs (fg_global (snd ?r)) - start) * of_int (tb_rate (fg_global (snd ?r))) / 1000"
  proof -
    have all: "of_nat n + (tb_tokens (snd (tb_allow now ?G)) + of_bool (fst (tb_allow now ?G))) \<le> b + of_int (now - start) * of_int (tb_rate ?G) / 1000"
      using tok(2) Cons.prems(6) unfolding dist by linarith
    consider "fst ?r" "fst (tb_allow now ?G)" "fg_global (snd ?r) = snd (tb_allow now ?G)"
      | "\<not> fst ?r" "fg_global (snd ?r) = ?G" | "\<not> fst ?r" "fg_global (snd ?r) = snd (tb_allow now ?G)"
      using fg_allow_global [of k clock now g] by blast
    then show ?thesis
    proof cases
      case 1
      then show ?thesis using all by (simp add: add.commute add.left_commute)
    next
      case 2
      then show ?thesis using Cons.prems(6) by simp
    next
      case 3
      have "(0 :: rat) \<le> of_bool (fst (tb_allow now ?G))" by simp
      then have "of_nat n + tb_tokens (snd (tb_allow now ?G)) \<le> b + of_int (now - start) * of_int (tb_rate ?G) / 1000" using all by linarith
      with 3 show ?thesis by simp
    qed
  qed
  from Cons.IH [OF ok(1,2) _ _ _ this] Cons.prems ok(3) show ?case by (simp add: c case_prod_beta)
qed

text \<open>The flood gate enforces its global rate. However the frames are spread over connections, and whatever buckets are created on the
  way, the number admitted up to time \<open>T\<close> of a clock that does not run backwards is at most the burst plus the rate times the elapsed seconds.\<close>

theorem flood_gate_bounded:
  assumes "fg_clocked t0 calls" "\<forall>(k, clock, now)\<in>set calls. now \<le> T" "t0 \<le> T"
  shows "of_nat (fst (fg_run calls (0, newFloodGate pr pb rate burst warn t0)))
     \<le> of_int (max 1 (orDefault burst (max 1 (orDefault rate 1)))) + of_int (T - t0) * of_int (max 1 (orDefault rate 1)) / (1000 :: rat)"
proof -
  let ?g = "newFloodGate pr pb rate burst warn t0"
  have g: "fg_global ?g = newTokenBucket rate burst t0" by (simp add: newFloodGate_def)
  have "of_nat (fst (fg_run calls (0, ?g))) \<le> of_int (tb_burst (fg_global ?g)) + of_int (T - t0) * of_int (tb_rate (fg_global ?g)) / (1000 :: rat)"
    using assms newTokenBucket_ok by (intro fg_run_bound [where t = t0]) (simp_all add: g newTokenBucket_def Let_def)
  then show ?thesis by (simp add: g newTokenBucket_def Let_def)
qed

theorem flood_gate_bounded_witness:
  "of_nat (fst (fg_run [(''a'', 0, 0), (''b'', 0, 500)] (0, newFloodGate 10 10 1 1 1000 0))) \<le> of_int 1 + of_int (500 - 0) * of_int 1 / (1000 :: rat)"
  using flood_gate_bounded [of 0 "[(''a'', 0, 0), (''b'', 0, 500)]" 500 10 10 1 1 1000] by (simp add: orDefault_def)

section \<open>Replay\<close>

definition rc_inv :: "OnionReplayCacheV2 \<Rightarrow> bool" where
  "rc_inv c \<longleftrightarrow> map_wf (rc_map c) \<and> int (length (rc_map c)) \<le> rc_maxEntries c \<and> 0 < rc_maxEntries c"

text \<open>One call seen from outside: a throwing call leaves the cache as it was.\<close>

definition rc_step :: "string \<times> int \<times> string \<Rightarrow> OnionReplayCacheV2 \<Rightarrow> OnionReplayCacheV2" where
  "rc_step p c = (case p of (packetId, hop, keyId) \<Rightarrow> (case checkAndMark packetId hop keyId c of Inr c' \<Rightarrow> c' | Inl e \<Rightarrow> c))"

lemma checkAndMark_Inr:
  "checkAndMark p h k c = Inr c' \<Longrightarrow> p \<noteq> [] \<and> 0 \<le> h \<and> k \<noteq> [] \<and> replayKey p h k \<notin> fst ` set (rc_map c)
     \<and> c' = c\<lparr>rc_map := (let m = rc_map c @ [(replayKey p h k, True)] in if int (length m) > rc_maxEntries c then tl m else m)\<rparr>"
  by (auto simp: checkAndMark_def Let_def map_of_eq_None_iff split: if_splits)

lemma rc_step_inv: "rc_inv c \<Longrightarrow> rc_inv (rc_step x c)"
proof (cases x)
  case (fields p h k)
  assume inv: "rc_inv c"
  show ?thesis
  proof (cases "checkAndMark p h k c")
    case (Inr c')
    note e = checkAndMark_Inr [OF Inr]
    have wf: "map_wf (rc_map c @ [(replayKey p h k, True)])" using inv e by (simp add: rc_inv_def map_wf_def)
    then have "map_wf (tl (rc_map c @ [(replayKey p h k, True)]))" by (simp add: map_wf_def map_tl distinct_tl)
    then show ?thesis using inv e wf Inr by (auto simp: rc_step_def fields rc_inv_def Let_def)
  qed (use inv in \<open>simp add: rc_step_def fields\<close>)
qed

interpretation replay: stepper rc_step rc_inv
  by unfold_locales (rule rc_step_inv)

text \<open>The key at distance at most \<open>n\<close> from the young end.\<close>

definition rc_recent :: "string \<Rightarrow> nat \<Rightarrow> OnionReplayCacheV2 \<Rightarrow> bool" where
  "rc_recent key n c \<longleftrightarrow> (\<exists>pre post. rc_map c = pre @ (key, True) # post \<and> length post \<le> n)"

lemma rc_step_recent:
  assumes "rc_recent key n c" "rc_inv c" "int (Suc n) < rc_maxEntries c"
  shows "rc_recent key (Suc n) (rc_step x c) \<and> rc_maxEntries (rc_step x c) = rc_maxEntries c"
proof -
  obtain pre post where m: "rc_map c = pre @ (key, True) # post" "length post \<le> n" using assms(1) by (auto simp: rc_recent_def)
  obtain p h k where x: "x = (p, h, k)" by (cases x)
  show ?thesis
  proof (cases "checkAndMark p h k c")
    case (Inl e)
    have "rc_recent key (Suc n) c" unfolding rc_recent_def using m by (intro exI [of _ pre] exI [of _ post]) simp
    with Inl show ?thesis by (simp add: rc_step_def x)
  next
    case (Inr c')
    let ?new = "(replayKey p h k, True)"
    note e = checkAndMark_Inr [OF Inr]
    have "rc_map c' = pre @ (key, True) # (post @ [?new]) \<or> rc_map c' = tl pre @ (key, True) # (post @ [?new]) \<and> pre \<noteq> []"
      using e m assms(3) by (cases pre) (auto simp: Let_def)
    then have "rc_recent key (Suc n) c'" unfolding rc_recent_def using m(2) by (elim disjE conjE) (rule exI, rule exI, rule conjI, assumption, simp)+
    then show ?thesis using Inr e by (simp add: rc_step_def x)
  qed
qed

lemma rc_run_recent:
  assumes "rc_recent key n c" "rc_inv c" "int (n + length xs) < rc_maxEntries c"
  shows "rc_recent key (n + length xs) (fold rc_step xs c)"
  using assms
proof (induction xs arbitrary: n c)
  case (Cons x xs)
  have s: "rc_recent key (Suc n) (rc_step x c) \<and> rc_maxEntries (rc_step x c) = rc_maxEntries c"
    using Cons.prems by (intro rc_step_recent) auto
  from Cons.IH [of "Suc n" "rc_step x c"] s rc_step_inv [OF Cons.prems(2)] Cons.prems(3) show ?case by simp
qed simp

text \<open>C16: A replayed onion packet is caught. Once a packet was accepted at a hop under a key, the same packet is refused as a replay through any
  further traffic of fewer calls than the cache holds entries, and the cache never exceeds its bound.\<close>

theorem replay_caught:
  assumes "newOnionReplayCacheV2 maxEntries = Inr c0" "checkAndMark p h k (fold rc_step history c0) = Inr c1" "int (length later) < rc_maxEntries c1"
  shows "checkAndMark p h k (fold rc_step later c1) = Inl ReplayDetectedError \<and> int (length (rc_map (fold rc_step later c1))) \<le> rc_maxEntries (fold rc_step later c1)"
proof -
  have "rc_inv c0" using assms(1) by (auto simp: newOnionReplayCacheV2_def rc_inv_def split: if_splits)
  then have inv: "rc_inv (fold rc_step history c0)" by (rule replay.inv_run)
  have inv1: "rc_inv c1" using rc_step_inv [OF inv, of "(p, h, k)"] assms(2) by (simp add: rc_step_def)
  note e = checkAndMark_Inr [OF assms(2)]
  have "rc_map c1 = rc_map (fold rc_step history c0) @ [(replayKey p h k, True)] \<or> rc_map c1 = tl (rc_map (fold rc_step history c0)) @ [(replayKey p h k, True)]"
    using e inv by (cases "rc_map (fold rc_step history c0)") (auto simp: Let_def rc_inv_def)
  then have "rc_recent (replayKey p h k) 0 c1" by (auto simp: rc_recent_def)
  from rc_run_recent [OF this inv1] assms(3) have "rc_recent (replayKey p h k) (length later) (fold rc_step later c1)" by simp
  then have "replayKey p h k \<in> fst ` set (rc_map (fold rc_step later c1))" by (auto simp: rc_recent_def)
  then show ?thesis using e replay.inv_run [OF inv1, of later] by (auto simp: checkAndMark_def Let_def rc_inv_def map_of_eq_None_iff)
qed

theorem replay_caught_witness:
  "\<exists>c0 c1. newOnionReplayCacheV2 (JInt 2) = Inr c0 \<and> checkAndMark ''ab'' 0 ''k'' (fold rc_step [] c0) = Inr c1
     \<and> checkAndMark ''ab'' 0 ''k'' (fold rc_step [(''cd'', 0, ''k'')] c1) = Inl ReplayDetectedError"
proof -
  let ?c0 = "\<lparr>rc_maxEntries = 2, rc_map = []\<rparr>" and ?c1 = "\<lparr>rc_maxEntries = 2, rc_map = [(replayKey ''ab'' 0 ''k'', True)]\<rparr>"
  have c: "newOnionReplayCacheV2 (JInt 2) = Inr ?c0" "checkAndMark ''ab'' 0 ''k'' (fold rc_step [] ?c0) = Inr ?c1"
    by (simp_all add: newOnionReplayCacheV2_def checkAndMark_def Let_def)
  have "checkAndMark ''ab'' 0 ''k'' (fold rc_step [(''cd'', 0, ''k'')] ?c1) = Inl ReplayDetectedError" using replay_caught [OF c, of "[(''cd'', 0, ''k'')]"] by simp
  with c show ?thesis by blast
qed

end
