(* ===== verification/Mailbox.thy ===== *)
theory Mailbox
  imports Hashing
begin

text \<open>
  The in-memory data store (\<^verbatim>\<open>src/storage/memory/MemoryDataStore.js\<close>) and the mailbox over it
  (\<^verbatim>\<open>src/mailbox/RMailbox.js\<close>): deposits with item and byte quotas, listing with a cursor, acknowledgement and the
  lazily seeded counters. A store is its insertion-ordered map; values are cloned on the way in and out, so they are
  plain values here. The times that \<^verbatim>\<open>Date.now()\<close> returns are arguments. The deferred \<^verbatim>\<open>onDeposit\<close> callback and the timers
  of \<^verbatim>\<open>waitForDeposit\<close> belong to the host and are left out.
\<close>

section \<open>MemoryDataStore\<close>

type_synonym 'v dataStore = "(string \<times> 'v) list"

definition ds_put :: "string \<Rightarrow> 'v \<Rightarrow> 'v dataStore \<Rightarrow> 'v dataStore result" where
  "ds_put key value d =
     (if key = [] then Inl (RezInvariantError ''put() requires non-empty string key'') else Inr (AList.update key value d))"

definition ds_get :: "string \<Rightarrow> 'v dataStore \<Rightarrow> 'v option" where
  "ds_get key d = map_of d key"

definition ds_remove :: "string \<Rightarrow> 'v dataStore \<Rightarrow> bool \<times> 'v dataStore" where
  "ds_remove key d = (map_of d key \<noteq> None, AList.delete key d)"

definition ds_has :: "string \<Rightarrow> 'v dataStore \<Rightarrow> bool" where
  "ds_has key d = (map_of d key \<noteq> None)"

text \<open>The keys after the cursor; a cursor that is not among them is ignored.\<close>

definition afterCursor :: "string option \<Rightarrow> string list \<Rightarrow> string list" where
  "afterCursor cursor keys =
     (case cursor of
        None \<Rightarrow> keys
      | Some c \<Rightarrow> if c = [] then keys else if c \<in> set keys then tl (dropWhile (\<lambda>k. k \<noteq> c) keys) else keys)"

definition ds_list :: "string \<Rightarrow> string option \<Rightarrow> int option \<Rightarrow> bool \<Rightarrow> 'v dataStore \<Rightarrow> (string \<times> 'v) list \<times> string option" where
  "ds_list pre cursor limit rev_order d =
     (let ordered = sort (filter (\<lambda>k. startsWith k pre) (map fst d));
          keys = afterCursor cursor (if rev_order then rev ordered else ordered);
          page = (case limit of
                    Some n \<Rightarrow> if n > 0 \<and> int (length keys) > n then (take (nat n) keys, Some (keys ! (nat n - 1))) else (keys, None)
                  | None \<Rightarrow> (keys, None))
      in (map (\<lambda>k. (k, the (map_of d k))) (fst page), snd page))"

section \<open>MailboxRecordRegistry\<close>

text \<open>What a caller hands to \<^verbatim>\<open>deposit\<close>.\<close>

record DepositRecord =
  rec_contentType :: string
  rec_bytes :: bytes
  rec_objectId :: "string option"
  rec_metadata :: "(string \<times> jsval) list"

text \<open>A registered wire class: its content type and its static \<^verbatim>\<open>probe\<close> and \<^verbatim>\<open>fromBytes\<close>. The registry keeps the probe order and the set of all
  content types in the order of registration.\<close>

record wire_class =
  wc_contentType :: string
  wc_probe :: "bytes \<Rightarrow> bool"
  wc_fromBytes :: "bytes \<Rightarrow> DepositRecord result"

record MailboxRecordRegistry =
  reg_probeOrder :: "wire_class list"
  reg_allContentTypes :: "string list"

definition newRegistry :: MailboxRecordRegistry where
  "newRegistry = \<lparr>reg_probeOrder = [], reg_allContentTypes = []\<rparr>"

definition register :: "wire_class \<Rightarrow> MailboxRecordRegistry \<Rightarrow> MailboxRecordRegistry result" where
  "register cls g =
     (let ct = wc_contentType cls
      in if ct = [] then Inl (Error ''MailboxRecordRegistry.register: class must have static CONTENT_TYPE string'')
         else if ct \<in> set (reg_allContentTypes g) then Inl (Error (''MailboxRecordRegistry: content type already registered: '' @ ct))
         else Inr \<lparr>reg_probeOrder = reg_probeOrder g @ [cls], reg_allContentTypes = reg_allContentTypes g @ [ct]\<rparr>)"

definition registerAppType :: "string \<Rightarrow> MailboxRecordRegistry \<Rightarrow> MailboxRecordRegistry result" where
  "registerAppType ct g =
     (if ct = [] then Inl (Error ''MailboxRecordRegistry.registerAppType: class must have static CONTENT_TYPE string'')
      else if ct \<in> set (reg_allContentTypes g) then Inl (Error (''MailboxRecordRegistry: content type already registered: '' @ ct))
      else Inr (g\<lparr>reg_allContentTypes := reg_allContentTypes g @ [ct]\<rparr>))"

definition hydrateFromWire :: "MailboxRecordRegistry \<Rightarrow> bytes \<Rightarrow> DepositRecord result" where
  "hydrateFromWire g wireBytes =
     (if wireBytes = [] then Inl (Error ''MailboxRecordRegistry.hydrateFromWire requires non-empty Uint8Array'')
      else case find (\<lambda>cls. wc_probe cls wireBytes) (reg_probeOrder g) of
             Some cls \<Rightarrow> wc_fromBytes cls wireBytes
           | None \<Rightarrow> Inl (Error (''MailboxRecordRegistry.hydrateFromWire: no registered record type matched the wire bytes (registered wire types: ''
                 @ join '', '' (map wc_contentType (reg_probeOrder g)) @ '')'')))"

definition isAllowedContentType :: "MailboxRecordRegistry \<Rightarrow> string \<Rightarrow> bool" where
  "isAllowedContentType g contentType = (contentType \<in> set (reg_allContentTypes g))"

definition listContentTypes :: "MailboxRecordRegistry \<Rightarrow> string list" where
  "listContentTypes g = reg_allContentTypes g"

section \<open>RMailbox\<close>

datatype mailbox_value =
    MetaValue string "string option" int
  | EventValue string bytes "(string \<times> jsval) list" int
  | BytesTotal int

record Waiter =
  waiter_id :: nat
  waiter_cursor :: "string option"
  waiter_sinceMs :: "int option"

record RMailbox =
  mb_store :: "mailbox_value dataStore"
  mb_registry :: MailboxRecordRegistry
  mb_maxItems :: "int option"
  mb_maxBytes :: "int option"
  mb_countByMailbox :: "(string \<times> int) list"
  mb_bytesByMailbox :: "(string \<times> int) list"
  mb_counter :: nat
  mb_waiters :: "(string \<times> Waiter list) list"

definition capOf :: "int option \<Rightarrow> int option" where
  "capOf v = (case v of Some n \<Rightarrow> if n > 0 then Some n else None | None \<Rightarrow> None)"

definition newRMailbox :: "mailbox_value dataStore \<Rightarrow> MailboxRecordRegistry \<Rightarrow> int option \<Rightarrow> int option \<Rightarrow> RMailbox" where
  "newRMailbox store registry maxItems maxBytes =
     \<lparr>mb_store = store, mb_registry = registry, mb_maxItems = capOf maxItems, mb_maxBytes = capOf maxBytes,
      mb_countByMailbox = [], mb_bytesByMailbox = [], mb_counter = 0, mb_waiters = []\<rparr>"

definition assertNonEmpty :: "string \<Rightarrow> string \<Rightarrow> unit result" where
  "assertNonEmpty value name = (if value = [] then Inl (Error (''RMailbox requires non-empty string '' @ name)) else Inr ())"

definition evtPrefix :: "string \<Rightarrow> string" where
  "evtPrefix mailboxId = ''mbox/'' @ mailboxId @ ''/evt/''"

definition evtKey :: "string \<Rightarrow> string \<Rightarrow> string" where
  "evtKey mailboxId eventId = evtPrefix mailboxId @ eventId"

definition metaKey :: "string \<Rightarrow> string" where
  "metaKey mailboxId = ''mbox/'' @ mailboxId @ ''/meta''"

definition byteszKey :: "string \<Rightarrow> string" where
  "byteszKey mailboxId = ''mbox/'' @ mailboxId @ ''/bytesz''"

definition putValue :: "string \<Rightarrow> mailbox_value \<Rightarrow> RMailbox \<Rightarrow> RMailbox" where
  "putValue key v m = m\<lparr>mb_store := AList.update key v (mb_store m)\<rparr>"

definition createMailbox :: "string \<Rightarrow> string \<Rightarrow> string option \<Rightarrow> int \<Rightarrow> RMailbox \<Rightarrow> RMailbox result" where
  "createMailbox mailboxId visibility owner now m =
     bindR (assertNonEmpty mailboxId ''mailboxId'') (\<lambda>_. Inr (putValue (metaKey mailboxId) (MetaValue visibility owner now) m))"

definition getMailboxMeta :: "string \<Rightarrow> RMailbox \<Rightarrow> mailbox_value option result" where
  "getMailboxMeta mailboxId m = bindR (assertNonEmpty mailboxId ''mailboxId'') (\<lambda>_. Inr (ds_get (metaKey mailboxId) (mb_store m)))"

text \<open>The two fields a listing shows; a stored value that is no event has neither, and an undefined time fails every comparison.\<close>

definition valueObjectId :: "mailbox_value \<Rightarrow> string option" where
  "valueObjectId v = (case v of EventValue i _ _ _ \<Rightarrow> Some i | _ \<Rightarrow> None)"

definition valueCreatedAt :: "mailbox_value \<Rightarrow> int option" where
  "valueCreatedAt v = (case v of EventValue _ _ _ t \<Rightarrow> Some t | _ \<Rightarrow> None)"

type_synonym listed_item = "string \<times> string option \<times> int option"

definition mailbox_list :: "string \<Rightarrow> string option \<Rightarrow> int option \<Rightarrow> int option \<Rightarrow> RMailbox \<Rightarrow> (listed_item list \<times> string option) result" where
  "mailbox_list mailboxId cursor limit sinceMs m =
     bindR (assertNonEmpty mailboxId ''mailboxId'') (\<lambda>_.
       let pre = evtPrefix mailboxId;
           page = ds_list pre (case cursor of Some c \<Rightarrow> if c = [] then None else Some (pre @ c) | None \<Rightarrow> None) limit False (mb_store m);
           items = map (\<lambda>(k, v). (drop (length pre) k, valueObjectId v, valueCreatedAt v)) (fst page);
           items = (case sinceMs of None \<Rightarrow> items | Some s \<Rightarrow> filter (\<lambda>(_, _, createdAt). case createdAt of Some t \<Rightarrow> t \<ge> s | None \<Rightarrow> False) items)
       in Inr (items, map_option (drop (length pre)) (snd page)))"

text \<open>The seeding loop over the pages. It ends because every page after the first starts behind the previous cursor; the fuel is the number of
  stored keys, which bounds the number of pages.\<close>

fun countPages :: "nat \<Rightarrow> string \<Rightarrow> string option \<Rightarrow> int \<Rightarrow> RMailbox \<Rightarrow> int option" where
  "countPages 0 mailboxId cursor n m = None"
| "countPages (Suc fuel) mailboxId cursor n m =
     (case mailbox_list mailboxId cursor (Some 200) None m of
        Inl e \<Rightarrow> None
      | Inr (items, next) \<Rightarrow>
          (case next of
             None \<Rightarrow> Some (n + int (length items))
           | Some c \<Rightarrow> if c = [] then Some (n + int (length items))
                       else countPages fuel mailboxId (Some c) (n + int (length items)) m))"

definition ensureCount :: "string \<Rightarrow> RMailbox \<Rightarrow> (int \<times> RMailbox) option" where
  "ensureCount mailboxId m =
     (case map_of (mb_countByMailbox m) mailboxId of
        Some n \<Rightarrow> Some (n, m)
      | None \<Rightarrow> map_option (\<lambda>n. (n, m\<lparr>mb_countByMailbox := AList.update mailboxId n (mb_countByMailbox m)\<rparr>))
          (countPages (Suc (length (mb_store m))) mailboxId None 0 m))"

definition ensureBytes :: "string \<Rightarrow> RMailbox \<Rightarrow> int \<times> RMailbox" where
  "ensureBytes mailboxId m =
     (case map_of (mb_bytesByMailbox m) mailboxId of
        Some n \<Rightarrow> (n, m)
      | None \<Rightarrow>
          (let seeded = (case ds_get (byteszKey mailboxId) (mb_store m) of Some (BytesTotal t) \<Rightarrow> if t > 0 then t else 0 | _ \<Rightarrow> 0)
           in (seeded, m\<lparr>mb_bytesByMailbox := AList.update mailboxId seeded (mb_bytesByMailbox m)\<rparr>)))"

definition persistBytes :: "string \<Rightarrow> int \<Rightarrow> RMailbox \<Rightarrow> RMailbox" where
  "persistBytes mailboxId tot m = putValue (byteszKey mailboxId) (BytesTotal tot) m"

definition nextEventId :: "int \<Rightarrow> RMailbox \<Rightarrow> string \<times> RMailbox" where
  "nextEventId now m = (let n = Suc (mb_counter m) in (int_str now @ ''_'' @ padStart 6 CHR ''0'' (nat_str n), m\<lparr>mb_counter := n\<rparr>))"

definition nextObjectId :: "int \<Rightarrow> RMailbox \<Rightarrow> string \<times> RMailbox" where
  "nextObjectId now m = (let (i, m') = nextEventId now m in (''obj_'' @ i, m'))"

definition itemMatchesWaiter :: "string \<Rightarrow> int \<Rightarrow> Waiter \<Rightarrow> bool" where
  "itemMatchesWaiter eventId createdAt w =
     (\<not> (case waiter_sinceMs w of Some s \<Rightarrow> createdAt < s | None \<Rightarrow> False)
      \<and> \<not> (case waiter_cursor w of Some c \<Rightarrow> eventId \<le> c | None \<Rightarrow> False))"

definition notifyWaiters :: "string \<Rightarrow> string \<Rightarrow> int \<Rightarrow> RMailbox \<Rightarrow> nat list \<times> RMailbox" where
  "notifyWaiters mailboxId eventId createdAt m =
     (case map_of (mb_waiters m) mailboxId of
        None \<Rightarrow> ([], m)
      | Some q \<Rightarrow>
          if q = [] then ([], m)
          else (let remaining = filter (\<lambda>w. \<not> itemMatchesWaiter eventId createdAt w) q
                in (map waiter_id (filter (itemMatchesWaiter eventId createdAt) q),
                    m\<lparr>mb_waiters := (if remaining \<noteq> [] then AList.update mailboxId remaining (mb_waiters m) else AList.delete mailboxId (mb_waiters m))\<rparr>)))"

text \<open>
  A deposit runs in two atomic parts. The first checks the record and the quotas, names the event and calls the store's \<^verbatim>\<open>put\<close>; the second runs
  when that call has been awaited and updates the counters. Between them other deposits may run.
\<close>

definition depositChecks :: "string \<Rightarrow> DepositRecord \<Rightarrow> RMailbox \<Rightarrow> unit result" where
  "depositChecks mailboxId r m =
     bindR (assertNonEmpty mailboxId ''mailboxId'') (\<lambda>_.
       if rec_contentType r = [] \<or> \<not> isAllowedContentType (mb_registry m) (rec_contentType r)
       then Inl (Error (''RMailbox.deposit requires record.contentType to be one of: '' @ join '', '' (listContentTypes (mb_registry m))
              @ (if rec_contentType r \<noteq> [] then '' (got: '' @ rec_contentType r @ '')'' else '' (none on record)'')))
       else Inr ())"

definition quotaItems :: "string \<Rightarrow> RMailbox \<Rightarrow> RMailbox \<times> unit result" where
  "quotaItems mailboxId m =
     (case mb_maxItems m of
        None \<Rightarrow> (m, Inr ())
      | Some cap \<Rightarrow>
          (case ensureCount mailboxId m of
             None \<Rightarrow> (m, Inl (Error ''unreachable''))
           | Some (n, m') \<Rightarrow> (m', if n \<ge> cap then Inl (MailboxQuotaExceededError mailboxId cap ''items'') else Inr ())))"

definition quotaBytes :: "string \<Rightarrow> int \<Rightarrow> RMailbox \<Rightarrow> RMailbox \<times> unit result" where
  "quotaBytes mailboxId byteLen m =
     (case mb_maxBytes m of
        None \<Rightarrow> (m, Inr ())
      | Some cap \<Rightarrow> (let (used, m') = ensureBytes mailboxId m
                     in (m', if used + byteLen > cap then Inl (MailboxQuotaExceededError mailboxId cap ''bytes'') else Inr ())))"

definition depositAdmit :: "int \<Rightarrow> int \<Rightarrow> string \<Rightarrow> DepositRecord \<Rightarrow> RMailbox \<Rightarrow> RMailbox \<times> string result" where
  "depositAdmit now createdAt mailboxId r m =
     (case depositChecks mailboxId r m of
        Inl e \<Rightarrow> (m, Inl e)
      | Inr _ \<Rightarrow>
          (let (objectId, m1) = (case rec_objectId r of Some i \<Rightarrow> if i \<noteq> [] then (i, m) else nextObjectId now m | None \<Rightarrow> nextObjectId now m);
               meta = filter (\<lambda>(k, v). k \<noteq> ''contentType'') (rec_metadata r) @ [(''contentType'', JStr (rec_contentType r))];
               (m2, q1) = quotaItems mailboxId m1
           in case q1 of
                Inl e \<Rightarrow> (m2, Inl e)
              | Inr _ \<Rightarrow>
                  (let (m3, q2) = quotaBytes mailboxId (int (length (rec_bytes r))) m2
                   in case q2 of
                        Inl e \<Rightarrow> (m3, Inl e)
                      | Inr _ \<Rightarrow>
                          (let (eventId, m4) = nextEventId now m3
                           in (putValue (evtKey mailboxId eventId) (EventValue objectId (rec_bytes r) meta createdAt) m4, Inr eventId)))))"

definition cached :: "(string \<times> int) list \<Rightarrow> string \<Rightarrow> int" where
  "cached t mailboxId = (case map_of t mailboxId of Some n \<Rightarrow> n | None \<Rightarrow> 0)"

definition depositCommit :: "string \<Rightarrow> int \<Rightarrow> string \<Rightarrow> int \<Rightarrow> RMailbox \<Rightarrow> nat list \<times> RMailbox" where
  "depositCommit mailboxId byteLen eventId createdAt m =
     (let m1 = (if mb_maxItems m \<noteq> None
                then m\<lparr>mb_countByMailbox := AList.update mailboxId (cached (mb_countByMailbox m) mailboxId + 1) (mb_countByMailbox m)\<rparr> else m);
          next = cached (mb_bytesByMailbox m1) mailboxId + byteLen;
          m2 = (if mb_maxBytes m1 \<noteq> None
                then persistBytes mailboxId next (m1\<lparr>mb_bytesByMailbox := AList.update mailboxId next (mb_bytesByMailbox m1)\<rparr>) else m1)
      in notifyWaiters mailboxId eventId createdAt m2)"

definition deposit :: "int \<Rightarrow> int \<Rightarrow> string \<Rightarrow> DepositRecord \<Rightarrow> RMailbox \<Rightarrow> RMailbox \<times> string result" where
  "deposit now createdAt mailboxId r m =
     (case depositAdmit now createdAt mailboxId r m of
        (m', Inl e) \<Rightarrow> (m', Inl e)
      | (m', Inr eventId) \<Rightarrow> (snd (depositCommit mailboxId (int (length (rec_bytes r))) eventId createdAt m'), Inr eventId))"

definition depositFromWire :: "int \<Rightarrow> int \<Rightarrow> string \<Rightarrow> bytes \<Rightarrow> RMailbox \<Rightarrow> RMailbox \<times> string result" where
  "depositFromWire now createdAt mailboxId wireBytes m =
     (case bindR (assertNonEmpty mailboxId ''mailboxId'') (\<lambda>_. hydrateFromWire (mb_registry m) wireBytes) of
        Inl e \<Rightarrow> (m, Inl e)
      | Inr r \<Rightarrow> deposit now createdAt mailboxId r m)"

definition mailbox_fetch :: "string \<Rightarrow> string \<Rightarrow> RMailbox \<Rightarrow> mailbox_value option result" where
  "mailbox_fetch mailboxId eventId m =
     bindR (assertNonEmpty mailboxId ''mailboxId'') (\<lambda>_. bindR (assertNonEmpty eventId ''eventId'') (\<lambda>_.
       Inr (ds_get (evtKey mailboxId eventId) (mb_store m))))"

definition clampedSub :: "int \<Rightarrow> int \<Rightarrow> int" where
  "clampedSub a b = (if a - b > 0 then a - b else 0)"

definition ack :: "string \<Rightarrow> string \<Rightarrow> RMailbox \<Rightarrow> RMailbox \<times> bool result" where
  "ack mailboxId eventId m =
     (case bindR (assertNonEmpty mailboxId ''mailboxId'') (\<lambda>_. assertNonEmpty eventId ''eventId'') of
        Inl e \<Rightarrow> (m, Inl e)
      | Inr _ \<Rightarrow>
          (let key = evtKey mailboxId eventId;
               ackedBytes = (if mb_maxBytes m = None then 0
                             else case ds_get key (mb_store m) of Some (EventValue _ bs _ _) \<Rightarrow> int (length bs) | _ \<Rightarrow> 0);
               (removed, store) = ds_remove key (mb_store m);
               m1 = m\<lparr>mb_store := store\<rparr>;
               m2 = (if removed \<and> mb_maxItems m1 \<noteq> None \<and> map_of (mb_countByMailbox m1) mailboxId \<noteq> None
                     then m1\<lparr>mb_countByMailbox := AList.update mailboxId (clampedSub (cached (mb_countByMailbox m1) mailboxId) 1) (mb_countByMailbox m1)\<rparr>
                     else m1);
               m3 = (if removed \<and> mb_maxBytes m2 \<noteq> None
                     then (let (used, m') = ensureBytes mailboxId m2; clamped = clampedSub used ackedBytes
                           in persistBytes mailboxId clamped (m'\<lparr>mb_bytesByMailbox := AList.update mailboxId clamped (mb_bytesByMailbox m')\<rparr>))
                     else m2)
           in (m3, Inr removed)))"

definition waitForDeposit :: "nat \<Rightarrow> string \<Rightarrow> string option \<Rightarrow> int option \<Rightarrow> RMailbox \<Rightarrow> RMailbox result" where
  "waitForDeposit wid mailboxId cursor sinceMs m =
     bindR (assertNonEmpty mailboxId ''mailboxId'') (\<lambda>_.
       Inr (m\<lparr>mb_waiters := AList.update mailboxId
         ((case map_of (mb_waiters m) mailboxId of Some q \<Rightarrow> q | None \<Rightarrow> []) @ [\<lparr>waiter_id = wid, waiter_cursor = cursor, waiter_sinceMs = sinceMs\<rparr>]) (mb_waiters m)\<rparr>))"

definition removeWaiter :: "string \<Rightarrow> nat \<Rightarrow> RMailbox \<Rightarrow> RMailbox" where
  "removeWaiter mailboxId wid m =
     (case map_of (mb_waiters m) mailboxId of
        None \<Rightarrow> m
      | Some q \<Rightarrow> (let next = filter (\<lambda>w. waiter_id w \<noteq> wid) q
                   in m\<lparr>mb_waiters := (if next \<noteq> [] then AList.update mailboxId next (mb_waiters m) else AList.delete mailboxId (mb_waiters m))\<rparr>))"

section \<open>Keys\<close>

definition noSlash :: "string \<Rightarrow> bool" where
  "noSlash s \<longleftrightarrow> CHR ''/'' \<notin> set s"

definition eventIdOf :: "int \<Rightarrow> nat \<Rightarrow> string" where
  "eventIdOf t c = int_str t @ ''_'' @ padStart 6 CHR ''0'' (nat_str c)"

lemma until_char: "c \<notin> set a \<Longrightarrow> c \<notin> set b \<Longrightarrow> a @ c # r = b @ c # s \<longleftrightarrow> a = b \<and> r = s"
proof
  assume n: "c \<notin> set a" "c \<notin> set b" and eq: "a @ c # r = b @ c # s"
  have "takeWhile (\<lambda>x. x \<noteq> c) (a @ c # r) = a" "takeWhile (\<lambda>x. x \<noteq> c) (b @ c # s) = b"
    using n by (auto simp: takeWhile_append2 takeWhile_tail)
  with eq show "a = b \<and> r = s" by auto
qed simp

lemma evtKey_eq: "noSlash a \<Longrightarrow> noSlash b \<Longrightarrow> evtKey a d = evtKey b e \<longleftrightarrow> a = b \<and> d = e"
  using until_char [of "CHR ''/''" a b "''evt/'' @ d" "''evt/'' @ e"] by (simp add: evtKey_def evtPrefix_def noSlash_def)

lemma evtKey_prefix: "noSlash a \<Longrightarrow> noSlash b \<Longrightarrow> startsWith (evtKey a d) (evtPrefix b) \<longleftrightarrow> a = b"
  by (auto simp: startsWith_iff evtKey_eq [unfolded evtKey_def] evtKey_def)

lemma meta_not_event: "noSlash a \<Longrightarrow> noSlash b \<Longrightarrow> \<not> startsWith (metaKey a) (evtPrefix b)"
  and bytesz_not_event: "noSlash a \<Longrightarrow> noSlash b \<Longrightarrow> \<not> startsWith (byteszKey a) (evtPrefix b)"
proof -
  have "''mbox/'' @ a @ ''/'' @ w \<noteq> evtPrefix b @ r" if "noSlash a" "noSlash b" "\<And>r. w \<noteq> ''evt/'' @ r" for w r
    using that until_char [of "CHR ''/''" a b w "''evt/'' @ r"] by (auto simp: evtPrefix_def noSlash_def)
  then show "noSlash a \<Longrightarrow> noSlash b \<Longrightarrow> \<not> startsWith (metaKey a) (evtPrefix b)" "noSlash a \<Longrightarrow> noSlash b \<Longrightarrow> \<not> startsWith (byteszKey a) (evtPrefix b)"
    by (force simp: startsWith_iff metaKey_def byteszKey_def)+
qed

lemma digitsVal_pad: "digitsVal (padStart n CHR ''0'' s) = digitsVal s"
proof -
  have "foldl (\<lambda>acc c. 10 * acc + (of_char c - 48)) (0 :: nat) (replicate k CHR ''0'') = 0" for k by (induction k) simp_all
  then show ?thesis by (simp add: digitsVal_def padStart_def)
qed

lemma eventIdOf_inj: "eventIdOf t c = eventIdOf t' c' \<Longrightarrow> c = c'"
proof -
  assume eq: "eventIdOf t c = eventIdOf t' c'"
  have "CHR ''_'' \<notin> set (int_str i)" for i by (auto simp: isDigit_def dest!: int_str_chars)
  then have "padStart 6 CHR ''0'' (nat_str c) = padStart 6 CHR ''0'' (nat_str c')"
    using eq until_char [of "CHR ''_''" "int_str t" "int_str t'"] by (simp add: eventIdOf_def)
  then show ?thesis by (metis digitsVal_pad digitsVal_nat_str)
qed

section \<open>Seeding the item counter\<close>

definition eventKeys :: "string \<Rightarrow> RMailbox \<Rightarrow> string list" where
  "eventKeys mailboxId m = filter (\<lambda>k. startsWith k (evtPrefix mailboxId)) (map fst (mb_store m))"

lemma dropWhile_until: "c \<notin> set a \<Longrightarrow> dropWhile (\<lambda>x. x \<noteq> c) (a @ c # r) = c # r"
  by (induction a) auto

lemma afterCursor_nth: "distinct ks \<Longrightarrow> j < length ks \<Longrightarrow> ks ! j \<noteq> [] \<Longrightarrow> afterCursor (Some (ks ! j)) ks = drop (Suc j) ks"
proof -
  assume a: "distinct ks" "j < length ks" "ks ! j \<noteq> []"
  have ks: "ks = take j ks @ ks ! j # drop (Suc j) ks" using a(2) by (rule id_take_nth_drop)
  have "distinct (take j ks @ ks ! j # drop (Suc j) ks)" using a(1) ks by simp
  then have "ks ! j \<notin> set (take j ks)" by auto
  then have "dropWhile (\<lambda>k. k \<noteq> ks ! j) (take j ks @ ks ! j # drop (Suc j) ks) = ks ! j # drop (Suc j) ks"
    by (rule dropWhile_until)
  then show ?thesis using a by (simp add: afterCursor_def ks [symmetric])
qed

lemma le_append: "(xs :: string) \<le> xs @ ys"
  by (induction xs) simp_all

lemma page_cursor_nonempty:
  assumes "distinct ks" "\<forall>k\<in>set ks. startsWith k p" "sorted ks" "0 < j" "j < length ks"
  shows "drop (length p) (ks ! j) \<noteq> []"
proof
  assume "drop (length p) (ks ! j) = []"
  moreover have "0 < length ks" using assms(5) by linarith
  then have "startsWith (ks ! j) p" "startsWith (ks ! 0) p" using assms(2,5) by (metis nth_mem)+
  ultimately have p: "ks ! j = p" and "p \<le> ks ! 0" using le_append by (auto simp: startsWith_iff)
  then have "ks ! j \<le> ks ! 0" by simp
  moreover have "ks ! 0 \<le> ks ! j" using assms(3,5) by (simp add: sorted_iff_nth_mono)
  ultimately show False using assms(1,4,5) nth_eq_iff_index_eq by fastforce
qed

definition cursorAt :: "string \<Rightarrow> string list \<Rightarrow> nat \<Rightarrow> string option" where
  "cursorAt p ks j = (if j = 0 then None else Some (drop (length p) (ks ! (j - 1))))"

lemma startsWith_drop: "startsWith k p \<Longrightarrow> p @ drop (length p) k = k"
  by (auto simp: startsWith_iff)

definition seedOf :: "string \<Rightarrow> RMailbox \<Rightarrow> string list \<Rightarrow> bool" where
  "seedOf mailboxId m ks \<longleftrightarrow> mailboxId \<noteq> [] \<and> distinct (map fst (mb_store m)) \<and> ks = sort (eventKeys mailboxId m)"

lemma seedOf_props:
  assumes "seedOf mailboxId m ks"
  shows "distinct ks" "sorted ks" "\<forall>k\<in>set ks. startsWith k (evtPrefix mailboxId)" "length ks = length (eventKeys mailboxId m)"
  using assms by (auto simp: eventKeys_def seedOf_def)

lemma seed_cursor_nonempty: "seedOf mailboxId m ks \<Longrightarrow> 0 < j \<Longrightarrow> j < length ks \<Longrightarrow> drop (length (evtPrefix mailboxId)) (ks ! j) \<noteq> []"
  by (rule page_cursor_nonempty [OF seedOf_props(1,3,2)])

lemma cursor_resumes:
  assumes s: "seedOf mailboxId m ks" and "j = 0 \<or> 1 < j" "j \<le> length ks"
  shows "afterCursor (case cursorAt (evtPrefix mailboxId) ks j of Some c \<Rightarrow> if c = [] then None else Some (evtPrefix mailboxId @ c) | None \<Rightarrow> None) ks
    = drop j ks"
proof (cases "j = 0")
  case False
  then have j: "0 < j - 1" "j - 1 < length ks" "Suc (j - 1) = j" using assms by auto
  let ?k = "ks ! (j - 1)"
  have k: "evtPrefix mailboxId @ drop (length (evtPrefix mailboxId)) ?k = ?k" using j seedOf_props(3) [OF s] by (simp add: startsWith_drop)
  moreover have ne: "drop (length (evtPrefix mailboxId)) ?k \<noteq> []" using seed_cursor_nonempty [OF s] j by blast
  moreover have "?k \<noteq> []" using ne by auto
  then have "afterCursor (Some ?k) ks = drop j ks" using afterCursor_nth [OF seedOf_props(1) [OF s] j(2)] j(3) by simp
  ultimately show ?thesis using False by (simp add: cursorAt_def del: drop_eq_Nil)
qed (simp add: cursorAt_def afterCursor_def)

lemma page_at:
  assumes s: "seedOf mailboxId m ks" and "j = 0 \<or> 1 < j" "j \<le> length ks"
  shows "\<exists>items. mailbox_list mailboxId (cursorAt (evtPrefix mailboxId) ks j) (Some 200) None m
      = Inr (items, if 200 < length ks - j then cursorAt (evtPrefix mailboxId) ks (j + 200) else None)
    \<and> length items = min 200 (length ks - j)"
proof -
  have "sort (filter (\<lambda>k. startsWith k (evtPrefix mailboxId)) (map fst (mb_store m))) = ks" "mailboxId \<noteq> []"
    using s by (simp_all add: eventKeys_def seedOf_def)
  moreover note cursor_resumes [OF assms]
  moreover have "drop j ks ! 199 = ks ! (j + 199)" if "200 < length ks - j" using assms(3) by simp
  ultimately show ?thesis using assms(3)
    by (auto simp: mailbox_list_def ds_list_def assertNonEmpty_def bindR_def cursorAt_def Let_def add.commute)
qed

lemma countPages_run:
  "seedOf mailboxId m ks \<Longrightarrow> length ks - j < fuel \<Longrightarrow> j = 0 \<or> 1 < j \<Longrightarrow> j \<le> length ks
   \<Longrightarrow> countPages fuel mailboxId (cursorAt (evtPrefix mailboxId) ks j) n m = Some (n + int (length ks - j))"
proof (induction fuel arbitrary: j n)
  case (Suc fuel)
  from page_at [OF Suc.prems(1,3,4)] obtain items where
    page: "mailbox_list mailboxId (cursorAt (evtPrefix mailboxId) ks j) (Some 200) None m
      = Inr (items, if 200 < length ks - j then cursorAt (evtPrefix mailboxId) ks (j + 200) else None)"
    and len: "length items = min 200 (length ks - j)" by blast
  show ?case
  proof (cases "200 < length ks - j")
    case True
    then have "drop (length (evtPrefix mailboxId)) (ks ! (j + 199)) \<noteq> []" using seed_cursor_nonempty [OF Suc.prems(1)] by simp
    then obtain c where c: "cursorAt (evtPrefix mailboxId) ks (j + 200) = Some c" "c \<noteq> []" by (simp add: cursorAt_def add.commute)
    have "countPages fuel mailboxId (cursorAt (evtPrefix mailboxId) ks (j + 200)) (n + 200) m = Some (n + 200 + int (length ks - (j + 200)))"
      using Suc.prems True by (intro Suc.IH) auto
    then show ?thesis using page len True c by simp
  qed (use page len in simp)
qed simp

lemma ensureCount_value:
  assumes "mailboxId \<noteq> []" "distinct (map fst (mb_store m))" "map_of (mb_countByMailbox m) mailboxId = None"
  shows "ensureCount mailboxId m
    = Some (int (length (eventKeys mailboxId m)),
            m\<lparr>mb_countByMailbox := AList.update mailboxId (int (length (eventKeys mailboxId m))) (mb_countByMailbox m)\<rparr>)"
proof -
  let ?ks = "sort (eventKeys mailboxId m)"
  have s: "seedOf mailboxId m ?ks" using assms by (simp add: seedOf_def)
  have "length ?ks \<le> length (mb_store m)" by (simp add: eventKeys_def)
  then have "countPages (Suc (length (mb_store m))) mailboxId None 0 m = Some (int (length (eventKeys mailboxId m)))"
    using countPages_run [OF s, of 0 "Suc (length (mb_store m))" 0] by (simp add: cursorAt_def)
  then show ?thesis using assms(3) by (simp add: ensureCount_def)
qed

section \<open>The item quota\<close>

text \<open>
  The invariant of a mailbox server over slash-free mailbox ids: the store has one entry per key, the events in it were named with a past
  counter value, and a cached counter is the number of stored events of its mailbox, which the cap bounds.
\<close>

inductive nameable :: "nat \<Rightarrow> string \<Rightarrow> bool" for top :: nat where
  meta: "noSlash mb \<Longrightarrow> nameable top (metaKey mb)"
| bytesz: "noSlash mb \<Longrightarrow> nameable top (byteszKey mb)"
| event: "noSlash mb \<Longrightarrow> 0 < c \<Longrightarrow> c \<le> top \<Longrightarrow> nameable top (evtKey mb (eventIdOf t c))"

lemma nameable_mono: "nameable a k \<Longrightarrow> a \<le> b \<Longrightarrow> nameable b k"
  by (induction rule: nameable.induct) (auto intro: nameable.intros le_trans)

definition mailbox_inv :: "RMailbox \<Rightarrow> bool" where
  "mailbox_inv m \<longleftrightarrow>
     distinct (map fst (mb_store m)) \<and> (\<forall>k\<in>set (map fst (mb_store m)). nameable (mb_counter m) k)
     \<and> (\<forall>mb n. noSlash mb \<longrightarrow> map_of (mb_countByMailbox m) mb = Some n \<longrightarrow> n = int (length (eventKeys mb m)))
     \<and> (\<forall>cap mb. mb_maxItems m = Some cap \<longrightarrow> noSlash mb \<longrightarrow> int (length (eventKeys mb m)) \<le> cap)
     \<and> (mb_maxItems m = None \<longrightarrow> mb_countByMailbox m = [])"

inductive mailbox_step :: "RMailbox \<Rightarrow> RMailbox \<Rightarrow> bool" where
  create: "noSlash mb \<Longrightarrow> createMailbox mb visibility owner now m = Inr m' \<Longrightarrow> mailbox_step m m'"
| deposit: "noSlash mb \<Longrightarrow> mailbox_step m (fst (deposit now createdAt mb r m))"
| wire: "noSlash mb \<Longrightarrow> mailbox_step m (fst (depositFromWire now createdAt mb wireBytes m))"
| ack: "noSlash mb \<Longrightarrow> mailbox_step m (fst (ack mb eventId m))"
| wait: "waitForDeposit wid mb cursor sinceMs m = Inr m' \<Longrightarrow> mailbox_step m m'"
| unwait: "mailbox_step m (removeWaiter mb wid m)"

definition mailbox_reach :: "RMailbox \<Rightarrow> RMailbox \<Rightarrow> bool" where
  "mailbox_reach = mailbox_step\<^sup>*\<^sup>*"

lemma mailbox_invE:
  assumes "mailbox_inv m"
  shows "distinct (map fst (mb_store m))" "k \<in> set (map fst (mb_store m)) \<Longrightarrow> nameable (mb_counter m) k"
    "noSlash mb \<Longrightarrow> map_of (mb_countByMailbox m) mb = Some n \<Longrightarrow> n = int (length (eventKeys mb m))"
    "mb_maxItems m = Some cap \<Longrightarrow> noSlash mb \<Longrightarrow> int (length (eventKeys mb m)) \<le> cap"
    "mb_maxItems m = None \<Longrightarrow> mb_countByMailbox m = []"
  using assms by (auto simp: mailbox_inv_def)

text \<open>The parts of the state the invariant reads. An operation that keeps them keeps the invariant.\<close>

lemma mailbox_inv_cong:
  assumes "mailbox_inv m" "mb_store m' = mb_store m" "mb_counter m \<le> mb_counter m'" "mb_countByMailbox m' = mb_countByMailbox m" "mb_maxItems m' = mb_maxItems m"
  shows "mailbox_inv m'"
  using assms nameable_mono [OF _ assms(3)] unfolding mailbox_inv_def eventKeys_def by simp

text \<open>A write under a key that is no event of a slash-free mailbox.\<close>

lemma eventKeys_put_other:
  "\<not> startsWith k (evtPrefix mb) \<Longrightarrow> eventKeys mb (putValue k v m) = eventKeys mb m"
  by (simp add: eventKeys_def putValue_def update_keys)

lemma eventKeys_put_event:
  "noSlash mb \<Longrightarrow> noSlash mb' \<Longrightarrow> evtKey mb' e \<notin> fst ` set (mb_store m)
   \<Longrightarrow> eventKeys mb (putValue (evtKey mb' e) v m) = eventKeys mb m @ (if mb = mb' then [evtKey mb' e] else [])"
  by (auto simp: eventKeys_def putValue_def update_keys evtKey_prefix)

lemma put_other_inv:
  assumes inv: "mailbox_inv m" and k: "noSlash mb" "k = metaKey mb \<or> k = byteszKey mb"
  shows "mailbox_inv (putValue k v m)"
proof -
  have "\<not> startsWith k (evtPrefix b)" if "noSlash b" for b using k that meta_not_event bytesz_not_event by blast
  then have "eventKeys b (putValue k v m) = eventKeys b m" if "noSlash b" for b using that by (simp add: eventKeys_put_other)
  moreover have "nameable (mb_counter m) k" using k by (auto intro: nameable.intros)
  ultimately show ?thesis using inv
    by (auto simp: mailbox_inv_def putValue_def distinct_update update_keys split: if_splits)
qed

lemma event_key_fresh:
  assumes "mailbox_inv m" "noSlash mb" "mb_counter m < c"
  shows "evtKey mb (eventIdOf t c) \<notin> fst ` set (mb_store m)"
proof
  assume "evtKey mb (eventIdOf t c) \<in> fst ` set (mb_store m)"
  then have "nameable (mb_counter m) (evtKey mb (eventIdOf t c))" using mailbox_invE(2) [OF assms(1)] by simp
  then show False
  proof cases
    case (meta b)
    then show ?thesis using evtKey_prefix [of mb mb] meta_not_event [of b mb] assms(2) by metis
  next
    case (bytesz b)
    then show ?thesis using evtKey_prefix [of mb mb] bytesz_not_event [of b mb] assms(2) by metis
  next
    case (event b c' t')
    then show ?thesis using evtKey_eq assms(2,3) eventIdOf_inj by (metis not_le)
  qed
qed

text \<open>The counter a mailbox is admitted with: exact and below the cap.\<close>

definition admitted :: "string \<Rightarrow> RMailbox \<Rightarrow> bool" where
  "admitted mb m \<longleftrightarrow> (case mb_maxItems m of None \<Rightarrow> True
     | Some cap \<Rightarrow> int (length (eventKeys mb m)) < cap \<and> map_of (mb_countByMailbox m) mb = Some (int (length (eventKeys mb m))))"

lemma quotaItems_effect:
  assumes inv: "mailbox_inv m" and mb: "noSlash mb" "mb \<noteq> []" and q: "quotaItems mb m = (m', res)"
  shows "mailbox_inv m'" "mb_store m' = mb_store m" "mb_counter m' = mb_counter m" "mb_maxItems m' = mb_maxItems m"
    "mb_registry m' = mb_registry m" "mb_maxBytes m' = mb_maxBytes m" "res = Inr () \<Longrightarrow> admitted mb m'"
    "res = (case mb_maxItems m of None \<Rightarrow> Inr () | Some cap \<Rightarrow> if int (length (eventKeys mb m)) \<ge> cap then Inl (MailboxQuotaExceededError mb cap ''items'') else Inr ())"
proof -
  show "mailbox_inv m'"
  proof (cases "m' = m")
    case False
    then obtain cap where cap: "mb_maxItems m = Some cap" "map_of (mb_countByMailbox m) mb = None"
      using q by (auto simp: quotaItems_def ensureCount_def split: option.splits)
    then have "m' = m\<lparr>mb_countByMailbox := AList.update mb (int (length (eventKeys mb m))) (mb_countByMailbox m)\<rparr>"
      using q ensureCount_value [OF mb(2) mailbox_invE(1) [OF inv]] by (auto simp: quotaItems_def)
    then show ?thesis using inv cap by (auto simp: mailbox_inv_def update_conv' eventKeys_def)
  qed (use inv in simp)
  show "mb_store m' = mb_store m" "mb_counter m' = mb_counter m" "mb_maxItems m' = mb_maxItems m"
    "mb_registry m' = mb_registry m" "mb_maxBytes m' = mb_maxBytes m"
    using q by (auto simp: quotaItems_def ensureCount_def split: option.splits)
  show "res = Inr () \<Longrightarrow> admitted mb m'"
    and "res = (case mb_maxItems m of None \<Rightarrow> Inr () | Some cap \<Rightarrow> if int (length (eventKeys mb m)) \<ge> cap then Inl (MailboxQuotaExceededError mb cap ''items'') else Inr ())"
    using q mailbox_invE(3) [OF inv mb(1)] ensureCount_value [OF mb(2) mailbox_invE(1) [OF inv]]
    by (cases "map_of (mb_countByMailbox m) mb"; auto simp: quotaItems_def ensureCount_def admitted_def eventKeys_def update_conv' split: option.splits if_splits)+
qed

lemma quotaBytes_effect:
  assumes "quotaBytes mb len m = (m', res)"
  shows "\<exists>b. m' = m\<lparr>mb_bytesByMailbox := b\<rparr>"
  using assms by (auto simp: quotaBytes_def ensureBytes_def Let_def split: option.splits prod.splits mailbox_value.splits)
    (metis RMailbox.surjective RMailbox.update_convs(6))+

text \<open>Storing one more event of an admitted mailbox and counting it.\<close>

definition counted :: "string \<Rightarrow> RMailbox \<Rightarrow> RMailbox" where
  "counted mb m = (if mb_maxItems m \<noteq> None
     then m\<lparr>mb_countByMailbox := AList.update mb (cached (mb_countByMailbox m) mb + 1) (mb_countByMailbox m)\<rparr> else m)"

lemma counted_put_inv:
  assumes inv: "mailbox_inv m" and mb: "noSlash mb" and adm: "admitted mb m"
    and k: "k = evtKey mb (eventIdOf t (Suc (mb_counter m)))"
  shows "mailbox_inv (counted mb (putValue k v (m\<lparr>mb_counter := Suc (mb_counter m)\<rparr>)))"
proof -
  let ?m = "m\<lparr>mb_counter := Suc (mb_counter m)\<rparr>" let ?p = "putValue k v ?m"
  have fresh: "k \<notin> fst ` set (mb_store m)" using event_key_fresh [OF inv mb] k by simp
  then have keys: "map fst (mb_store (counted mb ?p)) = map fst (mb_store m) @ [k]" by (simp add: counted_def putValue_def update_keys)
  have ev: "eventKeys b (counted mb ?p) = eventKeys b m @ (if b = mb then [k] else [])" if "noSlash b" for b
    using keys that mb k by (auto simp: eventKeys_def evtKey_prefix)
  have ctr: "mb_counter (counted mb ?p) = Suc (mb_counter m)" "mb_maxItems (counted mb ?p) = mb_maxItems m" by (auto simp: counted_def putValue_def)
  have "nameable (Suc (mb_counter m)) x" if "x \<in> set (map fst (mb_store m) @ [k])" for x
    using that mailbox_invE(2) [OF inv] k mb by (auto intro: nameable.intros nameable_mono [OF _ le_SucI [OF le_refl]])
  moreover have "n = int (length (eventKeys b (counted mb ?p)))" if b: "noSlash b" "map_of (mb_countByMailbox (counted mb ?p)) b = Some n" for b n
  proof (cases "mb_maxItems m")
    case None
    then show ?thesis using b(2) mailbox_invE(5) [OF inv] by (simp add: counted_def putValue_def)
  next
    case (Some cap)
    then have "map_of (mb_countByMailbox (counted mb ?p)) = (map_of (mb_countByMailbox m))(mb \<mapsto> int (length (eventKeys mb m)) + 1)"
      using adm by (simp add: counted_def putValue_def admitted_def cached_def update_conv')
    then show ?thesis using b mailbox_invE(3) [OF inv b(1)] ev [OF b(1)] by (simp split: if_splits)
  qed
  moreover have "int (length (eventKeys b (counted mb ?p))) \<le> cap" if "mb_maxItems m = Some cap" "noSlash b" for b cap
    using that mailbox_invE(4) [OF inv that] adm ev [OF that(2)] by (auto simp: admitted_def)
  moreover have "mb_maxItems m = None \<Longrightarrow> mb_countByMailbox (counted mb ?p) = []" using mailbox_invE(5) [OF inv] by (simp add: counted_def putValue_def)
  ultimately show ?thesis unfolding mailbox_inv_def keys ctr using mailbox_invE(1) [OF inv] fresh by simp
qed

lemma depositCommit_inv:
  "mailbox_inv (counted mb m) \<Longrightarrow> noSlash mb \<Longrightarrow> mailbox_inv (snd (depositCommit mb len e createdAt m))"
proof -
  assume a: "mailbox_inv (counted mb m)" "noSlash mb"
  let ?next = "cached (mb_bytesByMailbox (counted mb m)) mb + len"
  let ?m2 = "if mb_maxBytes (counted mb m) \<noteq> None
    then persistBytes mb ?next ((counted mb m)\<lparr>mb_bytesByMailbox := AList.update mb ?next (mb_bytesByMailbox (counted mb m))\<rparr>) else counted mb m"
  have "mailbox_inv ?m2" using a by (auto simp: persistBytes_def intro!: put_other_inv mailbox_inv_cong [OF a(1)])
  then have "mailbox_inv (snd (notifyWaiters mb e createdAt ?m2))"
    by (rule mailbox_inv_cong) (auto simp: notifyWaiters_def Let_def split: option.splits)
  then show ?thesis unfolding depositCommit_def Let_def counted_def [symmetric] .
qed

lemma objectId_step:
  assumes "mailbox_inv m"
    "(case rec_objectId r of Some i \<Rightarrow> if i \<noteq> [] then (i, m) else nextObjectId now m | None \<Rightarrow> nextObjectId now m) = (oid, m1)"
  shows "\<exists>c \<ge> mb_counter m. m1 = m\<lparr>mb_counter := c\<rparr>" "mailbox_inv m1" "eventKeys b m1 = eventKeys b m"
proof -
  show ex: "\<exists>c \<ge> mb_counter m. m1 = m\<lparr>mb_counter := c\<rparr>"
    using assms(2) by (auto simp: nextObjectId_def nextEventId_def Let_def split: option.splits if_splits)
      (metis RMailbox.surjective RMailbox.update_convs(7) order_refl le_SucI)+
  then show "mailbox_inv m1" "eventKeys b m1 = eventKeys b m"
    by (auto intro: mailbox_inv_cong [OF assms(1)] simp: eventKeys_def)
qed

lemma depositAdmit_cases:
  assumes inv: "mailbox_inv m" and mb: "noSlash mb" and d: "depositAdmit now createdAt mb r m = (m', res)"
  shows "(\<exists>e. res = Inl e \<and> mailbox_inv m' \<and> mb_store m' = mb_store m)
    \<or> (\<exists>m3 v. res = Inr (eventIdOf now (Suc (mb_counter m3))) \<and> mailbox_inv m3 \<and> admitted mb m3 \<and> mb_store m3 = mb_store m
        \<and> m' = putValue (evtKey mb (eventIdOf now (Suc (mb_counter m3)))) v (m3\<lparr>mb_counter := Suc (mb_counter m3)\<rparr>)
        \<and> (\<exists>i md. v = EventValue i (rec_bytes r) md createdAt))"
proof (cases "depositChecks mb r m")
  case (Inl e)
  then show ?thesis using d inv by (auto simp: depositAdmit_def)
next
  case (Inr u)
  then have ne: "mb \<noteq> []" by (auto simp: depositChecks_def assertNonEmpty_def bindR_def)
  obtain oid m1 where o: "(case rec_objectId r of Some i \<Rightarrow> if i \<noteq> [] then (i, m) else nextObjectId now m | None \<Rightarrow> nextObjectId now m) = (oid, m1)"
    by fastforce
  obtain m2 q1 where q1: "quotaItems mb m1 = (m2, q1)" by fastforce
  obtain m3 q2 where q2: "quotaBytes mb (int (length (rec_bytes r))) m2 = (m3, q2)" by fastforce
  note o1 = objectId_step [OF inv o] and e1 = quotaItems_effect [OF objectId_step(2) [OF inv o] mb ne q1]
  from quotaBytes_effect [OF q2] obtain b where m3: "m3 = m2\<lparr>mb_bytesByMailbox := b\<rparr>" by blast
  have s: "mb_store m2 = mb_store m" "mb_store m3 = mb_store m" using e1(2) o1(1) m3 by auto
  have inv3: "mailbox_inv m3" using m3 by (intro mailbox_inv_cong [OF e1(1)]) simp_all
  have adm: "admitted mb m3" if "q1 = Inr ()" using e1(7) [OF that] m3 by (simp add: admitted_def eventKeys_def split: option.splits)
  show ?thesis
  proof (cases q1)
    case (Inl e)
    then show ?thesis using d Inr o q1 e1(1) s by (auto simp: depositAdmit_def)
  next
    case q1ok: (Inr u1)
    show ?thesis
    proof (cases q2)
      case (Inl e)
      then show ?thesis using d \<open>depositChecks mb r m = Inr u\<close> o q1 q1ok q2 inv3 s by (auto simp: depositAdmit_def)
    next
      case (Inr u2)
      let ?v = "EventValue oid (rec_bytes r) (filter (\<lambda>(k, v). k \<noteq> ''contentType'') (rec_metadata r) @ [(''contentType'', JStr (rec_contentType r))]) createdAt"
      have "m' = putValue (evtKey mb (eventIdOf now (Suc (mb_counter m3)))) ?v (m3\<lparr>mb_counter := Suc (mb_counter m3)\<rparr>)
        \<and> res = Inr (eventIdOf now (Suc (mb_counter m3)))"
        using d \<open>depositChecks mb r m = Inr u\<close> o q1 q1ok q2 Inr by (simp add: depositAdmit_def nextEventId_def eventIdOf_def Let_def)
      then show ?thesis using inv3 adm q1ok s by (intro disjI2) (auto intro: exI [of _ m3])
    qed
  qed
qed

lemma deposit_inv: "mailbox_inv m \<Longrightarrow> noSlash mb \<Longrightarrow> mailbox_inv (fst (deposit now createdAt mb r m))"
  using depositAdmit_cases [of m mb now createdAt r] counted_put_inv depositCommit_inv
  by (fastforce simp: deposit_def split: prod.splits sum.splits)

lemma depositFromWire_inv: "mailbox_inv m \<Longrightarrow> noSlash mb \<Longrightarrow> mailbox_inv (fst (depositFromWire now createdAt mb w m))"
  by (simp add: depositFromWire_def deposit_inv split: sum.splits)

text \<open>Removing a stored event and uncounting it.\<close>

definition uncounted :: "string \<Rightarrow> RMailbox \<Rightarrow> RMailbox" where
  "uncounted mb m = (if mb_maxItems m \<noteq> None \<and> map_of (mb_countByMailbox m) mb \<noteq> None
     then m\<lparr>mb_countByMailbox := AList.update mb (clampedSub (cached (mb_countByMailbox m) mb) 1) (mb_countByMailbox m)\<rparr> else m)"

lemma filter_absent: "k \<notin> set xs \<Longrightarrow> filter (\<lambda>x. k \<noteq> x) xs = xs"
  by (induction xs) auto

lemma length_filter_removed:
  "distinct xs \<Longrightarrow> k \<in> set xs \<Longrightarrow> length (filter P xs) = length (filter P (filter (\<lambda>x. k \<noteq> x) xs)) + (if P k then 1 else 0)"
proof (induction xs)
  case (Cons a xs)
  then show ?case by (cases "a = k") (simp_all add: filter_absent del: filter_filter)
qed simp

lemma uncounted_inv:
  assumes inv: "mailbox_inv m" and mb: "noSlash mb" and k: "evtKey mb e \<in> fst ` set (mb_store m)"
  shows "mailbox_inv (uncounted mb (m\<lparr>mb_store := AList.delete (evtKey mb e) (mb_store m)\<rparr>))"
proof -
  let ?k = "evtKey mb e" let ?m = "uncounted mb (m\<lparr>mb_store := AList.delete ?k (mb_store m)\<rparr>)"
  have keys: "map fst (mb_store ?m) = filter (\<lambda>x. ?k \<noteq> x) (map fst (mb_store m))" by (simp add: uncounted_def delete_keys removeAll_filter_not_eq)
  have ev: "length (eventKeys b m) = length (eventKeys b ?m) + (if b = mb then 1 else 0)" if "noSlash b" for b
    using length_filter_removed [of "map fst (mb_store m)" ?k "\<lambda>k. startsWith k (evtPrefix b)"] mailbox_invE(1) [OF inv] k keys that mb
    by (auto simp: eventKeys_def evtKey_prefix)
  have ctr: "mb_counter ?m = mb_counter m" "mb_maxItems ?m = mb_maxItems m" by (auto simp: uncounted_def)
  have cnt: "n = int (length (eventKeys b ?m))" if b: "noSlash b" "map_of (mb_countByMailbox ?m) b = Some n" for b n
  proof (cases "map_of (mb_countByMailbox m) b")
    case None
    then show ?thesis using b(2) by (auto simp: uncounted_def update_conv' split: if_splits)
  next
    case (Some n')
    then have "n' = int (length (eventKeys b m))" using mailbox_invE(3) [OF inv b(1)] by blast
    moreover have "mb_maxItems m \<noteq> None" using Some mailbox_invE(5) [OF inv] by (metis map_of.simps(1) option.distinct(1))
    ultimately show ?thesis using b(2) ev [OF b(1)] Some by (auto simp: uncounted_def update_conv' clampedSub_def cached_def split: if_splits)
  qed
  have "int (length (eventKeys b ?m)) \<le> cap" if "mb_maxItems m = Some cap" "noSlash b" for b cap
    using mailbox_invE(4) [OF inv that] ev [OF that(2)] by (auto split: if_splits)
  moreover have "mb_maxItems m = None \<Longrightarrow> mb_countByMailbox ?m = []" using mailbox_invE(5) [OF inv] by (simp add: uncounted_def)
  moreover have "nameable (mb_counter m) x" if "x \<in> set (map fst (mb_store ?m))" for x
    using mailbox_invE(2) [OF inv] that keys by auto
  moreover have "distinct (map fst (mb_store ?m))" using keys mailbox_invE(1) [OF inv] by simp
  ultimately show ?thesis using cnt unfolding mailbox_inv_def ctr by simp
qed

lemma ensureBytes_effect: "ensureBytes mb m = (n, m') \<Longrightarrow> \<exists>b. m' = m\<lparr>mb_bytesByMailbox := b\<rparr>"
  using quotaBytes_effect [of mb 0 "m\<lparr>mb_maxBytes := Some n\<rparr>" "m'\<lparr>mb_maxBytes := Some n\<rparr>"]
  by (auto simp: ensureBytes_def Let_def split: option.splits mailbox_value.splits)
    (metis RMailbox.surjective RMailbox.update_convs(6))+

lemma setBytes_inv:
  "mailbox_inv m \<Longrightarrow> noSlash mb \<Longrightarrow> mailbox_inv (persistBytes mb n (m\<lparr>mb_bytesByMailbox := b\<rparr>))"
  unfolding persistBytes_def by (intro put_other_inv) (auto intro: mailbox_inv_cong)

lemma ack_inv:
  assumes inv: "mailbox_inv m" and mb: "noSlash mb"
  shows "mailbox_inv (fst (ack mb e m))"
proof (cases "evtKey mb e \<in> fst ` set (mb_store m)")
  case False
  then have k: "map_of (mb_store m) (evtKey mb e) = None" by (simp add: map_of_eq_None_iff)
  then have "AList.delete (evtKey mb e) (mb_store m) = mb_store m" using False by (simp add: delete_id)
  with k have "fst (ack mb e m) = m" by (simp add: ack_def ds_remove_def ds_get_def split: sum.splits)
  then show ?thesis using inv by simp
next
  case True
  let ?m = "uncounted mb (m\<lparr>mb_store := AList.delete (evtKey mb e) (mb_store m)\<rparr>)"
  have inv': "mailbox_inv ?m" by (rule uncounted_inv [OF inv mb True])
  have k: "map_of (mb_store m) (evtKey mb e) \<noteq> None" using True by (simp add: map_of_eq_None_iff)
  obtain used m' where eb: "ensureBytes mb ?m = (used, m')" by fastforce
  then obtain b where b: "m' = ?m\<lparr>mb_bytesByMailbox := b\<rparr>" using ensureBytes_effect by blast
  have "mailbox_inv (persistBytes mb n (m'\<lparr>mb_bytesByMailbox := b'\<rparr>))" for n b'
    using setBytes_inv [OF inv' mb, of n b'] b by simp
  then show ?thesis using inv inv' k eb
    by (auto simp: ack_def ds_remove_def uncounted_def Let_def split: sum.splits)
qed

text \<open>The contract of a mailbox server, free of keys, counters and pages: a partial map from mailbox and event ids to records. A deposit adds a
  record under an id that was free, an acknowledgement removes one, everything else leaves the map alone.\<close>

type_synonym mailbox_contents = "string \<times> string \<Rightarrow> mailbox_value option"

inductive contents_step :: "mailbox_contents \<Rightarrow> mailbox_contents \<Rightarrow> bool" where
  add: "c (mb, e) = None \<Longrightarrow> contents_step c (c((mb, e) \<mapsto> EventValue i bs md t))"
| remove: "contents_step c (c((mb, e) := None))"
| same: "contents_step c c"

definition contents :: "RMailbox \<Rightarrow> mailbox_contents" where
  "contents m = (\<lambda>(mb, e). if noSlash mb then map_of (mb_store m) (evtKey mb e) else None)"

lemma contents_cong: "mb_store m' = mb_store m \<Longrightarrow> contents m' = contents m"
  unfolding contents_def by (simp only:)

lemma contents_put_event:
  assumes "noSlash mb"
  shows "contents (putValue (evtKey mb e) v m) = (contents m)((mb, e) \<mapsto> v)"
proof (rule ext)
  fix x :: "string \<times> string"
  obtain b d where x: "x = (b, d)" by fastforce
  show "contents (putValue (evtKey mb e) v m) x = ((contents m)((mb, e) \<mapsto> v)) x"
    using assms evtKey_eq [of b mb d e] unfolding x contents_def putValue_def by (cases "noSlash b") (auto simp: update_conv')
qed

lemma contents_put_other:
  assumes "noSlash b" "k = metaKey b \<or> k = byteszKey b"
  shows "contents (putValue k v m) = contents m"
proof -
  have "evtKey mb e \<noteq> k" if "noSlash mb" for mb e
    using assms that meta_not_event [of b mb] bytesz_not_event [of b mb] evtKey_prefix [of mb mb e] by auto
  then show ?thesis unfolding contents_def putValue_def by (intro ext) (simp add: update_conv' split: prod.splits cong: if_cong)
qed

lemma contents_delete:
  assumes "noSlash mb"
  shows "contents (m\<lparr>mb_store := AList.delete (evtKey mb e) (mb_store m)\<rparr>) = (contents m)((mb, e) := None)"
proof (rule ext)
  fix x :: "string \<times> string"
  obtain b d where x: "x = (b, d)" by fastforce
  show "contents (m\<lparr>mb_store := AList.delete (evtKey mb e) (mb_store m)\<rparr>) x = ((contents m)((mb, e) := None)) x"
    using assms evtKey_eq [of b mb d e] unfolding x contents_def by (cases "noSlash b") (auto simp: delete_conv')
qed

lemma contents_commit: "noSlash mb \<Longrightarrow> contents (snd (depositCommit mb len e t m)) = contents m"
proof -
  assume mb: "noSlash mb"
  have "contents (snd (notifyWaiters mb e t m')) = contents m'" for m'
    by (rule contents_cong) (simp add: notifyWaiters_def Let_def split: option.splits)
  moreover have "contents (persistBytes mb n m') = contents m'" for n m' unfolding persistBytes_def by (rule contents_put_other [OF mb]) simp
  moreover have "contents (m'\<lparr>mb_bytesByMailbox := b\<rparr>) = contents m'" "contents (m'\<lparr>mb_countByMailbox := b\<rparr>) = contents m'" for b m'
    by (rule contents_cong; simp)+
  ultimately show ?thesis by (simp add: depositCommit_def Let_def)
qed

lemma contents_deposit:
  assumes "mailbox_inv m" "noSlash mb" "deposit now t mb r m = (m', res)"
  shows "case res of Inl e \<Rightarrow> contents m' = contents m
    | Inr e \<Rightarrow> contents m (mb, e) = None \<and> (\<exists>i md. contents m' = (contents m)((mb, e) \<mapsto> EventValue i (rec_bytes r) md t))"
proof -
  obtain m1 res1 where d: "depositAdmit now t mb r m = (m1, res1)" by fastforce
  from depositAdmit_cases [OF assms(1,2) d] show ?thesis
  proof (elim disjE exE conjE)
    fix e assume "res1 = Inl e" "mb_store m1 = mb_store m"
    moreover from this have "m' = m1" "res = Inl e" using assms(3) d by (simp_all add: deposit_def)
    ultimately show ?thesis using contents_cong [of m1 m] by simp
  next
    fix m3 v i md
    assume a: "res1 = Inr (eventIdOf now (Suc (mb_counter m3)))" "mailbox_inv m3" "mb_store m3 = mb_store m"
      "m1 = putValue (evtKey mb (eventIdOf now (Suc (mb_counter m3)))) v (m3\<lparr>mb_counter := Suc (mb_counter m3)\<rparr>)" "v = EventValue i (rec_bytes r) md t"
    have "evtKey mb (eventIdOf now (Suc (mb_counter m3))) \<notin> fst ` set (mb_store m3)" by (rule event_key_fresh [OF a(2) assms(2)]) simp
    then have "contents m (mb, eventIdOf now (Suc (mb_counter m3))) = None" using a(3) by (simp add: contents_def map_of_eq_None_iff)
    moreover have ctr: "contents (m3\<lparr>mb_counter := c\<rparr>) = contents m" for c by (rule contents_cong) (simp add: a(3))
    moreover have "m' = snd (depositCommit mb (int (length (rec_bytes r))) (eventIdOf now (Suc (mb_counter m3))) t m1)"
      "res = Inr (eventIdOf now (Suc (mb_counter m3)))" using assms(3) d a(1) by (simp_all add: deposit_def)
    moreover from this have "contents m' = (contents m)((mb, eventIdOf now (Suc (mb_counter m3))) \<mapsto> EventValue i (rec_bytes r) md t)"
      using contents_commit [OF assms(2)] contents_put_event [OF assms(2)] unfolding a(4) a(5) by (simp add: ctr)
    ultimately show ?thesis by auto
  qed
qed

lemma contents_deposit_step:
  assumes "mailbox_inv m" "noSlash mb" "deposit now t mb r m = (m', res)"
  shows "contents_step (contents m) (contents m')"
proof (cases res)
  case (Inr e)
  then obtain i md where "contents m (mb, e) = None" "contents m' = (contents m)((mb, e) \<mapsto> EventValue i (rec_bytes r) md t)"
    using contents_deposit [OF assms] by auto
  then show ?thesis using contents_step.add by metis
qed (use contents_deposit [OF assms] contents_step.same in simp)

lemma contents_ack:
  assumes "noSlash mb"
  shows "contents (fst (ack mb e m)) = contents m \<or> contents (fst (ack mb e m)) = (contents m)((mb, e) := None)"
proof -
  let ?d = "m\<lparr>mb_store := AList.delete (evtKey mb e) (mb_store m)\<rparr>"
  obtain used m' where eb: "ensureBytes mb (uncounted mb ?d) = (used, m')" by fastforce
  then obtain b where m': "m' = (uncounted mb ?d)\<lparr>mb_bytesByMailbox := b\<rparr>" using ensureBytes_effect by blast
  have u: "contents (uncounted mb ?d) = contents ?d" by (rule contents_cong) (simp add: uncounted_def)
  have p: "contents (persistBytes mb n (m'\<lparr>mb_bytesByMailbox := b'\<rparr>)) = contents ?d" for n b'
  proof -
    have "contents (m'\<lparr>mb_bytesByMailbox := b'\<rparr>) = contents (uncounted mb ?d)" by (rule contents_cong) (simp add: m')
    then show ?thesis using u contents_put_other [OF assms] by (simp add: persistBytes_def)
  qed
  show ?thesis using eb u p unfolding contents_delete [OF assms, of e m, symmetric]
    by (auto simp: ack_def ds_remove_def uncounted_def Let_def split: sum.splits)
qed

section \<open>Reachable mailboxes\<close>

lemma new_inv: "mailbox_inv (newRMailbox [] reg maxItems maxBytes)"
  by (auto simp: mailbox_inv_def newRMailbox_def eventKeys_def capOf_def split: option.splits if_splits)

lemma createMailbox_put: "createMailbox mb vis own now m = Inr m' \<Longrightarrow> m' = putValue (metaKey mb) (MetaValue vis own now) m"
  by (simp add: createMailbox_def assertNonEmpty_def bindR_def split: if_splits)

lemma waiters_only:
  "waitForDeposit wid mb cursor sinceMs m = Inr m' \<Longrightarrow> \<exists>w. m' = m\<lparr>mb_waiters := w\<rparr>"
  "\<exists>w. removeWaiter mb wid m = m\<lparr>mb_waiters := w\<rparr>"
  by (auto simp: waitForDeposit_def removeWaiter_def assertNonEmpty_def bindR_def Let_def split: if_splits option.splits)
    (metis RMailbox.surjective RMailbox.update_convs(8))+

lemma mailbox_step_inv: "mailbox_step m m' \<Longrightarrow> mailbox_inv m \<Longrightarrow> mailbox_inv m'"
proof (induction rule: mailbox_step.induct)
  case (create mb visibility owner now m m')
  then show ?case using put_other_inv createMailbox_put by blast
next
  case (wait wid mb cursor sinceMs m m')
  from waiters_only(1) [OF wait(1)] show ?case by (auto intro: mailbox_inv_cong [OF wait(2)])
next
  case (unwait m mb wid)
  obtain w where "removeWaiter mb wid m = m\<lparr>mb_waiters := w\<rparr>" using waiters_only(2) by blast
  then show ?case by (auto intro: mailbox_inv_cong [OF unwait])
qed (simp_all add: deposit_inv depositFromWire_inv ack_inv)

definition config :: "RMailbox \<Rightarrow> MailboxRecordRegistry \<times> int option \<times> int option" where
  "config m = (mb_registry m, mb_maxItems m, mb_maxBytes m)"

lemma config_simps [simp]:
  "config (putValue k v m) = config m" "config (m\<lparr>mb_store := d\<rparr>) = config m" "config (m\<lparr>mb_countByMailbox := t\<rparr>) = config m"
  "config (m\<lparr>mb_bytesByMailbox := t\<rparr>) = config m" "config (m\<lparr>mb_counter := n\<rparr>) = config m" "config (m\<lparr>mb_waiters := w\<rparr>) = config m"
  by (simp_all add: config_def putValue_def)

lemma config_parts:
  "quotaItems mb m = (m', q) \<Longrightarrow> config m' = config m"
  "quotaBytes mb n m = (m', q) \<Longrightarrow> config m' = config m"
  "ensureBytes mb m = (x, m') \<Longrightarrow> config m' = config m"
  "nextEventId now m = (i, m') \<Longrightarrow> config m' = config m"
  "nextObjectId now m = (i, m') \<Longrightarrow> config m' = config m"
  by (auto simp: quotaItems_def ensureCount_def nextEventId_def nextObjectId_def Let_def split: option.splits dest!: quotaBytes_effect ensureBytes_effect)

lemma config_admit: "config (fst (depositAdmit now t mb r m)) = config m"
  by (auto simp: depositAdmit_def split: sum.splits prod.splits option.splits if_splits dest!: config_parts)

lemma config_commit: "config (snd (depositCommit mb n e t m)) = config m"
  by (auto simp: depositCommit_def persistBytes_def notifyWaiters_def Let_def split: option.splits)

lemma config_deposit: "config (fst (deposit now t mb r m)) = config m"
  using config_admit [of now t mb r m] config_commit by (auto simp: deposit_def split: prod.splits sum.splits)

lemma config_ack: "config (fst (ack mb e m)) = config m"
  by (auto simp: ack_def ds_remove_def persistBytes_def Let_def split: prod.splits sum.splits dest!: config_parts)

lemma config_step: "mailbox_step m m' \<Longrightarrow> config m' = config m"
proof (induction rule: mailbox_step.induct)
  case (create mb visibility owner now m m')
  then show ?case using createMailbox_put config_simps(1) by metis
next
  case (wait wid mb cursor sinceMs m m')
  from waiters_only(1) [OF wait(1)] show ?case by auto
next
  case (unwait m mb wid)
  obtain w where "removeWaiter mb wid m = m\<lparr>mb_waiters := w\<rparr>" using waiters_only(2) by blast
  then show ?case by auto
qed (auto simp: config_deposit config_ack depositFromWire_def split: sum.splits)

lemma reach_config: "mailbox_reach m m' \<Longrightarrow> config m' = config m"
  unfolding mailbox_reach_def by (induction rule: rtranclp_induct) (auto dest: config_step)

lemma reach_inv: "mailbox_reach m m' \<Longrightarrow> mailbox_inv m \<Longrightarrow> mailbox_inv m'"
  unfolding mailbox_reach_def by (induction rule: rtranclp_induct) (auto intro: mailbox_step_inv)

lemma mailbox_step_contents: "mailbox_step m m' \<Longrightarrow> mailbox_inv m \<Longrightarrow> contents_step (contents m) (contents m')"
proof (induction rule: mailbox_step.induct)
  case (create mb visibility owner now m m')
  then show ?case using contents_put_other [of mb "metaKey mb"] createMailbox_put contents_step.same by metis
next
  case (deposit mb m now t r)
  obtain m' res where d: "deposit now t mb r m = (m', res)" by fastforce
  from contents_deposit_step [OF deposit(2,1) d] d show ?case by simp
next
  case (wire mb m now t w)
  show ?case
  proof (cases "bindR (assertNonEmpty mb ''mailboxId'') (\<lambda>_. hydrateFromWire (mb_registry m) w)")
    case (Inr r)
    obtain m' res where d: "deposit now t mb r m = (m', res)" by fastforce
    from contents_deposit_step [OF wire(2,1) d] d Inr show ?thesis by (simp add: depositFromWire_def)
  qed (simp add: depositFromWire_def contents_step.same)
next
  case (ack mb m e)
  then show ?case using contents_ack [of mb e m] contents_step.same contents_step.remove by metis
next
  case (wait wid mb cursor sinceMs m m')
  from waiters_only(1) [OF wait(1)] have "contents m' = contents m" by (auto intro: contents_cong)
  then show ?case by (simp add: contents_step.same)
next
  case (unwait m mb wid)
  obtain w where "removeWaiter mb wid m = m\<lparr>mb_waiters := w\<rparr>" using waiters_only(2) by blast
  then have "contents (removeWaiter mb wid m) = contents m" by (auto intro: contents_cong)
  then show ?case by (simp add: contents_step.same)
qed

lemma depositChecks_ok:
  "mb \<noteq> [] \<Longrightarrow> rec_contentType r \<noteq> [] \<Longrightarrow> isAllowedContentType (mb_registry m) (rec_contentType r) \<Longrightarrow> depositChecks mb r m = Inr ()"
  by (simp add: depositChecks_def assertNonEmpty_def bindR_def)

lemma deposit_decision:
  assumes inv: "mailbox_inv m" and mb: "noSlash mb" "mb \<noteq> []" and cfg: "mb_maxItems m = Some cap" "mb_maxBytes m = None"
    and ok: "depositChecks mb r m = Inr ()" and d: "deposit now t mb r m = (m', res)"
  shows "if cap \<le> int (length (eventKeys mb m)) then res = Inl (MailboxQuotaExceededError mb cap ''items'') else isOk res"
proof -
  obtain oid m1 where o: "(case rec_objectId r of Some i \<Rightarrow> if i \<noteq> [] then (i, m) else nextObjectId now m | None \<Rightarrow> nextObjectId now m) = (oid, m1)"
    by fastforce
  obtain m2 q1 where q1: "quotaItems mb m1 = (m2, q1)" by fastforce
  note e1 = quotaItems_effect [OF objectId_step(2) [OF inv o] mb q1]
  have cfg1: "mb_maxItems m1 = Some cap" "mb_maxBytes m2 = None" using objectId_step(1) [OF inv o] cfg e1(6) by auto
  then have q1v: "q1 = (if int (length (eventKeys mb m)) \<ge> cap then Inl (MailboxQuotaExceededError mb cap ''items'') else Inr ())"
    using e1(8) objectId_step(3) [OF inv o, of mb] by simp
  have "quotaBytes mb n m2 = (m2, Inr ())" for n using cfg1(2) by (simp add: quotaBytes_def)
  then show ?thesis using d ok o q1 q1v by (auto simp: deposit_def depositAdmit_def nextEventId_def Let_def split: if_splits)
qed

lemma eventKeys_nil: "mb_store m = [] \<Longrightarrow> eventKeys mb m = []"
  by (simp add: eventKeys_def)

section \<open>Properties\<close>

text \<open>C36: The seeding scan of a mailbox's item counter ends. With any fuel above the number of stored keys the paging loop of
  \<^verbatim>\<open>#ensureCount\<close> returns, and it returns the number of stored events of that mailbox: no page is skipped or read twice.\<close>

theorem seeding_terminates:
  assumes "mailboxId \<noteq> []" "distinct (map fst (mb_store m))" "length (mb_store m) < fuel"
  shows "countPages fuel mailboxId None 0 m = Some (int (length (eventKeys mailboxId m)))"
proof -
  have s: "seedOf mailboxId m (sort (eventKeys mailboxId m))" using assms(1,2) by (simp add: seedOf_def)
  have "length (eventKeys mailboxId m) \<le> length (mb_store m)" by (simp add: eventKeys_def)
  then show ?thesis using countPages_run [OF s, of 0 fuel 0] assms(3) by (simp add: cursorAt_def)
qed

definition demo_registry :: MailboxRecordRegistry where
  "demo_registry = \<lparr>reg_probeOrder = [], reg_allContentTypes = [''rez.app.deposit'']\<rparr>"

definition demo_deposit :: DepositRecord where
  "demo_deposit = \<lparr>rec_contentType = ''rez.app.deposit'', rec_bytes = [1, 2, 3], rec_objectId = Some ''o'', rec_metadata = []\<rparr>"

definition demo_backlog :: RMailbox where
  "demo_backlog = newRMailbox
     (map (\<lambda>c. (evtKey ''a'' (eventIdOf 5 c), EventValue ''o'' [1] [] 5)) [1, 2, 3] @ [(metaKey ''a'', MetaValue ''private'' None 4)])
     demo_registry (Some 10) None"

theorem seeding_terminates_witness: "countPages 5 ''a'' None 0 demo_backlog = Some 3"
proof -
  have "distinct (map fst (mb_store demo_backlog))" "length (mb_store demo_backlog) < 5" "length (eventKeys ''a'' demo_backlog) = 3" by code_simp+
  then show ?thesis using seeding_terminates [of "''a''" demo_backlog 5] by simp
qed

text \<open>C13: Whatever deposits, acknowledgements, creations and waits a mailbox server handles one after the other, no mailbox with a slash-free id ever
  holds more events than the item cap, and a cached counter is exactly the number of stored events.\<close>

theorem mailbox_quota_kept:
  assumes "mailbox_reach (newRMailbox [] reg (Some cap) maxBytes) m" "0 < cap" "noSlash mb"
  shows "int (length (eventKeys mb m)) \<le> cap
    \<and> (case map_of (mb_countByMailbox m) mb of Some n \<Rightarrow> n = int (length (eventKeys mb m)) | None \<Rightarrow> True)"
proof -
  have inv: "mailbox_inv m" by (rule reach_inv [OF assms(1) new_inv])
  have "mb_maxItems m = Some cap" using reach_config [OF assms(1)] assms(2) by (simp add: config_def newRMailbox_def capOf_def)
  then show ?thesis using mailbox_invE(3,4) [OF inv] assms(3) by (auto split: option.split)
qed

definition demo_mailbox :: RMailbox where
  "demo_mailbox = newRMailbox [] demo_registry (Some 1) None"

definition demo_after :: RMailbox where
  "demo_after = fst (deposit 7 7 ''a'' demo_deposit demo_mailbox)"

lemma demo_after_reach: "mailbox_reach demo_mailbox demo_after"
  unfolding mailbox_reach_def demo_after_def by (rule r_into_rtranclp, rule mailbox_step.deposit) (simp add: noSlash_def)

theorem mailbox_quota_kept_witness:
  "int (length (eventKeys ''a'' demo_after)) \<le> 1 \<and> length (eventKeys ''a'' demo_after) = 1"
proof -
  have "length (eventKeys ''a'' demo_after) = 1" by code_simp
  then show ?thesis using mailbox_quota_kept [OF demo_after_reach [unfolded demo_mailbox_def], of "''a''"] by (simp add: noSlash_def)
qed

text \<open>C34: In a reachable mailbox server with an item cap, a deposit of an allowed record is refused exactly when the mailbox holds \<^verbatim>\<open>cap\<close> events, with
  the quota error and no change of the stored records; otherwise it returns a fresh event id under which \<^verbatim>\<open>fetch\<close> gives back the bytes, and no other
  record changes.\<close>

theorem deposit_exact:
  assumes "mailbox_reach (newRMailbox [] reg (Some cap) None) m" "0 < cap" "noSlash mb" "mb \<noteq> []"
    and "rec_contentType r \<noteq> []" "isAllowedContentType reg (rec_contentType r)" and d: "deposit now t mb r m = (m', res)"
  shows "if int (length (eventKeys mb m)) = cap
    then res = Inl (MailboxQuotaExceededError mb cap ''items'') \<and> contents m' = contents m
    else \<exists>e i md. res = Inr e \<and> contents m (mb, e) = None \<and> contents m' = (contents m)((mb, e) \<mapsto> EventValue i (rec_bytes r) md t)
           \<and> mailbox_fetch mb e m' = Inr (Some (EventValue i (rec_bytes r) md t))"
proof -
  have inv: "mailbox_inv m" by (rule reach_inv [OF assms(1) new_inv])
  have cfg: "mb_registry m = reg" "mb_maxItems m = Some cap" "mb_maxBytes m = None"
    using reach_config [OF assms(1)] assms(2) by (simp_all add: config_def newRMailbox_def capOf_def)
  have "int (length (eventKeys mb m)) \<le> cap" by (rule mailbox_invE(4) [OF inv cfg(2) assms(3)])
  moreover note deposit_decision [OF inv assms(3,4) cfg(2,3) depositChecks_ok d] contents_deposit [OF inv assms(3) d]
  moreover have "mailbox_fetch mb e m' = Inr (Some v)" if "contents m' = (contents m)((mb, e) \<mapsto> v)" "res = Inr e" for e v
  proof -
    have "contents m' (mb, e) = Some v" using that(1) by simp
    moreover have "e \<noteq> []" using that(2) d by (auto simp: deposit_def depositAdmit_def nextEventId_def Let_def split: sum.splits prod.splits if_splits)
    ultimately show ?thesis using assms(3,4) by (simp add: mailbox_fetch_def contents_def assertNonEmpty_def bindR_def ds_get_def)
  qed
  ultimately show ?thesis using assms(4,5,6) cfg(1) by (cases res) (auto split: if_splits)
qed

theorem deposit_exact_witness:
  "snd (deposit 8 8 ''a'' demo_deposit demo_after) = Inl (MailboxQuotaExceededError ''a'' 1 ''items'')"
proof -
  have "int (length (eventKeys ''a'' demo_after)) = 1" "rec_contentType demo_deposit \<noteq> []"
    "isAllowedContentType demo_registry (rec_contentType demo_deposit)" by code_simp+
  then show ?thesis
    using deposit_exact [OF demo_after_reach [unfolded demo_mailbox_def] _ _ _ _ _ surjective_pairing, of "''a''" demo_deposit 8 8]
    by (simp add: noSlash_def)
qed



text \<open>The item cap does not hold for concurrent deposits. The check and the increment are separated by the awaited store write, so two deposits
  into an empty mailbox with cap 1 are both admitted before either is counted, and both records are stored.\<close>

theorem mailbox_quota_race:
  "let (m1, r1) = depositAdmit 7 7 ''a'' demo_deposit demo_mailbox;
       (m2, r2) = depositAdmit 7 7 ''a'' demo_deposit m1;
       m3 = snd (depositCommit ''a'' 3 (projr r1) 7 m2);
       m4 = snd (depositCommit ''a'' 3 (projr r2) 7 m3)
   in mb_maxItems m4 = Some 1 \<and> isOk r1 \<and> isOk r2 \<and> length (eventKeys ''a'' m4) = 2"
  by code_simp

end
