(* ===== verification/Onion.thy ===== *)
theory Onion
  imports Secure_Channel Network_Guards
begin

text \<open>
  Onion routing: the sealed layers (\<^verbatim>\<open>src/crypto/onion\<close>), the fixed-size packet (\<^verbatim>\<open>src/objects/onion/OnionPacketV2.js\<close>,
  \<^verbatim>\<open>src/codec/onion/buildFixedOnionPacketV2.js\<close>), the codec that wraps a payload for a path of relays and the one with which a relay
  takes its layer off (\<^verbatim>\<open>src/codec/onion\<close>), and the relay's onion keys (\<^verbatim>\<open>src/services/relay\<close>, \<^verbatim>\<open>src/objects/relay/OnionKeyRecordV1.js\<close>).
  The ephemeral key pairs a sender draws are arguments, one per hop.
\<close>

section \<open>Onion keys of a relay\<close>

record OnionKeyRecordV1 =
  okr_onionKeyId :: string
  okr_publicKeyBytes :: bytes
  okr_format :: string
  okr_createdAt :: int
  okr_notBefore :: int
  okr_notAfter :: int
  okr_status :: string

definition newOnionKeyRecordV1 :: "jsval \<Rightarrow> jsval \<Rightarrow> jsval \<Rightarrow> jsval \<Rightarrow> jsval \<Rightarrow> jsval \<Rightarrow> jsval \<Rightarrow> jsval \<Rightarrow> OnionKeyRecordV1 result" where
  "newOnionKeyRecordV1 v onionKeyId publicKeyBytes format createdAt notBefore notAfter status =
     (let v = dflt v (JInt 1); format = dflt format (JStr ''raw'') in
      if v \<noteq> JInt 1 then Inl (RezInvariantError ''OnionKeyRecordV1.v must be 1'')
      else if \<not> isNonEmptyString onionKeyId then Inl (RezInvariantError ''OnionKeyRecordV1.onionKeyId must be non-empty string'')
      else case publicKeyBytes of
        JBytes bs \<Rightarrow>
          if format \<notin> {JStr ''raw'', JStr ''spki''} then Inl (RezInvariantError ''OnionKeyRecordV1.format must be raw|spki'')
          else if \<not> isFiniteNumber createdAt then Inl (RezInvariantError ''OnionKeyRecordV1.createdAt must be number'')
          else if \<not> isFiniteNumber notBefore then Inl (RezInvariantError ''OnionKeyRecordV1.notBefore must be number'')
          else if \<not> isFiniteNumber notAfter then Inl (RezInvariantError ''OnionKeyRecordV1.notAfter must be number'')
          else if \<not> intOf notBefore \<le> intOf notAfter then Inl (RezInvariantError ''OnionKeyRecordV1.notBefore must be <= notAfter'')
          else if status \<notin> {JStr ''active'', JStr ''draining'', JStr ''revoked''} then Inl (RezInvariantError ''OnionKeyRecordV1.status must be active|draining|revoked'')
          else Inr \<lparr>okr_onionKeyId = strOf onionKeyId, okr_publicKeyBytes = bs, okr_format = strOf format, okr_createdAt = intOf createdAt,
                 okr_notBefore = intOf notBefore, okr_notAfter = intOf notAfter, okr_status = strOf status\<rparr>
      | _ \<Rightarrow> Inl (RezInvariantError ''OnionKeyRecordV1.publicKeyBytes must be Uint8Array''))"

definition onionKeyRecord_toJSON :: "OnionKeyRecordV1 \<Rightarrow> jsval" where
  "onionKeyRecord_toJSON r = JObj [(''v'', JInt 1), (''onionKeyId'', JStr (okr_onionKeyId r)), (''publicKeyBytes'', arrayFrom (okr_publicKeyBytes r)),
     (''format'', JStr (okr_format r)), (''createdAt'', JInt (okr_createdAt r)), (''notBefore'', JInt (okr_notBefore r)),
     (''notAfter'', JInt (okr_notAfter r)), (''status'', JStr (okr_status r))]"

text \<open>The codecs' \<^verbatim>\<open>toBytes\<close> takes base64 text besides what the record classes take.\<close>

definition codecBytes :: "string \<Rightarrow> string \<Rightarrow> jsval \<Rightarrow> bytes result" where
  "codecBytes owner label v = (case v of JStr s \<Rightarrow> base64ToBytes s | _ \<Rightarrow> toBytes owner label v)"

definition onionKeyRecord_fromJSON :: "jsval \<Rightarrow> OnionKeyRecordV1 result" where
  "onionKeyRecord_fromJSON json =
     (if \<not> truthy json \<or> \<not> typeofObject json then Inl (Error ''OnionKeyRecordV1.fromJSON(json) requires object'')
      else bindR (toBytes ''OnionKeyRecordV1'' ''publicKeyBytes'' (getProp json ''publicKeyBytes'')) (\<lambda>pub.
        newOnionKeyRecordV1 (if isNullish (getProp json ''v'') then JInt 1 else getProp json ''v'') (getProp json ''onionKeyId'') (JBytes pub)
          (if isNullish (getProp json ''format'') then JStr ''raw'' else getProp json ''format'')
          (getProp json ''createdAt'') (getProp json ''notBefore'') (getProp json ''notAfter'') (getProp json ''status'')))"

definition isUsable :: "int \<Rightarrow> OnionKeyRecordV1 \<Rightarrow> bool" where
  "isUsable nowMs r = (if okr_status r = ''revoked'' then False else okr_notBefore r \<le> nowMs \<and> nowMs < okr_notAfter r)"

definition NoUsableOnionKeyError :: "string \<Rightarrow> js_error" where
  "NoUsableOnionKeyError msg = CodedError ''NoUsableOnionKeyError'' msg"

text \<open>\<^verbatim>\<open>candidates.sort((a, b) => b.createdAt - a.createdAt)\<close> is a stable sort by descending creation time.\<close>

definition selectOnionKeyForSendV1 :: "OnionKeyRecordV1 list \<Rightarrow> int \<Rightarrow> (string \<times> bytes \<times> string) result" where
  "selectOnionKeyForSendV1 onionKeys nowMs =
     (if onionKeys = [] then Inl (NoUsableOnionKeyError ''No onion keys provided'')
      else let usable = filter (isUsable nowMs) onionKeys in
        if usable = [] then Inl (NoUsableOnionKeyError ''No usable onion keys at this time'')
        else let active = filter (\<lambda>k. okr_status k = ''active'') usable;
                 candidates = (if active \<noteq> [] then active else filter (\<lambda>k. okr_status k = ''draining'') usable)
             in if candidates = [] then Inl (NoUsableOnionKeyError ''No usable onion keys in active or draining state'')
                else let selected = hd (sort_key (\<lambda>k. - okr_createdAt k) candidates)
                     in Inr (okr_onionKeyId selected, okr_publicKeyBytes selected, okr_format selected))"

fun usableScan :: "int \<Rightarrow> bool \<Rightarrow> OnionKeyRecordV1 list \<Rightarrow> bool" where
  "usableScan nowMs hasUsable [] = False"
| "usableScan nowMs hasUsable (k # ks) =
     (if okr_status k = ''revoked'' then usableScan nowMs hasUsable ks
      else if okr_notBefore k \<le> nowMs \<and> nowMs < okr_notAfter k
      then (if okr_status k = ''active'' \<or> okr_status k = ''draining'' then True else usableScan nowMs True ks)
      else usableScan nowMs hasUsable ks)"

definition descriptorHasUsableOnionKey :: "OnionKeyRecordV1 list \<Rightarrow> int \<Rightarrow> bool" where
  "descriptorHasUsableOnionKey onionKeys nowMs = (if onionKeys = [] then False else usableScan nowMs False onionKeys)"

record onion_key =
  ok_privateKeyBytes :: bytes
  ok_notBefore :: int
  ok_notAfter :: int
  ok_status :: string

type_synonym OnionKeyringV1 = "(string \<times> onion_key) list"

definition OnionKeyNotUsableError :: "string \<Rightarrow> js_error" where
  "OnionKeyNotUsableError msg = CodedError ''OnionKeyNotUsableError'' msg"

definition addKey :: "string \<Rightarrow> bytes \<Rightarrow> int \<Rightarrow> int \<Rightarrow> string \<Rightarrow> OnionKeyringV1 \<Rightarrow> OnionKeyringV1 result" where
  "addKey onionKeyId privateKeyBytes notBefore notAfter status ring =
     (if onionKeyId = [] then Inl (Error ''OnionKeyringV1.addKey requires onionKeyId'')
      else if notBefore > notAfter then Inl (Error ''OnionKeyringV1.addKey requires notBefore <= notAfter'')
      else if status \<notin> set [''active'', ''draining'', ''revoked''] then Inl (Error ''OnionKeyringV1.addKey requires status active|draining|revoked'')
      else Inr (AList.update onionKeyId \<lparr>ok_privateKeyBytes = privateKeyBytes, ok_notBefore = notBefore, ok_notAfter = notAfter, ok_status = status\<rparr> ring))"

definition getKeyForDecrypt :: "string \<Rightarrow> int \<Rightarrow> OnionKeyringV1 \<Rightarrow> bytes result" where
  "getKeyForDecrypt onionKeyId nowMs ring =
     (if onionKeyId = [] then Inl (OnionKeyNotUsableError ''onionKeyId required'')
      else case map_of ring onionKeyId of
        None \<Rightarrow> Inl (OnionKeyNotUsableError ''onionKeyId not found'')
      | Some r \<Rightarrow>
          if ok_status r = ''revoked'' then Inl (OnionKeyNotUsableError ''onionKeyId revoked'')
          else if \<not> (ok_notBefore r \<le> nowMs \<and> nowMs < ok_notAfter r) then Inl (OnionKeyNotUsableError ''onionKeyId not in valid time window'')
          else if ok_status r \<noteq> ''active'' \<and> ok_status r \<noteq> ''draining'' then Inl (OnionKeyNotUsableError ''onionKeyId not usable'')
          else Inr (ok_privateKeyBytes r))"

section \<open>Sealed layers\<close>

definition ONION_INFO_LABEL :: bytes where
  "ONION_INFO_LABEL = utf8Encode ''rez-onion-v2''"

definition deriveOnionAeadKeyNonceV2 :: "crypto_provider \<Rightarrow> bytes \<Rightarrow> int \<Rightarrow> (bytes \<times> bytes) result" where
  "deriveOnionAeadKeyNonceV2 c sharedSecret hopIndex =
     (if hopIndex < 0 then Inl (Error ''deriveOnionAeadKeyNonceV2 requires hopIndex >= 0'')
      else bindR (hkdfSha256 c sharedSecret [] (ONION_INFO_LABEL @ u32be hopIndex) 44) (\<lambda>out. Inr (subarray 0 32 out, subarray 32 44 out)))"

definition encodeJsonBytes :: "jsval \<Rightarrow> bytes" where
  "encodeJsonBytes v = (case canonicalJSONStringify v of Some s \<Rightarrow> utf8Encode s | None \<Rightarrow> [])"

definition onion_aadBytes :: "int \<Rightarrow> int \<Rightarrow> string \<Rightarrow> bytes" where
  "onion_aadBytes hopIndex ttl onionKeyId =
     encodeJsonBytes (JObj [(''v'', JInt 2), (''hopIndex'', JInt hopIndex), (''ttl'', JInt ttl), (''onionKeyId'', JStr onionKeyId)])"

definition encryptLayerV2 :: "crypto_provider \<Rightarrow> key_pair \<Rightarrow> bytes \<Rightarrow> bytes \<Rightarrow> int \<Rightarrow> int \<Rightarrow> string \<Rightarrow> (bytes \<times> bytes) result" where
  "encryptLayerV2 c eph relayPub plain hopIndex ttl onionKeyId =
     (if hopIndex < 0 then Inl (Error ''OnionLayerAeadV2.encryptLayerV2 requires hopIndex >= 0'')
      else if ttl < 0 then Inl (Error ''OnionLayerAeadV2.encryptLayerV2 requires ttl >= 0'')
      else if onionKeyId = [] then Inl (Error ''OnionLayerAeadV2.encryptLayerV2 requires onionKeyId'')
      else bindR (dhDerive c (privateKey eph) relayPub ''X25519'' ''spki'') (\<lambda>sharedSecret.
           bindR (deriveOnionAeadKeyNonceV2 c sharedSecret hopIndex) (\<lambda>(aeadKey, nonce).
           bindR (encryptAes256Gcm c aeadKey nonce plain (onion_aadBytes hopIndex ttl onionKeyId)) (\<lambda>ct.
             Inr (publicKey eph, ct)))))"

definition decryptLayerV2 :: "crypto_provider \<Rightarrow> bytes \<Rightarrow> jsval \<Rightarrow> int \<Rightarrow> bytes result" where
  "decryptLayerV2 c relayPriv layerObj hopIndex =
     (if hopIndex < 0 then Inl (Error ''OnionLayerAeadV2.decryptLayerV2 requires hopIndex >= 0'')
      else if \<not> truthy layerObj \<or> \<not> typeofObject layerObj then Inl (Error ''OnionLayerAeadV2.decryptLayerV2 requires layerObj'')
      else if \<not> isString (getProp layerObj ''onionKeyId'') \<or> strOf (getProp layerObj ''onionKeyId'') = []
      then Inl (Error ''OnionLayerAeadV2.decryptLayerV2 requires onionKeyId'')
      else if \<not> isInteger (getProp layerObj ''ttl'') \<or> intOf (getProp layerObj ''ttl'') < 0
      then Inl (Error ''OnionLayerAeadV2.decryptLayerV2 requires layerObj.ttl >= 0'')
      else bindR (codecBytes ''OnionLayerAeadV2'' ''ephPub'' (getProp layerObj ''ephPub'')) (\<lambda>ephPub.
           bindR (codecBytes ''OnionLayerAeadV2'' ''ct'' (getProp layerObj ''ct'')) (\<lambda>ct.
           bindR (dhDerive c relayPriv ephPub ''X25519'' ''spki'') (\<lambda>sharedSecret.
           bindR (deriveOnionAeadKeyNonceV2 c sharedSecret hopIndex) (\<lambda>(aeadKey, nonce).
             decryptAes256Gcm c aeadKey nonce ct (onion_aadBytes hopIndex (intOf (getProp layerObj ''ttl'')) (strOf (getProp layerObj ''onionKeyId''))))))))"

section \<open>Packets\<close>

definition ONION_V2_SIZE_CLASSES :: "int list" where
  "ONION_V2_SIZE_CLASSES = [4096, 8192, 16384, 32768, 65536, 131072, 262144]"

definition MAX_ONION_SIZE :: int where
  "MAX_ONION_SIZE = 1024 * 1024"

record OnionPacketV2 =
  op_sizeClass :: int
  op_payload :: bytes

definition newOnionPacketV2 :: "jsval \<Rightarrow> jsval \<Rightarrow> jsval \<Rightarrow> OnionPacketV2 result" where
  "newOnionPacketV2 v sizeClass payload =
     (if v \<noteq> JInt 2 then Inl (RezInvariantError ''OnionPacketV2.v must be 2'')
      else if \<not> isInteger sizeClass \<or> intOf sizeClass \<notin> set ONION_V2_SIZE_CLASSES then Inl (RezInvariantError ''OnionPacketV2.sizeClass must be valid'')
      else if \<not> intOf sizeClass \<le> MAX_ONION_SIZE then Inl (RezInvariantError ''OnionPacketV2.sizeClass exceeds max'')
      else case payload of
        JBytes bs \<Rightarrow> if int (length bs) = intOf sizeClass then Inr \<lparr>op_sizeClass = intOf sizeClass, op_payload = bs\<rparr>
          else Inl (RezInvariantError ''OnionPacketV2.payload length must equal sizeClass'')
      | _ \<Rightarrow> Inl (RezInvariantError ''OnionPacketV2.payload must be Uint8Array''))"

definition onionPacket_toJSON :: "OnionPacketV2 \<Rightarrow> jsval" where
  "onionPacket_toJSON p = JObj [(''v'', JInt 2), (''sizeClass'', JInt (op_sizeClass p)), (''payload'', arrayFrom (op_payload p))]"

definition onionPacket_fromJSON :: "jsval \<Rightarrow> OnionPacketV2 result" where
  "onionPacket_fromJSON json =
     (if \<not> truthy json \<or> \<not> typeofObject json then Inl (Error ''OnionPacketV2.fromJSON(json) requires object'')
      else bindR (toBytes ''OnionPacketV2'' ''payload'' (getProp json ''payload'')) (\<lambda>payload.
        newOnionPacketV2 (getProp json ''v'') (getProp json ''sizeClass'') (JBytes payload)))"

text \<open>\<^verbatim>\<open>payload.set(blobBytes, 0)\<close> into a zeroed buffer.\<close>

definition padTo :: "int \<Rightarrow> bytes \<Rightarrow> bytes" where
  "padTo n bs = bs @ replicate (nat n - length bs) 0"

definition buildFixedOnionPacketV2 :: "bytes \<Rightarrow> int option \<Rightarrow> OnionPacketV2 result" where
  "buildFixedOnionPacketV2 blobBytes sizeClass =
     (case (case sizeClass of Some s \<Rightarrow> Some s | None \<Rightarrow> find (\<lambda>s. s \<ge> int (length blobBytes)) ONION_V2_SIZE_CLASSES) of
        None \<Rightarrow> Inl (Error ''buildFixedOnionPacketV2 requires valid sizeClass'')
      | Some chosen \<Rightarrow>
          if chosen \<le> 0 then Inl (Error ''buildFixedOnionPacketV2 requires valid sizeClass'')
          else if int (length blobBytes) > chosen then Inl (Error ''buildFixedOnionPacketV2 blob exceeds sizeClass'')
          else newOnionPacketV2 (JInt 2) (JInt chosen) (JBytes (padTo chosen blobBytes)))"

definition trimTrailingZeros :: "bytes \<Rightarrow> bytes" where
  "trimTrailingZeros bs = rev (dropWhile (\<lambda>b. b = 0) (rev bs))"

definition MAX_SAFE_INTEGER :: int where
  "MAX_SAFE_INTEGER = 9007199254740991"

definition parseOnionLayerV2 :: "(bytes \<Rightarrow> jsval result) \<Rightarrow> bytes \<Rightarrow> jsval result" where
  "parseOnionLayerV2 parse payloadBytes =
     (let trimmed = trimTrailingZeros payloadBytes in
      if trimmed = [] then Inl (Error ''parseOnionLayerV2 requires non-empty payload'')
      else bindR (parse trimmed) (\<lambda>obj.
        if \<not> truthy obj \<or> \<not> typeofObject obj then Inl (Error ''parseOnionLayerV2 requires object'')
        else if \<not> isInteger (getProp obj ''hopIndex'') \<or> \<bar>intOf (getProp obj ''hopIndex'')\<bar> > MAX_SAFE_INTEGER \<or> intOf (getProp obj ''hopIndex'') < 0
        then Inl (Error ''parseOnionLayerV2 requires hopIndex >= 0'')
        else if \<not> isInteger (getProp obj ''ttl'') \<or> intOf (getProp obj ''ttl'') < 0 then Inl (Error ''parseOnionLayerV2 requires ttl >= 0'')
        else Inr obj))"

definition parseOnionPlaintextV2 :: "(bytes \<Rightarrow> jsval result) \<Rightarrow> bytes \<Rightarrow> jsval result" where
  "parseOnionPlaintextV2 parse plaintextBytes =
     bindR (parse plaintextBytes) (\<lambda>obj.
       if \<not> truthy obj \<or> \<not> typeofObject obj then Inl (Error ''parseOnionPlaintextV2 requires object'')
       else if \<not> isInteger (getProp obj ''ttl'') \<or> intOf (getProp obj ''ttl'') < 0 then Inl (Error ''parseOnionPlaintextV2 requires ttl >= 0'')
       else Inr obj)"

section \<open>Wrapping a payload for a path\<close>

text \<open>One entry of \<^verbatim>\<open>meta.onion.path\<close>: the hop's endpoint, its key given directly, or the onion keys of its relay descriptor.\<close>

record onion_hop =
  hop_endpoint :: jsval
  hop_onionPubKeyBytes :: "bytes option"
  hop_onionKeyId :: string
  hop_relayKeys :: "OnionKeyRecordV1 list option"

definition hopKey :: "int \<Rightarrow> onion_hop \<Rightarrow> (string \<times> bytes) result" where
  "hopKey nowMs hop =
     bindR (case hop_relayKeys hop of
              Some ks \<Rightarrow> bindR (selectOnionKeyForSendV1 ks nowMs) (\<lambda>(i, pub, _). Inr (i, Some pub))
            | None \<Rightarrow> Inr (hop_onionKeyId hop, hop_onionPubKeyBytes hop)) (\<lambda>(onionKeyId, pub).
       case pub of
         None \<Rightarrow> Inl (Error ''OnionEncodeCodecV2.encode requires hop.onionPubKeyBytes or relayDescriptor'')
       | Some pk \<Rightarrow> if onionKeyId = [] then Inl (Error ''OnionEncodeCodecV2.encode requires hop.onionKeyId'') else Inr (onionKeyId, pk))"

definition layerPlain :: "int \<Rightarrow> jsval \<Rightarrow> jsval \<Rightarrow> bytes \<Rightarrow> jsval" where
  "layerPlain hopTtl next_ep flags blob =
     JObj [(''v'', JInt 2), (''ttl'', JInt hopTtl), (''next'', next_ep), (''flags'', flags), (''inner'', JStr (bytesToBase64 blob))]"

definition cipherObj :: "int \<Rightarrow> string \<Rightarrow> int \<Rightarrow> bytes \<Rightarrow> bytes \<Rightarrow> jsval" where
  "cipherObj hopIndex onionKeyId hopTtl ephPub ct =
     JObj [(''v'', JInt 2), (''hopIndex'', JInt hopIndex), (''onionKeyId'', JStr onionKeyId), (''ttl'', JInt hopTtl),
           (''ephPub'', JStr (bytesToBase64 ephPub)), (''ct'', JStr (bytesToBase64 ct))]"

definition nextOf :: "onion_hop list \<Rightarrow> jsval \<Rightarrow> nat \<Rightarrow> jsval" where
  "nextOf path finalEndpoint i = (if i + 1 < length path then hop_endpoint (path ! (i + 1)) else finalEndpoint)"

definition encodeHop ::
  "crypto_provider \<Rightarrow> (nat \<Rightarrow> key_pair) \<Rightarrow> onion_hop list \<Rightarrow> jsval \<Rightarrow> int \<Rightarrow> jsval \<Rightarrow> int \<Rightarrow> nat \<Rightarrow> bytes \<Rightarrow> bytes result" where
  "encodeHop c eph path finalEndpoint ttl flags nowMs i blob =
     (let hop = path ! i in
      if \<not> truthy (hop_endpoint hop) \<or> \<not> typeofObject (hop_endpoint hop) then Inl (Error ''OnionEncodeCodecV2.encode requires hop.endpoint'')
      else bindR (hopKey nowMs hop) (\<lambda>(onionKeyId, pub).
        let hopTtl = max 0 (ttl - int i);
            plaintextBytes = encodeJsonBytes (layerPlain hopTtl (nextOf path finalEndpoint i) flags blob)
        in bindR (encryptLayerV2 c (eph i) pub plaintextBytes (int i) hopTtl onionKeyId) (\<lambda>(ephPub, ct).
             Inr (encodeJsonBytes (cipherObj (int i) onionKeyId hopTtl ephPub ct)))))"

text \<open>\<^verbatim>\<open>for (let i = path.length - 1; i >= 0; i -= 1)\<close>: the argument is one more than the index of the next hop to wrap.\<close>

fun encodeHops ::
  "crypto_provider \<Rightarrow> (nat \<Rightarrow> key_pair) \<Rightarrow> onion_hop list \<Rightarrow> jsval \<Rightarrow> int \<Rightarrow> jsval \<Rightarrow> int \<Rightarrow> nat \<Rightarrow> bytes \<Rightarrow> bytes result" where
  "encodeHops c eph path finalEndpoint ttl flags nowMs 0 blob = Inr blob"
| "encodeHops c eph path finalEndpoint ttl flags nowMs (Suc i) blob =
     bindR (encodeHop c eph path finalEndpoint ttl flags nowMs i blob) (encodeHops c eph path finalEndpoint ttl flags nowMs i)"

record onion_meta =
  om_path :: "onion_hop list"
  om_ttl :: "int option"
  om_flags :: jsval
  om_sizeClass :: "int option"
  om_finalEndpoint :: jsval

definition onion_encode ::
  "crypto_provider \<Rightarrow> (nat \<Rightarrow> key_pair) \<Rightarrow> string \<Rightarrow> int \<Rightarrow> int \<Rightarrow> Link list \<Rightarrow> int \<Rightarrow> onion_meta \<Rightarrow> bytes \<Rightarrow> Envelope result" where
  "onion_encode c eph headerId clockMs createdAt links nowMs onion payload =
     (let path = om_path onion; ttl = (case om_ttl onion of Some t \<Rightarrow> t | None \<Rightarrow> int (length path));
          flags = (if isNullish (om_flags onion) then JObj [(''dropOnFail'', JBool True)] else om_flags onion) in
      if path = [] then Inl (Error ''OnionEncodeCodecV2.encode requires meta.onion.path[]'')
      else if ttl < 0 then Inl (Error ''OnionEncodeCodecV2.encode requires ttl >= 0'')
      else if \<not> truthy (om_finalEndpoint onion) \<or> \<not> typeofObject (om_finalEndpoint onion)
      then Inl (Error ''OnionEncodeCodecV2.encode requires meta.onion.finalEndpoint'')
      else bindR (encodeHops c eph path (om_finalEndpoint onion) ttl flags nowMs (length path) payload) (\<lambda>blob.
           bindR (buildFixedOnionPacketV2 blob (om_sizeClass onion)) (\<lambda>packet.
           bindR (newHeader (JStr (if headerId = [] then ''onion-'' @ int_str clockMs else headerId)) (JStr ''rez.onion.v2'') (JInt createdAt) links) (\<lambda>header.
             newEnvelope header (onionPacket_toJSON packet) JUndef))))"

section \<open>Taking a layer off\<close>

text \<open>How a relay finds its private key: a keyring, or a function that may not know the key.\<close>

datatype onion_keys = Keyring OnionKeyringV1 | KeyResolver "string \<Rightarrow> bytes option"

definition resolveKey :: "onion_keys \<Rightarrow> int \<Rightarrow> string \<Rightarrow> bytes result" where
  "resolveKey keys nowMs onionKeyId =
     (case keys of
        Keyring ring \<Rightarrow> getKeyForDecrypt onionKeyId nowMs ring
      | KeyResolver f \<Rightarrow> (case f onionKeyId of Some k \<Rightarrow> Inr k | None \<Rightarrow> Inl (Error ''OnionPeelCodecV2.decode requires keyResolver to return Uint8Array'')))"

record onion_peeled =
  peeled_bytes :: bytes
  peeled_next :: jsval
  peeled_ttl :: int
  peeled_flags :: jsval
  peeled_keyId :: string

definition cipherCheck :: "int option \<Rightarrow> jsval \<Rightarrow> unit result" where
  "cipherCheck expectedHop obj =
     (if getProp obj ''v'' \<noteq> JInt 2 then Inl (Error ''OnionPeelCodecV2.decode requires cipher v=2'')
      else if \<not> isInteger (getProp obj ''hopIndex'') \<or> \<bar>intOf (getProp obj ''hopIndex'')\<bar> > MAX_SAFE_INTEGER \<or> intOf (getProp obj ''hopIndex'') < 0
      then Inl (Error ''OnionPeelCodecV2.decode requires hopIndex >= 0'')
      else if (case expectedHop of Some h \<Rightarrow> h \<noteq> intOf (getProp obj ''hopIndex'') | None \<Rightarrow> False) then Inl (Error ''OnionPeelCodecV2.decode hopIndex mismatch'')
      else if \<not> isString (getProp obj ''onionKeyId'') \<or> strOf (getProp obj ''onionKeyId'') = [] then Inl (Error ''OnionPeelCodecV2.decode requires onionKeyId'')
      else if \<not> isInteger (getProp obj ''ttl'') \<or> intOf (getProp obj ''ttl'') < 0 then Inl (Error ''OnionPeelCodecV2.decode requires cipher ttl >= 0'')
      else Inr ())"

definition openLayer :: "(bytes \<Rightarrow> jsval result) \<Rightarrow> int \<Rightarrow> string \<Rightarrow> int \<Rightarrow> bytes \<Rightarrow> onion_peeled result" where
  "openLayer parse sizeClass onionKeyId ttl plaintextBytes =
     bindR (parseOnionPlaintextV2 parse plaintextBytes) (\<lambda>plain.
       if getProp plain ''v'' \<noteq> JInt 2 then Inl (Error ''OnionPeelCodecV2.decode requires layer v=2'')
       else if getProp plain ''ttl'' \<noteq> JInt ttl then Inl (Error ''OnionPeelCodecV2.decode ttl mismatch'')
       else if \<not> truthy (getProp plain ''next'') \<or> \<not> typeofObject (getProp plain ''next'') then Inl (Error ''OnionPeelCodecV2.decode requires next endpoint'')
       else if ttl \<le> 0 then Inl (Error ''OnionTTLExpired'')
       else bindR (codecBytes ''OnionPeelCodecV2'' ''inner'' (getProp plain ''inner'')) (\<lambda>innerBytes.
         if int (length innerBytes) > sizeClass then Inl (Error ''OnionPeelCodecV2.decode inner exceeds sizeClass'')
         else Inr \<lparr>peeled_bytes = padTo sizeClass innerBytes, peeled_next = getProp plain ''next'', peeled_ttl = ttl - 1,
                   peeled_flags = getProp plain ''flags'', peeled_keyId = onionKeyId\<rparr>))"

text \<open>\<^verbatim>\<open>if (this.replayCache) this.replayCache.checkAndMark(...)\<close>\<close>

definition markReplay :: "string \<Rightarrow> int \<Rightarrow> string \<Rightarrow> OnionReplayCacheV2 option \<Rightarrow> OnionReplayCacheV2 option result" where
  "markReplay packetIdHex hopIndex onionKeyId cache =
     (case cache of None \<Rightarrow> Inr None | Some rc \<Rightarrow> bindR (checkAndMark packetIdHex hopIndex onionKeyId rc) (\<lambda>rc'. Inr (Some rc')))"

definition onion_peel ::
  "crypto_provider \<Rightarrow> (bytes \<Rightarrow> jsval result) \<Rightarrow> onion_keys \<Rightarrow> int \<Rightarrow> int option \<Rightarrow> OnionReplayCacheV2 option \<Rightarrow> Envelope
   \<Rightarrow> OnionReplayCacheV2 option \<times> onion_peeled result" where
  "onion_peel c parse keys nowMs expectedHop cache envelope =
     (if header_type (env_header envelope) \<noteq> ''rez.onion.v2'' then (cache, Inl (Error ''OnionPeelCodecV2.decode requires rez.onion.v2 envelope''))
      else case bindR (onionPacket_fromJSON (env_body envelope)) (\<lambda>packet. bindR (hashSha256 c (op_payload packet)) (\<lambda>packetId.
                bindR (parseOnionLayerV2 parse (op_payload packet)) (\<lambda>obj. bindR (cipherCheck expectedHop obj) (\<lambda>_. Inr (packet, packetId, obj))))) of
             Inl e \<Rightarrow> (cache, Inl e)
           | Inr (packet, packetId, obj) \<Rightarrow>
               (let hopIndex = intOf (getProp obj ''hopIndex''); onionKeyId = strOf (getProp obj ''onionKeyId'') in
                case markReplay (bytesToHex packetId) hopIndex onionKeyId cache of
                  Inl e \<Rightarrow> (cache, Inl e)
                | Inr cache' \<Rightarrow>
                    (cache', bindR (resolveKey keys nowMs onionKeyId) (\<lambda>priv. bindR (decryptLayerV2 c priv obj hopIndex) (\<lambda>plaintextBytes.
                       openLayer parse (op_sizeClass packet) onionKeyId (intOf (getProp obj ''ttl'')) plaintextBytes)))))"

text \<open>\<^verbatim>\<open>OnionPathBuilder.build\<close>: the first relays with different endpoints.\<close>

fun uniqueRelays :: "string list \<Rightarrow> onion_hop list \<Rightarrow> onion_hop list" where
  "uniqueRelays seen [] = []"
| "uniqueRelays seen (r # rs) =
     (let key = (case jsonStringify (hop_endpoint r) of Some s \<Rightarrow> s | None \<Rightarrow> ''undefined'')
      in if key \<in> set seen then uniqueRelays seen rs else r # uniqueRelays (key # seen) rs)"

definition buildPath :: "onion_hop list \<Rightarrow> int \<Rightarrow> onion_hop list result" where
  "buildPath relays hopCount =
     (if relays = [] then Inl (Error ''OnionPathBuilder.build requires relays[]'')
      else if hopCount \<le> 0 then Inl (Error ''OnionPathBuilder.build requires hopCount > 0'')
      else let unique = uniqueRelays [] relays
           in if int (length unique) < hopCount then Inl (Error ''OnionPathBuilder.build requires enough unique relays'')
              else Inr (take (nat hopCount) unique))"

section \<open>JSON texts of layers\<close>

text \<open>Data that a parser gives back unchanged, and that canonical printing keeps so.\<close>

definition plainData :: "jsval \<Rightarrow> bool" where
  "plainData v \<longleftrightarrow> json_data v \<and> wf_js v \<and> propStable v"

lemma plainData_simps [simp]:
  "plainData (JInt i)" "plainData (JStr s)" "plainData (JBool b)" "plainData JNull"
  "plainData (JObj kvs) \<longleftrightarrow> distinct (map fst kvs) \<and> (\<forall>p\<in>set kvs. \<not> isIndexEntry p \<and> plainData (snd p))"
  by (simp_all add: plainData_def list_all_iff snds.simps) blast

definition plainKeys :: "string list \<Rightarrow> bool" where
  "plainKeys ks \<longleftrightarrow> distinct ks \<and> (\<forall>k\<in>set ks. arrayIndex k = None \<and> k \<noteq> ''__proto__'')"

lemma plainKeys_distinct: "plainKeys (map fst kvs) \<Longrightarrow> distinct (map fst kvs)"
  by (simp add: plainKeys_def)

lemma canonical_members:
  assumes "plainKeys (map fst kvs)"
  shows "\<exists>ms. canonicalize (JObj kvs) = JObj ms \<and> set ms = map_prod id canonicalize ` set kvs \<and> distinct (map fst ms)"
proof -
  let ?F = "filter (\<lambda>p. fst p \<noteq> ''__proto__'') (sort_key fst (map (map_prod id canonicalize) kvs))"
  have d: "distinct (map fst kvs)" using assms by (rule plainKeys_distinct)
  have "distinct (map fst (sort_key fst (map (map_prod id canonicalize) kvs)))" using d by (intro distinct_sort_entries) simp
  then have "distinct (map fst ?F)" by (rule distinct_map_filter)
  moreover have "mset (map fst (propOrder ?F)) = mset (map fst ?F)" by (simp only: mset_map mset_propOrder)
  ultimately have "distinct (map fst (propOrder ?F))" using mset_eq_imp_distinct_iff by blast
  moreover have "set (propOrder ?F) = map_prod id canonicalize ` set kvs" using assms by (auto simp: plainKeys_def)
  ultimately show ?thesis using canonicalize_JObj [OF d] by blast
qed

lemma plainData_canonicalize:
  assumes "plainKeys (map fst kvs)" "\<forall>p\<in>set kvs. plainData (canonicalize (snd p))"
  shows "plainData (canonicalize (JObj kvs))"
proof -
  from canonical_members [OF assms(1)] obtain ms where
    "canonicalize (JObj kvs) = JObj ms" "set ms = map_prod id canonicalize ` set kvs" "distinct (map fst ms)" by blast
  then show ?thesis using assms by (auto simp: plainKeys_def isIndexEntry_def simp del: canonicalize.simps(8))
qed

lemma encodeJsonBytes_stringify: "encodeJsonBytes v = stringifyBytes (canonicalize v)"
  by (simp add: encodeJsonBytes_def stringifyBytes_def canonicalJSONStringify_def)

lemma parse_encoded: "parse_lawful parse \<Longrightarrow> plainData (canonicalize v) \<Longrightarrow> parse (encodeJsonBytes v) = Inr (canonicalize v)"
  by (simp add: encodeJsonBytes_stringify parse_lawful_def plainData_def)

lemma utf8Encode_append: "utf8Encode (a @ b) = utf8Encode a @ utf8Encode b"
  by (simp add: utf8Encode_def)

lemma encodeJsonBytes_end:
  assumes "plainKeys (map fst kvs)"
  shows "\<exists>bs. encodeJsonBytes (JObj kvs) = bs @ [125]"
proof -
  from canonical_members [OF assms] obtain ms where "canonicalize (JObj kvs) = JObj ms" by blast
  moreover have "utf8Encode ''}'' = [125]" by code_simp
  ultimately show ?thesis by (auto simp: encodeJsonBytes_stringify stringifyBytes_def utf8Encode_append simp flip: append_assoc append_Cons simp del: canonicalize.simps(8))
qed

lemma trimTrailingZeros_pad: "trimTrailingZeros (padTo n (bs @ [125])) = bs @ [125]"
proof -
  have "dropWhile (\<lambda>b. b = 0) (replicate k 0 @ 125 # r) = (125 :: byte) # r" for k r by (induction k) auto
  then show ?thesis by (simp add: trimTrailingZeros_def padTo_def)
qed

text \<open>The text of an object is at least as long as any string in it.\<close>

lemma length_utf8Encode: "length s \<le> length (utf8Encode s)"
  by (induction s) (auto simp: utf8Encode_def utf8Char_def Let_def)

lemma length_escaped: "length s \<le> length (quoteStr s)"
proof -
  have pos: "0 < length (escChar ch)" for ch by (simp add: escChar_def Let_def)
  have "1 + n \<le> length (escChar ch @ t)" if "n \<le> length t" for ch n t
    using that pos [of ch] unfolding length_append by linarith
  then have "length s \<le> length (concat (map escChar s))" by (induction s) simp_all
  then show ?thesis by (simp add: quoteStr_def)
qed

lemma length_join: "s \<in> set ss \<Longrightarrow> length s \<le> length (join sep ss)"
  by (induction sep ss rule: join.induct) auto

lemma encoded_member_length:
  assumes "plainKeys (map fst kvs)" "(k, JStr s) \<in> set kvs"
  shows "length s \<le> length (encodeJsonBytes (JObj kvs))"
proof -
  from canonical_members [OF assms(1)] obtain ms where
    ms: "canonicalize (JObj kvs) = JObj ms" "set ms = map_prod id canonicalize ` set kvs" by blast
  have "(k, JStr s) \<in> set ms" using assms(2) ms(2) by force
  then have "quoteStr k @ '':'' @ quoteStr s \<in> set (List.map_filter jsonMember (map (map_prod id jsonStringify) ms))"
    by (force simp: map_filter_def jsonMember_def image_iff)
  then have "length s \<le> length (join '','' (List.map_filter jsonMember (map (map_prod id jsonStringify) ms)))"
    using length_join [of "quoteStr k @ '':'' @ quoteStr s" _ "'',''"] length_escaped [of s] by force
  then have "length s \<le> length (the (jsonStringify (JObj ms)))" by simp
  then show ?thesis using length_utf8Encode [of "the (jsonStringify (JObj ms))"] unfolding encodeJsonBytes_stringify ms(1) stringifyBytes_def by simp
qed

section \<open>One layer\<close>

text \<open>The ciphertext of AES-GCM is the plaintext's length plus the tag.\<close>

definition aead_sized :: "crypto_provider \<Rightarrow> bool" where
  "aead_sized c \<longleftrightarrow> (\<forall>key nonce pt aad ct. aeadEncrypt c key nonce pt aad = Inr ct \<longrightarrow> length ct = length pt + 16)"

text \<open>A sender's ephemeral pair and a relay's pair agree on a secret.\<close>

definition onion_agree :: "crypto_provider \<Rightarrow> key_pair \<Rightarrow> key_pair \<Rightarrow> bool" where
  "onion_agree c e r \<longleftrightarrow> dh_agree c e r \<and> (\<exists>s. dhDerive c (privateKey e) (publicKey r) ''X25519'' ''spki'' = Inr s)"

lemma layer_sealed:
  assumes "hkdf_lawful c" "aead_lawful c" "aead_sized c" "onion_agree c e r" "0 \<le> i" "0 \<le> ttl" "kid \<noteq> []"
  obtains ct where "encryptLayerV2 c e (publicKey r) plain i ttl kid = Inr (publicKey e, ct)" "length ct = length plain + 16"
    "\<And>obj. truthy obj \<Longrightarrow> typeofObject obj \<Longrightarrow> getProp obj ''onionKeyId'' = JStr kid \<Longrightarrow> getProp obj ''ttl'' = JInt ttl
       \<Longrightarrow> getProp obj ''ephPub'' = JStr (bytesToBase64 (publicKey e)) \<Longrightarrow> getProp obj ''ct'' = JStr (bytesToBase64 ct)
       \<Longrightarrow> decryptLayerV2 c (privateKey r) obj i = Inr plain"
proof -
  from assms(4) obtain s where s: "dhDerive c (privateKey e) (publicKey r) ''X25519'' ''spki'' = Inr s" "dhDerive c (privateKey r) (publicKey e) ''X25519'' ''spki'' = Inr s"
    by (metis dh_agree_def onion_agree_def)
  from assms(1) obtain out where out: "hkdfSha256 c s [] (ONION_INFO_LABEL @ u32be i) 44 = Inr out" "length out = 44" unfolding hkdf_lawful_def by blast
  let ?k = "subarray 0 32 out" and ?n = "subarray 32 44 out"
  have d: "deriveOnionAeadKeyNonceV2 c s i = Inr (?k, ?n)" "length ?k = 32" "length ?n = 12"
    using out assms(5) by (simp_all add: deriveOnionAeadKeyNonceV2_def)
  from assms(2) obtain ct where ct: "aeadEncrypt c ?k ?n plain (onion_aadBytes i ttl kid) = Inr ct" "16 \<le> length ct"
    "aeadDecrypt c ?k ?n ct (onion_aadBytes i ttl kid) = Inr plain" unfolding aead_lawful_def by blast
  show thesis
  proof (rule that [of ct])
    show "encryptLayerV2 c e (publicKey r) plain i ttl kid = Inr (publicKey e, ct)"
      using s(1) d ct(1) assms(5-7) by (simp add: encryptLayerV2_def encryptAes256Gcm_def)
    show "length ct = length plain + 16" using assms(3) ct(1) unfolding aead_sized_def by blast
    show "decryptLayerV2 c (privateKey r) obj i = Inr plain"
      if "truthy obj" "typeofObject obj" "getProp obj ''onionKeyId'' = JStr kid" "getProp obj ''ttl'' = JInt ttl"
        "getProp obj ''ephPub'' = JStr (bytesToBase64 (publicKey e))" "getProp obj ''ct'' = JStr (bytesToBase64 ct)" for obj
      using s(2) d ct assms(5-7) that by (simp add: decryptLayerV2_def decryptAes256Gcm_def codecBytes_def b64.dec_enc)
  qed
qed

lemma canonicalize_object: "truthy v \<Longrightarrow> typeofObject v \<Longrightarrow> truthy (canonicalize v) \<and> typeofObject (canonicalize v)"
  by (cases v) auto

lemma plain_cipher_keys: "plainKeys (map fst [(''v'', a), (''hopIndex'', b), (''onionKeyId'', c), (''ttl'', d), (''ephPub'', e), (''ct'', f)])"
  by (simp add: plainKeys_def not_index_key isDigit_def)

lemma plain_layer_keys: "plainKeys (map fst [(''v'', a), (''ttl'', b), (''next'', c), (''flags'', d), (''inner'', e)])"
  by (simp add: plainKeys_def not_index_key isDigit_def)

lemma cipherObj_read:
  assumes v_def: "v = canonicalize (cipherObj i kid ttl ephPub ct)"
  shows "plainData v" "truthy v" "typeofObject v" "getProp v ''v'' = JInt 2" "getProp v ''hopIndex'' = JInt i" "getProp v ''onionKeyId'' = JStr kid"
    "getProp v ''ttl'' = JInt ttl" "getProp v ''ephPub'' = JStr (bytesToBase64 ephPub)" "getProp v ''ct'' = JStr (bytesToBase64 ct)"
proof -
  let ?kvs = "[(''v'', JInt 2), (''hopIndex'', JInt i), (''onionKeyId'', JStr kid), (''ttl'', JInt ttl),
           (''ephPub'', JStr (bytesToBase64 ephPub)), (''ct'', JStr (bytesToBase64 ct))]"
  show "plainData v" unfolding v_def cipherObj_def by (rule plainData_canonicalize [OF plain_cipher_keys]) simp
  have v: "v = canonicalize (JObj ?kvs)" unfolding v_def cipherObj_def ..
  show "truthy v" "typeofObject v" using canonicalize_object [of "JObj ?kvs"] unfolding v by simp_all
  have g: "getProp v k = canonicalize (getProp (JObj ?kvs) k)" if "k \<noteq> ''__proto__''" for k
    unfolding v by (rule getProp_canonicalize [OF plainKeys_distinct [OF plain_cipher_keys] that])
  show "getProp v ''v'' = JInt 2" "getProp v ''hopIndex'' = JInt i" "getProp v ''onionKeyId'' = JStr kid"
    "getProp v ''ttl'' = JInt ttl" "getProp v ''ephPub'' = JStr (bytesToBase64 ephPub)" "getProp v ''ct'' = JStr (bytesToBase64 ct)"
    by (simp_all add: g)
qed

lemma layerPlain_read:
  assumes "plainData (canonicalize nx)" "plainData (canonicalize fl)" and v_def: "v = canonicalize (layerPlain ttl nx fl blob)"
  shows "plainData v" "truthy v" "typeofObject v" "getProp v ''v'' = JInt 2" "getProp v ''ttl'' = JInt ttl" "getProp v ''next'' = canonicalize nx"
    "getProp v ''flags'' = canonicalize fl" "getProp v ''inner'' = JStr (bytesToBase64 blob)"
proof -
  let ?kvs = "[(''v'', JInt 2), (''ttl'', JInt ttl), (''next'', nx), (''flags'', fl), (''inner'', JStr (bytesToBase64 blob))]"
  show "plainData v" unfolding v_def layerPlain_def using assms(1,2) by (intro plainData_canonicalize [OF plain_layer_keys]) simp
  have v: "v = canonicalize (JObj ?kvs)" unfolding v_def layerPlain_def ..
  show "truthy v" "typeofObject v" using canonicalize_object [of "JObj ?kvs"] unfolding v by simp_all
  have g: "getProp v k = canonicalize (getProp (JObj ?kvs) k)" if "k \<noteq> ''__proto__''" for k
    unfolding v by (rule getProp_canonicalize [OF plainKeys_distinct [OF plain_layer_keys] that])
  show "getProp v ''v'' = JInt 2" "getProp v ''ttl'' = JInt ttl" "getProp v ''next'' = canonicalize nx"
    "getProp v ''flags'' = canonicalize fl" "getProp v ''inner'' = JStr (bytesToBase64 blob)"
    by (simp_all add: g)
qed

lemma base64_longer: "length bs \<le> length (bytesToBase64 bs)"
  unfolding length_bytesToBase64 by linarith

section \<open>One hop\<close>

definition hop_ready :: "crypto_provider \<Rightarrow> key_pair \<Rightarrow> int \<Rightarrow> onion_keys \<Rightarrow> onion_hop \<Rightarrow> bool" where
  "hop_ready c e now keys hop \<longleftrightarrow> truthy (hop_endpoint hop) \<and> typeofObject (hop_endpoint hop)
     \<and> (\<exists>kid r. hopKey now hop = Inr (kid, publicKey r) \<and> resolveKey keys now kid = Inr (privateKey r) \<and> onion_agree c e r)"

definition cache_fresh :: "OnionReplayCacheV2 option \<Rightarrow> bool" where
  "cache_fresh cache \<longleftrightarrow> (case cache of None \<Rightarrow> True | Some rc \<Rightarrow> rc_map rc = [])"

text \<open>What a relay that holds the hop's key reads from the sealed blob.\<close>

definition opens_to :: "crypto_provider \<Rightarrow> onion_keys \<Rightarrow> int \<Rightarrow> nat \<Rightarrow> int \<Rightarrow> bytes \<Rightarrow> bytes \<Rightarrow> bool" where
  "opens_to c keys now i ttl plain blob \<longleftrightarrow>
     (\<exists>kid priv ephPub ct. blob = encodeJsonBytes (cipherObj (int i) kid ttl ephPub ct) \<and> kid \<noteq> [] \<and> resolveKey keys now kid = Inr priv
        \<and> length plain \<le> length ct \<and> decryptLayerV2 c priv (canonicalize (cipherObj (int i) kid ttl ephPub ct)) (int i) = Inr plain)"

lemma encodeHop_opens:
  assumes "hkdf_lawful c" "aead_lawful c" "aead_sized c" and r: "hop_ready c (eph i) now keys (path ! i)"
  shows "\<exists>blob'. encodeHop c eph path fin ttl flags now i blob = Inr blob'
    \<and> opens_to c keys now i (max 0 (ttl - int i)) (encodeJsonBytes (layerPlain (max 0 (ttl - int i)) (nextOf path fin i) flags blob)) blob'"
proof -
  let ?t = "max 0 (ttl - int i)" let ?p = "encodeJsonBytes (layerPlain ?t (nextOf path fin i) flags blob)"
  from r obtain kid rk where k: "hopKey now (path ! i) = Inr (kid, publicKey rk)" "resolveKey keys now kid = Inr (privateKey rk)" "onion_agree c (eph i) rk"
    unfolding hop_ready_def by blast
  have kid: "kid \<noteq> []" using k(1) by (auto simp: hopKey_def bindR_eq_Inr split: option.splits if_splits prod.splits)
  from layer_sealed [OF assms(1-3) k(3), of "int i" ?t kid ?p] kid obtain ct where
    e: "encryptLayerV2 c (eph i) (publicKey rk) ?p (int i) ?t kid = Inr (publicKey (eph i), ct)" and l: "length ct = length ?p + 16"
    and d: "decryptLayerV2 c (privateKey rk) (canonicalize (cipherObj (int i) kid ?t (publicKey (eph i)) ct)) (int i) = Inr ?p"
    using cipherObj_read [OF refl, of "int i" kid ?t "publicKey (eph i)"] by (metis max.cobounded1 of_nat_0_le_iff)
  have "encodeHop c eph path fin ttl flags now i blob = Inr (encodeJsonBytes (cipherObj (int i) kid ?t (publicKey (eph i)) ct))"
    using r k(1) e by (simp add: encodeHop_def hop_ready_def Let_def)
  then show ?thesis using kid k(2) l d unfolding opens_to_def by (intro exI conjI) auto
qed

definition onionEnvelope :: "Header \<Rightarrow> int \<Rightarrow> bytes \<Rightarrow> Envelope" where
  "onionEnvelope h sz payload = \<lparr>env_header = h, env_body = onionPacket_toJSON \<lparr>op_sizeClass = sz, op_payload = payload\<rparr>, env_meta = JUndef\<rparr>"

definition onion_header :: "Header \<Rightarrow> bool" where
  "onion_header h \<longleftrightarrow> header_type h = ''rez.onion.v2''"

lemma length_padTo: "int (length bs) \<le> n \<Longrightarrow> int (length (padTo n bs)) = n"
  by (simp add: padTo_def)

lemma size_classes: "s \<in> set ONION_V2_SIZE_CLASSES \<Longrightarrow> 0 < s \<and> s \<le> MAX_ONION_SIZE"
  by (auto simp: ONION_V2_SIZE_CLASSES_def MAX_ONION_SIZE_def)

lemma packet_reparsed:
  assumes "sz \<in> set ONION_V2_SIZE_CLASSES" "int (length bs) = sz"
  shows "onionPacket_fromJSON (onionPacket_toJSON \<lparr>op_sizeClass = sz, op_payload = bs\<rparr>) = Inr \<lparr>op_sizeClass = sz, op_payload = bs\<rparr>"
  using assms size_classes [OF assms(1)] by (simp add: onionPacket_fromJSON_def onionPacket_toJSON_def newOnionPacketV2_def)

lemma parse_layer:
  assumes "parse_lawful parse" "int i \<le> MAX_SAFE_INTEGER" "0 \<le> ttl"
  shows "parseOnionLayerV2 parse (padTo sz (encodeJsonBytes (cipherObj (int i) kid ttl ephPub ct))) = Inr (canonicalize (cipherObj (int i) kid ttl ephPub ct))"
proof -
  let ?v = "cipherObj (int i) kid ttl ephPub ct"
  note read = cipherObj_read [OF refl, of "int i" kid ttl ephPub ct]
  obtain bs where bs: "encodeJsonBytes ?v = bs @ [125]" using encodeJsonBytes_end [OF plain_cipher_keys] unfolding cipherObj_def by blast
  have "parse (bs @ [125]) = Inr (canonicalize ?v)" using parse_encoded [OF assms(1) read(1)] bs by simp
  then show ?thesis using read assms(2,3) unfolding bs parseOnionLayerV2_def trimTrailingZeros_pad by simp
qed

lemma checkAndMark_fresh:
  assumes "cache_fresh cache" "hex \<noteq> []" "0 \<le> i" "kid \<noteq> []"
  shows "\<exists>cache'. markReplay hex i kid cache = Inr cache'"
  using assms by (auto simp: markReplay_def cache_fresh_def checkAndMark_def Let_def split: option.splits)

lemma peel_opens:
  assumes law: "hash_lawful c" "parse_lawful parse" and o: "opens_to c keys now i ttl (encodeJsonBytes (layerPlain ttl nx fl blob)) blob'"
    and sz: "sz \<in> set ONION_V2_SIZE_CLASSES" "int (length blob') \<le> sz" and i: "int i \<le> MAX_SAFE_INTEGER" and ttl: "0 < ttl"
    and nx: "plainData (canonicalize nx)" "plainData (canonicalize fl)" "truthy nx" "typeofObject nx"
    and h: "onion_header h" and cache: "cache_fresh cache"
  shows "\<exists>kid. snd (onion_peel c parse keys now (Some (int i)) cache (onionEnvelope h sz (padTo sz blob')))
      = Inr \<lparr>peeled_bytes = padTo sz blob, peeled_next = canonicalize nx, peeled_ttl = ttl - 1, peeled_flags = canonicalize fl, peeled_keyId = kid\<rparr>
    \<and> int (length blob) \<le> sz"
proof -
  let ?l = "layerPlain ttl nx fl blob"
  from o obtain kid priv ephPub ct where b: "blob' = encodeJsonBytes (cipherObj (int i) kid ttl ephPub ct)" "kid \<noteq> []" "resolveKey keys now kid = Inr priv"
    "length (encodeJsonBytes ?l) \<le> length ct" "decryptLayerV2 c priv (canonicalize (cipherObj (int i) kid ttl ephPub ct)) (int i) = Inr (encodeJsonBytes ?l)"
    unfolding opens_to_def by blast
  let ?v = "canonicalize (cipherObj (int i) kid ttl ephPub ct)"
  note read = cipherObj_read [OF refl, of "int i" kid ttl ephPub ct] and plain = layerPlain_read [OF nx(1,2) refl, of ttl blob]
  have "length (bytesToBase64 blob) \<le> length (encodeJsonBytes ?l)" unfolding layerPlain_def by (rule encoded_member_length [OF plain_layer_keys, where k = "''inner''"]) simp
  also note b(4)
  also have "length ct \<le> length (bytesToBase64 ct)" by (rule base64_longer)
  also have "length (bytesToBase64 ct) \<le> length blob'" unfolding b(1) cipherObj_def by (rule encoded_member_length [OF plain_cipher_keys, where k = "''ct''"]) simp
  finally have len: "int (length blob) \<le> sz" using base64_longer [of blob] sz(2) by linarith
  from law(1) obtain hs where hs: "hashSha256 c (padTo sz blob') = Inr hs" "length hs = 32" unfolding hash_lawful_def by blast
  have "length (bytesToHex hs) = 64" using hs(2) by (simp add: length_bytesToHex)
  then have hex: "bytesToHex hs \<noteq> []" by force
  obtain cache' where c': "markReplay (bytesToHex hs) (int i) kid cache = Inr cache'"
    using checkAndMark_fresh [OF cache hex, of "int i" kid] b(2) by auto
  have ck: "cipherCheck (Some (int i)) ?v = Inr ()" using read i ttl b(2) by (simp add: cipherCheck_def)
  have pl: "parseOnionLayerV2 parse (padTo sz blob') = Inr ?v" unfolding b(1) using parse_layer [OF law(2) i] ttl by simp
  have op: "openLayer parse sz kid ttl (encodeJsonBytes ?l)
    = Inr \<lparr>peeled_bytes = padTo sz blob, peeled_next = canonicalize nx, peeled_ttl = ttl - 1, peeled_flags = canonicalize fl, peeled_keyId = kid\<rparr>"
    using parse_encoded [OF law(2) plain(1)] plain ttl len canonicalize_object [OF nx(3,4)]
    by (simp add: openLayer_def parseOnionPlaintextV2_def codecBytes_def b64.dec_enc)
  have "snd (onion_peel c parse keys now (Some (int i)) cache (onionEnvelope h sz (padTo sz blob'))) = openLayer parse sz kid ttl (encodeJsonBytes ?l)"
    using h packet_reparsed [OF sz(1) length_padTo [OF sz(2)]] hs(1) pl ck c' b(3,5) read
    by (simp add: onion_peel_def onionEnvelope_def onion_header_def Let_def)
  then show ?thesis using op len by auto
qed

section \<open>The whole path\<close>

text \<open>
  The relays of a path one after the other: relay \<open>i\<close> takes its layer off and hands the bytes on in a packet of the same size class. The list collects
  what each of them learns.
\<close>

fun peelPath ::
  "crypto_provider \<Rightarrow> (bytes \<Rightarrow> jsval result) \<Rightarrow> (nat \<Rightarrow> onion_keys) \<Rightarrow> (nat \<Rightarrow> OnionReplayCacheV2 option) \<Rightarrow> int \<Rightarrow> Header \<Rightarrow> int
   \<Rightarrow> nat \<Rightarrow> nat \<Rightarrow> Envelope \<Rightarrow> onion_peeled list result" where
  "peelPath c parse keys caches now h sz i 0 env = Inr []"
| "peelPath c parse keys caches now h sz i (Suc n) env =
     bindR (snd (onion_peel c parse (keys i) now (Some (int i)) (caches i) env)) (\<lambda>p.
     bindR (peelPath c parse keys caches now h sz (Suc i) n (onionEnvelope h sz (peeled_bytes p))) (\<lambda>ps. Inr (p # ps)))"

lemma encodeHops_append:
  "encodeHops c eph path fin ttl fl now (Suc i) blob
   = bindR (encodeHop c eph path fin ttl fl now i blob) (encodeHops c eph path fin ttl fl now i)"
  by simp

text \<open>The blobs between the hops: \<open>bs ! i\<close> is what reaches hop \<open>i\<close>, the last one is the payload.\<close>

lemma encodeHops_blobs:
  assumes "hkdf_lawful c" "aead_lawful c" "aead_sized c" "\<forall>i < n. hop_ready c (eph i) now (keys i) (path ! i)"
  shows "\<exists>bs. length bs = Suc n \<and> bs ! n = payload \<and> encodeHops c eph path fin ttl fl now n payload = Inr (bs ! 0)
    \<and> (\<forall>i < n. opens_to c (keys i) now i (max 0 (ttl - int i)) (encodeJsonBytes (layerPlain (max 0 (ttl - int i)) (nextOf path fin i) fl (bs ! Suc i))) (bs ! i))"
  using assms(4)
proof (induction n arbitrary: payload)
  case 0
  show ?case by (rule exI [of _ "[payload]"]) simp
next
  case (Suc n)
  then have "hop_ready c (eph n) now (keys n) (path ! n)" by simp
  from encodeHop_opens [where i = n and eph = eph and path = path, OF assms(1-3) this, of fin ttl fl payload] obtain blob where
    b: "encodeHop c eph path fin ttl fl now n payload = Inr blob"
      "opens_to c (keys n) now n (max 0 (ttl - int n)) (encodeJsonBytes (layerPlain (max 0 (ttl - int n)) (nextOf path fin n) fl payload)) blob" by blast
  from Suc.IH [of blob] Suc.prems obtain bs where
    bs: "length bs = Suc n" "bs ! n = blob" "encodeHops c eph path fin ttl fl now n blob = Inr (bs ! 0)"
      "\<forall>i < n. opens_to c (keys i) now i (max 0 (ttl - int i)) (encodeJsonBytes (layerPlain (max 0 (ttl - int i)) (nextOf path fin i) fl (bs ! Suc i))) (bs ! i)"
    by auto
  show ?case
  proof (intro exI [of _ "bs @ [payload]"] conjI allI impI)
    fix i assume "i < Suc n"
    then show "opens_to c (keys i) now i (max 0 (ttl - int i))
      (encodeJsonBytes (layerPlain (max 0 (ttl - int i)) (nextOf path fin i) fl ((bs @ [payload]) ! Suc i))) ((bs @ [payload]) ! i)"
      using b(2) bs(1,2,4) by (cases "i = n") (auto simp: nth_append)
  qed (use bs b(1) in \<open>auto simp: nth_append\<close>)
qed

definition path_readable :: "onion_hop list \<Rightarrow> jsval \<Rightarrow> jsval \<Rightarrow> bool" where
  "path_readable path fin fl \<longleftrightarrow> plainData (canonicalize fl)
     \<and> (\<forall>ep\<in>set (fin # map hop_endpoint path). plainData (canonicalize ep) \<and> truthy ep \<and> typeofObject ep)"

lemma nextOf_readable: "path_readable path fin fl \<Longrightarrow> i < length path
    \<Longrightarrow> plainData (canonicalize (nextOf path fin i)) \<and> truthy (nextOf path fin i) \<and> typeofObject (nextOf path fin i)"
  by (auto simp: path_readable_def nextOf_def)

lemma peelPath_blobs:
  assumes law: "hash_lawful c" "parse_lawful parse" and bs: "length bs = Suc (length path)"
      "\<forall>i < length path. opens_to c (keys i) now i (max 0 (ttl - int i)) (encodeJsonBytes (layerPlain (max 0 (ttl - int i)) (nextOf path fin i) fl (bs ! Suc i))) (bs ! i)"
    and read: "path_readable path fin fl" and sz: "sz \<in> set ONION_V2_SIZE_CLASSES" and ttl: "int (length path) \<le> ttl" "int (length path) \<le> MAX_SAFE_INTEGER"
    and h: "onion_header h" and cache: "\<forall>i. cache_fresh (caches i)"
  shows "i + n = length path \<Longrightarrow> int (length (bs ! i)) \<le> sz \<Longrightarrow> onion_header h0
    \<Longrightarrow> \<exists>ps. peelPath c parse keys caches now h sz i n (onionEnvelope h0 sz (padTo sz (bs ! i))) = Inr ps \<and> length ps = n
      \<and> (\<forall>j < n. peeled_next (ps ! j) = canonicalize (nextOf path fin (i + j)) \<and> peeled_ttl (ps ! j) = ttl - int (i + j) - 1
            \<and> peeled_flags (ps ! j) = canonicalize fl \<and> peeled_bytes (ps ! j) = padTo sz (bs ! (i + j + 1)))"
proof (induction n arbitrary: i h0)
  case (Suc n)
  then have i: "i < length path" by simp
  then have o: "opens_to c (keys i) now i (ttl - int i) (encodeJsonBytes (layerPlain (ttl - int i) (nextOf path fin i) fl (bs ! Suc i))) (bs ! i)"
    using bs(2) ttl by (simp add: max_def split: if_splits)
  have fl: "plainData (canonicalize fl)" using read by (simp add: path_readable_def)
  have ce: "cache_fresh (caches i)" using cache by blast
  from peel_opens [OF law o sz Suc.prems(2) _ _ _ fl _ _ Suc.prems(3) ce] nextOf_readable [OF read i] i ttl obtain kid where
    p: "snd (onion_peel c parse (keys i) now (Some (int i)) (caches i) (onionEnvelope h0 sz (padTo sz (bs ! i))))
      = Inr \<lparr>peeled_bytes = padTo sz (bs ! Suc i), peeled_next = canonicalize (nextOf path fin i), peeled_ttl = ttl - int i - 1, peeled_flags = canonicalize fl, peeled_keyId = kid\<rparr>"
    and l: "int (length (bs ! Suc i)) \<le> sz" by (auto)
  from Suc.IH [OF _ l h] Suc.prems(1) obtain ps where
    ps: "peelPath c parse keys caches now h sz (Suc i) n (onionEnvelope h sz (padTo sz (bs ! Suc i))) = Inr ps" "length ps = n"
      "\<forall>j < n. peeled_next (ps ! j) = canonicalize (nextOf path fin (Suc i + j)) \<and> peeled_ttl (ps ! j) = ttl - int (Suc i + j) - 1
            \<and> peeled_flags (ps ! j) = canonicalize fl \<and> peeled_bytes (ps ! j) = padTo sz (bs ! (Suc i + j + 1))" by auto
  let ?p = "\<lparr>peeled_bytes = padTo sz (bs ! Suc i), peeled_next = canonicalize (nextOf path fin i), peeled_ttl = ttl - int i - 1, peeled_flags = canonicalize fl, peeled_keyId = kid\<rparr>"
  show ?case
  proof (intro exI [of _ "?p # ps"] conjI allI impI)
    show "peelPath c parse keys caches now h sz i (Suc n) (onionEnvelope h0 sz (padTo sz (bs ! i))) = Inr (?p # ps)" using p ps(1) by simp
    fix j assume "j < Suc n"
    then show "peeled_next ((?p # ps) ! j) = canonicalize (nextOf path fin (i + j))" "peeled_ttl ((?p # ps) ! j) = ttl - int (i + j) - 1"
      "peeled_flags ((?p # ps) ! j) = canonicalize fl" "peeled_bytes ((?p # ps) ! j) = padTo sz (bs ! (i + j + 1))"
      using ps(3) by (cases j; simp)+
  qed (use ps(2) in simp)
qed simp

lemma buildFixed_cases:
  assumes "buildFixedOnionPacketV2 blob szc = Inr p"
  shows "\<exists>sz. p = \<lparr>op_sizeClass = sz, op_payload = padTo sz blob\<rparr> \<and> sz \<in> set ONION_V2_SIZE_CLASSES \<and> int (length blob) \<le> sz"
  using assms by (auto simp: buildFixedOnionPacketV2_def newOnionPacketV2_def split: option.splits if_splits)

section \<open>Properties\<close>


definition demo_endpoint :: "int \<Rightarrow> jsval" where
  "demo_endpoint port = JObj [(''host'', JStr ''h''), (''port'', JInt port)]"

definition demo_onion :: onion_meta where
  "demo_onion = \<lparr>om_path = map (\<lambda>b. \<lparr>hop_endpoint = demo_endpoint (1110 + int b), hop_onionPubKeyBytes = Some (publicKey (demo_keys (of_nat b))),
       hop_onionKeyId = ''k'' @ nat_str b, hop_relayKeys = None\<rparr>) [1, 2],
     om_ttl = Some 2, om_flags = JObj [(''dropOnFail'', JBool True)], om_sizeClass = None, om_finalEndpoint = demo_endpoint 4444\<rparr>"

definition demo_relay_keys :: "nat \<Rightarrow> onion_keys" where
  "demo_relay_keys i = KeyResolver (\<lambda>kid. Some (privateKey (demo_keys (of_nat (Suc i)))))"

definition demo_onion_header :: Header where
  "demo_onion_header = \<lparr>header_id = ''hop'', header_type = ''rez.onion.v2'', header_createdAt = 1, header_links = []\<rparr>"

lemma demo_endpoint_plain: "plainData (canonicalize (demo_endpoint p))" "truthy (demo_endpoint p)" "typeofObject (demo_endpoint p)"
  unfolding demo_endpoint_def by (rule plainData_canonicalize; simp add: plainKeys_def not_index_key isDigit_def) simp_all

lemma demo_onion_ready: "hop_ready demo_crypto (demo_keys 9) 5 (demo_relay_keys i) (om_path demo_onion ! i)" if "i < 2" for i
proof -
  have "om_path demo_onion ! i = \<lparr>hop_endpoint = demo_endpoint (1110 + int (Suc i)), hop_onionPubKeyBytes = Some (publicKey (demo_keys (of_nat (Suc i)))),
       hop_onionKeyId = ''k'' @ nat_str (Suc i), hop_relayKeys = None\<rparr>" using that by (cases i) (auto simp: demo_onion_def numeral_2_eq_2 less_Suc_eq)
  moreover have "onion_agree demo_crypto (demo_keys 9) (demo_keys b)" for b by (simp add: onion_agree_def)
  ultimately show ?thesis unfolding hop_ready_def
    by (intro conjI exI [of _ "''k'' @ nat_str (Suc i)"] exI [of _ "demo_keys (of_nat (Suc i))"])
      (simp_all add: demo_endpoint_plain hopKey_def demo_relay_keys_def resolveKey_def del: demo_simps)
qed

lemma demo_onion_readable: "path_readable (om_path demo_onion) (om_finalEndpoint demo_onion) (om_flags demo_onion)"
proof -
  have "plainData (canonicalize (JObj [(''dropOnFail'', JBool True)]))" by (rule plainData_canonicalize) (simp_all add: plainKeys_def not_index_key isDigit_def)
  then show ?thesis by (simp add: path_readable_def demo_onion_def demo_endpoint_plain del: canonicalize.simps(8))
qed


lemma checkAndMark_again:
  assumes "checkAndMark hex i kid rc = Inr rc'" "0 < rc_maxEntries rc"
  shows "checkAndMark hex i kid rc' = Inl ReplayDetectedError"
proof -
  let ?k = "replayKey hex i kid" let ?m = "rc_map rc @ [(?k, True)]"
  have ok: "hex \<noteq> []" "0 \<le> i" "kid \<noteq> []" "rc' = rc\<lparr>rc_map := if int (length ?m) > rc_maxEntries rc then tl ?m else ?m\<rparr>"
    using assms(1) by (auto simp: checkAndMark_def Let_def split: if_splits)
  have "map_of (tl ?m) ?k \<noteq> None" if "int (length ?m) > rc_maxEntries rc"
    using that assms(2) by (cases "rc_map rc") (auto simp: map_of_eq_None_iff)
  then have "map_of (rc_map rc') ?k \<noteq> None" using ok(4) by (auto simp: map_of_eq_None_iff)
  then show ?thesis using ok(1-3) by (simp add: checkAndMark_def)
qed


definition demo_layer :: jsval where
  "demo_layer = JObj [(''v'', JInt 2), (''hopIndex'', JInt 0), (''onionKeyId'', JStr ''k''), (''ttl'', JInt 1), (''ephPub'', JArr []),
     (''ct'', arrayFrom (replicate 16 0)), (''next'', JObj []), (''inner'', JArr [])]"


text \<open>The sender's choice of an onion key and the directory's filter agree.\<close>

lemma usableScan_iff:
  "usableScan now b ks \<longleftrightarrow> (\<exists>k\<in>set ks. isUsable now k \<and> (okr_status k = ''active'' \<or> okr_status k = ''draining''))"
  by (induction now b ks rule: usableScan.induct) (auto simp: isUsable_def)

lemma sort_key_hd: "xs \<noteq> [] \<Longrightarrow> hd (sort_key f xs) \<in> set xs \<and> (\<forall>x\<in>set xs. f (hd (sort_key f xs)) \<le> f x)"
proof -
  assume xs: "xs \<noteq> []"
  then obtain y ys where s: "sort_key f xs = y # ys" by (metis list.exhaust mset.simps(1) mset_sort mset_zero_iff_right)
  have "set (sort_key f xs) = set xs" "sorted (map f (sort_key f xs))" by simp_all
  then show ?thesis unfolding s by auto
qed

text \<open>The key a sender seals a hop for is a listed key inside its validity window that is not revoked; an active one is preferred to a draining one, and of
  those the latest created. The choice succeeds exactly when the directory's filter \<^verbatim>\<open>descriptorHasUsableOnionKey\<close> accepts the descriptor.\<close>

theorem onion_key_choice:
  "case selectOnionKeyForSendV1 ks now of
     Inl e \<Rightarrow> \<not> descriptorHasUsableOnionKey ks now
   | Inr (kid, pub, fmt) \<Rightarrow> descriptorHasUsableOnionKey ks now
       \<and> (\<exists>k\<in>set ks. okr_onionKeyId k = kid \<and> okr_publicKeyBytes k = pub \<and> isUsable now k
            \<and> (okr_status k = ''active'' \<or> okr_status k = ''draining'')
            \<and> (\<forall>k'\<in>set ks. isUsable now k' \<and> okr_status k' = ''active'' \<longrightarrow> okr_status k = ''active'' \<and> okr_createdAt k' \<le> okr_createdAt k))"
proof -
  let ?u = "filter (isUsable now) ks" let ?a = "filter (\<lambda>k. okr_status k = ''active'') ?u"
  let ?cs = "if ?a \<noteq> [] then ?a else filter (\<lambda>k. okr_status k = ''draining'') ?u"
  have has: "descriptorHasUsableOnionKey ks now \<longleftrightarrow> ?cs \<noteq> []"
    by (auto simp: descriptorHasUsableOnionKey_def usableScan_iff filter_empty_conv)
  show ?thesis
  proof (cases "?cs = []")
    case True
    then show ?thesis using has by (auto simp: selectOnionKeyForSendV1_def Let_def)
  next
    case False
    then have ne: "?u \<noteq> []" by (metis filter.simps(1))
    then have "ks \<noteq> []" by auto
    note ne = ne this
    let ?k = "hd (sort_key (\<lambda>k. - okr_createdAt k) ?cs)"
    from sort_key_hd [OF False, of "\<lambda>k. - okr_createdAt k"] have k: "?k \<in> set ?cs" "\<forall>x\<in>set ?cs. okr_createdAt x \<le> okr_createdAt ?k" by auto
    have sel: "selectOnionKeyForSendV1 ks now = Inr (okr_onionKeyId ?k, okr_publicKeyBytes ?k, okr_format ?k)"
      using False ne unfolding selectOnionKeyForSendV1_def Let_def by (auto split: if_splits)
    have mem: "?k \<in> set ks \<and> isUsable now ?k \<and> (okr_status ?k = ''active'' \<or> okr_status ?k = ''draining'')" using k(1) by (auto split: if_splits)
    have best: "okr_status ?k = ''active'' \<and> okr_createdAt k' \<le> okr_createdAt ?k" if "k' \<in> set ks" "isUsable now k'" "okr_status k' = ''active''" for k'
    proof -
      have a: "k' \<in> set ?a" using that by simp
      then have "?a \<noteq> []" by (metis empty_iff empty_set)
      then have cs: "?cs = ?a" by (rule if_P)
      have "?k \<in> set ?a" using k(1) unfolding cs .
      moreover have "okr_createdAt k' \<le> okr_createdAt ?k" using k(2) a unfolding cs by blast
      ultimately show ?thesis by simp
    qed
    have "descriptorHasUsableOnionKey ks now" using has False by blast
    then show ?thesis unfolding sel sum.case prod.case using mem best by (intro conjI bexI [of _ ?k]) blast+
  qed
qed

theorem onion_key_choice_witness:
  "\<exists>pub fmt. selectOnionKeyForSendV1
     [\<lparr>okr_onionKeyId = ''old'', okr_publicKeyBytes = [1], okr_format = ''raw'', okr_createdAt = 1, okr_notBefore = 0, okr_notAfter = 9, okr_status = ''active''\<rparr>,
      \<lparr>okr_onionKeyId = ''new'', okr_publicKeyBytes = [2], okr_format = ''raw'', okr_createdAt = 3, okr_notBefore = 0, okr_notAfter = 9, okr_status = ''active''\<rparr>,
      \<lparr>okr_onionKeyId = ''gone'', okr_publicKeyBytes = [3], okr_format = ''raw'', okr_createdAt = 8, okr_notBefore = 0, okr_notAfter = 9, okr_status = ''revoked''\<rparr>] 5
     = Inr (''new'', pub, fmt)"
  (is "\<exists>pub fmt. selectOnionKeyForSendV1 ?ks 5 = _")
proof -
  have u: "descriptorHasUsableOnionKey ?ks 5" by code_simp
  with onion_key_choice [of ?ks 5] show ?thesis by (auto simp: isUsable_def split: sum.splits)
qed

end
