(* ===== verification/File_Transfer.thy ===== *)
theory File_Transfer
  imports Device_Records
begin

text \<open>
  File transfer (\<^verbatim>\<open>src/filetransfer\<close>): a file is cut into chunks with a manifest of their hashes (\<^verbatim>\<open>FileChunker.chunk\<close>), the chunks are put together
  again and checked (\<^verbatim>\<open>FileChunker.reassemble\<close>), and a session records which chunks have arrived (\<^verbatim>\<open>FileTransferSessionV1\<close>). The transfer id that
  \<^verbatim>\<open>crypto.randomUUID()\<close> draws and the clock are arguments.
\<close>

section \<open>Chunks\<close>

definition HEX_RE :: "jsval \<Rightarrow> bool" where
  "HEX_RE v = (case v of JStr s \<Rightarrow> length s = 64 \<and> list_all isLowerHex s | _ \<Rightarrow> False)"

definition isText :: "jsval \<Rightarrow> bool" where
  "isText v = (isString v \<and> strOf v \<noteq> [])"

record FileChunkV1 =
  fc_transferId :: string
  fc_chunkIndex :: int
  fc_dataB64 :: string
  fc_hashHex :: string

definition newFileChunkV1 :: "jsval \<Rightarrow> jsval \<Rightarrow> jsval \<Rightarrow> jsval \<Rightarrow> FileChunkV1 result" where
  "newFileChunkV1 transferId chunkIndex dataB64 hashHex =
     (if \<not> isText transferId then Inl (RezInvariantError ''FileChunkV1 requires non-empty string transferId'')
      else if \<not> isInteger chunkIndex \<or> intOf chunkIndex < 0 then Inl (RezInvariantError ''FileChunkV1 requires non-negative integer chunkIndex'')
      else if \<not> isText dataB64 then Inl (RezInvariantError ''FileChunkV1 requires non-empty string dataB64'')
      else if \<not> HEX_RE hashHex then Inl (RezInvariantError ''FileChunkV1 requires 64-char lowercase hex hashHex'')
      else Inr \<lparr>fc_transferId = strOf transferId, fc_chunkIndex = intOf chunkIndex, fc_dataB64 = strOf dataB64, fc_hashHex = strOf hashHex\<rparr>)"

definition fileChunk_toJSON :: "FileChunkV1 \<Rightarrow> jsval" where
  "fileChunk_toJSON ch = JObj [(''kind'', JStr ''rez.file.chunk.v1''), (''transferId'', JStr (fc_transferId ch)), (''chunkIndex'', JInt (fc_chunkIndex ch)),
     (''dataB64'', JStr (fc_dataB64 ch)), (''hashHex'', JStr (fc_hashHex ch))]"

definition fileChunk_fromJSON :: "jsval \<Rightarrow> FileChunkV1 result" where
  "fileChunk_fromJSON json =
     (if \<not> truthy json \<or> \<not> typeofObject json then Inl (Error ''FileChunkV1.fromJSON requires object'')
      else if getProp json ''kind'' \<noteq> JStr ''rez.file.chunk.v1'' then Inl (Error ''FileChunkV1.fromJSON: kind must be rez.file.chunk.v1'')
      else newFileChunkV1 (getProp json ''transferId'') (getProp json ''chunkIndex'') (getProp json ''dataB64'') (getProp json ''hashHex''))"

definition fileChunk_toBytes :: "FileChunkV1 \<Rightarrow> bytes" where
  "fileChunk_toBytes ch = stringifyBytes (fileChunk_toJSON ch)"

definition fileChunk_fromBytes :: "(bytes \<Rightarrow> jsval result) \<Rightarrow> bytes \<Rightarrow> FileChunkV1 result" where
  "fileChunk_fromBytes parse bs =
     (if bs = [] then Inl (Error ''FileChunkV1.fromBytes requires non-empty Uint8Array'') else bindR (parse bs) fileChunk_fromJSON)"

section \<open>Manifests\<close>

record FileManifestV1 =
  fm_transferId :: string
  fm_fileName :: string
  fm_mimeType :: string
  fm_fileSizeBytes :: int
  fm_chunkSizeBytes :: int
  fm_chunkCount :: int
  fm_fileHashHex :: string
  fm_chunkHashesHex :: "string list"
  fm_text :: string

text \<open>\<^verbatim>\<open>Math.ceil(a / b)\<close> for integers, \<open>b\<close> not 0.\<close>

definition ceilDiv :: "int \<Rightarrow> int \<Rightarrow> int" where
  "ceilDiv a b = - ((- a) div b)"

definition isShortText :: "jsval \<Rightarrow> bool" where
  "isShortText v = (isText v \<and> length (strOf v) \<le> 255)"

definition checkHashes :: "jsval \<Rightarrow> int \<Rightarrow> string list result" where
  "checkHashes v chunkCount =
     (case v of
        JArr hs \<Rightarrow>
          if int (length hs) \<noteq> chunkCount then Inl (RezInvariantError ''FileManifestV1 chunkHashesHex must be array of length chunkCount'')
          else (case find (\<lambda>i. \<not> HEX_RE (hs ! i)) [0..<length hs] of
                  Some i \<Rightarrow> Inl (RezInvariantError (''FileManifestV1 chunkHashesHex['' @ nat_str i @ ''] must be 64-char lowercase hex''))
                | None \<Rightarrow> Inr (map strOf hs))
      | _ \<Rightarrow> Inl (RezInvariantError ''FileManifestV1 chunkHashesHex must be array of length chunkCount''))"

definition newFileManifestV1 ::
  "jsval \<Rightarrow> jsval \<Rightarrow> jsval \<Rightarrow> jsval \<Rightarrow> jsval \<Rightarrow> jsval \<Rightarrow> jsval \<Rightarrow> jsval \<Rightarrow> jsval \<Rightarrow> FileManifestV1 result" where
  "newFileManifestV1 transferId fileName mimeType fileSizeBytes chunkSizeBytes chunkCount fileHashHex chunkHashesHex text =
     (let mime = (if isNullish mimeType then JStr ''application/octet-stream'' else mimeType) in
      if \<not> isText transferId then Inl (RezInvariantError ''FileManifestV1 requires non-empty string transferId'')
      else if \<not> isShortText fileName then Inl (RezInvariantError ''FileManifestV1 requires non-empty string fileName (max 255 chars)'')
      else if \<not> isShortText mime then Inl (RezInvariantError ''FileManifestV1 mimeType must be a non-empty string (max 255 chars)'')
      else if \<not> isInteger fileSizeBytes \<or> intOf fileSizeBytes \<le> 0 then Inl (RezInvariantError ''FileManifestV1 requires positive integer fileSizeBytes'')
      else if \<not> isInteger chunkSizeBytes \<or> intOf chunkSizeBytes < 1024 \<or> intOf chunkSizeBytes > 1048576
      then Inl (RezInvariantError ''FileManifestV1 requires integer chunkSizeBytes (1024..1048576)'')
      else if \<not> isInteger chunkCount \<or> intOf chunkCount \<le> 0 then Inl (RezInvariantError ''FileManifestV1 requires positive integer chunkCount'')
      else if intOf chunkCount \<noteq> ceilDiv (intOf fileSizeBytes) (intOf chunkSizeBytes)
      then Inl (RezInvariantError ''FileManifestV1 chunkCount must equal ceil(fileSizeBytes / chunkSizeBytes)'')
      else if \<not> HEX_RE fileHashHex then Inl (RezInvariantError ''FileManifestV1 requires 64-char lowercase hex fileHashHex'')
      else bindR (checkHashes chunkHashesHex (intOf chunkCount)) (\<lambda>hashes.
        Inr \<lparr>fm_transferId = strOf transferId, fm_fileName = strOf fileName, fm_mimeType = strOf mime, fm_fileSizeBytes = intOf fileSizeBytes,
             fm_chunkSizeBytes = intOf chunkSizeBytes, fm_chunkCount = intOf chunkCount, fm_fileHashHex = strOf fileHashHex,
             fm_chunkHashesHex = hashes, fm_text = strOf text\<rparr>))"

definition fileManifest_toJSON :: "FileManifestV1 \<Rightarrow> jsval" where
  "fileManifest_toJSON m = JObj ([(''kind'', JStr ''rez.file.manifest.v1''), (''transferId'', JStr (fm_transferId m)), (''fileName'', JStr (fm_fileName m)),
     (''mimeType'', JStr (fm_mimeType m)), (''fileSizeBytes'', JInt (fm_fileSizeBytes m)), (''chunkSizeBytes'', JInt (fm_chunkSizeBytes m)),
     (''chunkCount'', JInt (fm_chunkCount m)), (''fileHashHex'', JStr (fm_fileHashHex m)), (''chunkHashesHex'', JArr (map JStr (fm_chunkHashesHex m)))]
     @ (if fm_text m \<noteq> [] then [(''text'', JStr (fm_text m))] else []))"

definition fileManifest_fromJSON :: "jsval \<Rightarrow> FileManifestV1 result" where
  "fileManifest_fromJSON json =
     (if \<not> truthy json \<or> \<not> typeofObject json then Inl (Error ''FileManifestV1.fromJSON requires object'')
      else if getProp json ''kind'' \<noteq> JStr ''rez.file.manifest.v1'' then Inl (Error ''FileManifestV1.fromJSON: kind must be rez.file.manifest.v1'')
      else newFileManifestV1 (getProp json ''transferId'') (getProp json ''fileName'') (getProp json ''mimeType'') (getProp json ''fileSizeBytes'')
        (getProp json ''chunkSizeBytes'') (getProp json ''chunkCount'') (getProp json ''fileHashHex'') (getProp json ''chunkHashesHex'') (getProp json ''text''))"

definition fileManifest_toBytes :: "FileManifestV1 \<Rightarrow> bytes" where
  "fileManifest_toBytes m = stringifyBytes (fileManifest_toJSON m)"

definition fileManifest_fromBytes :: "(bytes \<Rightarrow> jsval result) \<Rightarrow> bytes \<Rightarrow> FileManifestV1 result" where
  "fileManifest_fromBytes parse bs =
     (if bs = [] then Inl (Error ''FileManifestV1.fromBytes requires non-empty Uint8Array'') else bindR (parse bs) fileManifest_fromJSON)"

section \<open>Cutting and putting together\<close>

definition DEFAULT_CHUNK_SIZE :: int where
  "DEFAULT_CHUNK_SIZE = 65536"

definition sha256hex :: "bytes \<Rightarrow> string" where
  "sha256hex bs = bytesToHex (sha256Internal bs)"

definition chunkAt :: "bytes \<Rightarrow> string \<Rightarrow> int \<Rightarrow> nat \<Rightarrow> FileChunkV1 result" where
  "chunkAt fileBytes transferId sz i =
     (let start = int i * sz; stop = min (start + sz) (int (length fileBytes)); raw = subarray (nat start) (nat stop) fileBytes
      in newFileChunkV1 (JStr transferId) (JInt (int i)) (JStr (bytesToBase64 raw)) (JStr (sha256hex raw)))"

text \<open>A chunk size of 0 gives infinitely many chunks, the first of which is empty and refused.\<close>

definition chunkFile :: "bytes \<Rightarrow> string \<Rightarrow> string option \<Rightarrow> int option \<Rightarrow> string option \<Rightarrow> string \<Rightarrow> (FileManifestV1 \<times> FileChunkV1 list) result" where
  "chunkFile fileBytes fileName mimeType chunkSizeBytes text transferId =
     (let sz = (case chunkSizeBytes of Some s \<Rightarrow> s | None \<Rightarrow> DEFAULT_CHUNK_SIZE);
          mime = (case mimeType of Some t \<Rightarrow> t | None \<Rightarrow> ''application/octet-stream'');
          chunkCount = ceilDiv (int (length fileBytes)) sz in
      if fileBytes = [] then Inl (Error ''FileChunker.chunk requires non-empty Uint8Array'')
      else if fileName = [] then Inl (Error ''FileChunker.chunk requires non-empty fileName'')
      else bindR (if sz = 0 then bindR (chunkAt fileBytes transferId 0 0) (\<lambda>ch. Inr [ch]) else mapR (chunkAt fileBytes transferId sz) [0..<nat chunkCount]) (\<lambda>chunks.
           bindR (newFileManifestV1 (JStr transferId) (JStr fileName) (JStr mime) (JInt (int (length fileBytes))) (JInt sz) (JInt chunkCount)
                    (JStr (sha256hex fileBytes)) (JArr (map (JStr \<circ> fc_hashHex) chunks)) (case text of Some t \<Rightarrow> JStr t | None \<Rightarrow> JStr [])) (\<lambda>manifest.
             Inr (manifest, chunks))))"

fun indexChunks :: "int \<Rightarrow> FileChunkV1 option list \<Rightarrow> FileChunkV1 list \<Rightarrow> FileChunkV1 option list result" where
  "indexChunks chunkCount indexed [] = Inr indexed"
| "indexChunks chunkCount indexed (ch # chs) =
     (if fc_chunkIndex ch < 0 \<or> fc_chunkIndex ch \<ge> chunkCount
      then Inl (Error (''FileChunker.reassemble: chunk index '' @ int_str (fc_chunkIndex ch) @ '' out of range''))
      else indexChunks chunkCount (indexed[nat (fc_chunkIndex ch) := Some ch]) chs)"

definition checkedPart :: "FileManifestV1 \<Rightarrow> FileChunkV1 option list \<Rightarrow> nat \<Rightarrow> bytes result" where
  "checkedPart manifest indexed i =
     bindR (base64ToBytes (fc_dataB64 (the (indexed ! i)))) (\<lambda>raw.
       if sha256hex raw \<noteq> fm_chunkHashesHex manifest ! i
       then Inl (Error (''FileChunker.reassemble: chunk '' @ nat_str i @ '' hash mismatch'')) else Inr raw)"

definition reassemble :: "FileManifestV1 \<Rightarrow> FileChunkV1 list \<Rightarrow> bytes result" where
  "reassemble manifest chunks =
     (let n = nat (fm_chunkCount manifest) in
      bindR (indexChunks (fm_chunkCount manifest) (replicate n None) chunks) (\<lambda>indexed.
        case find (\<lambda>i. indexed ! i = None) [0..<n] of
          Some i \<Rightarrow> Inl (Error (''FileChunker.reassemble: missing chunk at index '' @ nat_str i))
        | None \<Rightarrow> bindR (mapR (checkedPart manifest indexed) [0..<n]) (\<lambda>parts.
            if sha256hex (concat parts) \<noteq> fm_fileHashHex manifest then Inl (Error ''FileChunker.reassemble: file hash mismatch'') else Inr (concat parts))))"

section \<open>Sessions\<close>

definition VALID_STATES :: "string list" where
  "VALID_STATES = [''pending'', ''receiving'', ''complete'', ''failed'']"

text \<open>\<^verbatim>\<open>typeof x === "number" && x > 0\<close>, which infinity satisfies.\<close>

fun positiveNumber :: "jsval \<Rightarrow> bool" where
  "positiveNumber (JNum (NInt i)) = (0 < i)"
| "positiveNumber (JNum (NInf neg)) = (\<not> neg)"
| "positiveNumber _ = False"

definition numOf :: "jsval \<Rightarrow> jsnum" where
  "numOf v = (case v of JNum n \<Rightarrow> n | _ \<Rightarrow> NNaN)"

record FileTransferSessionV1 =
  fs_transferId :: string
  fs_manifest :: FileManifestV1
  fs_receivedChunks :: "bool list"
  fs_state :: string
  fs_createdAtMs :: jsnum
  fs_updatedAtMs :: jsnum

definition isBool :: "jsval \<Rightarrow> bool" where
  "isBool v = (case v of JBool _ \<Rightarrow> True | _ \<Rightarrow> False)"

definition newFileTransferSessionV1 :: "jsval \<Rightarrow> FileManifestV1 \<Rightarrow> jsval \<Rightarrow> jsval \<Rightarrow> jsval \<Rightarrow> jsval \<Rightarrow> FileTransferSessionV1 result" where
  "newFileTransferSessionV1 transferId manifest receivedChunks state createdAtMs updatedAtMs =
     (if \<not> isText transferId then Inl (RezInvariantError ''FileTransferSessionV1 requires non-empty string transferId'')
      else case receivedChunks of
        JArr flags \<Rightarrow>
          if int (length flags) \<noteq> fm_chunkCount manifest
          then Inl (RezInvariantError ''FileTransferSessionV1 receivedChunks must be boolean[] of length chunkCount'')
          else (case find (\<lambda>i. \<not> isBool (flags ! i)) [0..<length flags] of
                  Some i \<Rightarrow> Inl (RezInvariantError (''FileTransferSessionV1 receivedChunks['' @ nat_str i @ ''] must be boolean''))
                | None \<Rightarrow>
                    if \<not> isString state \<or> strOf state \<notin> set VALID_STATES
                    then Inl (RezInvariantError (''FileTransferSessionV1 state must be one of: '' @ join '', '' VALID_STATES))
                    else if \<not> positiveNumber createdAtMs then Inl (RezInvariantError ''FileTransferSessionV1 requires positive number createdAtMs'')
                    else if \<not> positiveNumber updatedAtMs then Inl (RezInvariantError ''FileTransferSessionV1 requires positive number updatedAtMs'')
                    else Inr \<lparr>fs_transferId = strOf transferId, fs_manifest = manifest, fs_receivedChunks = map truthy flags, fs_state = strOf state,
                              fs_createdAtMs = numOf createdAtMs, fs_updatedAtMs = numOf updatedAtMs\<rparr>)
      | _ \<Rightarrow> Inl (RezInvariantError ''FileTransferSessionV1 receivedChunks must be boolean[] of length chunkCount''))"

definition receivedCount :: "FileTransferSessionV1 \<Rightarrow> int" where
  "receivedCount s = int (length (filter id (fs_receivedChunks s)))"

definition isComplete :: "FileTransferSessionV1 \<Rightarrow> bool" where
  "isComplete s = (receivedCount s = fm_chunkCount (fs_manifest s))"

definition markChunkReceived :: "int \<Rightarrow> int \<Rightarrow> FileTransferSessionV1 \<Rightarrow> FileTransferSessionV1 result" where
  "markChunkReceived now chunkIndex s =
     (if chunkIndex < 0 \<or> chunkIndex \<ge> fm_chunkCount (fs_manifest s)
      then Inl (RezInvariantError ''FileTransferSessionV1.markChunkReceived: chunkIndex out of range'')
      else let newChunks = (fs_receivedChunks s)[nat chunkIndex := True]; allReceived = (False \<notin> set newChunks)
           in newFileTransferSessionV1 (JStr (fs_transferId s)) (fs_manifest s) (JArr (map JBool newChunks))
                (JStr (if allReceived then ''complete'' else ''receiving'')) (JNum (fs_createdAtMs s)) (JInt now))"

definition transferSession_toJSON :: "FileTransferSessionV1 \<Rightarrow> jsval" where
  "transferSession_toJSON s = JObj [(''transferId'', JStr (fs_transferId s)), (''manifest'', fileManifest_toJSON (fs_manifest s)),
     (''receivedChunks'', JArr (map JBool (fs_receivedChunks s))), (''state'', JStr (fs_state s)), (''createdAtMs'', JNum (fs_createdAtMs s)),
     (''updatedAtMs'', JNum (fs_updatedAtMs s))]"

definition transferSession_fromJSON :: "jsval \<Rightarrow> FileTransferSessionV1 result" where
  "transferSession_fromJSON json =
     (if \<not> truthy json \<or> \<not> typeofObject json then Inl (Error ''FileTransferSessionV1.fromJSON requires object'')
      else bindR (fileManifest_fromJSON (getProp json ''manifest'')) (\<lambda>manifest.
        newFileTransferSessionV1 (getProp json ''transferId'') manifest (getProp json ''receivedChunks'') (getProp json ''state'')
          (getProp json ''createdAtMs'') (getProp json ''updatedAtMs'')))"

section \<open>Chunks cover the file\<close>

lemma concat_slices: "concat (map (\<lambda>i. take k (drop (i * k) xs)) [0..<n]) = take (n * k) xs"
proof (induction n)
  case (Suc n)
  have "take (n * k) xs @ take k (drop (n * k) xs) = take (n * k + k) xs" by (simp only: take_add)
  also have "n * k + k = Suc n * k" by simp
  finally show ?case using Suc by simp
qed simp

lemma subarray_slice:
  assumes "0 < sz"
  shows "subarray (nat (int i * sz)) (nat (min (int i * sz + sz) (int (length xs)))) xs = take (nat sz) (drop (i * nat sz) xs)"
proof -
  obtain k where k: "sz = int k" "0 < k" using assms by (metis zero_less_imp_eq_int)
  have e: "int i * sz = int (i * k)" "int i * sz + sz = int (i * k + k)" unfolding k(1) by (simp_all only: of_nat_mult of_nat_add)
  have a: "nat (int i * sz) = i * k" unfolding e(1) by (rule nat_int)
  have b: "nat (min (int i * sz + sz) (int (length xs))) = min (i * k + k) (length xs)" unfolding e(2) by (simp only: nat_int of_nat_min [symmetric])
  have c: "nat sz = k" unfolding k(1) by (rule nat_int)
  have "take (min (j + k) (length xs) - j) (drop j xs) = take k (drop j xs)" for j by (cases "j + k \<le> length xs") simp_all
  then show ?thesis unfolding subarray_def a b c .
qed

lemma ceilDiv_bounds:
  assumes "0 < sz" "0 < len"
  shows "len \<le> ceilDiv len sz * sz" "(ceilDiv len sz - 1) * sz < len" "0 < ceilDiv len sz"
proof -
  have m: "sz * ((- len) div sz) = - len - (- len) mod sz" by (simp add: minus_mod_eq_mult_div)
  have "ceilDiv len sz * sz = len + (- len) mod sz" "(ceilDiv len sz - 1) * sz = len + (- len) mod sz - sz"
    by (simp_all add: ceilDiv_def right_diff_distrib mult.commute m)
  then show "len \<le> ceilDiv len sz * sz" "(ceilDiv len sz - 1) * sz < len" using assms(1) by simp_all
  show "0 < ceilDiv len sz" using assms by (simp add: ceilDiv_def div_neg_pos_less0)
qed

lemma sha256hex_text: "HEX_RE (JStr (sha256hex bs))"
proof -
  have "list_all isLowerHex HEX_ALPHABET" by (simp add: HEX_ALPHABET_def isLowerHex_def)
  then have "list_all isLowerHex (bytesToHex (sha256Internal bs))" using bytesToHex_alphabet by (auto simp: list_all_iff)
  then show ?thesis by (simp add: HEX_RE_def sha256hex_def length_bytesToHex)
qed

text \<open>The chunk with index \<open>i\<close>, for a chunk size \<open>k\<close>.\<close>

definition sliceChunk :: "bytes \<Rightarrow> string \<Rightarrow> nat \<Rightarrow> nat \<Rightarrow> FileChunkV1" where
  "sliceChunk xs tid k i = (let raw = take k (drop (i * k) xs) in
     \<lparr>fc_transferId = tid, fc_chunkIndex = int i, fc_dataB64 = bytesToBase64 raw, fc_hashHex = sha256hex raw\<rparr>)"

lemma sliceChunk_index [simp]: "fc_chunkIndex (sliceChunk xs tid k i) = int i"
  by (simp add: sliceChunk_def Let_def)

lemma base64_nonempty: "bs \<noteq> [] \<Longrightarrow> bytesToBase64 bs \<noteq> []"
  using length_bytesToBase64 [of bs] by (cases bs) auto

lemma slice_nonempty:
  assumes "0 < sz" "xs \<noteq> []" "i < nat (ceilDiv (int (length xs)) sz)"
  shows "take (nat sz) (drop (i * nat sz) xs) \<noteq> []"
proof -
  have "int i \<le> ceilDiv (int (length xs)) sz - 1" using assms(3) by linarith
  then have "int i * sz \<le> (ceilDiv (int (length xs)) sz - 1) * sz" using assms(1) by (simp add: mult_right_mono)
  also have "\<dots> < int (length xs)" using ceilDiv_bounds(2) assms(1,2) by simp
  finally have "i * nat sz < length xs" using assms(1) by (metis nat_0_le of_nat_less_iff of_nat_mult order_less_imp_le)
  then show ?thesis using assms(1) by simp
qed

lemma chunks_of_file:
  assumes "0 < sz" "xs \<noteq> []" "tid \<noteq> []"
  shows "mapR (chunkAt xs tid sz) [0..<nat (ceilDiv (int (length xs)) sz)]
    = Inr (map (sliceChunk xs tid (nat sz)) [0..<nat (ceilDiv (int (length xs)) sz)])"
proof (rule mapR_all_Inr)
  fix i assume "i \<in> set [0..<nat (ceilDiv (int (length xs)) sz)]"
  then have "take (nat sz) (drop (i * nat sz) xs) \<noteq> []" using slice_nonempty [OF assms(1,2)] by simp
  then show "chunkAt xs tid sz i = Inr (sliceChunk xs tid (nat sz) i)" using assms(3) sha256hex_text base64_nonempty
    by (simp add: chunkAt_def subarray_slice [OF assms(1)] newFileChunkV1_def sliceChunk_def isText_def Let_def)
qed

section \<open>Reassembly\<close>

lemma indexChunks_slices:
  assumes "\<forall>ch\<in>set chs. \<exists>i < n. ch = f i" "\<forall>i < n. fc_chunkIndex (f i) = int i" "length ind = n"
  shows "\<exists>ind'. indexChunks (int n) ind chs = Inr ind' \<and> length ind' = n \<and> (\<forall>i < n. ind' ! i = (if f i \<in> set chs then Some (f i) else ind ! i))"
  using assms(1,3)
proof (induction chs arbitrary: ind)
  case (Cons ch chs)
  then obtain j where j: "j < n" "ch = f j" by auto
  then have idx: "fc_chunkIndex ch = int j" using assms(2) by simp
  from Cons.IH [of "ind[j := Some ch]"] Cons.prems obtain ind' where
    ind': "indexChunks (int n) (ind[j := Some ch]) chs = Inr ind'" "length ind' = n"
      "\<forall>i < n. ind' ! i = (if f i \<in> set chs then Some (f i) else ind[j := Some ch] ! i)" by auto
  have "f i = f j \<longleftrightarrow> i = j" if "i < n" for i using assms(2) that j(1) by (metis of_nat_eq_iff)
  then have "ind' ! i = (if f i \<in> set (ch # chs) then Some (f i) else ind ! i)" if "i < n" for i
    using ind'(3) that j Cons.prems(2) by (auto simp: nth_list_update)
  then show ?case using ind'(1,2) idx j(1) by auto
qed simp

lemma checkedPart_slice:
  assumes "ind ! i = Some (sliceChunk xs tid k i)" "fm_chunkHashesHex m ! i = sha256hex (take k (drop (i * k) xs))"
  shows "checkedPart m ind i = Inr (take k (drop (i * k) xs))"
  using assms by (simp add: checkedPart_def sliceChunk_def b64.dec_enc Let_def)

lemma reassemble_slices:
  assumes chs: "set chs = set (map (sliceChunk xs tid k) [0..<n])" and n: "length xs \<le> n * k"
    and m: "fm_chunkCount m = int n" "fm_chunkHashesHex m = map (fc_hashHex \<circ> sliceChunk xs tid k) [0..<n]" "fm_fileHashHex m = sha256hex xs"
  shows "reassemble m chs = Inr xs"
proof -
  have "\<forall>ch\<in>set chs. \<exists>i < n. ch = sliceChunk xs tid k i" using chs by auto
  from indexChunks_slices [OF this, of "replicate n None"] obtain ind where
    ind: "indexChunks (int n) (replicate n None) chs = Inr ind" "\<forall>i < n. ind ! i = Some (sliceChunk xs tid k i)" using chs by auto
  have "mapR (checkedPart m ind) [0..<n] = Inr (map (\<lambda>i. take k (drop (i * k) xs)) [0..<n])"
    by (rule mapR_all_Inr) (use ind(2) m(2) in \<open>auto intro!: checkedPart_slice simp: sliceChunk_def Let_def\<close>)
  moreover have "find (\<lambda>i. ind ! i = None) [0..<n] = None" using ind(2) by (auto simp: find_None_iff)
  ultimately show ?thesis using ind(1) m n by (simp add: reassemble_def concat_slices Let_def)
qed

section \<open>The wire\<close>

definition chunk_ok :: "FileChunkV1 \<Rightarrow> bool" where
  "chunk_ok ch \<longleftrightarrow> fc_transferId ch \<noteq> [] \<and> 0 \<le> fc_chunkIndex ch \<and> fc_dataB64 ch \<noteq> [] \<and> HEX_RE (JStr (fc_hashHex ch))"

lemma stringifyBytes_object: "stringifyBytes (JObj kvs) \<noteq> []"
  by (simp add: stringifyBytes_def utf8Encode_def utf8Char_def Let_def)

lemma chunk_wire:
  assumes "parse_lawful parse" "chunk_ok ch"
  shows "fileChunk_fromBytes parse (fileChunk_toBytes ch) = Inr ch"
proof -
  have "json_data (fileChunk_toJSON ch)" "wf_js (fileChunk_toJSON ch)" "propStable (fileChunk_toJSON ch)"
    by (simp_all add: fileChunk_toJSON_def not_index_entry isDigit_def)
  then have "parse (fileChunk_toBytes ch) = Inr (fileChunk_toJSON ch)" using assms(1) unfolding parse_lawful_def fileChunk_toBytes_def by blast
  moreover have "fileChunk_toBytes ch \<noteq> []" unfolding fileChunk_toBytes_def fileChunk_toJSON_def by (rule stringifyBytes_object)
  ultimately show ?thesis using assms(2)
    by (simp add: fileChunk_fromBytes_def fileChunk_fromJSON_def fileChunk_toJSON_def newFileChunkV1_def chunk_ok_def isText_def)
qed

definition manifest_ok :: "FileManifestV1 \<Rightarrow> bool" where
  "manifest_ok m \<longleftrightarrow> fm_transferId m \<noteq> [] \<and> fm_fileName m \<noteq> [] \<and> length (fm_fileName m) \<le> 255 \<and> fm_mimeType m \<noteq> [] \<and> length (fm_mimeType m) \<le> 255
     \<and> 0 < fm_fileSizeBytes m \<and> 1024 \<le> fm_chunkSizeBytes m \<and> fm_chunkSizeBytes m \<le> 1048576
     \<and> fm_chunkCount m = ceilDiv (fm_fileSizeBytes m) (fm_chunkSizeBytes m) \<and> HEX_RE (JStr (fm_fileHashHex m))
     \<and> int (length (fm_chunkHashesHex m)) = fm_chunkCount m \<and> (\<forall>h\<in>set (fm_chunkHashesHex m). HEX_RE (JStr h))"

lemma checkHashes_ok:
  "\<forall>h\<in>set hs. HEX_RE (JStr h) \<Longrightarrow> int (length hs) = n \<Longrightarrow> checkHashes (JArr (map JStr hs)) n = Inr hs"
proof -
  assume a: "\<forall>h\<in>set hs. HEX_RE (JStr h)" "int (length hs) = n"
  then have "find (\<lambda>i. \<not> HEX_RE (map JStr hs ! i)) [0..<length hs] = None" by (auto simp: find_None_iff)
  then show ?thesis using a(2) by (simp add: checkHashes_def o_def)
qed

lemma newManifest_ok:
  assumes "manifest_ok m" "txt = JStr (fm_text m) \<or> (txt = JUndef \<and> fm_text m = [])"
  shows "newFileManifestV1 (JStr (fm_transferId m)) (JStr (fm_fileName m)) (JStr (fm_mimeType m)) (JInt (fm_fileSizeBytes m)) (JInt (fm_chunkSizeBytes m))
    (JInt (fm_chunkCount m)) (JStr (fm_fileHashHex m)) (JArr (map JStr (fm_chunkHashesHex m))) txt = Inr m"
proof -
  have "checkHashes (JArr (map JStr (fm_chunkHashesHex m))) (fm_chunkCount m) = Inr (fm_chunkHashesHex m)"
    using assms(1) by (intro checkHashes_ok) (simp_all add: manifest_ok_def)
  moreover have "0 < fm_chunkCount m" using assms(1) ceilDiv_bounds(3) by (simp add: manifest_ok_def)
  ultimately show ?thesis using assms by (auto simp: newFileManifestV1_def manifest_ok_def isText_def isShortText_def strOf_def)
qed

lemma manifest_wire:
  assumes "parse_lawful parse" "manifest_ok m"
  shows "fileManifest_fromBytes parse (fileManifest_toBytes m) = Inr m"
proof -
  have "json_data (fileManifest_toJSON m)" "wf_js (fileManifest_toJSON m)" "propStable (fileManifest_toJSON m)"
    by (simp_all add: fileManifest_toJSON_def not_index_entry isDigit_def list_all_iff)
  then have "parse (fileManifest_toBytes m) = Inr (fileManifest_toJSON m)" using assms(1) unfolding parse_lawful_def fileManifest_toBytes_def by blast
  moreover have "fileManifest_toBytes m \<noteq> []" unfolding fileManifest_toBytes_def fileManifest_toJSON_def by (rule stringifyBytes_object)
  moreover have "fileManifest_fromJSON (fileManifest_toJSON m) = Inr m"
    using newManifest_ok [OF assms(2), of "getProp (fileManifest_toJSON m) ''text''"] by (simp add: fileManifest_fromJSON_def fileManifest_toJSON_def)
  ultimately show ?thesis by (simp add: fileManifest_fromBytes_def)
qed

lemma wire_chunks:
  assumes "parse_lawful parse" "\<forall>ch\<in>set chunks. chunk_ok ch" "set wire = fileChunk_toBytes ` set chunks"
  shows "\<exists>chs. mapR (fileChunk_fromBytes parse) wire = Inr chs \<and> set chs = set chunks"
proof -
  let ?g = "\<lambda>w. projr (fileChunk_fromBytes parse w)"
  have rd: "fileChunk_fromBytes parse (fileChunk_toBytes ch) = Inr ch" if "ch \<in> set chunks" for ch using chunk_wire [OF assms(1)] assms(2) that by blast
  then have "mapR (fileChunk_fromBytes parse) wire = Inr (map ?g wire)" using assms(3) by (intro mapR_all_Inr) auto
  moreover have "set (map ?g wire) = set chunks" using assms(3) rd by (force simp: image_image)
  ultimately show ?thesis by blast
qed

section \<open>Properties\<close>

text \<open>C15: A file sent is the file received. Cutting a non-empty file into chunks of an admissible size succeeds; when the manifest and the chunks are printed to
  bytes, and the receiver gets the manifest and every chunk at least once, in any order, reading them and reassembling returns the file.\<close>

theorem file_roundtrip:
  assumes "parse_lawful parse" "file \<noteq> []" "tid \<noteq> []" "name \<noteq> []" "length name \<le> 255" "1024 \<le> sz" "sz \<le> 1048576"
    and "\<forall>t\<in>set_option mime. t \<noteq> [] \<and> length t \<le> 255"
  shows "\<exists>m chunks. chunkFile file name mime (Some sz) txt tid = Inr (m, chunks)
    \<and> (\<forall>wire. set wire = fileChunk_toBytes ` set chunks \<longrightarrow>
         bindR (fileManifest_fromBytes parse (fileManifest_toBytes m)) (\<lambda>m'. bindR (mapR (fileChunk_fromBytes parse) wire) (reassemble m')) = Inr file)"
proof -
  let ?n = "nat (ceilDiv (int (length file)) sz)" let ?f = "sliceChunk file tid (nat sz)" let ?chunks = "map ?f [0..<?n]"
  let ?m = "\<lparr>fm_transferId = tid, fm_fileName = name, fm_mimeType = (case mime of Some t \<Rightarrow> t | None \<Rightarrow> ''application/octet-stream''),
    fm_fileSizeBytes = int (length file), fm_chunkSizeBytes = sz, fm_chunkCount = ceilDiv (int (length file)) sz, fm_fileHashHex = sha256hex file,
    fm_chunkHashesHex = map fc_hashHex ?chunks, fm_text = (case txt of Some t \<Rightarrow> t | None \<Rightarrow> [])\<rparr>"
  have sz: "0 < sz" "0 < int (length file)" using assms by simp_all
  note b = ceilDiv_bounds [OF sz]
  have hash: "HEX_RE (JStr (fc_hashHex (?f i)))" for i by (simp add: sliceChunk_def Let_def sha256hex_text)
  have m: "manifest_ok ?m" using assms sz b(3) hash by (auto simp: manifest_ok_def sha256hex_text split: option.split)
  have "chunkFile file name mime (Some sz) txt tid = Inr (?m, ?chunks)"
    using newManifest_ok [OF m, of "case txt of Some t \<Rightarrow> JStr t | None \<Rightarrow> JStr []"] chunks_of_file [OF sz(1) assms(2,3)] assms(2,4) sz(1)
    by (simp add: chunkFile_def Let_def o_def split: option.splits)
  moreover have "bindR (fileManifest_fromBytes parse (fileManifest_toBytes ?m)) (\<lambda>m'. bindR (mapR (fileChunk_fromBytes parse) wire) (reassemble m')) = Inr file"
    if wire: "set wire = fileChunk_toBytes ` set ?chunks" for wire
  proof -
    have "chunk_ok (?f i)" if "i < ?n" for i
      using hash slice_nonempty [OF sz(1) assms(2) that] base64_nonempty assms(3) by (simp add: chunk_ok_def sliceChunk_def Let_def)
    then obtain chs where chs: "mapR (fileChunk_fromBytes parse) wire = Inr chs" "set chs = set ?chunks" using wire_chunks [OF assms(1) _ wire] by auto
    have "int (length file) \<le> int (?n * nat sz)" using b(1,3) sz(1) by simp
    then have "length file \<le> ?n * nat sz" by (simp only: of_nat_le_iff)
    then have "reassemble ?m chs = Inr file" using chs(2) b(3) by (intro reassemble_slices [where n = ?n and k = "nat sz" and tid = tid]) (simp_all add: o_def)
    then show ?thesis using chs(1) manifest_wire [OF assms(1) m] by simp
  qed
  ultimately show ?thesis by blast
qed

theorem file_roundtrip_witness:
  "\<exists>m chunks. chunkFile [1, 2, 3] ''a.txt'' None (Some 1024) None ''t'' = Inr (m, chunks)
    \<and> (\<forall>wire. set wire = fileChunk_toBytes ` set chunks \<longrightarrow>
         bindR (fileManifest_fromBytes jsonParseBytes (fileManifest_toBytes m)) (\<lambda>m'. bindR (mapR (fileChunk_fromBytes jsonParseBytes) wire) (reassemble m')) = Inr [1, 2, 3])"
  by (rule file_roundtrip) simp_all

text \<open>The chunks a session is told of, one after the other, with the times.\<close>

fun markAll :: "(int \<times> int) list \<Rightarrow> FileTransferSessionV1 \<Rightarrow> FileTransferSessionV1 result" where
  "markAll [] s = Inr s"
| "markAll ((now, i) # ms) s = bindR (markChunkReceived now i s) (markAll ms)"

definition transfer_session_ok :: "FileTransferSessionV1 \<Rightarrow> bool" where
  "transfer_session_ok s \<longleftrightarrow> fs_transferId s \<noteq> [] \<and> int (length (fs_receivedChunks s)) = fm_chunkCount (fs_manifest s) \<and> fs_state s \<in> set VALID_STATES
     \<and> positiveNumber (JNum (fs_createdAtMs s)) \<and> positiveNumber (JNum (fs_updatedAtMs s))"

lemma newSession_ok:
  "transferId \<noteq> [] \<Longrightarrow> int (length flags) = fm_chunkCount m \<Longrightarrow> state \<in> set VALID_STATES \<Longrightarrow> positiveNumber (JNum a) \<Longrightarrow> positiveNumber (JNum b)
   \<Longrightarrow> newFileTransferSessionV1 (JStr transferId) m (JArr (map JBool flags)) (JStr state) (JNum a) (JNum b)
     = Inr \<lparr>fs_transferId = transferId, fs_manifest = m, fs_receivedChunks = flags, fs_state = state, fs_createdAtMs = a, fs_updatedAtMs = b\<rparr>"
proof -
  assume a: "transferId \<noteq> []" "int (length flags) = fm_chunkCount m" "state \<in> set VALID_STATES" "positiveNumber (JNum a)" "positiveNumber (JNum b)"
  have "find (\<lambda>i. \<not> isBool (map JBool flags ! i)) [0..<length flags] = None" by (auto simp: find_None_iff isBool_def)
  then show ?thesis using a by (simp add: newFileTransferSessionV1_def isText_def numOf_def o_def)
qed

lemma all_received_iff: "False \<notin> set flags \<longleftrightarrow> length (filter id flags) = length flags"
proof
  assume "False \<notin> set flags"
  then have "\<forall>b\<in>set flags. id b" by (metis (full_types) id_apply)
  then show "length (filter id flags) = length flags" by (simp only: filter_True)
qed (use length_filter_less [of False flags id] in auto)

lemma mark_step:
  assumes "transfer_session_ok s" "0 < now" "0 \<le> i" "i < fm_chunkCount (fs_manifest s)"
  shows "\<exists>s'. markChunkReceived now i s = Inr s' \<and> transfer_session_ok s' \<and> fs_manifest s' = fs_manifest s
    \<and> fs_receivedChunks s' = (fs_receivedChunks s)[nat i := True] \<and> fs_state s' = (if isComplete s' then ''complete'' else ''receiving'')"
proof -
  let ?flags = "(fs_receivedChunks s)[nat i := True]" let ?st = "if False \<notin> set ?flags then ''complete'' else ''receiving''"
  let ?s = "\<lparr>fs_transferId = fs_transferId s, fs_manifest = fs_manifest s, fs_receivedChunks = ?flags, fs_state = ?st,
    fs_createdAtMs = fs_createdAtMs s, fs_updatedAtMs = NInt now\<rparr>"
  have "markChunkReceived now i s = Inr ?s" unfolding markChunkReceived_def Let_def
    using newSession_ok [of "fs_transferId s" ?flags "fs_manifest s" ?st "fs_createdAtMs s" "NInt now"] assms
    by (simp add: transfer_session_ok_def VALID_STATES_def)
  moreover have "transfer_session_ok ?s" using assms by (simp add: transfer_session_ok_def VALID_STATES_def)
  moreover have "isComplete ?s \<longleftrightarrow> False \<notin> set ?flags" using assms(1) unfolding all_received_iff
    by (auto simp: isComplete_def receivedCount_def transfer_session_ok_def simp flip: of_nat_eq_iff)
  ultimately show ?thesis by auto
qed

text \<open>C35: A transfer session stays well formed. Whatever chunks arrive, in any order and however often, with indices in range, marking them succeeds and
  yields a session the constructor would accept; it has exactly the flags of the chunks that arrived, and its state says complete exactly when all have.\<close>

theorem transfer_session_typed:
  assumes "transfer_session_ok s" "\<forall>(now, i)\<in>set ms. 0 < now \<and> 0 \<le> i \<and> i < fm_chunkCount (fs_manifest s)"
  shows "\<exists>s'. markAll ms s = Inr s' \<and> transfer_session_ok s'
    \<and> (\<forall>k < length (fs_receivedChunks s). fs_receivedChunks s' ! k = (fs_receivedChunks s ! k \<or> int k \<in> snd ` set ms))
    \<and> (ms = [] \<or> fs_state s' = (if isComplete s' then ''complete'' else ''receiving''))"
  using assms
proof (induction ms arbitrary: s)
  case (Cons a ms)
  obtain now i where a: "a = (now, i)" by fastforce
  with Cons.prems have i: "0 < now" "0 \<le> i" "i < fm_chunkCount (fs_manifest s)" by auto
  from mark_step [OF Cons.prems(1) i] obtain s1 where
    s1: "markChunkReceived now i s = Inr s1" "transfer_session_ok s1" "fs_manifest s1 = fs_manifest s"
      "fs_receivedChunks s1 = (fs_receivedChunks s)[nat i := True]" "fs_state s1 = (if isComplete s1 then ''complete'' else ''receiving'')" by blast
  from Cons.IH [OF s1(2)] Cons.prems(2) s1(3) obtain s' where
    s': "markAll ms s1 = Inr s'" "transfer_session_ok s'"
      "\<forall>k < length (fs_receivedChunks s1). fs_receivedChunks s' ! k = (fs_receivedChunks s1 ! k \<or> int k \<in> snd ` set ms)"
      "ms = [] \<or> fs_state s' = (if isComplete s' then ''complete'' else ''receiving'')" by auto
  have "fs_receivedChunks s' ! k = (fs_receivedChunks s ! k \<or> int k \<in> snd ` set (a # ms))" if "k < length (fs_receivedChunks s)" for k
    using s'(3) s1(4) that i(2) a by (cases "k = nat i") (auto simp: nth_list_update)
  moreover have "fs_state s' = (if isComplete s' then ''complete'' else ''receiving'')" using s'(1,4) s1(5) by (cases "ms = []") auto
  ultimately show ?case using s'(1,2) s1(1) a by simp
qed simp

definition demo_manifest :: FileManifestV1 where
  "demo_manifest = \<lparr>fm_transferId = ''t'', fm_fileName = ''f'', fm_mimeType = ''m'', fm_fileSizeBytes = 2000, fm_chunkSizeBytes = 1024, fm_chunkCount = 2,
     fm_fileHashHex = [], fm_chunkHashesHex = [], fm_text = []\<rparr>"

definition demo_session :: FileTransferSessionV1 where
  "demo_session = \<lparr>fs_transferId = ''t'', fs_manifest = demo_manifest, fs_receivedChunks = [False, False], fs_state = ''pending'', fs_createdAtMs = NInt 1, fs_updatedAtMs = NInt 1\<rparr>"

theorem transfer_session_typed_witness:
  "\<exists>s'. markAll [(5, 1), (6, 1), (7, 0)] demo_session = Inr s' \<and> fs_receivedChunks s' ! 0 \<and> fs_receivedChunks s' ! 1"
proof -
  have "transfer_session_ok demo_session" "fm_chunkCount (fs_manifest demo_session) = 2" "fs_receivedChunks demo_session = [False, False]"
    by (simp_all add: transfer_session_ok_def demo_session_def demo_manifest_def VALID_STATES_def)
  then show ?thesis using transfer_session_typed [of demo_session "[(5, 1), (6, 1), (7, 0)]"] by (auto simp: less_Suc_eq)
qed

end
