(* ===== verification/Capability.thy ===== *)
theory Capability
  imports Device_Records
begin

text \<open>
  Resource capabilities (\<^verbatim>\<open>src/capability\<close>): resources \<^verbatim>\<open>kind:id\<close>, signed capabilities with actions and constraints, their creation and delegation
  (\<^verbatim>\<open>CapabilitySigner.js\<close>) and the validation of a delegation chain (\<^verbatim>\<open>CapabilityValidator.js\<close>). The random bytes of an identifier are an argument.
\<close>

section \<open>Resources\<close>

definition VALID_KINDS :: "string list" where
  "VALID_KINDS = [''channel'', ''inbox'', ''mailbox'', ''object'']"

record RResource =
  res_kind :: string
  res_id :: string

definition newRResource :: "string \<Rightarrow> string \<Rightarrow> RResource result" where
  "newRResource kind i =
     (if kind \<notin> set VALID_KINDS then Inl (RezInvariantError (''RResource.kind must be one of: '' @ join '', '' VALID_KINDS))
      else if i = [] then Inl (RezInvariantError ''RResource.id must be a non-empty string'')
      else if length i > 512 then Inl (RezInvariantError ''RResource.id must be at most 512 characters'')
      else Inr \<lparr>res_kind = kind, res_id = i\<rparr>)"

definition resource_toString :: "RResource \<Rightarrow> string" where
  "resource_toString r = res_kind r @ '':'' @ res_id r"

definition resource_parse :: "string \<Rightarrow> RResource result" where
  "resource_parse str =
     (if CHR '':'' \<notin> set str then Inl (Error (''RResource.parse: invalid format, expected \"kind:id\", got \"'' @ str @ ''\"''))
      else newRResource (takeWhile (\<lambda>ch. ch \<noteq> CHR '':'') str) (tl (dropWhile (\<lambda>ch. ch \<noteq> CHR '':'') str)))"

section \<open>Capabilities\<close>

definition ACTIONS :: "string list" where
  "ACTIONS = [''admin'', ''connect'', ''grant'', ''post'', ''read'', ''write'']"

record RCapability =
  rcap_capId :: string
  rcap_parentCapId :: "string option"
  rcap_resource :: string
  rcap_actions :: "string list"
  rcap_constraints :: "(string \<times> jsval) list"
  rcap_signer :: string
  rcap_grantee :: "string option"
  rcap_signature :: "string option"

text \<open>\<^verbatim>\<open>a > b\<close> on numbers: false as soon as one is not a number.\<close>

fun numGt :: "jsnum \<Rightarrow> jsnum \<Rightarrow> bool" where
  "numGt (NInt a) (NInt b) = (a > b)"
| "numGt (NInt a) (NInf neg) = neg"
| "numGt (NInf neg) (NInt b) = (\<not> neg)"
| "numGt (NInf n1) (NInf n2) = (\<not> n1 \<and> n2)"
| "numGt _ _ = False"

definition isNumber :: "jsval \<Rightarrow> bool" where
  "isNumber v = (case v of JNum _ \<Rightarrow> True | _ \<Rightarrow> False)"

definition numberOf :: "jsval \<Rightarrow> jsnum" where
  "numberOf v = (case v of JNum n \<Rightarrow> n | _ \<Rightarrow> NNaN)"

definition numGe :: "jsnum \<Rightarrow> jsnum \<Rightarrow> bool" where
  "numGe a b = (numGt a b \<or> (a = b \<and> a \<noteq> NNaN))"

definition constraintOf :: "RCapability \<Rightarrow> string \<Rightarrow> jsval" where
  "constraintOf cap k = getProp (JObj (rcap_constraints cap)) k"

definition checkConstraintTypes :: "RCapability \<Rightarrow> unit result" where
  "checkConstraintTypes cap =
     (let e = constraintOf cap ''expiresAt''; u = constraintOf cap ''maxUses''; d = constraintOf cap ''maxDelegationDepth'' in
      if \<not> isNullish e \<and> \<not> isNumber e then Inl (RezInvariantError ''RCapability.constraints.expiresAt must be a number'')
      else if \<not> isNullish u \<and> \<not> (isNumber u \<and> numGt (numberOf u) (NInt 0)) then Inl (RezInvariantError ''RCapability.constraints.maxUses must be a positive number'')
      else if \<not> isNullish d \<and> \<not> (isNumber d \<and> numGe (numberOf d) (NInt 0)) then Inl (RezInvariantError ''RCapability.constraints.maxDelegationDepth must be a non-negative number'')
      else Inr ())"

definition validateCapability :: "RCapability \<Rightarrow> RCapability result" where
  "validateCapability cap =
     (if rcap_capId cap = [] then Inl (RezInvariantError ''RCapability.capId must be a non-empty string'')
      else if rcap_resource cap = [] then Inl (RezInvariantError ''RCapability.resource must be a non-empty string'')
      else bindR (resource_parse (rcap_resource cap)) (\<lambda>_.
        if rcap_actions cap = [] then Inl (RezInvariantError ''RCapability.actions must be a non-empty array'')
        else case find (\<lambda>a. a \<notin> set ACTIONS) (rcap_actions cap) of
          Some a \<Rightarrow> Inl (RezInvariantError (''RCapability.actions contains invalid action: \"'' @ a @ ''\"''))
        | None \<Rightarrow> bindR (checkConstraintTypes cap) (\<lambda>_.
            if rcap_signer cap = [] then Inl (RezInvariantError ''RCapability.signerPublicKeyB64 must be a non-empty string'')
            else if rcap_grantee cap = Some [] then Inl (RezInvariantError ''RCapability.granteePublicKeyB64 must be null or a non-empty string'')
            else Inr cap)))"

definition newRCapability ::
  "string \<Rightarrow> string option \<Rightarrow> string \<Rightarrow> string list \<Rightarrow> (string \<times> jsval) list \<Rightarrow> string \<Rightarrow> string option \<Rightarrow> string option \<Rightarrow> RCapability result" where
  "newRCapability capId parentCapId resource actions constraints signer grantee signature =
     validateCapability \<lparr>rcap_capId = capId, rcap_parentCapId = parentCapId, rcap_resource = resource, rcap_actions = sort actions,
       rcap_constraints = constraints, rcap_signer = signer, rcap_grantee = grantee, rcap_signature = signature\<rparr>"

definition optStr :: "string option \<Rightarrow> jsval" where
  "optStr s = (case s of Some t \<Rightarrow> JStr t | None \<Rightarrow> JNull)"

text \<open>\<^verbatim>\<open>toJSON\<close> without the signature, as canonical text.\<close>

definition rcap_signableBytes :: "RCapability \<Rightarrow> bytes" where
  "rcap_signableBytes cap = signable (JObj [(''capId'', JStr (rcap_capId cap)), (''parentCapId'', optStr (rcap_parentCapId cap)), (''resource'', JStr (rcap_resource cap)),
     (''actions'', JArr (map JStr (rcap_actions cap))), (''constraints'', JObj (rcap_constraints cap)), (''signerPublicKeyB64'', JStr (rcap_signer cap)),
     (''granteePublicKeyB64'', optStr (rcap_grantee cap))])"

section \<open>Signing\<close>

definition newId :: "string \<Rightarrow> bytes \<Rightarrow> string result" where
  "newId pre randomBytes =
     (if length randomBytes \<noteq> 16 then Inl (Error ''RRecord.newId randomBytes must return Uint8Array(16)'') else Inr (pre @ ''_'' @ toHex randomBytes))"

definition signCapability :: "crypto_provider \<Rightarrow> RCapability \<Rightarrow> bytes \<Rightarrow> RCapability result" where
  "signCapability c cap privateKeyBytes =
     bindR (sign c privateKeyBytes (rcap_signableBytes cap)) (\<lambda>sig.
       newRCapability (rcap_capId cap) (rcap_parentCapId cap) (rcap_resource cap) (rcap_actions cap) (rcap_constraints cap) (rcap_signer cap) (rcap_grantee cap)
         (Some (bytesToBase64 sig)))"

definition createRootCapability ::
  "crypto_provider \<Rightarrow> bytes \<Rightarrow> string \<Rightarrow> string list \<Rightarrow> (string \<times> jsval) list \<Rightarrow> string \<Rightarrow> string option \<Rightarrow> bytes \<Rightarrow> RCapability result" where
  "createRootCapability c rnd resource actions constraints signer grantee privateKeyBytes =
     bindR (newId ''cap'' rnd) (\<lambda>capId. bindR (newRCapability capId None resource actions constraints signer grantee None) (\<lambda>cap. signCapability c cap privateKeyBytes))"

definition delegateCapability ::
  "crypto_provider \<Rightarrow> bytes \<Rightarrow> RCapability \<Rightarrow> string list \<Rightarrow> (string \<times> jsval) list \<Rightarrow> string \<Rightarrow> string option \<Rightarrow> bytes \<Rightarrow> RCapability result" where
  "delegateCapability c rnd parent actions constraints signer grantee privateKeyBytes =
     bindR (newId ''cap'' rnd) (\<lambda>capId. bindR (newRCapability capId (Some (rcap_capId parent)) (rcap_resource parent) actions constraints signer grantee None)
       (\<lambda>cap. signCapability c cap privateKeyBytes))"

definition rotateCapability ::
  "crypto_provider \<Rightarrow> bytes \<Rightarrow> RCapability \<Rightarrow> string \<Rightarrow> bytes \<Rightarrow> (string \<times> jsval) list option \<Rightarrow> RCapability result" where
  "rotateCapability c rnd old signer privateKeyBytes newConstraints =
     bindR (newId ''cap'' rnd) (\<lambda>capId. bindR (newRCapability capId (rcap_parentCapId old) (rcap_resource old) (rcap_actions old)
         (case newConstraints of Some cs \<Rightarrow> cs | None \<Rightarrow> rcap_constraints old) signer (rcap_grantee old) None)
       (\<lambda>cap. signCapability c cap privateKeyBytes))"

section \<open>Validating\<close>

text \<open>\<^verbatim>\<open>atob\<close>: white space is dropped, up to two trailing \<^verbatim>\<open>=\<close> are removed from a text whose length is a multiple of four, a rest of one character or a character
  outside the alphabet throws, and the bits that do not fill a byte are dropped.\<close>

definition sextetTriple :: "u32 \<Rightarrow> u32 \<Rightarrow> u32 \<Rightarrow> u32 \<Rightarrow> bytes" where
  "sextetTriple a b x y =
     (let t = push_bit 18 a OR push_bit 12 b OR push_bit 6 x OR y in [ucast (drop_bit 16 t AND 255), ucast (drop_bit 8 t AND 255), ucast (t AND 255)])"

fun sextetBytes :: "u32 list \<Rightarrow> bytes" where
  "sextetBytes (a # b # x # y # r) = sextetTriple a b x y @ sextetBytes r"
| "sextetBytes [a, b, x] = take 2 (sextetTriple a b x 0)"
| "sextetBytes [a, b] = take 1 (sextetTriple a b 0 0)"
| "sextetBytes _ = []"

definition sextet :: "char \<Rightarrow> u32" where
  "sextet ch = word_of_int (indexOf B64_ALPHABET ch)"

definition atob :: "string \<Rightarrow> bytes result" where
  "atob s =
     (let t = filter (\<lambda>ch. ch \<notin> set [CHR 0x09, CHR 0x0A, CHR 0x0C, CHR 0x0D, CHR '' '']) s;
          u = (if length t mod 4 = 0 then (if endsWith t ''=='' then take (length t - 2) t else if endsWith t ''='' then take (length t - 1) t else t) else t)
      in if length u mod 4 = 1 \<or> \<not> list_all (\<lambda>ch. ch \<in> set B64_ALPHABET) u then Inl (Error ''InvalidCharacterError'')
         else Inr (sextetBytes (map sextet u)))"

definition verifySignature :: "crypto_provider \<Rightarrow> RCapability \<Rightarrow> string option result" where
  "verifySignature c cap =
     (case rcap_signature cap of
        None \<Rightarrow> Inr (Some ''capability has no signature'')
      | Some sg \<Rightarrow>
          if sg = [] then Inr (Some ''capability has no signature'')
          else bindR (atob (rcap_signer cap)) (\<lambda>pub. bindR (atob sg) (\<lambda>sigBytes.
               bindR (verify c pub (rcap_signableBytes cap) sigBytes) (\<lambda>valid. Inr (if valid then None else Some ''signature verification failed'')))))"

definition limitCheck :: "string \<Rightarrow> RCapability \<Rightarrow> RCapability \<Rightarrow> string option" where
  "limitCheck k child parent =
     (if isNullish (constraintOf parent k) then None
      else if isNullish (constraintOf child k) then Some (''child must have '' @ k @ '' when parent does'')
      else if numGt (numberOf (constraintOf child k)) (numberOf (constraintOf parent k)) then Some (''child '' @ k @ '' must be <= parent '' @ k)
      else None)"

definition firstReason :: "string option list \<Rightarrow> string option" where
  "firstReason rs = (case find (\<lambda>r. r \<noteq> None) rs of Some r \<Rightarrow> r | None \<Rightarrow> None)"

definition validateScopeNarrowing :: "RCapability \<Rightarrow> RCapability \<Rightarrow> string option" where
  "validateScopeNarrowing child parent =
     (if rcap_resource child \<noteq> rcap_resource parent
      then Some (''resource mismatch: child=\"'' @ rcap_resource child @ ''\" parent=\"'' @ rcap_resource parent @ ''\"'')
      else case find (\<lambda>a. a \<notin> set (rcap_actions parent)) (rcap_actions child) of
        Some a \<Rightarrow> Some (''child action \"'' @ a @ ''\" not in parent actions'')
      | None \<Rightarrow> firstReason [limitCheck ''expiresAt'' child parent, limitCheck ''maxUses'' child parent, limitCheck ''maxDelegationDepth'' child parent])"

definition linkReason :: "nat \<Rightarrow> RCapability \<Rightarrow> RCapability \<Rightarrow> string option" where
  "linkReason i parent cap =
     (if rcap_parentCapId cap \<noteq> Some (rcap_capId parent) then Some (''parentCapId mismatch at index '' @ nat_str i)
      else if rcap_grantee parent \<noteq> None \<and> Some (rcap_signer cap) \<noteq> rcap_grantee parent then Some (''child signer does not match parent grantee at index '' @ nat_str i)
      else map_option (\<lambda>r. ''scope violation at index '' @ nat_str i @ '': '' @ r) (validateScopeNarrowing cap parent))"

fun chainLoop :: "crypto_provider \<Rightarrow> nat \<Rightarrow> RCapability option \<Rightarrow> RCapability list \<Rightarrow> (string \<times> nat) option result" where
  "chainLoop c i parent [] = Inr None"
| "chainLoop c i parent (cap # caps) =
     bindR (verifySignature c cap) (\<lambda>bad.
       case bad of
         Some r \<Rightarrow> Inr (Some (''signature failed at index '' @ nat_str i @ '': '' @ r, i))
       | None \<Rightarrow> (case (case parent of None \<Rightarrow> None | Some p \<Rightarrow> linkReason i p cap) of
                    Some r \<Rightarrow> Inr (Some (r, i))
                  | None \<Rightarrow> chainLoop c (Suc i) (Some cap) caps))"

datatype chain_outcome = ChainOk RCapability | ChainBad string "nat option"

definition validateChain :: "crypto_provider \<Rightarrow> RCapability list \<Rightarrow> string option \<Rightarrow> chain_outcome result" where
  "validateChain c caps presenter =
     (if caps = [] then Inr (ChainBad ''empty capability chain'' None)
      else if rcap_parentCapId (hd caps) \<noteq> None then Inr (ChainBad ''first capability in chain must be a root (parentCapId === null)'' None)
      else bindR (chainLoop c 0 None caps) (\<lambda>bad.
        case bad of
          Some (r, i) \<Rightarrow> Inr (ChainBad r (Some i))
        | None \<Rightarrow>
            if rcap_grantee (last caps) \<noteq> None \<and> presenter \<noteq> None \<and> presenter \<noteq> Some [] \<and> rcap_grantee (last caps) \<noteq> presenter
            then Inr (ChainBad ''leaf grantee does not match presenter'' (Some (length caps - 1))) else Inr (ChainOk (last caps))))"

definition checkConstraints :: "RCapability \<Rightarrow> jsnum option \<Rightarrow> jsnum option \<Rightarrow> string option" where
  "checkConstraints cap nowMs usageCount =
     (if \<not> isNullish (constraintOf cap ''expiresAt'') \<and> (case nowMs of Some t \<Rightarrow> numGe t (numberOf (constraintOf cap ''expiresAt'')) | None \<Rightarrow> False)
      then Some ''capability has expired''
      else if \<not> isNullish (constraintOf cap ''maxUses'') \<and> (case usageCount of Some u \<Rightarrow> numGe u (numberOf (constraintOf cap ''maxUses'')) | None \<Rightarrow> False)
      then Some ''capability has exceeded maxUses''
      else None)"

section \<open>Handles and protocol objects\<close>

text \<open>\<^verbatim>\<open>/^[a-z0-9][a-z0-9_-]{0,62}[a-z0-9]$/\<close>\<close>

definition isLowerAlnum :: "char \<Rightarrow> bool" where
  "isLowerAlnum ch = (ch \<in> set ''abcdefghijklmnopqrstuvwxyz0123456789'')"

definition HANDLE_PATTERN :: "string \<Rightarrow> bool" where
  "HANDLE_PATTERN s = (2 \<le> length s \<and> length s \<le> 64 \<and> isLowerAlnum (hd s) \<and> isLowerAlnum (last s)
     \<and> list_all (\<lambda>ch. isLowerAlnum ch \<or> ch = CHR ''_'' \<or> ch = CHR ''-'') s)"

definition nonEmptyStr :: "jsval \<Rightarrow> bool" where
  "nonEmptyStr v = (case v of JStr s \<Rightarrow> s \<noteq> [] | _ \<Rightarrow> False)"

definition nullOrStr :: "jsval \<Rightarrow> bool" where
  "nullOrStr v = (case v of JNull \<Rightarrow> True | JStr _ \<Rightarrow> True | _ \<Rightarrow> False)"

record RHandle =
  hd_name :: string
  hd_resourceId :: string
  hd_ownerAccountId :: string
  hd_registeredAtMs :: jsnum
  hd_signature :: jsval

definition newRHandle :: "jsval \<Rightarrow> RHandle result" where
  "newRHandle j =
     (let name = getProp j ''name''; resourceId = getProp j ''resourceId''; owner = getProp j ''ownerAccountId''; at = getProp j ''registeredAtMs'';
          sg = dflt (getProp j ''signatureB64'') JNull
      in if \<not> nonEmptyStr name then Inl (RezInvariantError ''RHandle.name must be a non-empty string'')
         else if \<not> length (strOf name) \<le> 64 then Inl (RezInvariantError ''RHandle.name must be at most 64 characters'')
         else if \<not> HANDLE_PATTERN (strOf name) then Inl (RezInvariantError ''RHandle.name must be lowercase alphanumeric with hyphens/underscores, min 2 chars'')
         else if \<not> nonEmptyStr resourceId then Inl (RezInvariantError ''RHandle.resourceId must be a non-empty string'')
         else if \<not> nonEmptyStr owner then Inl (RezInvariantError ''RHandle.ownerAccountId must be a non-empty string'')
         else if \<not> (isNumber at \<and> numGt (numberOf at) (NInt 0)) then Inl (RezInvariantError ''RHandle.registeredAtMs must be a positive number'')
         else if \<not> nullOrStr sg then Inl (RezInvariantError ''RHandle.signatureB64 must be null or string'')
         else Inr \<lparr>hd_name = strOf name, hd_resourceId = strOf resourceId, hd_ownerAccountId = strOf owner, hd_registeredAtMs = numberOf at, hd_signature = sg\<rparr>)"

definition handle_signableBytes :: "RHandle \<Rightarrow> bytes" where
  "handle_signableBytes h = signable (JObj [(''name'', JStr (hd_name h)), (''resourceId'', JStr (hd_resourceId h)),
     (''ownerAccountId'', JStr (hd_ownerAccountId h)), (''registeredAtMs'', JNum (hd_registeredAtMs h))])"

record RProtocolObject =
  po_objectId :: string
  po_ciphertextB64 :: string
  po_metadata :: "(string \<times> jsval) list"
  po_signatureB64 :: jsval
  po_signerPublicKeyB64 :: jsval

definition metadataCheck :: "jsval \<Rightarrow> unit result" where
  "metadataCheck m =
     (let t = getProp m ''contentType''; s = getProp m ''sizeBytes''; at = getProp m ''createdAtMs'' in
      if \<not> isNullish t \<and> \<not> isString t then Inl (RezInvariantError ''RProtocolObject.metadata.contentType must be a string'')
      else if \<not> isNullish s \<and> \<not> (isNumber s \<and> numGe (numberOf s) (NInt 0)) then Inl (RezInvariantError ''RProtocolObject.metadata.sizeBytes must be a non-negative number'')
      else if \<not> isNullish at \<and> \<not> isNumber at then Inl (RezInvariantError ''RProtocolObject.metadata.createdAtMs must be a number'')
      else Inr ())"

text \<open>The metadata is given as the entries of an object (\<^verbatim>\<open>{ ...metadata }\<close> of it).\<close>

definition newRProtocolObject :: "jsval \<Rightarrow> jsval \<Rightarrow> (string \<times> jsval) list \<Rightarrow> jsval \<Rightarrow> jsval \<Rightarrow> RProtocolObject result" where
  "newRProtocolObject objectId ciphertextB64 metadata sig0 who0 =
     (let sg = dflt sig0 JNull; who = dflt who0 JNull in
      if \<not> nonEmptyStr objectId then Inl (RezInvariantError ''RProtocolObject.objectId must be a non-empty string'')
      else if \<not> nonEmptyStr ciphertextB64 then Inl (RezInvariantError ''RProtocolObject.ciphertextB64 must be a non-empty string'')
      else bindR (metadataCheck (JObj metadata)) (\<lambda>_.
        if (sg \<noteq> JNull) \<noteq> (who \<noteq> JNull) then Inl (RezInvariantError ''RProtocolObject: signatureB64 and signerPublicKeyB64 must both be present or both null'')
        else if sg \<noteq> JNull \<and> \<not> isString sg then Inl (RezInvariantError ''RProtocolObject.signatureB64 must be a string'')
        else if sg \<noteq> JNull \<and> \<not> nonEmptyStr who then Inl (RezInvariantError ''RProtocolObject.signerPublicKeyB64 must be a non-empty string'')
        else Inr \<lparr>po_objectId = strOf objectId, po_ciphertextB64 = strOf ciphertextB64, po_metadata = metadata, po_signatureB64 = sg, po_signerPublicKeyB64 = who\<rparr>))"

section \<open>Facts about chains\<close>

definition LIMITS :: "string list" where
  "LIMITS = [''expiresAt'', ''maxUses'', ''maxDelegationDepth'']"

text \<open>The numbers that JSON can carry: a limit is absent or an integer.\<close>

definition finite_limits :: "RCapability \<Rightarrow> bool" where
  "finite_limits cap \<longleftrightarrow> (\<forall>k\<in>set LIMITS. isNullish (constraintOf cap k) \<or> isInteger (constraintOf cap k))"

definition narrows :: "RCapability \<Rightarrow> RCapability \<Rightarrow> bool" where
  "narrows d a \<longleftrightarrow> rcap_resource d = rcap_resource a \<and> set (rcap_actions d) \<subseteq> set (rcap_actions a)
     \<and> (\<forall>k\<in>set LIMITS. \<forall>x. constraintOf a k = JInt x \<longrightarrow> (\<exists>y \<le> x. constraintOf d k = JInt y))"

lemma narrows_refl: "narrows a a"
  by (simp add: narrows_def)

lemma narrows_trans: "narrows x d \<Longrightarrow> narrows d a \<Longrightarrow> narrows x a"
proof -
  assume h: "narrows x d" "narrows d a"
  have "\<exists>z \<le> m. constraintOf x k = JInt z" if km: "k \<in> set LIMITS" "constraintOf a k = JInt m" for k m
  proof -
    obtain y where "y \<le> m" "constraintOf d k = JInt y" using h(2) km unfolding narrows_def by blast
    moreover obtain z where "z \<le> y" "constraintOf x k = JInt z" using h(1) km(1) \<open>constraintOf d k = JInt y\<close> unfolding narrows_def by blast
    ultimately show ?thesis by (blast intro: order_trans)
  qed
  then show "narrows x a" using h by (auto simp: narrows_def)
qed

lemma limitCheck_le:
  assumes "limitCheck k child parent = None" "isNullish (constraintOf child k) \<or> isInteger (constraintOf child k)" "constraintOf parent k = JInt x"
  shows "\<exists>y \<le> x. constraintOf child k = JInt y"
proof -
  have "\<not> isNullish (constraintOf child k)" using assms(1,3) by (auto simp: limitCheck_def split: if_splits)
  then obtain y where y: "constraintOf child k = JInt y" using assms(2) by (cases "constraintOf child k" rule: isInteger.cases) auto
  then show ?thesis using assms(1,3) by (auto simp: limitCheck_def numberOf_def split: if_splits)
qed

lemma firstReason_None: "firstReason rs = None \<longleftrightarrow> (\<forall>r\<in>set rs. r = None)"
  by (induction rs) (auto simp: firstReason_def)

lemma narrowing_sound:
  assumes "validateScopeNarrowing child parent = None" "finite_limits child"
  shows "narrows child parent"
proof -
  have r: "rcap_resource child = rcap_resource parent" "find (\<lambda>a. a \<notin> set (rcap_actions parent)) (rcap_actions child) = None"
    "\<forall>k\<in>set LIMITS. limitCheck k child parent = None"
    using assms(1) by (auto simp: validateScopeNarrowing_def firstReason_None LIMITS_def split: if_splits option.splits)
  then show ?thesis using assms(2) limitCheck_le unfolding narrows_def finite_limits_def find_None_iff by blast
qed

definition link_ok :: "RCapability \<Rightarrow> RCapability \<Rightarrow> bool" where
  "link_ok p cap \<longleftrightarrow> rcap_parentCapId cap = Some (rcap_capId p) \<and> (rcap_grantee p = None \<or> rcap_grantee p = Some (rcap_signer cap))
     \<and> validateScopeNarrowing cap p = None"

lemma linkReason_None: "linkReason i p cap = None \<longleftrightarrow> link_ok p cap"
  by (auto simp: linkReason_def link_ok_def)

lemma chainLoop_None:
  "chainLoop c i parent caps = Inr None
   \<longleftrightarrow> (\<forall>cap\<in>set caps. verifySignature c cap = Inr None) \<and> successively link_ok (case parent of None \<Rightarrow> caps | Some p \<Rightarrow> p # caps)"
proof (induction caps arbitrary: i parent)
  case (Cons cap caps)
  show ?case
  proof (cases "verifySignature c cap = Inr None \<and> (\<forall>p. parent = Some p \<longrightarrow> link_ok p cap)")
    case True
    then show ?thesis using Cons.IH [of "Suc i" "Some cap"] by (cases parent) (simp_all add: bindR_def linkReason_None [of i, THEN iffD2])
  next
    case False
    have "(case parent of None \<Rightarrow> None | Some p \<Rightarrow> linkReason i p cap) \<noteq> None" if "parent = Some p" "\<not> link_ok p cap" for p
      using that linkReason_None [of i p cap] by simp
    then show ?thesis using False by (cases parent) (auto simp: bindR_def split: sum.splits option.splits)
  qed
qed (simp split: option.splits)

lemma successively_narrows:
  "successively link_ok (p # caps) \<Longrightarrow> \<forall>cap\<in>set caps. finite_limits cap \<Longrightarrow> cap \<in> set (p # caps) \<Longrightarrow> narrows cap p"
proof (induction caps arbitrary: p cap)
  case (Cons q caps)
  then have "narrows q p" using narrowing_sound by (simp add: link_ok_def)
  moreover have "narrows cap q" if "cap \<in> set (q # caps)" using Cons.IH [of q cap] Cons.prems that by simp
  ultimately show ?case using Cons.prems(3) narrows_refl narrows_trans by auto
qed (simp add: narrows_refl)

lemma chain_sorted: "successively link_ok caps \<Longrightarrow> \<forall>cap\<in>set caps. finite_limits cap \<Longrightarrow> sorted_wrt (\<lambda>a d. narrows d a) caps"
proof (induction caps)
  case (Cons p caps)
  have "successively link_ok caps" using Cons.prems(1) by (auto simp: successively_Cons)
  then show ?case using Cons successively_narrows [of p caps] by auto
qed simp

section \<open>Extending a chain\<close>

lemma sextet_b64Char [simp]: "sextet (b64Char k t) = drop_bit k t AND 63"
  by (simp add: sextet_def)

lemma sextetTriple_octets: "sextetTriple (drop_bit 18 (b64Triple b0 b1 b2) AND 63) (drop_bit 12 (b64Triple b0 b1 b2) AND 63) (drop_bit 6 (b64Triple b0 b1 b2) AND 63)
    (drop_bit 0 (b64Triple b0 b1 b2) AND 63) = [b0, b1, b2]"
  unfolding sextetTriple_def Let_def b64_regroup b64_octets by (rule refl)

text \<open>The text without its padding, as the sextets it stands for.\<close>

lemma sextetBytes_base64: "sextetBytes (map sextet (filter (\<lambda>ch. ch \<noteq> CHR ''='') (bytesToBase64 bs))) = bs"
proof (induction bs rule: bytesToBase64.induct)
  case (2 b0)
  then show ?case using sextetTriple_octets [of b0 0 0] by (simp add: Let_def b64Triple_low b64Triple_low(1) [simplified])
next
  case (3 b0 b1)
  then show ?case using sextetTriple_octets [of b0 b1 0] by (simp add: Let_def b64Triple_low(1) [simplified])
next
  case (4 b0 b1 b2 rest)
  then show ?case using sextetTriple_octets [of b0 b1 b2] by (simp add: Let_def)
qed simp

lemma atob_bytesToBase64: "atob (bytesToBase64 bs) = Inr bs"
proof -
  let ?s = "bytesToBase64 bs" and ?p = "(3 - length bs mod 3) mod 3"
  obtain core where core: "?s = core @ replicate ?p (CHR ''='')" "set core \<subseteq> set B64_ALPHABET" using bytesToBase64_core by blast
  have nosp: "filter (\<lambda>ch. ch \<notin> set [CHR 0x09, CHR 0x0A, CHR 0x0C, CHR 0x0D, CHR '' '']) ?s = ?s"
    using bytesToBase64_chars [of bs] by (intro filter_True) (auto simp: B64_ALPHABET_def)
  have strip: "(if endsWith ?s ''=='' then take (length ?s - 2) ?s else if endsWith ?s ''='' then take (length ?s - 1) ?s else ?s) = core"
  proof -
    have "(if A then take (length ?s - 2) ?s else if B then take (length ?s - 1) ?s else ?s) = take (length ?s - (if A then 2 else if B then 1 else 0)) ?s" for A B by simp
    from this [of "endsWith ?s ''==''" "endsWith ?s ''=''"] show ?thesis unfolding bytesToBase64_pad using core(1) by (metis append_eq_conv_conj diff_add_inverse2 length_append length_replicate)
  qed
  have m: "length ?s mod 4 = 0" by (simp add: length_bytesToBase64)
  have "length core mod 4 \<noteq> 1" if "n = length core + q" "n mod 4 = 0" "q < 3" for n q :: nat using that by presburger
  then have l: "length core mod 4 \<noteq> 1" using arg_cong [OF core(1), of length] m by (metis length_append length_replicate mod_less_divisor zero_less_numeral)
  have f: "filter (\<lambda>ch. ch \<noteq> CHR ''='') ?s = core" using core B64_no_equals by (subst core(1)) (auto simp: filter_id_conv)
  then have "sextetBytes (map sextet core) = bs" using sextetBytes_base64 by metis
  moreover have "list_all (\<lambda>ch. ch \<in> set B64_ALPHABET) core" using core(2) by (auto simp: list_all_iff)
  ultimately show ?thesis unfolding atob_def Let_def nosp m strip using l by simp
qed

lemma newRCapability_Inr:
  assumes "newRCapability capId pa res acts cons who gr sg = Inr cap"
  shows "cap = \<lparr>rcap_capId = capId, rcap_parentCapId = pa, rcap_resource = res, rcap_actions = sort acts, rcap_constraints = cons, rcap_signer = who,
    rcap_grantee = gr, rcap_signature = sg\<rparr>" "who \<noteq> []" "gr \<noteq> Some []"
  using assms by (auto simp: newRCapability_def validateCapability_def bindR_def split: if_splits sum.splits option.splits)

text \<open>A delegated capability verifies under the key it names.\<close>

lemma delegated_verifies:
  assumes d: "delegateCapability c rnd parent acts cons (bytesToBase64 (publicKey kp)) gr (privateKey kp) = Inr child"
    and law: "sign_lawful c kp" "\<And>m. sign c (privateKey kp) m \<noteq> Inr []"
  shows "verifySignature c child = Inr None \<and> rcap_parentCapId child = Some (rcap_capId parent) \<and> rcap_resource child = rcap_resource parent
    \<and> set (rcap_actions child) = set acts \<and> rcap_constraints child = cons \<and> rcap_signer child = bytesToBase64 (publicKey kp) \<and> rcap_grantee child = gr"
proof -
  obtain capId cap where n: "newRCapability capId (Some (rcap_capId parent)) (rcap_resource parent) acts cons (bytesToBase64 (publicKey kp)) gr None = Inr cap"
    and s: "signCapability c cap (privateKey kp) = Inr child"
    using d by (auto simp: delegateCapability_def bindR_def split: sum.splits)
  note cap = newRCapability_Inr [OF n]
  obtain sg where sg: "sign c (privateKey kp) (rcap_signableBytes cap) = Inr sg" "verify c (publicKey kp) (rcap_signableBytes cap) sg = Inr True"
    using law(1) unfolding sign_lawful_def by metis
  have child: "newRCapability (rcap_capId cap) (rcap_parentCapId cap) (rcap_resource cap) (rcap_actions cap) (rcap_constraints cap) (rcap_signer cap) (rcap_grantee cap)
     (Some (bytesToBase64 sg)) = Inr child" using s sg(1) by (simp add: signCapability_def bindR_def)
  note ch = newRCapability_Inr [OF child]
  have "rcap_signableBytes child = rcap_signableBytes cap" using cap(1) ch(1) by (simp add: rcap_signableBytes_def sorted_sort_id)
  moreover have "bytesToBase64 sg \<noteq> []" using law(2) sg(1) atob_bytesToBase64 [of sg] atob_bytesToBase64 [of "[]"] by (metis Inr_inject bytesToBase64.simps(1))
  ultimately show ?thesis using cap(1) ch(1) sg(2) by (simp add: verifySignature_def bindR_def atob_bytesToBase64)
qed

lemma limitCheck_None:
  assumes "isNullish (constraintOf p k) \<or> (\<exists>x y. constraintOf p k = JInt x \<and> constraintOf ch k = JInt y \<and> y \<le> x)"
  shows "limitCheck k ch p = None"
  using assms by (auto simp: limitCheck_def numberOf_def)

lemma narrowing_complete:
  assumes "rcap_resource ch = rcap_resource p" "set (rcap_actions ch) \<subseteq> set (rcap_actions p)"
    "\<forall>k\<in>set LIMITS. isNullish (constraintOf p k) \<or> (\<exists>x y. constraintOf p k = JInt x \<and> constraintOf ch k = JInt y \<and> y \<le> x)"
  shows "validateScopeNarrowing ch p = None"
proof -
  have "find (\<lambda>a. a \<notin> set (rcap_actions p)) (rcap_actions ch) = None" using assms(2) by (auto simp: find_None_iff)
  moreover have "limitCheck k ch p = None" if "k \<in> set LIMITS" for k using assms(3) that limitCheck_None by blast
  ultimately show ?thesis using assms(1) by (simp add: validateScopeNarrowing_def firstReason_None LIMITS_def)
qed

lemma validateChain_ok:
  "validateChain c caps presenter = Inr (ChainOk leaf) \<longleftrightarrow>
     caps \<noteq> [] \<and> rcap_parentCapId (hd caps) = None \<and> (\<forall>cap\<in>set caps. verifySignature c cap = Inr None) \<and> successively link_ok caps \<and> leaf = last caps
     \<and> (rcap_grantee leaf = None \<or> presenter = None \<or> presenter = Some [] \<or> rcap_grantee leaf = presenter)"
  (is "?l \<longleftrightarrow> ?r")
proof -
  have "chainLoop c 0 None caps = Inr None \<longleftrightarrow> (\<forall>cap\<in>set caps. verifySignature c cap = Inr None) \<and> successively link_ok caps" by (simp add: chainLoop_None)
  moreover have "?l \<longleftrightarrow> caps \<noteq> [] \<and> rcap_parentCapId (hd caps) = None \<and> chainLoop c 0 None caps = Inr None \<and> leaf = last caps
     \<and> (rcap_grantee leaf = None \<or> presenter = None \<or> presenter = Some [] \<or> rcap_grantee leaf = presenter)"
    by (auto simp: validateChain_def bindR_def split: if_splits sum.splits option.splits prod.splits)
  ultimately show ?thesis by blast
qed

section \<open>Properties\<close>

lemma resource_parse_toString:
  assumes "newRResource kind i = Inr r"
  shows "resource_parse (resource_toString r) = Inr r"
proof -
  have r: "r = \<lparr>res_kind = kind, res_id = i\<rparr>" "kind \<in> set VALID_KINDS" using assms by (auto simp: newRResource_def split: if_splits)
  then have k: "CHR '':'' \<notin> set kind" by (auto simp: VALID_KINDS_def)
  then have "takeWhile (\<lambda>ch. ch \<noteq> CHR '':'') (kind @ '':'' @ i) = kind" "dropWhile (\<lambda>ch. ch \<noteq> CHR '':'') (kind @ '':'' @ i) = '':'' @ i"
    by (auto simp: takeWhile_tail dropWhile_append3 takeWhile_append2 dropWhile_append2)
  then show ?thesis using r assms by (simp add: resource_toString_def resource_parse_def)
qed

text \<open>C11: An accepted capability chain only narrows. Its leaf is the last capability, the first is a root, every capability carries a valid signature of its
  signer, each is signed by the grantee of its parent where the parent names one, and every capability of the chain, at whatever distance, stays within each earlier one:
  the same resource, no further action, and no later expiry, higher use limit or higher delegation depth.\<close>

theorem capability_chain_narrows:
  assumes "validateChain c caps presenter = Inr (ChainOk leaf)" "\<forall>cap\<in>set caps. finite_limits cap"
  shows "caps \<noteq> [] \<and> leaf = last caps \<and> rcap_parentCapId (hd caps) = None \<and> (\<forall>cap\<in>set caps. verifySignature c cap = Inr None)
    \<and> successively (\<lambda>p cap. rcap_parentCapId cap = Some (rcap_capId p) \<and> (rcap_grantee p = None \<or> rcap_grantee p = Some (rcap_signer cap))) caps
    \<and> sorted_wrt (\<lambda>a d. narrows d a) caps"
proof -
  note ok = assms(1) [unfolded validateChain_ok]
  then have "successively (\<lambda>p cap. rcap_parentCapId cap = Some (rcap_capId p) \<and> (rcap_grantee p = None \<or> rcap_grantee p = Some (rcap_signer cap))) caps"
    by (auto intro: successively_mono simp: link_ok_def)
  then show ?thesis using ok chain_sorted assms(2) by blast
qed


section \<open>A concrete chain\<close>

definition demo_signer :: crypto_provider where
  "demo_signer = demo_crypto\<lparr>sign := \<lambda>_ _. Inr [1], verify := \<lambda>_ _ _. Inr True\<rparr>"

definition demo_pair :: "byte \<Rightarrow> key_pair" where
  "demo_pair b = \<lparr>publicKey = [b], privateKey = [b]\<rparr>"

definition demo_keyB64 :: "byte \<Rightarrow> string" where
  "demo_keyB64 b = bytesToBase64 (publicKey (demo_pair b))"

text \<open>Key 1 grants reading and posting to key 2, which delegates reading to key 3, which delegates it to key 4; no link may be delegated further.\<close>

definition demo_rootCap :: "RCapability" where
  "demo_rootCap = \<lparr>rcap_capId = ''cap_0'', rcap_parentCapId = None, rcap_resource = ''inbox:a'', rcap_actions = [''post'', ''read''],
     rcap_constraints = [(''maxDelegationDepth'', JInt 0)], rcap_signer = demo_keyB64 1, rcap_grantee = Some (demo_keyB64 2), rcap_signature = Some ''AQ==''\<rparr>"

definition demo_child :: "string \<Rightarrow> string \<Rightarrow> byte \<Rightarrow> RCapability" where
  "demo_child i pa b = \<lparr>rcap_capId = i, rcap_parentCapId = Some pa, rcap_resource = ''inbox:a'', rcap_actions = [''read''],
     rcap_constraints = [(''maxDelegationDepth'', JInt 0)], rcap_signer = demo_keyB64 b, rcap_grantee = Some (demo_keyB64 (b + 1)), rcap_signature = Some ''AQ==''\<rparr>"

definition demo_chain :: "RCapability list" where
  "demo_chain = [demo_rootCap, demo_child ''cap_1'' ''cap_0'' 2, demo_child ''cap_2'' ''cap_1'' 3]"

lemma demo_verifies: "rcap_signer cap = demo_keyB64 b \<Longrightarrow> rcap_signature cap = Some ''AQ=='' \<Longrightarrow> verifySignature demo_signer cap = Inr None"
proof -
  assume h: "rcap_signer cap = demo_keyB64 b" "rcap_signature cap = Some ''AQ==''"
  have "atob ''AQ=='' = Inr [1]" by code_simp
  then show ?thesis using h by (simp add: verifySignature_def demo_keyB64_def atob_bytesToBase64 bindR_def demo_signer_def)
qed

lemma demo_limits: "constraintOf demo_rootCap k = (if k = ''maxDelegationDepth'' then JInt 0 else JUndef)"
  "constraintOf (demo_child i pa b) k = (if k = ''maxDelegationDepth'' then JInt 0 else JUndef)"
  by (simp_all add: constraintOf_def demo_rootCap_def demo_child_def)

lemma demo_chain_accepted: "validateChain demo_signer demo_chain (Some (demo_keyB64 4)) = Inr (ChainOk (demo_child ''cap_2'' ''cap_1'' 3))"
proof -
  have "verifySignature demo_signer demo_rootCap = Inr None" "verifySignature demo_signer (demo_child i pa b) = Inr None" for i pa b
    by (rule demo_verifies; simp add: demo_rootCap_def demo_child_def)+
  moreover have "validateScopeNarrowing (demo_child i pa b) demo_rootCap = None" for i pa b
    by (rule narrowing_complete) (simp_all add: LIMITS_def demo_limits, simp_all add: demo_rootCap_def demo_child_def)
  moreover have "validateScopeNarrowing (demo_child i pa b) (demo_child i' pa' b') = None" for i pa b i' pa' b'
    by (rule narrowing_complete) (simp_all add: LIMITS_def demo_limits, simp_all add: demo_child_def)
  ultimately show ?thesis by (simp add: validateChain_ok demo_chain_def link_ok_def) (simp add: demo_rootCap_def demo_child_def)
qed

lemma capability_chain_narrows_witness: "sorted_wrt (\<lambda>a d. narrows d a) demo_chain \<and> length demo_chain = 3"
proof -
  have "\<forall>cap\<in>set demo_chain. finite_limits cap" by (simp add: demo_chain_def finite_limits_def LIMITS_def demo_limits)
  from capability_chain_narrows [OF demo_chain_accepted this] show ?thesis by (simp add: demo_chain_def)
qed


text \<open>The delegation depth is not enforced. Three links are accepted although the root, and every link, allows no delegation (\<^verbatim>\<open>maxDelegationDepth\<close> 0): the validator
  only asks that the number does not grow.\<close>

theorem capability_depth_unused:
  "validateChain demo_signer demo_chain (Some (demo_keyB64 4)) = Inr (ChainOk (demo_child ''cap_2'' ''cap_1'' 3))
   \<and> list_all (\<lambda>cap. constraintOf cap ''maxDelegationDepth'' = JInt 0) demo_chain"
  using demo_chain_accepted by (simp add: demo_chain_def demo_limits)

end
