(* ===== verification/Device_Link.thy ===== *)
theory Device_Link
  imports Durable_Records
begin

text \<open>
  The device-link ceremony (\<^verbatim>\<open>src/protocol/deviceLinkV1.js\<close>, \<^verbatim>\<open>src/objects/device/DeviceLinkRequestV2.js\<close>): the link code, the secrets derived from the
  shared key, the sealed request of the new device, the sealed delegation bundle of the approver, the key confirmation, and the durable records that carry
  the three messages. Random bytes, key pairs and clock readings are arguments; \<^verbatim>\<open>parse\<close> stands for \<^verbatim>\<open>JSON.parse\<close> of the decoded bytes.
\<close>

unbundle bit_operations_syntax

section \<open>Constants and guards\<close>

definition DEVICE_LINK_CODE_PREFIX :: string where "DEVICE_LINK_CODE_PREFIX = ''rez:link:v1:''"
definition DEVICE_LINK_CEREMONY_PURPOSE :: string where "DEVICE_LINK_CEREMONY_PURPOSE = ''rez:device-link-ceremony:v1''"
definition DEVICE_LINK_RECORD_KIND :: string where "DEVICE_LINK_RECORD_KIND = ''device-link''"
definition DEVICE_LINK_PSK_BYTES :: nat where "DEVICE_LINK_PSK_BYTES = 32"
definition DEVICE_LINK_MAX_PAYLOAD_B64 :: nat where "DEVICE_LINK_MAX_PAYLOAD_B64 = 15000"
definition HKDF_SALT :: bytes where "HKDF_SALT = utf8Encode ''rez:link:v1''"
definition INFO_RENDEZVOUS_SEED :: bytes where "INFO_RENDEZVOUS_SEED = utf8Encode ''rez:link:v1:rendezvous-seed''"
definition INFO_CEREMONY_NONCE :: bytes where "INFO_CEREMONY_NONCE = utf8Encode ''rez:link:v1:ceremony-nonce''"
definition INFO_REQUEST_KEY :: bytes where "INFO_REQUEST_KEY = utf8Encode ''rez:link:v1:request-key''"
definition INFO_RESPONSE_KEY :: bytes where "INFO_RESPONSE_KEY = utf8Encode ''rez:link:v1:response-key''"

definition requirePsk :: "bytes \<Rightarrow> string \<Rightarrow> bytes result" where
  "requirePsk psk fn =
     (if length psk \<noteq> DEVICE_LINK_PSK_BYTES then Inl (Error (''deviceLinkV1.'' @ fn @ '' requires a '' @ nat_str DEVICE_LINK_PSK_BYTES @ ''-byte psk Uint8Array''))
      else Inr psk)"

definition requireNowMs :: "jsnum \<Rightarrow> string \<Rightarrow> int result" where
  "requireNowMs nowMs fn = (case nowMs of NInt i \<Rightarrow> Inr i | _ \<Rightarrow> Inl (Error (''deviceLinkV1.'' @ fn @ '' requires a finite nowMs'')))"

definition constantTimeEqualBytes :: "bytes \<Rightarrow> bytes \<Rightarrow> bool" where
  "constantTimeEqualBytes a b \<longleftrightarrow> length a = length b \<and> foldl (\<lambda>acc i. acc OR ((a ! i) XOR (b ! i))) 0 [0..<length a] = 0"

definition assertSharedSecret :: "bytes \<Rightarrow> unit result" where
  "assertSharedSecret bs =
     (if length bs \<noteq> 32 then Inl (Error ''deviceLinkV1: shared secret must be 32 bytes'')
      else if foldl (OR) 0 bs = 0 then Inl (Error ''deviceLinkV1: rejects all-zero (contributory) shared secret'')
      else Inr ())"

definition link_aadBytes :: "string \<Rightarrow> string \<Rightarrow> string \<Rightarrow> (string \<times> jsval) list \<Rightarrow> bytes" where
  "link_aadBytes account rendezvous phase extra = signable (JObj ([(''v'', JInt 1), (''purpose'', JStr DEVICE_LINK_CEREMONY_PURPOSE),
     (''accountSignPublicKeyB64'', JStr account), (''rendezvousPublicKeyB64'', JStr rendezvous), (''step'', JStr phase)] @ extra))"

definition transcriptHashB64 :: "bytes \<Rightarrow> bytes \<Rightarrow> bytes \<Rightarrow> string" where
  "transcriptHashB64 aad nonce ct = bytesToBase64 (sha256Internal (aad @ nonce @ ct))"

section \<open>Link code\<close>

definition generateDeviceLinkPsk :: "bytes \<Rightarrow> bytes result" where
  "generateDeviceLinkPsk randomBytes =
     (if length randomBytes \<noteq> DEVICE_LINK_PSK_BYTES then Inl (Error ''deviceLinkV1.generateDeviceLinkPsk: crypto.randomBytes returned an unexpected shape'')
      else Inr randomBytes)"

definition encodeDeviceLinkCodeV1 :: "bytes \<Rightarrow> jsval \<Rightarrow> string result" where
  "encodeDeviceLinkCodeV1 psk account =
     bindR (requirePsk psk ''encodeDeviceLinkCodeV1'') (\<lambda>_.
     bindR (requireCanonicalSpkiB64 account ''encodeDeviceLinkCodeV1.accountSignPublicKeyB64'') (\<lambda>acc.
       Inr (DEVICE_LINK_CODE_PREFIX @ bytesToBase32 psk @ ''.'' @ acc)))"

definition isDeviceLinkCodeV1 :: "jsval \<Rightarrow> bool" where
  "isDeviceLinkCodeV1 code = (case code of JStr s \<Rightarrow> startsWith s DEVICE_LINK_CODE_PREFIX | _ \<Rightarrow> False)"

definition linkCodeFail :: "string \<Rightarrow> 'a result" where
  "linkCodeFail detail = Inl (CodedError ''LINK_V1_INVALID_FORMAT'' (''invalid device-link code: '' @ detail))"

definition parseDeviceLinkCodeV1 :: "jsval \<Rightarrow> (bytes \<times> string) result" where
  "parseDeviceLinkCodeV1 code =
     (if \<not> isDeviceLinkCodeV1 code then linkCodeFail ''missing rez:link:v1: prefix''
      else let body = trim (drop (length DEVICE_LINK_CODE_PREFIX) (strOf code)); pskText = takeWhile (\<lambda>ch. ch \<noteq> CHR ''.'') body; rest = dropWhile (\<lambda>ch. ch \<noteq> CHR ''.'') body in
        if rest = [] \<or> pskText = [] \<or> tl rest = [] then linkCodeFail ''expected <psk>.<accountPublicKey>''
        else (case base32ToBytes pskText of
                Inl e \<Rightarrow> linkCodeFail (''psk segment: '' @ errMessage e)
              | Inr psk \<Rightarrow>
                  if length psk \<noteq> DEVICE_LINK_PSK_BYTES then linkCodeFail (''psk must be '' @ nat_str DEVICE_LINK_PSK_BYTES @ '' bytes'')
                  else (case requireCanonicalSpkiB64 (JStr (tl rest)) ''account public key'' of
                          Inl e \<Rightarrow> linkCodeFail (errMessage e)
                        | Inr acc \<Rightarrow> Inr (psk, acc))))"

section \<open>Derivations\<close>

record ceremony_secrets =
  cs_rendezvousSeed :: bytes
  cs_ceremonyNonceB64 :: string
  cs_requestKey :: bytes

definition deriveCeremonySecrets :: "crypto_provider \<Rightarrow> bytes \<Rightarrow> ceremony_secrets result" where
  "deriveCeremonySecrets c psk0 =
     bindR (requirePsk psk0 ''deriveCeremonySecrets'') (\<lambda>psk.
     bindR (hkdfSha256 c psk HKDF_SALT INFO_RENDEZVOUS_SEED 32) (\<lambda>seed.
     bindR (hkdfSha256 c psk HKDF_SALT INFO_CEREMONY_NONCE 32) (\<lambda>nonce.
     bindR (hkdfSha256 c psk HKDF_SALT INFO_REQUEST_KEY 32) (\<lambda>key.
       Inr \<lparr>cs_rendezvousSeed = seed, cs_ceremonyNonceB64 = bytesToBase64 nonce, cs_requestKey = key\<rparr>))))"

definition deriveMasterSecret :: "crypto_provider \<Rightarrow> bytes \<Rightarrow> bytes \<Rightarrow> string \<Rightarrow> bytes result" where
  "deriveMasterSecret c psk dhSecret thRequestB64 =
     bindR (assertSharedSecret dhSecret) (\<lambda>_. hkdfSha256 c (dhSecret @ psk) HKDF_SALT (utf8Encode (''rez:link:v1:master:'' @ thRequestB64)) 32)"

definition deriveResponseKey :: "crypto_provider \<Rightarrow> bytes \<Rightarrow> bytes result" where
  "deriveResponseKey c masterSecret = hkdfSha256 c masterSecret [] INFO_RESPONSE_KEY 32"

definition deriveConfirmTag :: "crypto_provider \<Rightarrow> bytes \<Rightarrow> string \<Rightarrow> bytes result" where
  "deriveConfirmTag c masterSecret thResponseB64 = hkdfSha256 c masterSecret [] (utf8Encode (''rez:link:v1:confirm:'' @ thResponseB64)) 32"

fun groups4 :: "string \<Rightarrow> string list" where
  "groups4 [] = []"
| "groups4 (x # xs) = take 4 (x # xs) # groups4 (drop 3 xs)"

definition deviceLinkFingerprint :: "jsval \<Rightarrow> string result" where
  "deviceLinkFingerprint newDeviceId =
     (let i = textOf newDeviceId in
      if \<not> hex64Id ''rez:dev:'' i then Inl (Error ''deviceLinkFingerprint requires a rez:dev:<sha256 hex> device id'')
      else Inr (join ''-'' (groups4 (take 20 (drop 8 i)))))"

section \<open>The request record: DeviceLinkRequestV2.js\<close>

definition DEVICE_LINK_REQUEST_V2_PURPOSE :: string where "DEVICE_LINK_REQUEST_V2_PURPOSE = ''rez:device-link-request:v2''"

record DeviceLinkRequestV2 =
  dlr_account :: string
  dlr_newDevicePublicKeyB64 :: string
  dlr_newDeviceId :: string
  dlr_deviceInboxBinding :: jsval
  dlr_ceremonyNonceB64 :: string
  dlr_issuedAtMs :: int
  dlr_expiresAtMs :: int
  dlr_sigB64 :: string

text \<open>The inbox binding must construct and be for the very device that asks to be linked.\<close>

definition bindingCheck :: "jsval \<Rightarrow> string \<Rightarrow> string \<Rightarrow> unit result" where
  "bindingCheck raw did key =
     (case newDeviceInboxBindingV1 (if truthy raw \<and> typeofObject raw then raw else JObj []) of
        Inl e \<Rightarrow> Inl (RezInvariantError (''DeviceLinkRequestV2.deviceInboxBinding is invalid: '' @ errMessage e))
      | Inr b \<Rightarrow>
          if dib_deviceId b \<noteq> did
          then Inl (RezInvariantError ''DeviceLinkRequestV2.deviceInboxBinding.deviceId must equal newDeviceId (the binding must be for the device being linked)'')
          else if dib_devicePublicKeyB64 b \<noteq> key
          then Inl (RezInvariantError ''DeviceLinkRequestV2.deviceInboxBinding.devicePublicKeyB64 must equal newDevicePublicKeyB64'')
          else Inr ())"

definition newDeviceLinkRequestV2 :: "jsval \<Rightarrow> DeviceLinkRequestV2 result" where
  "newDeviceLinkRequestV2 j =
     (let at = ''DeviceLinkRequestV2'' in
      if dflt (getProp j ''v'') (JInt 2) \<noteq> JInt 2 then Inl (RezInvariantError (at @ ''.v must be 2''))
      else if dflt (getProp j ''purpose'') (JStr DEVICE_LINK_REQUEST_V2_PURPOSE) \<noteq> JStr DEVICE_LINK_REQUEST_V2_PURPOSE
      then Inl (RezInvariantError (at @ ''.purpose must be '' @ DEVICE_LINK_REQUEST_V2_PURPOSE))
      else bindR (requireCanonicalSpkiB64 (getProp j ''accountIdentityPublicKeyB64'') (at @ ''.accountIdentityPublicKeyB64'')) (\<lambda>account.
      bindR (requireCanonicalSpkiB64 (getProp j ''newDevicePublicKeyB64'') (at @ ''.newDevicePublicKeyB64'')) (\<lambda>key.
      bindR (checkDeviceId at ''newDeviceId'' ''newDevicePublicKeyB64'' (getProp j ''newDeviceId'') (getProp j ''newDevicePublicKeyB64'')) (\<lambda>did.
      bindR (bindingCheck (getProp j ''deviceInboxBinding'') did key) (\<lambda>_.
      bindR (requireCanonicalB64 (getProp j ''ceremonyNonceB64'') (at @ ''.ceremonyNonceB64'') (Some 32)) (\<lambda>nonce.
      bindR (checkWindow at (getProp j ''issuedAtMs'') (getProp j ''expiresAtMs'')) (\<lambda>(issued, expires).
      bindR (validateEd25519Sig (normalizeSig (getProp j ''sig'')) (at @ ''.sig'')) (\<lambda>sig.
        Inr \<lparr>dlr_account = account, dlr_newDevicePublicKeyB64 = key, dlr_newDeviceId = did, dlr_deviceInboxBinding = getProp j ''deviceInboxBinding'',
             dlr_ceremonyNonceB64 = nonce, dlr_issuedAtMs = issued, dlr_expiresAtMs = expires, dlr_sigB64 = sig\<rparr>))))))))"

definition linkRequest_body :: "DeviceLinkRequestV2 \<Rightarrow> (string \<times> jsval) list" where
  "linkRequest_body r = [(''v'', JInt 2), (''purpose'', JStr DEVICE_LINK_REQUEST_V2_PURPOSE), (''accountIdentityPublicKeyB64'', JStr (dlr_account r)),
     (''newDevicePublicKeyB64'', JStr (dlr_newDevicePublicKeyB64 r)), (''newDeviceId'', JStr (dlr_newDeviceId r)), (''deviceInboxBinding'', dlr_deviceInboxBinding r),
     (''ceremonyNonceB64'', JStr (dlr_ceremonyNonceB64 r)), (''issuedAtMs'', JInt (dlr_issuedAtMs r)), (''expiresAtMs'', JInt (dlr_expiresAtMs r))]"

definition linkRequest_toJSON :: "DeviceLinkRequestV2 \<Rightarrow> jsval" where
  "linkRequest_toJSON r = JObj (linkRequest_body r @ [(''sig'', sigJSON (dlr_sigB64 r))])"

definition linkRequest_signableBytes :: "jsval \<Rightarrow> bytes" where
  "linkRequest_signableBytes j = signable (JObj (map (\<lambda>k. (k, getProp j k)) [''v'', ''purpose'', ''accountIdentityPublicKeyB64'', ''newDevicePublicKeyB64'', ''newDeviceId'',
     ''deviceInboxBinding'', ''ceremonyNonceB64'', ''issuedAtMs'', ''expiresAtMs'']))"

section \<open>Request\<close>

record b64_key_pair =
  kp_publicKeyB64 :: string
  kp_privateKeyB64 :: string

record ceremony_request =
  cq_payload :: jsval
  cq_payloadB64 :: string
  cq_linkRequest :: DeviceLinkRequestV2
  cq_ephemeralKeyPair :: key_pair
  cq_thRequestB64 :: string
  cq_fingerprint :: string

definition requestPayload :: "bytes \<Rightarrow> bytes \<Rightarrow> jsval" where
  "requestPayload nonce ct = JObj [(''v'', JInt 1), (''step'', JStr ''request''), (''nonceB64'', JStr (bytesToBase64 nonce)), (''ciphertextB64'', JStr (bytesToBase64 ct))]"

definition buildCeremonyRequest ::
  "crypto_provider \<Rightarrow> jsnum \<Rightarrow> bytes \<Rightarrow> jsval \<Rightarrow> jsval \<Rightarrow> b64_key_pair \<Rightarrow> jsval \<Rightarrow> key_pair \<Rightarrow> int \<Rightarrow> bytes \<Rightarrow> ceremony_request result" where
  "buildCeremonyRequest c nowMs psk account0 rendezvous0 dkp binding eph requestTtlMs rnd =
     bindR (requireNowMs nowMs ''buildCeremonyRequest'') (\<lambda>now.
     bindR (requirePsk psk ''buildCeremonyRequest'') (\<lambda>_.
     bindR (requireCanonicalSpkiB64 account0 ''buildCeremonyRequest.accountSignPublicKeyB64'') (\<lambda>account.
     bindR (requireCanonicalSpkiB64 rendezvous0 ''buildCeremonyRequest.rendezvousPublicKeyB64'') (\<lambda>rendezvous.
     if kp_publicKeyB64 dkp = [] \<or> kp_privateKeyB64 dkp = []
     then Inl (Error ''buildCeremonyRequest requires deviceKeyPair with publicKeyB64 and privateKeyB64 (the new device key C)'')
     else if \<not> truthy binding \<or> \<not> typeofObject binding
     then Inl (Error ''buildCeremonyRequest requires deviceInboxBinding (the new device's device-signed DeviceInboxBindingV1 for its self-chosen inbox)'')
     else bindR (deriveCeremonySecrets c psk) (\<lambda>secrets.
     bindR (requireCanonicalX25519SpkiB64 (JStr (bytesToBase64 (publicKey eph))) ''buildCeremonyRequest ephemeral public key'') (\<lambda>ephB64.
     bindR (deviceIdFor (JStr (kp_publicKeyB64 dkp))) (\<lambda>did.
     let body = [(''v'', JInt 2), (''purpose'', JStr DEVICE_LINK_REQUEST_V2_PURPOSE), (''accountIdentityPublicKeyB64'', JStr account),
           (''newDevicePublicKeyB64'', JStr (kp_publicKeyB64 dkp)), (''newDeviceId'', JStr did), (''deviceInboxBinding'', binding),
           (''ceremonyNonceB64'', JStr (cs_ceremonyNonceB64 secrets)), (''issuedAtMs'', JInt now), (''expiresAtMs'', JInt (now + requestTtlMs))] in
     bindR (base64ToBytes (kp_privateKeyB64 dkp)) (\<lambda>priv.
     bindR (sign c priv (linkRequest_signableBytes (JObj body))) (\<lambda>sigBytes.
     bindR (newDeviceLinkRequestV2 (JObj (body @ [(''sig'', sigJSON (bytesToBase64 sigBytes))]))) (\<lambda>lr.
     let aad = link_aadBytes account rendezvous ''request'' [];
         plaintext = signable (JObj [(''linkRequest'', linkRequest_toJSON lr), (''ephemeralDhPublicKeyB64'', JStr ephB64)]) in
     bindR (encryptAes256Gcm c (cs_requestKey secrets) rnd plaintext aad) (\<lambda>ct.
     bindR (deviceLinkFingerprint (JStr did)) (\<lambda>fp.
       Inr \<lparr>cq_payload = requestPayload rnd ct, cq_payloadB64 = bytesToBase64 (stringifyBytes (requestPayload rnd ct)), cq_linkRequest = lr, cq_ephemeralKeyPair = eph,
            cq_thRequestB64 = transcriptHashB64 aad rnd ct, cq_fingerprint = fp\<rparr>))))))))))))"

definition assertSupportedLinkRequestVersion :: "jsval \<Rightarrow> unit result" where
  "assertSupportedLinkRequestVersion raw =
     (if truthy raw \<and> typeofObject raw \<and> getProp raw ''v'' = JInt 1
      then Inl (CodedError ''DEVICE_LINK_UPGRADE_REQUIRED''
        ''this device sent a v1 device-link request, which cannot be registered before its authority is released; update it and link again'')
      else Inr ())"

record opened_request =
  oq_linkRequest :: DeviceLinkRequestV2
  oq_ephemeralDhPublicKeyB64 :: string
  oq_thRequestB64 :: string
  oq_newDeviceId :: string
  oq_fingerprint :: string

text \<open>What is checked of the decrypted request, in order.\<close>

definition checkLinkRequest :: "crypto_provider \<Rightarrow> int \<Rightarrow> string \<Rightarrow> string \<Rightarrow> int \<Rightarrow> DeviceLinkRequestV2 \<Rightarrow> unit result" where
  "checkLinkRequest c now account nonceB64 maxFutureSkewMs lr =
     bindR (base64ToBytes (dlr_newDevicePublicKeyB64 lr)) (\<lambda>pub.
     bindR (base64ToBytes (dlr_sigB64 lr)) (\<lambda>sg.
     bindR (verify c pub (linkRequest_signableBytes (linkRequest_toJSON lr)) sg) (\<lambda>sigOk.
       if \<not> sigOk then Inl (Error ''openCeremonyRequest: link request signature is invalid'')
       else if dlr_account lr \<noteq> account then Inl (Error ''openCeremonyRequest: link request targets a different account'')
       else bindR (base64ToBytes (dlr_ceremonyNonceB64 lr)) (\<lambda>theirs.
            bindR (base64ToBytes nonceB64) (\<lambda>ours.
            if \<not> constantTimeEqualBytes theirs ours then Inl (Error ''openCeremonyRequest: ceremony nonce mismatch (request from a different ceremony)'')
            else if dlr_expiresAtMs lr \<le> now then Inl (Error ''openCeremonyRequest: link request expired'')
            else if dlr_issuedAtMs lr > now + maxFutureSkewMs then Inl (Error ''openCeremonyRequest: link request issued too far in the future'')
            else Inr ())))))"

definition parseInner :: "('a \<Rightarrow> jsval result) \<Rightarrow> string \<Rightarrow> 'a \<Rightarrow> jsval result" where
  "parseInner parse msg plaintext = (case parse plaintext of Inl e \<Rightarrow> Inl (Error (msg @ errMessage e)) | Inr v \<Rightarrow> Inr v)"

definition openCeremonyRequest ::
  "crypto_provider \<Rightarrow> (bytes \<Rightarrow> jsval result) \<Rightarrow> jsnum \<Rightarrow> bytes \<Rightarrow> jsval \<Rightarrow> jsval \<Rightarrow> jsval \<Rightarrow> int \<Rightarrow> opened_request result" where
  "openCeremonyRequest c parse nowMs psk account0 rendezvous0 src maxFutureSkewMs =
     bindR (requireNowMs nowMs ''openCeremonyRequest'') (\<lambda>now.
     bindR (requirePsk psk ''openCeremonyRequest'') (\<lambda>_.
     bindR (requireCanonicalSpkiB64 account0 ''openCeremonyRequest.accountSignPublicKeyB64'') (\<lambda>account.
     bindR (requireCanonicalSpkiB64 rendezvous0 ''openCeremonyRequest.rendezvousPublicKeyB64'') (\<lambda>rendezvous.
     if getProp src ''v'' \<noteq> JInt 1 \<or> getProp src ''step'' \<noteq> JStr ''request'' then Inl (Error ''openCeremonyRequest: payload is not a v1 request'')
     else bindR (requireCanonicalB64 (getProp src ''nonceB64'') ''openCeremonyRequest.nonceB64'' (Some 12)) (\<lambda>n.
     bindR (base64ToBytes n) (\<lambda>nonce.
     bindR (requireCanonicalB64 (getProp src ''ciphertextB64'') ''openCeremonyRequest.ciphertextB64'' None) (\<lambda>ctB64.
     bindR (base64ToBytes ctB64) (\<lambda>ct.
     bindR (deriveCeremonySecrets c psk) (\<lambda>secrets.
     let aad = link_aadBytes account rendezvous ''request'' [] in
     bindR (decryptAes256Gcm c (cs_requestKey secrets) nonce ct aad) (\<lambda>plaintext.
     bindR (parseInner parse ''openCeremonyRequest: request plaintext is not JSON: '' plaintext) (\<lambda>inner.
     let lrq = getProp inner ''linkRequest''; raw = (if truthy lrq \<and> typeofObject lrq then lrq else JObj []) in
     bindR (assertSupportedLinkRequestVersion raw) (\<lambda>_.
     bindR (newDeviceLinkRequestV2 raw) (\<lambda>lr.
     bindR (checkLinkRequest c now account (cs_ceremonyNonceB64 secrets) maxFutureSkewMs lr) (\<lambda>_.
     bindR (bindR (readProp inner ''ephemeralDhPublicKeyB64'') (\<lambda>e. requireCanonicalX25519SpkiB64 e ''openCeremonyRequest.ephemeralDhPublicKeyB64'')) (\<lambda>eph.
     bindR (deviceLinkFingerprint (JStr (dlr_newDeviceId lr))) (\<lambda>fp.
       Inr \<lparr>oq_linkRequest = lr, oq_ephemeralDhPublicKeyB64 = eph, oq_thRequestB64 = transcriptHashB64 aad nonce ct,
            oq_newDeviceId = dlr_newDeviceId lr, oq_fingerprint = fp\<rparr>))))))))))))))))"

section \<open>Response\<close>

definition forbiddenBundleKeys :: "string list" where
  "forbiddenBundleKeys = [''deviceKeyPair'', ''accountSignPrivateKeyB64'', ''accountSignKeyPair'', ''mnemonic'', ''seed'']"

definition wireBundle :: "string \<Rightarrow> string \<Rightarrow> string \<Rightarrow> jsval list \<Rightarrow> jsval \<Rightarrow> jsval" where
  "wireBundle account dhPub dhPriv chain cached = JObj [(''accountSignPublicKeyB64'', JStr account),
     (''accountDhKeyPair'', JObj [(''publicKeyB64'', JStr dhPub), (''privateKeyB64'', JStr dhPriv)]), (''certChain'', JArr chain), (''cachedDeviceSet'', cached)]"

definition validateWireBundle :: "jsval \<Rightarrow> string \<Rightarrow> string \<Rightarrow> jsval result" where
  "validateWireBundle src account fn =
     (if \<not> truthy src \<or> \<not> typeofObject src then Inl (Error (fn @ '' requires a delegationBundle object''))
      else case find (\<lambda>k. getProp src k \<noteq> JUndef) forbiddenBundleKeys of
        Some k \<Rightarrow> Inl (Error (fn @ '': delegationBundle must not contain '' @ k))
      | None \<Rightarrow>
          if getProp src ''accountSignPublicKeyB64'' \<noteq> JStr account
          then Inl (Error (fn @ '': delegationBundle.accountSignPublicKeyB64 does not match the ceremony account''))
          else let dh = getProp src ''accountDhKeyPair''; cached = dflt (getProp src ''cachedDeviceSet'') JNull in
            if \<not> truthy dh \<or> \<not> typeofObject dh then Inl (Error (fn @ '': delegationBundle requires accountDhKeyPair''))
            else bindR (requireCanonicalX25519SpkiB64 (getProp dh ''publicKeyB64'') (fn @ ''.accountDhKeyPair.publicKeyB64'')) (\<lambda>dhPub.
                 bindR (requireCanonicalB64 (getProp dh ''privateKeyB64'') (fn @ ''.accountDhKeyPair.privateKeyB64'') None) (\<lambda>dhPriv.
                 case getProp src ''certChain'' of
                   JArr chain \<Rightarrow>
                     if chain = [] then Inl (Error (fn @ '': delegationBundle requires a non-empty certChain''))
                     else if cached \<noteq> JNull \<and> (\<not> typeofObject cached \<or> isArray cached)
                     then Inl (Error (fn @ '': delegationBundle.cachedDeviceSet must be an object or null''))
                     else Inr (wireBundle account dhPub dhPriv chain cached)
                 | _ \<Rightarrow> Inl (Error (fn @ '': delegationBundle requires a non-empty certChain'')))))"

text \<open>\<^verbatim>\<open>{ ...bundle, cachedDeviceSet: null }\<close>\<close>

definition dropCached :: "jsval \<Rightarrow> jsval" where
  "dropCached b = (case b of JObj kvs \<Rightarrow> JObj (AList.update ''cachedDeviceSet'' JNull kvs) | v \<Rightarrow> v)"

record sealed_response =
  sr_payload :: jsval
  sr_payloadB64 :: string
  sr_thResponseB64 :: string

definition responsePayload :: "string \<Rightarrow> bytes \<Rightarrow> bytes \<Rightarrow> jsval" where
  "responsePayload eB nonce ct = JObj [(''v'', JInt 1), (''step'', JStr ''response''), (''ephemeralDhPublicKeyB64'', JStr eB),
     (''nonceB64'', JStr (bytesToBase64 nonce)), (''ciphertextB64'', JStr (bytesToBase64 ct))]"

definition responseAad :: "string \<Rightarrow> string \<Rightarrow> string \<Rightarrow> string \<Rightarrow> bytes" where
  "responseAad account rendezvous thRequestB64 eB =
     link_aadBytes account rendezvous ''response'' [(''thRequestB64'', JStr thRequestB64), (''ephemeralDhPublicKeyB64'', JStr eB)]"

definition sealOnce :: "crypto_provider \<Rightarrow> bytes \<Rightarrow> bytes \<Rightarrow> string \<Rightarrow> jsval \<Rightarrow> bytes \<Rightarrow> sealed_response result" where
  "sealOnce c responseKey aad eB bndl nonce =
     bindR (encryptAes256Gcm c responseKey nonce (signable (JObj [(''delegationBundle'', bndl)])) aad) (\<lambda>ct.
       Inr \<lparr>sr_payload = responsePayload eB nonce ct, sr_payloadB64 = bytesToBase64 (stringifyBytes (responsePayload eB nonce ct)),
            sr_thResponseB64 = transcriptHashB64 aad nonce ct\<rparr>)"

text \<open>The cached device set is dropped before the ceremony fails on the size of the payload.\<close>

definition sealWithinBudget :: "crypto_provider \<Rightarrow> bytes \<Rightarrow> bytes \<Rightarrow> string \<Rightarrow> jsval \<Rightarrow> bytes \<Rightarrow> bytes \<Rightarrow> sealed_response result" where
  "sealWithinBudget c responseKey aad eB bndl rnd1 rnd2 =
     bindR (sealOnce c responseKey aad eB bndl rnd1) (\<lambda>first.
     bindR (if length (sr_payloadB64 first) > DEVICE_LINK_MAX_PAYLOAD_B64 \<and> getProp bndl ''cachedDeviceSet'' \<noteq> JNull
            then sealOnce c responseKey aad eB (dropCached bndl) rnd2 else Inr first) (\<lambda>sealed.
     if length (sr_payloadB64 sealed) > DEVICE_LINK_MAX_PAYLOAD_B64
     then Inl (Error ''buildCeremonyResponse: sealed bundle exceeds the durable-record payload budget'') else Inr sealed))"

record built_response = sealed_response +
  sr_masterSecret :: bytes
  sr_confirmTagB64 :: string

definition buildCeremonyResponse ::
  "crypto_provider \<Rightarrow> bytes \<Rightarrow> jsval \<Rightarrow> jsval \<Rightarrow> jsval \<Rightarrow> jsval \<Rightarrow> jsval \<Rightarrow> key_pair \<Rightarrow> bytes \<Rightarrow> bytes \<Rightarrow> built_response result" where
  "buildCeremonyResponse c psk account0 rendezvous0 thRequest0 ephB640 delegationBundle eph rnd1 rnd2 =
     bindR (requirePsk psk ''buildCeremonyResponse'') (\<lambda>_.
     bindR (requireCanonicalSpkiB64 account0 ''buildCeremonyResponse.accountSignPublicKeyB64'') (\<lambda>account.
     bindR (requireCanonicalSpkiB64 rendezvous0 ''buildCeremonyResponse.rendezvousPublicKeyB64'') (\<lambda>rendezvous.
     bindR (requireCanonicalB64 thRequest0 ''buildCeremonyResponse.thRequestB64'' (Some 32)) (\<lambda>thRequest.
     bindR (requireCanonicalX25519SpkiB64 ephB640 ''buildCeremonyResponse.ephemeralDhPublicKeyB64'') (\<lambda>ephB64.
     bindR (validateWireBundle delegationBundle account ''buildCeremonyResponse'') (\<lambda>bndl.
     let eB = bytesToBase64 (publicKey eph); aad = responseAad account rendezvous thRequest eB in
     bindR (base64ToBytes ephB64) (\<lambda>theirs.
     bindR (dhDerive c (privateKey eph) theirs ''X25519'' ''spki'') (\<lambda>dhSecret.
     bindR (deriveMasterSecret c psk dhSecret thRequest) (\<lambda>masterSecret.
     bindR (deriveResponseKey c masterSecret) (\<lambda>responseKey.
     bindR (sealWithinBudget c responseKey aad eB bndl rnd1 rnd2) (\<lambda>sealed.
     bindR (deriveConfirmTag c masterSecret (sr_thResponseB64 sealed)) (\<lambda>tag.
       Inr \<lparr>sr_payload = sr_payload sealed, sr_payloadB64 = sr_payloadB64 sealed, sr_thResponseB64 = sr_thResponseB64 sealed,
            sr_masterSecret = masterSecret, sr_confirmTagB64 = bytesToBase64 tag\<rparr>))))))))))))"

record opened_response =
  or_delegationBundle :: jsval
  or_masterSecret :: bytes
  or_thResponseB64 :: string

definition openCeremonyResponse ::
  "crypto_provider \<Rightarrow> (bytes \<Rightarrow> jsval result) \<Rightarrow> bytes \<Rightarrow> jsval \<Rightarrow> jsval \<Rightarrow> jsval \<Rightarrow> key_pair \<Rightarrow> jsval \<Rightarrow> opened_response result" where
  "openCeremonyResponse c parse psk account0 rendezvous0 thRequest0 eph src =
     bindR (requirePsk psk ''openCeremonyResponse'') (\<lambda>_.
     bindR (requireCanonicalSpkiB64 account0 ''openCeremonyResponse.accountSignPublicKeyB64'') (\<lambda>account.
     bindR (requireCanonicalSpkiB64 rendezvous0 ''openCeremonyResponse.rendezvousPublicKeyB64'') (\<lambda>rendezvous.
     bindR (requireCanonicalB64 thRequest0 ''openCeremonyResponse.thRequestB64'' (Some 32)) (\<lambda>thRequest.
     if getProp src ''v'' \<noteq> JInt 1 \<or> getProp src ''step'' \<noteq> JStr ''response'' then Inl (Error ''openCeremonyResponse: payload is not a v1 response'')
     else bindR (requireCanonicalX25519SpkiB64 (getProp src ''ephemeralDhPublicKeyB64'') ''openCeremonyResponse.ephemeralDhPublicKeyB64'') (\<lambda>eB.
     bindR (requireCanonicalB64 (getProp src ''nonceB64'') ''openCeremonyResponse.nonceB64'' (Some 12)) (\<lambda>n.
     bindR (base64ToBytes n) (\<lambda>nonce.
     bindR (requireCanonicalB64 (getProp src ''ciphertextB64'') ''openCeremonyResponse.ciphertextB64'' None) (\<lambda>ctB64.
     bindR (base64ToBytes ctB64) (\<lambda>ct.
     bindR (base64ToBytes eB) (\<lambda>theirs.
     bindR (dhDerive c (privateKey eph) theirs ''X25519'' ''spki'') (\<lambda>dhSecret.
     bindR (deriveMasterSecret c psk dhSecret thRequest) (\<lambda>masterSecret.
     bindR (deriveResponseKey c masterSecret) (\<lambda>responseKey.
     let aad = responseAad account rendezvous thRequest eB in
     bindR (decryptAes256Gcm c responseKey nonce ct aad) (\<lambda>plaintext.
     bindR (parseInner parse ''openCeremonyResponse: response plaintext is not JSON: '' plaintext) (\<lambda>inner.
     bindR (validateWireBundle (if truthy inner \<and> typeofObject inner then getProp inner ''delegationBundle'' else JNull) account ''openCeremonyResponse'') (\<lambda>bndl.
       Inr \<lparr>or_delegationBundle = bndl, or_masterSecret = masterSecret, or_thResponseB64 = transcriptHashB64 aad nonce ct\<rparr>))))))))))))))))"

section \<open>Key confirmation\<close>

definition buildCeremonyConfirm :: "crypto_provider \<Rightarrow> bytes \<Rightarrow> jsval \<Rightarrow> (jsval \<times> string) result" where
  "buildCeremonyConfirm c masterSecret thResponse0 =
     (if length masterSecret \<noteq> 32 then Inl (Error ''buildCeremonyConfirm requires the 32-byte masterSecret'')
      else bindR (requireCanonicalB64 thResponse0 ''buildCeremonyConfirm.thResponseB64'' (Some 32)) (\<lambda>thResponse.
           bindR (deriveConfirmTag c masterSecret thResponse) (\<lambda>tag.
           let payload = JObj [(''v'', JInt 1), (''step'', JStr ''confirm''), (''tagB64'', JStr (bytesToBase64 tag))] in
             Inr (payload, bytesToBase64 (stringifyBytes payload)))))"

definition verifyCeremonyConfirm :: "crypto_provider \<Rightarrow> bytes \<Rightarrow> jsval \<Rightarrow> jsval \<Rightarrow> bool result" where
  "verifyCeremonyConfirm c masterSecret thResponse0 src =
     (if length masterSecret \<noteq> 32 then Inl (Error ''verifyCeremonyConfirm requires the 32-byte masterSecret'')
      else bindR (requireCanonicalB64 thResponse0 ''verifyCeremonyConfirm.thResponseB64'' (Some 32)) (\<lambda>thResponse.
           if getProp src ''v'' \<noteq> JInt 1 \<or> getProp src ''step'' \<noteq> JStr ''confirm'' \<or> \<not> isString (getProp src ''tagB64'') then Inr False
           else case base64ToBytes (strOf (getProp src ''tagB64'')) of
             Inl _ \<Rightarrow> Inr False
           | Inr claimed \<Rightarrow> bindR (deriveConfirmTag c masterSecret thResponse) (\<lambda>expected. Inr (constantTimeEqualBytes claimed expected))))"

section \<open>The records that carry the messages\<close>

definition sealCeremonyRecord :: "crypto_provider \<Rightarrow> jsnum \<Rightarrow> b64_key_pair \<Rightarrow> jsval \<Rightarrow> jsval \<Rightarrow> jsval \<Rightarrow> jsval result" where
  "sealCeremonyRecord c nowMs rkp recordId payloadB64 expires =
     bindR (requireNowMs nowMs ''sealCeremonyRecord'') (\<lambda>now.
     if kp_publicKeyB64 rkp = [] \<or> kp_privateKeyB64 rkp = [] then Inl (Error ''sealCeremonyRecord requires rendezvousKeyPair with publicKeyB64 and privateKeyB64'')
     else if \<not> isString recordId \<or> strOf recordId = [] then Inl (Error ''sealCeremonyRecord requires recordId'')
     else if \<not> isString payloadB64 \<or> strOf payloadB64 = [] then Inl (Error ''sealCeremonyRecord requires payloadB64'')
     else if \<not> isFiniteNumber expires \<or> intOf expires \<le> now then Inl (Error ''sealCeremonyRecord requires expiresAtMs after nowMs'')
     else let record0 = buildDurableRecordV1 (JObj [(''recordKind'', JStr DEVICE_LINK_RECORD_KIND), (''recordId'', recordId),
                (''publisherPublicKeyB64'', JStr (kp_publicKeyB64 rkp)), (''payloadB64'', payloadB64), (''issuedAtMs'', JInt now), (''expiresAtMs'', expires)]) in
       bindR (base64ToBytes (kp_privateKeyB64 rkp)) (\<lambda>priv.
       bindR (durableRecordSignableBytes record0) (\<lambda>msg.
       bindR (sign c priv msg) (\<lambda>sigBytes.
         case record0 of JObj kvs \<Rightarrow> Inr (JObj (kvs @ [(''sigB64'', JStr (bytesToBase64 sigBytes))])) | v \<Rightarrow> Inr v))))"

definition verifyCeremonyRecord :: "crypto_provider \<Rightarrow> (bytes \<Rightarrow> jsval result) \<Rightarrow> jsnum \<Rightarrow> jsval \<Rightarrow> jsval \<Rightarrow> jsval \<Rightarrow> jsval result" where
  "verifyCeremonyRecord c parse nowMs src rendezvous0 recordId =
     bindR (requireNowMs nowMs ''verifyCeremonyRecord'') (\<lambda>now.
     bindR (requireCanonicalSpkiB64 rendezvous0 ''verifyCeremonyRecord.rendezvousPublicKeyB64'') (\<lambda>rendezvous.
     if \<not> truthy src \<or> \<not> typeofObject src then Inl (Error ''verifyCeremonyRecord requires a record'')
     else if getProp src ''v'' \<noteq> JInt 1 then Inl (Error ''verifyCeremonyRecord: not a DurableRecordV1'')
     else if getProp src ''recordKind'' \<noteq> JStr DEVICE_LINK_RECORD_KIND then Inl (Error ''verifyCeremonyRecord: wrong recordKind'')
     else if getProp src ''recordId'' \<noteq> recordId then Inl (Error ''verifyCeremonyRecord: wrong recordId'')
     else if getProp src ''publisherPublicKeyB64'' \<noteq> JStr rendezvous
     then Inl (Error ''verifyCeremonyRecord: record is not published under this ceremony's rendezvous key'')
     else if \<not> isFiniteNumber (getProp src ''expiresAtMs'') \<or> intOf (getProp src ''expiresAtMs'') \<le> now then Inl (Error ''verifyCeremonyRecord: record expired'')
     else bindR (base64ToBytes rendezvous) (\<lambda>pub.
          bindR (durableRecordSignableBytes src) (\<lambda>msg.
          bindR (base64ToBytes (textOf (getProp src ''sigB64''))) (\<lambda>sg.
          bindR (verify c pub msg sg) (\<lambda>sigOk.
          if \<not> sigOk then Inl (Error ''verifyCeremonyRecord: record signature is invalid'')
          else parseInner (\<lambda>p. if isString p then bindR (base64ToBytes (strOf p)) parse else Inl (Error ''base64ToBytes(base64) requires string''))
                 ''verifyCeremonyRecord: payload is not JSON: '' (getProp src ''payloadB64'')))))))"

section \<open>Data that crosses the wire in canonical form\<close>

text \<open>What is signed or sealed as canonical text comes back as its canonical form.\<close>

definition clean :: "jsval \<Rightarrow> bool" where
  "clean v \<longleftrightarrow> json_data v \<and> wf_js v \<and> propStable v"

lemma distinct_propOrder: "distinct (map fst F) \<Longrightarrow> distinct (map fst (propOrder F))"
  by (metis mset_eq_imp_distinct_iff mset_map mset_propOrder)

lemma canonicalize_wf: "wf_js v \<Longrightarrow> json_data v \<Longrightarrow> propStable v \<Longrightarrow> wf_js (canonicalize v) \<and> propStable (canonicalize v)"
proof (induction v)
  case (JObj kvs)
  let ?E = "map (map_prod id canonicalize) kvs"
  let ?F = "filter (\<lambda>p. fst p \<noteq> ''__proto__'') (sort_key fst ?E)"
  have d: "distinct (map fst kvs)" using JObj.prems(1) by simp
  have "distinct (map fst (sort_key fst ?E))" using d by (intro distinct_sort_entries) simp
  then have "distinct (map fst ?F)" by (rule distinct_map_filter)
  then have "distinct (map fst (propOrder ?F))" by (rule distinct_propOrder)
  moreover have "wf_js (canonicalize x) \<and> propStable (canonicalize x) \<and> arrayIndex k = None" if "(k, x) \<in> set kvs" for k x
  proof -
    have "\<forall>p\<in>set kvs. wf_js (snd p)" "\<forall>p\<in>set kvs. json_data (snd p)" "\<forall>p\<in>set kvs. propStable (snd p) \<and> arrayIndex (fst p) = None"
      using JObj.prems by (auto simp: list_all_iff isIndexEntry_def)
    from this [THEN bspec, OF that] have "wf_js x" "json_data x" "propStable x" "arrayIndex k = None" by simp_all
    then show ?thesis using JObj.IH [of "(k, x)" x] that by simp
  qed
  then have "\<forall>p\<in>set (propOrder ?F). wf_js (snd p) \<and> propStable (snd p) \<and> \<not> isIndexEntry p" by (auto simp: isIndexEntry_def)
  ultimately show ?case unfolding canonicalize_JObj [OF d] by (simp add: list_all_iff)
qed (auto simp: list_all_iff)

lemma clean_canonicalize: "clean v \<Longrightarrow> clean (canonicalize v)"
  using canonicalize_wf canonicalize_json_data by (simp add: clean_def)

lemma canonicalize_idem: "clean v \<Longrightarrow> canonicalize (canonicalize v) = canonicalize v"
  by (simp add: clean_def canonicalize_idem_aux)

lemma signable_stringify: "signable v = stringifyBytes (canonicalize v)" if "clean v"
proof -
  have "json_data (canonicalize v)" using clean_canonicalize [OF that] by (simp add: clean_def)
  then show ?thesis by (simp add: signable_def canonicalText_def canonicalJSONStringify_def stringifyBytes_def jsonStringify_render)
qed

lemma parse_signable: "parse_lawful parse \<Longrightarrow> clean v \<Longrightarrow> parse (signable v) = Inr (canonicalize v)"
  using clean_canonicalize by (simp add: signable_stringify parse_lawful_def clean_def)

lemma canonicalize_scalars [simp]:
  "canonicalize v = JStr s \<longleftrightarrow> v = JStr s" "canonicalize v = JNum n \<longleftrightarrow> v = JNum n" "canonicalize v = JUndef \<longleftrightarrow> v = JUndef" "canonicalize v = JNull \<longleftrightarrow> v = JNull"
  by (cases v; auto)+

lemma canonicalize_kind [simp]:
  "truthy (canonicalize v) = truthy v" "typeofObject (canonicalize v) = typeofObject v" "isString (canonicalize v) = isString v"
  "isNonEmptyString (canonicalize v) = isNonEmptyString v" "strOf (canonicalize v) = strOf v"
  by (cases v; simp add: strOf_def)+

lemma getProp_clean: "clean v \<Longrightarrow> k \<noteq> ''__proto__'' \<Longrightarrow> getProp (canonicalize v) k = canonicalize (getProp v k)"
proof (cases v)
  case (JObj kvs)
  assume "clean v" "k \<noteq> ''__proto__''"
  then show ?thesis using getProp_canonicalize [of kvs k] JObj by (simp add: clean_def del: canonicalize.simps)
qed (simp_all add: clean_def)

lemma clean_obj: "clean (JObj kvs) \<longleftrightarrow> distinct (map fst kvs) \<and> (\<forall>p\<in>set kvs. clean (snd p) \<and> \<not> isIndexEntry p)"
  by (auto simp: clean_def list_all_iff)

lemma clean_getProp: "clean v \<Longrightarrow> getProp v k = JUndef \<or> clean (getProp v k)"
proof (cases v)
  case (JObj kvs)
  assume "clean v"
  then have "clean x" if "map_of kvs k = Some x" for x using map_of_SomeD [OF that] unfolding JObj clean_obj by force
  then show ?thesis using JObj by (cases "map_of kvs k") simp_all
qed simp_all

lemma clean_simps [simp]: "clean (JStr s)" "clean (JInt i)" "clean JNull" "\<not> clean JUndef" "clean (JArr xs) \<longleftrightarrow> (\<forall>x\<in>set xs. clean x)"
  by (auto simp: clean_def list_all_iff)

text \<open>The bytes of an object do not change when a member is replaced by its canonical form.\<close>

lemma canonicalize_members: "clean (JObj kvs) \<Longrightarrow> canonicalize (JObj (map (map_prod id canonicalize) kvs)) = canonicalize (JObj kvs)"
proof -
  assume c: "clean (JObj kvs)"
  then have d: "distinct (map fst kvs)" "distinct (map fst (map (map_prod id canonicalize) kvs))" by (simp_all add: clean_obj)
  have "map (map_prod id canonicalize) (map (map_prod id canonicalize) kvs) = map (map_prod id canonicalize) kvs"
    using c canonicalize_idem by (auto simp: clean_obj)
  then show ?thesis by (simp only: canonicalize_JObj [OF d(1)] canonicalize_JObj [OF d(2)])
qed

section \<open>The request survives its journey\<close>

lemma signable_members: "clean (JObj kvs) \<Longrightarrow> signable (JObj (map (map_prod id canonicalize) kvs)) = signable (JObj kvs)"
  using canonicalize_members by (simp add: signable_def canonicalText_def canonicalJSONStringify_def del: canonicalize.simps)

lemma dflt_canonicalize [simp]: "dflt (canonicalize v) (JInt i) = JInt i \<longleftrightarrow> dflt v (JInt i) = JInt i" "dflt (canonicalize v) (JStr s) = JStr s \<longleftrightarrow> dflt v (JStr s) = JStr s"
  by (auto simp: dflt_def)

lemma sig_canonicalize:
  assumes "v = JUndef \<or> clean v"
  shows "validateEd25519Sig (normalizeSig (canonicalize v)) l = Inr s \<longleftrightarrow> validateEd25519Sig (normalizeSig v) l = Inr s"
  using assms by (auto simp: validateSig_iff getProp_clean simp del: canonicalize.simps)

lemma newDeviceInboxBinding_canonicalize:
  assumes "clean b"
  shows "newDeviceInboxBindingV1 (canonicalize b) = Inr r \<longleftrightarrow> newDeviceInboxBindingV1 b = Inr r"
  using sig_canonicalize [OF clean_getProp [OF assms]]
  by (simp add: newDeviceInboxBindingV1_def getProp_clean [OF assms] result_simps requireSpki_iff checkDeviceId_iff checkWindow_iff split_beta Let_def cong: conj_cong)

lemma bindingCheck_iff: "bindingCheck v d k = Inr u \<longleftrightarrow>
    (\<exists>b. newDeviceInboxBindingV1 (if truthy v \<and> typeofObject v then v else JObj []) = Inr b \<and> dib_deviceId b = d \<and> dib_devicePublicKeyB64 b = k)"
  by (auto simp: bindingCheck_def split: sum.splits)

lemma bindingCheck_canonicalize:
  assumes "v = JUndef \<or> clean v"
  shows "bindingCheck (canonicalize v) d k = Inr u \<longleftrightarrow> bindingCheck v d k = Inr u"
proof (cases "truthy v \<and> typeofObject v")
  case True
  then have "clean v" using assms by auto
  then show ?thesis using True newDeviceInboxBinding_canonicalize by (simp add: bindingCheck_iff)
qed (auto simp: bindingCheck_iff)

lemma requireB64_canonicalize: "requireCanonicalB64 (canonicalize v) l n = Inr s \<longleftrightarrow> requireCanonicalB64 v l n = Inr s"
  by (cases v) (simp_all add: requireCanonicalB64_def)

lemma newDeviceLinkRequest_canonicalize:
  assumes "clean j" "newDeviceLinkRequestV2 j = Inr r"
  shows "newDeviceLinkRequestV2 (canonicalize j) = Inr (r\<lparr>dlr_deviceInboxBinding := canonicalize (dlr_deviceInboxBinding r)\<rparr>)"
  using assms(2) sig_canonicalize [OF clean_getProp [OF assms(1)]] bindingCheck_canonicalize [OF clean_getProp [OF assms(1)]]
  by (auto simp: newDeviceLinkRequestV2_def getProp_clean [OF assms(1)] result_simps requireSpki_iff checkDeviceId_iff checkWindow_iff requireB64_canonicalize Let_def split: if_splits)

lemma requireB64_enc: "bs \<noteq> [] \<Longrightarrow> (\<forall>n. len = Some n \<longrightarrow> length bs = n) \<Longrightarrow> requireCanonicalB64 (JStr (bytesToBase64 bs)) l len = Inr (bytesToBase64 bs)"
proof -
  assume bs: "bs \<noteq> []" "\<forall>n. len = Some n \<longrightarrow> length bs = n"
  have "bytesToBase64 bs \<noteq> []" using CANONICAL_B64_enc [OF bs(1)] by (auto simp: CANONICAL_B64_def)
  then show ?thesis using bs CANONICAL_B64_enc [OF bs(1)] by (simp add: requireCanonicalB64_def b64.dec_enc split: option.splits)
qed

lemma requireB64_iff: "requireCanonicalB64 v l n = Inr s \<longleftrightarrow> v = JStr s \<and> (\<exists>bs. bs \<noteq> [] \<and> (\<forall>k. n = Some k \<longrightarrow> length bs = k) \<and> s = bytesToBase64 bs)"
proof
  assume L: "requireCanonicalB64 v l n = Inr s"
  then obtain x where x: "v = JStr x" by (cases v) (simp_all add: requireCanonicalB64_def)
  then have "v = JStr s \<and> requireCanonicalB64 v l None = Inr s"
    using L by (cases "base64ToBytes x"; cases n) (simp_all add: requireCanonicalB64_def split: if_splits)
  then have "v = JStr s" "requireCanonicalB64 v l None = Inr s" by blast+
  then obtain bs where bs: "bs \<noteq> []" "s = bytesToBase64 bs" by (auto simp: requireCanonicalB64_iff)
  then have "\<forall>k. n = Some k \<longrightarrow> length bs = k" using L \<open>v = JStr s\<close> by (auto simp: requireCanonicalB64_def b64.dec_enc split: if_splits)
  with bs \<open>v = JStr s\<close> show "v = JStr s \<and> (\<exists>bs. bs \<noteq> [] \<and> (\<forall>k. n = Some k \<longrightarrow> length bs = k) \<and> s = bytesToBase64 bs)" by blast
qed (auto intro: requireB64_enc)

lemma requireB64_label: "requireCanonicalB64 v l n = Inr s \<Longrightarrow> requireCanonicalB64 v l' n = Inr s"
  by (simp add: requireB64_iff)

lemma requireX25519_label: "requireCanonicalX25519SpkiB64 v l = Inr s \<Longrightarrow> requireCanonicalX25519SpkiB64 v l' = Inr s"
  by (auto simp: requireCanonicalX25519SpkiB64_def requireSpki_def result_simps requireCanonicalB64_iff split: if_splits)

lemma requireX25519_value: "requireCanonicalX25519SpkiB64 v l = Inr s \<Longrightarrow> v = JStr s"
  by (auto simp: requireCanonicalX25519SpkiB64_def requireSpki_def result_simps requireCanonicalB64_iff split: if_splits)

lemma seal_open:
  assumes "aead_lawful c" "encryptAes256Gcm c key nonce pt aad = Inr ct"
  shows "decryptAes256Gcm c key nonce ct aad = Inr pt" "length nonce = 12" "ct \<noteq> []"
proof -
  obtain ct' where "aeadEncrypt c key nonce pt aad = Inr ct'" "16 \<le> length ct'" "aeadDecrypt c key nonce ct' aad = Inr pt"
    using assms(1) unfolding aead_lawful_def by blast
  then show "decryptAes256Gcm c key nonce ct aad = Inr pt" "length nonce = 12" "ct \<noteq> []"
    using assms(2) by (auto simp: encryptAes256Gcm_def decryptAes256Gcm_def split: if_splits)
qed

text \<open>Comparing without an early exit is comparing.\<close>

lemma foldl_or_zero: "foldl (\<lambda>acc i. acc OR f i) a xs = (0 :: 'a::len word) \<longleftrightarrow> a = 0 \<and> (\<forall>i\<in>set xs. f i = 0)"
  by (induction xs arbitrary: a) (auto simp: or_eq_0_iff)

lemma constantTimeEqualBytes_iff: "constantTimeEqualBytes a b \<longleftrightarrow> a = b"
proof -
  have "x XOR y = 0 \<longleftrightarrow> x = y" for x y :: byte
  proof
    assume "x XOR y = 0"
    then have "(x XOR y) XOR y = y" by simp
    then show "x = y" by (simp add: xor.assoc)
  qed simp
  then show ?thesis by (auto simp: constantTimeEqualBytes_def foldl_or_zero intro: nth_equalityI)
qed

lemma newDeviceLinkRequest_fields:
  assumes "newDeviceLinkRequestV2 (JObj ([(''v'', JInt 2), (''purpose'', JStr DEVICE_LINK_REQUEST_V2_PURPOSE), (''accountIdentityPublicKeyB64'', JStr account),
           (''newDevicePublicKeyB64'', JStr key), (''newDeviceId'', JStr did), (''deviceInboxBinding'', binding),
           (''ceremonyNonceB64'', JStr nonce), (''issuedAtMs'', JInt t), (''expiresAtMs'', JInt u)] @ [(''sig'', sigJSON sg)])) = Inr lr"
  shows "lr = \<lparr>dlr_account = account, dlr_newDevicePublicKeyB64 = key, dlr_newDeviceId = did, dlr_deviceInboxBinding = binding, dlr_ceremonyNonceB64 = nonce,
    dlr_issuedAtMs = t, dlr_expiresAtMs = u, dlr_sigB64 = sg\<rparr>"
  using assms by (auto simp: newDeviceLinkRequestV2_def result_simps requireSpki_iff checkDeviceId_iff checkWindow_iff validateSig_iff sigJSON_def
    requireCanonicalB64_def Let_def split: if_splits sum.splits)

lemma linkRequest_clean: "clean (dlr_deviceInboxBinding lr) \<Longrightarrow> clean (linkRequest_toJSON lr)"
  by (simp add: linkRequest_toJSON_def linkRequest_body_def clean_obj sigJSON_def not_index_entry isDigit_def)

lemma linkRequest_signed:
  "linkRequest_signableBytes (linkRequest_toJSON lr) = signable (JObj (linkRequest_body lr))"
  by (simp add: linkRequest_signableBytes_def linkRequest_toJSON_def linkRequest_body_def)

lemma linkRequest_signed_canonical:
  assumes "clean (dlr_deviceInboxBinding lr)"
  shows "signable (JObj (linkRequest_body (lr\<lparr>dlr_deviceInboxBinding := canonicalize (dlr_deviceInboxBinding lr)\<rparr>))) = signable (JObj (linkRequest_body lr))"
proof -
  have "clean (JObj (linkRequest_body lr))" using assms by (simp add: linkRequest_body_def clean_obj not_index_entry isDigit_def)
  from signable_members [OF this] show ?thesis by (simp add: linkRequest_body_def del: canonicalize.simps) (simp add: canonicalize.simps(4,5))
qed

text \<open>What a request that was built went through.\<close>

definition requestBody :: "string \<Rightarrow> string \<Rightarrow> string \<Rightarrow> jsval \<Rightarrow> string \<Rightarrow> int \<Rightarrow> int \<Rightarrow> string \<Rightarrow> DeviceLinkRequestV2" where
  "requestBody account key did binding nonce t u sg = \<lparr>dlr_account = account, dlr_newDevicePublicKeyB64 = key, dlr_newDeviceId = did, dlr_deviceInboxBinding = binding,
     dlr_ceremonyNonceB64 = nonce, dlr_issuedAtMs = t, dlr_expiresAtMs = u, dlr_sigB64 = sg\<rparr>"

lemma requestBody_list: "linkRequest_body (requestBody account key did binding nonce t u sg) =
    [(''v'', JInt 2), (''purpose'', JStr DEVICE_LINK_REQUEST_V2_PURPOSE), (''accountIdentityPublicKeyB64'', JStr account),
     (''newDevicePublicKeyB64'', JStr key), (''newDeviceId'', JStr did), (''deviceInboxBinding'', binding),
     (''ceremonyNonceB64'', JStr nonce), (''issuedAtMs'', JInt t), (''expiresAtMs'', JInt u)]"
  by (simp add: linkRequest_body_def requestBody_def)

lemma buildCeremonyRequest_inv:
  assumes "buildCeremonyRequest c (NInt t0) psk account0 rendezvous0 \<lparr>kp_publicKeyB64 = keyB64, kp_privateKeyB64 = bytesToBase64 priv\<rparr> binding eph ttl rnd = Inr q"
  obtains account rendezvous secrets did sg lr ct where
    "length psk = DEVICE_LINK_PSK_BYTES"
    "requireCanonicalSpkiB64 account0 ''buildCeremonyRequest.accountSignPublicKeyB64'' = Inr account"
    "requireCanonicalSpkiB64 rendezvous0 ''buildCeremonyRequest.rendezvousPublicKeyB64'' = Inr rendezvous"
    "deriveCeremonySecrets c psk = Inr secrets"
    "requireCanonicalX25519SpkiB64 (JStr (bytesToBase64 (publicKey eph))) ''buildCeremonyRequest ephemeral public key'' = Inr (bytesToBase64 (publicKey eph))"
    "deviceIdFor (JStr keyB64) = Inr did"
    "lr = requestBody account keyB64 did binding (cs_ceremonyNonceB64 secrets) t0 (t0 + ttl) (bytesToBase64 sg)"
    "sign c priv (signable (JObj (linkRequest_body lr))) = Inr sg"
    "newDeviceLinkRequestV2 (linkRequest_toJSON lr) = Inr lr"
    "encryptAes256Gcm c (cs_requestKey secrets) rnd (signable (JObj [(''linkRequest'', linkRequest_toJSON lr), (''ephemeralDhPublicKeyB64'', JStr (bytesToBase64 (publicKey eph)))]))
       (link_aadBytes account rendezvous ''request'' []) = Inr ct"
    "deviceLinkFingerprint (JStr did) = Inr (cq_fingerprint q)"
    "cq_payload q = requestPayload rnd ct" "cq_linkRequest q = lr"
    "cq_thRequestB64 q = transcriptHashB64 (link_aadBytes account rendezvous ''request'' []) rnd ct" "cq_payloadB64 q = bytesToBase64 (stringifyBytes (cq_payload q))"
proof -
  obtain account rendezvous secrets ephB64 did sg lr ct fp where r:
    "length psk = DEVICE_LINK_PSK_BYTES"
    "requireCanonicalSpkiB64 account0 ''buildCeremonyRequest.accountSignPublicKeyB64'' = Inr account"
    "requireCanonicalSpkiB64 rendezvous0 ''buildCeremonyRequest.rendezvousPublicKeyB64'' = Inr rendezvous"
    "deriveCeremonySecrets c psk = Inr secrets"
    "requireCanonicalX25519SpkiB64 (JStr (bytesToBase64 (publicKey eph))) ''buildCeremonyRequest ephemeral public key'' = Inr ephB64"
    "deviceIdFor (JStr keyB64) = Inr did"
    "sign c priv (linkRequest_signableBytes (JObj (linkRequest_body (requestBody account keyB64 did binding (cs_ceremonyNonceB64 secrets) t0 (t0 + ttl) [])))) = Inr sg"
    "newDeviceLinkRequestV2 (JObj (linkRequest_body (requestBody account keyB64 did binding (cs_ceremonyNonceB64 secrets) t0 (t0 + ttl) []) @ [(''sig'', sigJSON (bytesToBase64 sg))])) = Inr lr"
    "encryptAes256Gcm c (cs_requestKey secrets) rnd (signable (JObj [(''linkRequest'', linkRequest_toJSON lr), (''ephemeralDhPublicKeyB64'', JStr ephB64)]))
       (link_aadBytes account rendezvous ''request'' []) = Inr ct"
    "deviceLinkFingerprint (JStr did) = Inr fp"
    "q = \<lparr>cq_payload = requestPayload rnd ct, cq_payloadB64 = bytesToBase64 (stringifyBytes (requestPayload rnd ct)), cq_linkRequest = lr, cq_ephemeralKeyPair = eph,
            cq_thRequestB64 = transcriptHashB64 (link_aadBytes account rendezvous ''request'' []) rnd ct, cq_fingerprint = fp\<rparr>"
    using assms unfolding requestBody_list
    by (auto simp: buildCeremonyRequest_def requireNowMs_def requirePsk_def result_simps b64.dec_enc Let_def split: if_splits)
  have lr: "lr = requestBody account keyB64 did binding (cs_ceremonyNonceB64 secrets) t0 (t0 + ttl) (bytesToBase64 sg)"
    using newDeviceLinkRequest_fields [OF r(8) [unfolded requestBody_list]] by (simp add: requestBody_def)
  have body: "linkRequest_body lr = linkRequest_body (requestBody account keyB64 did binding (cs_ceremonyNonceB64 secrets) t0 (t0 + ttl) [])" "dlr_sigB64 lr = bytesToBase64 sg"
    unfolding lr requestBody_list by (simp_all add: requestBody_def)
  have "linkRequest_signableBytes (JObj (linkRequest_body lr)) = signable (JObj (linkRequest_body lr))"
    by (simp add: linkRequest_signableBytes_def linkRequest_body_def)
  moreover have "ephB64 = bytesToBase64 (publicKey eph)" using requireX25519_value [OF r(5)] by simp
  ultimately show thesis using r body by (intro that [OF r(1-4) _ r(6) lr]) (simp_all add: linkRequest_toJSON_def)
qed

lemma spki_label: "requireCanonicalSpkiB64 v l = Inr s \<Longrightarrow> requireCanonicalSpkiB64 v l' = Inr s"
  by (simp add: requireSpki_iff)

lemma ceremony_request_opens:
  assumes law: "aead_lawful c" "sign_lawful c dk" "parse_lawful parse" and cb: "clean binding"
    and b: "buildCeremonyRequest c (NInt t0) psk account0 rendezvous0 \<lparr>kp_publicKeyB64 = bytesToBase64 (publicKey dk), kp_privateKeyB64 = bytesToBase64 (privateKey dk)\<rparr>
      binding eph ttl rnd = Inr q"
    and w: "t1 < t0 + ttl" "t0 \<le> t1 + skew"
  shows "openCeremonyRequest c parse (NInt t1) psk account0 rendezvous0 (cq_payload q) skew
    = Inr \<lparr>oq_linkRequest = (cq_linkRequest q)\<lparr>dlr_deviceInboxBinding := canonicalize binding\<rparr>, oq_ephemeralDhPublicKeyB64 = bytesToBase64 (publicKey eph),
        oq_thRequestB64 = cq_thRequestB64 q, oq_newDeviceId = dlr_newDeviceId (cq_linkRequest q), oq_fingerprint = cq_fingerprint q\<rparr>"
proof -
  obtain account rendezvous secrets did sg lr ct where r:
    "length psk = DEVICE_LINK_PSK_BYTES"
    "requireCanonicalSpkiB64 account0 ''buildCeremonyRequest.accountSignPublicKeyB64'' = Inr account"
    "requireCanonicalSpkiB64 rendezvous0 ''buildCeremonyRequest.rendezvousPublicKeyB64'' = Inr rendezvous"
    "deriveCeremonySecrets c psk = Inr secrets"
    "requireCanonicalX25519SpkiB64 (JStr (bytesToBase64 (publicKey eph))) ''buildCeremonyRequest ephemeral public key'' = Inr (bytesToBase64 (publicKey eph))"
    "deviceIdFor (JStr (bytesToBase64 (publicKey dk))) = Inr did"
    "lr = requestBody account (bytesToBase64 (publicKey dk)) did binding (cs_ceremonyNonceB64 secrets) t0 (t0 + ttl) (bytesToBase64 sg)"
    "sign c (privateKey dk) (signable (JObj (linkRequest_body lr))) = Inr sg"
    "newDeviceLinkRequestV2 (linkRequest_toJSON lr) = Inr lr"
    "encryptAes256Gcm c (cs_requestKey secrets) rnd (signable (JObj [(''linkRequest'', linkRequest_toJSON lr), (''ephemeralDhPublicKeyB64'', JStr (bytesToBase64 (publicKey eph)))]))
       (link_aadBytes account rendezvous ''request'' []) = Inr ct"
    "deviceLinkFingerprint (JStr did) = Inr (cq_fingerprint q)"
    "cq_payload q = requestPayload rnd ct" "cq_linkRequest q = lr"
    "cq_thRequestB64 q = transcriptHashB64 (link_aadBytes account rendezvous ''request'' []) rnd ct" "cq_payloadB64 q = bytesToBase64 (stringifyBytes (cq_payload q))"
    by (rule buildCeremonyRequest_inv [OF b])
  let ?inner = "JObj [(''linkRequest'', linkRequest_toJSON lr), (''ephemeralDhPublicKeyB64'', JStr (bytesToBase64 (publicKey eph)))]"
  let ?lr = "lr\<lparr>dlr_deviceInboxBinding := canonicalize binding\<rparr>"
  have lrf: "dlr_deviceInboxBinding lr = binding" "dlr_newDeviceId lr = did" "dlr_account lr = account" "dlr_newDevicePublicKeyB64 lr = bytesToBase64 (publicKey dk)"
    "dlr_sigB64 lr = bytesToBase64 sg" "dlr_ceremonyNonceB64 lr = cs_ceremonyNonceB64 secrets" "dlr_issuedAtMs lr = t0" "dlr_expiresAtMs lr = t0 + ttl"
    by (simp_all add: r(7) requestBody_def)
  have cl: "clean (linkRequest_toJSON lr)" using cb lrf(1) by (simp add: linkRequest_clean)
  then have ci: "clean ?inner" by (simp add: clean_obj not_index_entry isDigit_def)
  note opens = seal_open [OF law(1) r(10)]
  have inner: "parse (signable ?inner) = Inr (canonicalize ?inner)" by (rule parse_signable [OF law(3) ci])
  have fields: "getProp (canonicalize ?inner) ''linkRequest'' = canonicalize (linkRequest_toJSON lr)"
     "getProp (canonicalize ?inner) ''ephemeralDhPublicKeyB64'' = JStr (bytesToBase64 (publicKey eph))"
    by (simp_all add: getProp_clean [OF ci] del: canonicalize.simps(8))
  have obj: "truthy (linkRequest_toJSON lr)" "typeofObject (linkRequest_toJSON lr)"
    by (simp_all add: linkRequest_toJSON_def)
  have "getProp (linkRequest_toJSON lr) ''v'' = JInt 2" by (simp add: linkRequest_toJSON_def linkRequest_body_def)
  then have ver: "assertSupportedLinkRequestVersion (canonicalize (linkRequest_toJSON lr)) = Inr ()"
    by (simp add: assertSupportedLinkRequestVersion_def getProp_clean [OF cl])
  have new: "newDeviceLinkRequestV2 (canonicalize (linkRequest_toJSON lr)) = Inr ?lr" using newDeviceLinkRequest_canonicalize [OF cl r(9)] lrf(1) by simp
  have "verify c (publicKey dk) (signable (JObj (linkRequest_body lr))) sg = Inr True"
    using law(2) r(8) unfolding sign_lawful_def by (metis Inr_inject)
  then have ver': "verify c (publicKey dk) (linkRequest_signableBytes (linkRequest_toJSON ?lr)) sg = Inr True"
    unfolding linkRequest_signed using linkRequest_signed_canonical [of lr] cb lrf(1) by simp
  have nonce: "\<exists>bs. cs_ceremonyNonceB64 secrets = bytesToBase64 bs" using r(4) by (auto simp: deriveCeremonySecrets_def result_simps)
  have check: "checkLinkRequest c t1 account (cs_ceremonyNonceB64 secrets) skew ?lr = Inr ()"
  proof -
    obtain bs where bs: "cs_ceremonyNonceB64 secrets = bytesToBase64 bs" using nonce by blast
    have f: "dlr_newDevicePublicKeyB64 ?lr = bytesToBase64 (publicKey dk)" "dlr_sigB64 ?lr = bytesToBase64 sg" "dlr_account ?lr = account"
      "dlr_ceremonyNonceB64 ?lr = bytesToBase64 bs" "dlr_issuedAtMs ?lr = t0" "dlr_expiresAtMs ?lr = t0 + ttl" using lrf bs by simp_all
    show ?thesis unfolding checkLinkRequest_def f bs b64.dec_enc bindR_simps ver' constantTimeEqualBytes_iff using w by simp
  qed
  have "readProp (canonicalize ?inner) ''ephemeralDhPublicKeyB64'' = Inr (JStr (bytesToBase64 (publicKey eph)))"
    unfolding readProp_def fields by simp
  moreover have "requireCanonicalB64 (JStr (bytesToBase64 rnd)) l (Some 12) = Inr (bytesToBase64 rnd)" for l using opens(2) by (intro requireB64_enc) auto
  moreover have "requireCanonicalB64 (JStr (bytesToBase64 ct)) l None = Inr (bytesToBase64 ct)" for l using opens(3) by (intro requireB64_enc) auto
  moreover have "requirePsk psk l = Inr psk" for l using r(1) by (simp add: requirePsk_def)
  moreover have "requireNowMs (NInt t1) l = Inr t1" for l by (simp add: requireNowMs_def)
  ultimately show ?thesis
    using r(11) lrf cb
    by (simp add: openCeremonyRequest_def spki_label [OF r(2)] spki_label [OF r(3)] requireX25519_label [OF r(5)] r(4,12-14) requestPayload_def b64.dec_enc Let_def opens(1)
      parseInner_def inner fields obj ver new check del: canonicalize.simps)
qed

section \<open>The response survives its journey\<close>

definition wire_ok :: "string \<Rightarrow> string \<Rightarrow> jsval list \<Rightarrow> jsval \<Rightarrow> bool" where
  "wire_ok dhPub dhPriv chain cached \<longleftrightarrow> requireCanonicalX25519SpkiB64 (JStr dhPub) [] = Inr dhPub \<and> requireCanonicalB64 (JStr dhPriv) [] None = Inr dhPriv
     \<and> chain \<noteq> [] \<and> (cached = JNull \<or> typeofObject cached \<and> \<not> isArray cached)"

lemma validateWireBundle_inv:
  assumes "validateWireBundle src account fn = Inr b"
  obtains dhPub dhPriv chain cached where "b = wireBundle account dhPub dhPriv chain cached" "wire_ok dhPub dhPriv chain cached"
    "getProp src ''certChain'' = JArr chain" "cached = dflt (getProp src ''cachedDeviceSet'') JNull" "getProp (getProp src ''accountDhKeyPair'') ''publicKeyB64'' = JStr dhPub"
    "getProp (getProp src ''accountDhKeyPair'') ''privateKeyB64'' = JStr dhPriv"
proof -
  let ?dh = "getProp src ''accountDhKeyPair''"
  obtain dhPub dhPriv chain where r: "requireCanonicalX25519SpkiB64 (getProp ?dh ''publicKeyB64'') (fn @ ''.accountDhKeyPair.publicKeyB64'') = Inr dhPub"
     "requireCanonicalB64 (getProp ?dh ''privateKeyB64'') (fn @ ''.accountDhKeyPair.privateKeyB64'') None = Inr dhPriv"
     "getProp src ''certChain'' = JArr chain" "chain \<noteq> []" "b = wireBundle account dhPub dhPriv chain (dflt (getProp src ''cachedDeviceSet'') JNull)"
     "dflt (getProp src ''cachedDeviceSet'') JNull = JNull \<or> typeofObject (dflt (getProp src ''cachedDeviceSet'') JNull) \<and> \<not> isArray (dflt (getProp src ''cachedDeviceSet'') JNull)"
    using assms by (cases "getProp src ''certChain''") (auto simp: validateWireBundle_def result_simps Let_def split: if_splits option.splits)
  have v: "getProp ?dh ''publicKeyB64'' = JStr dhPub" "getProp ?dh ''privateKeyB64'' = JStr dhPriv" using requireX25519_value [OF r(1)] r(2) by (simp_all add: requireB64_iff)
  then show thesis using requireX25519_label [OF r(1)] requireB64_label [OF r(2)] r by (intro that [OF r(5)]) (simp_all add: wire_ok_def)
qed

lemma validateWireBundle_wire:
  assumes "wire_ok dhPub dhPriv chain cached" "clean (wireBundle account dhPub dhPriv chain cached)"
  shows "validateWireBundle (canonicalize (wireBundle account dhPub dhPriv chain cached)) account fn
    = Inr (wireBundle account dhPub dhPriv (map canonicalize chain) (canonicalize cached))"
proof -
  let ?w = "wireBundle account dhPub dhPriv chain cached" and ?dh = "JObj [(''publicKeyB64'', JStr dhPub), (''privateKeyB64'', JStr dhPriv)]"
  have o: "truthy (canonicalize ?w)" "typeofObject (canonicalize ?w)" by (simp_all add: wireBundle_def)
  have cdh: "clean ?dh" by (simp add: clean_obj not_index_entry isDigit_def)
  have g: "getProp (canonicalize ?w) ''accountSignPublicKeyB64'' = JStr account" "getProp (canonicalize ?w) ''accountDhKeyPair'' = canonicalize ?dh"
    "getProp (canonicalize ?w) ''certChain'' = JArr (map canonicalize chain)" "getProp (canonicalize ?w) ''cachedDeviceSet'' = canonicalize cached"
    by (simp_all add: getProp_clean [OF assms(2)] del: canonicalize.simps(8)) (simp_all add: wireBundle_def del: canonicalize.simps(8))
  have f: "find (\<lambda>k. getProp (canonicalize ?w) k \<noteq> JUndef) forbiddenBundleKeys = None"
  proof -
    have "getProp (canonicalize ?w) k = JUndef" if "k \<in> set forbiddenBundleKeys" for k
      using that by (subst getProp_clean [OF assms(2)]) (auto simp: forbiddenBundleKeys_def wireBundle_def)
    then show ?thesis by (simp add: find_None_iff)
  qed
  have dh: "getProp (canonicalize ?dh) ''publicKeyB64'' = JStr dhPub" "getProp (canonicalize ?dh) ''privateKeyB64'' = JStr dhPriv" "truthy (canonicalize ?dh)" "typeofObject (canonicalize ?dh)"
    by (simp_all add: getProp_clean [OF cdh] del: canonicalize.simps(8))
  have c: "dflt (canonicalize cached) JNull = canonicalize cached" using assms(1) by (auto simp: wire_ok_def dflt_def)
  have a: "isArray (canonicalize cached) = isArray cached" by (cases cached) simp_all
  show ?thesis
    using assms(1) requireX25519_label [of "JStr dhPub" "[]" dhPub] requireB64_label [of "JStr dhPriv" "[]" None dhPriv]
    unfolding validateWireBundle_def Let_def f g dh c a wire_ok_def using o by (auto simp del: canonicalize.simps)
qed

lemma wire_clean:
  assumes "clean src" "getProp src ''certChain'' = JArr chain" "cached = dflt (getProp src ''cachedDeviceSet'') JNull"
  shows "clean (wireBundle account dhPub dhPriv chain cached)" "clean (wireBundle account dhPub dhPriv chain JNull)"
proof -
  have "\<forall>x\<in>set chain. clean x" using clean_getProp [OF assms(1), of "''certChain''"] assms(2) by simp
  moreover have "clean cached" using clean_getProp [OF assms(1), of "''cachedDeviceSet''"] assms(3) by (auto simp: dflt_def)
  ultimately show "clean (wireBundle account dhPub dhPriv chain cached)" "clean (wireBundle account dhPub dhPriv chain JNull)"
    by (simp_all add: wireBundle_def clean_obj not_index_entry isDigit_def)
qed

lemma dropCached_wire: "dropCached (wireBundle account dhPub dhPriv chain cached) = wireBundle account dhPub dhPriv chain JNull"
  by (simp add: dropCached_def wireBundle_def)

lemma sealOnce_inv: "sealOnce c key aad eB bndl nonce = Inr s \<Longrightarrow> \<exists>ct. encryptAes256Gcm c key nonce (signable (JObj [(''delegationBundle'', bndl)])) aad = Inr ct
    \<and> s = \<lparr>sr_payload = responsePayload eB nonce ct, sr_payloadB64 = bytesToBase64 (stringifyBytes (responsePayload eB nonce ct)), sr_thResponseB64 = transcriptHashB64 aad nonce ct\<rparr>"
  by (auto simp: sealOnce_def result_simps)

lemma sealWithinBudget_inv:
  assumes "sealWithinBudget c key aad eB bndl rnd1 rnd2 = Inr s"
  obtains used nonce where "used = bndl \<or> used = dropCached bndl" "sealOnce c key aad eB used nonce = Inr s" "length (sr_payloadB64 s) \<le> DEVICE_LINK_MAX_PAYLOAD_B64"
  using assms by (fastforce simp: sealWithinBudget_def result_simps split: if_splits)

lemma buildCeremonyResponse_inv:
  assumes "buildCeremonyResponse c psk account0 rendezvous0 th0 (JStr (bytesToBase64 theirs)) delegationBundle eph rnd1 rnd2 = Inr resp"
  obtains account rendezvous th bndl dhSecret key used nonce ct tag where
    "length psk = DEVICE_LINK_PSK_BYTES"
    "requireCanonicalSpkiB64 account0 ''buildCeremonyResponse.accountSignPublicKeyB64'' = Inr account"
    "requireCanonicalSpkiB64 rendezvous0 ''buildCeremonyResponse.rendezvousPublicKeyB64'' = Inr rendezvous"
    "requireCanonicalB64 th0 ''buildCeremonyResponse.thRequestB64'' (Some 32) = Inr th"
    "validateWireBundle delegationBundle account ''buildCeremonyResponse'' = Inr bndl"
    "dhDerive c (privateKey eph) theirs ''X25519'' ''spki'' = Inr dhSecret"
    "deriveMasterSecret c psk dhSecret th = Inr (sr_masterSecret resp)" "deriveResponseKey c (sr_masterSecret resp) = Inr key"
    "used = bndl \<or> used = dropCached bndl"
    "encryptAes256Gcm c key nonce (signable (JObj [(''delegationBundle'', used)])) (responseAad account rendezvous th (bytesToBase64 (publicKey eph))) = Inr ct"
    "sr_payload resp = responsePayload (bytesToBase64 (publicKey eph)) nonce ct"
    "sr_thResponseB64 resp = transcriptHashB64 (responseAad account rendezvous th (bytesToBase64 (publicKey eph))) nonce ct"
    "deriveConfirmTag c (sr_masterSecret resp) (sr_thResponseB64 resp) = Inr tag" "sr_confirmTagB64 resp = bytesToBase64 tag"
    "length (sr_payloadB64 resp) \<le> DEVICE_LINK_MAX_PAYLOAD_B64"
proof -
  let ?eB = "bytesToBase64 (publicKey eph)"
  obtain account rendezvous th ephB64 bndl dhSecret master key sealed tag where r:
    "length psk = DEVICE_LINK_PSK_BYTES"
    "requireCanonicalSpkiB64 account0 ''buildCeremonyResponse.accountSignPublicKeyB64'' = Inr account"
    "requireCanonicalSpkiB64 rendezvous0 ''buildCeremonyResponse.rendezvousPublicKeyB64'' = Inr rendezvous"
    "requireCanonicalB64 th0 ''buildCeremonyResponse.thRequestB64'' (Some 32) = Inr th"
    "requireCanonicalX25519SpkiB64 (JStr (bytesToBase64 theirs)) ''buildCeremonyResponse.ephemeralDhPublicKeyB64'' = Inr ephB64"
    "validateWireBundle delegationBundle account ''buildCeremonyResponse'' = Inr bndl"
    "bindR (base64ToBytes ephB64) (\<lambda>t. dhDerive c (privateKey eph) t ''X25519'' ''spki'') = Inr dhSecret"
    "deriveMasterSecret c psk dhSecret th = Inr master" "deriveResponseKey c master = Inr key"
    "sealWithinBudget c key (responseAad account rendezvous th ?eB) ?eB bndl rnd1 rnd2 = Inr sealed"
    "deriveConfirmTag c master (sr_thResponseB64 sealed) = Inr tag"
    "resp = \<lparr>sr_payload = sr_payload sealed, sr_payloadB64 = sr_payloadB64 sealed, sr_thResponseB64 = sr_thResponseB64 sealed,
            sr_masterSecret = master, sr_confirmTagB64 = bytesToBase64 tag\<rparr>"
    using assms by (auto simp: buildCeremonyResponse_def requirePsk_def result_simps Let_def split: if_splits)
  have "ephB64 = bytesToBase64 theirs" using requireX25519_value [OF r(5)] by simp
  then have dh: "dhDerive c (privateKey eph) theirs ''X25519'' ''spki'' = Inr dhSecret" using r(7) by (simp add: b64.dec_enc)
  obtain used nonce where u: "used = bndl \<or> used = dropCached bndl" "sealOnce c key (responseAad account rendezvous th ?eB) ?eB used nonce = Inr sealed"
     "length (sr_payloadB64 sealed) \<le> DEVICE_LINK_MAX_PAYLOAD_B64" by (rule sealWithinBudget_inv [OF r(10)])
  with sealOnce_inv [OF u(2)] show thesis using r by (elim exE conjE, intro that [OF r(1-4) r(6) dh, of key used nonce]) simp_all
qed

lemma response_opens:
  assumes law: "aead_lawful c" "parse_lawful parse" "dh_agree c ephA ephB" and cb: "clean delegationBundle"
    and x: "requireCanonicalX25519SpkiB64 (JStr (bytesToBase64 (publicKey ephB))) [] = Inr (bytesToBase64 (publicKey ephB))"
    and b: "buildCeremonyResponse c psk account0 rendezvous0 th0 (JStr (bytesToBase64 (publicKey ephA))) delegationBundle ephB rnd1 rnd2 = Inr resp"
  shows "\<exists>account dhPub dhPriv chain cached cached'. validateWireBundle delegationBundle account ''buildCeremonyResponse'' = Inr (wireBundle account dhPub dhPriv chain cached)
    \<and> (cached' = canonicalize cached \<or> cached' = JNull)
    \<and> openCeremonyResponse c parse psk account0 rendezvous0 th0 ephA (sr_payload resp) = Inr \<lparr>or_delegationBundle = wireBundle account dhPub dhPriv (map canonicalize chain) cached',
        or_masterSecret = sr_masterSecret resp, or_thResponseB64 = sr_thResponseB64 resp\<rparr>"
proof -
  let ?eB = "bytesToBase64 (publicKey ephB)"
  obtain account rendezvous th bndl dhSecret key used nonce ct tag where r:
    "length psk = DEVICE_LINK_PSK_BYTES"
    "requireCanonicalSpkiB64 account0 ''buildCeremonyResponse.accountSignPublicKeyB64'' = Inr account"
    "requireCanonicalSpkiB64 rendezvous0 ''buildCeremonyResponse.rendezvousPublicKeyB64'' = Inr rendezvous"
    "requireCanonicalB64 th0 ''buildCeremonyResponse.thRequestB64'' (Some 32) = Inr th"
    "validateWireBundle delegationBundle account ''buildCeremonyResponse'' = Inr bndl"
    "dhDerive c (privateKey ephB) (publicKey ephA) ''X25519'' ''spki'' = Inr dhSecret"
    "deriveMasterSecret c psk dhSecret th = Inr (sr_masterSecret resp)" "deriveResponseKey c (sr_masterSecret resp) = Inr key"
    "used = bndl \<or> used = dropCached bndl"
    "encryptAes256Gcm c key nonce (signable (JObj [(''delegationBundle'', used)])) (responseAad account rendezvous th ?eB) = Inr ct"
    "sr_payload resp = responsePayload ?eB nonce ct" "sr_thResponseB64 resp = transcriptHashB64 (responseAad account rendezvous th ?eB) nonce ct"
    by (rule buildCeremonyResponse_inv [OF b])
  obtain dhPub dhPriv chain cached where w: "bndl = wireBundle account dhPub dhPriv chain cached" "wire_ok dhPub dhPriv chain cached"
    "getProp delegationBundle ''certChain'' = JArr chain" "cached = dflt (getProp delegationBundle ''cachedDeviceSet'') JNull"
    by (rule validateWireBundle_inv [OF r(5)])
  obtain used' where u: "used = wireBundle account dhPub dhPriv chain used'" "used' = cached \<or> used' = JNull"
    using r(9) w(1) by (auto simp: dropCached_wire)
  have uok: "wire_ok dhPub dhPriv chain used'" "clean used" using u w(2) wire_clean [OF cb w(3,4)] by (auto simp: wire_ok_def)
  then have ci: "clean (JObj [(''delegationBundle'', used)])" by (simp add: clean_obj not_index_entry isDigit_def)
  note opens = seal_open [OF law(1) r(10)]
  have inner: "parse (signable (JObj [(''delegationBundle'', used)])) = Inr (canonicalize (JObj [(''delegationBundle'', used)]))" by (rule parse_signable [OF law(2) ci])
  have g: "getProp (canonicalize (JObj [(''delegationBundle'', used)])) ''delegationBundle'' = canonicalize used"
    by (simp add: getProp_clean [OF ci] del: canonicalize.simps(8))
  have v: "validateWireBundle (canonicalize used) account l = Inr (wireBundle account dhPub dhPriv (map canonicalize chain) (canonicalize used'))" for l
    using validateWireBundle_wire [OF uok(1)] uok(2) unfolding u(1) by blast
  have dh: "dhDerive c (privateKey ephA) (publicKey ephB) ''X25519'' ''spki'' = Inr dhSecret" using law(3) r(6) unfolding dh_agree_def by metis
  have "requireCanonicalB64 (JStr (bytesToBase64 nonce)) l (Some 12) = Inr (bytesToBase64 nonce)" for l using opens(2) by (intro requireB64_enc) auto
  moreover have "requireCanonicalB64 (JStr (bytesToBase64 ct)) l None = Inr (bytesToBase64 ct)" for l using opens(3) by (intro requireB64_enc) auto
  moreover have "requirePsk psk l = Inr psk" for l using r(1) by (simp add: requirePsk_def)
  ultimately have "openCeremonyResponse c parse psk account0 rendezvous0 th0 ephA (sr_payload resp) = Inr \<lparr>or_delegationBundle = wireBundle account dhPub dhPriv (map canonicalize chain) (canonicalize used'),
        or_masterSecret = sr_masterSecret resp, or_thResponseB64 = sr_thResponseB64 resp\<rparr>"
    by (simp add: openCeremonyResponse_def spki_label [OF r(2)] spki_label [OF r(3)] requireB64_label [OF r(4)] requireX25519_label [OF x] r(7,8,11,12) responsePayload_def b64.dec_enc Let_def
      opens(1) dh parseInner_def inner g v del: canonicalize.simps(8))
  then show ?thesis using r(5) w(1) u(2) by (intro exI conjI) (auto simp del: canonicalize.simps(8))
qed

section \<open>Confirmation, records and the link code\<close>

lemma confirm_verifies:
  assumes "deriveConfirmTag c m th = Inr tag" "length m = 32" "requireCanonicalB64 (JStr th) [] (Some 32) = Inr th"
  shows "\<exists>payload pb. buildCeremonyConfirm c m (JStr th) = Inr (payload, pb) \<and> verifyCeremonyConfirm c m (JStr th) payload = Inr True"
  using assms requireB64_label [OF assms(3)]
  by (simp add: buildCeremonyConfirm_def verifyCeremonyConfirm_def Let_def b64.dec_enc constantTimeEqualBytes_iff)

lemma transcript_b64: "requireCanonicalB64 (JStr (transcriptHashB64 a n ct)) l (Some 32) = Inr (transcriptHashB64 a n ct)"
proof -
  have "sha256Internal x \<noteq> []" for x using length_sha256Internal [of x] by (metis list.size(3) zero_neq_numeral)
  then show ?thesis unfolding transcriptHashB64_def by (intro requireB64_enc) simp_all
qed

lemma master_length: "hkdf_lawful c \<Longrightarrow> deriveMasterSecret c psk dh th = Inr m \<Longrightarrow> length m = 32"
  unfolding deriveMasterSecret_def hkdf_lawful_def by (auto simp: result_simps) (metis Inr_inject)

lemma base64_trim: "trim (bytesToBase64 bs) = bytesToBase64 bs"
proof (rule trim_no_space)
  have "\<not> isSpace (CHR ''='')" by (simp add: isSpace_def)
  then show "\<forall>c\<in>set (bytesToBase64 bs). \<not> isSpace c" using bytesToBase64_chars [of bs] B64_no_space by blast
qed

lemma ceremony_record_delivers:
  assumes law: "sign_lawful c rk" "parse_lawful parse" and ok: "clean payload" "requireCanonicalSpkiB64 (JStr (bytesToBase64 (publicKey rk))) [] = Inr (bytesToBase64 (publicKey rk))"
      "trim rid = rid"
    and s: "sealCeremonyRecord c (NInt t0) \<lparr>kp_publicKeyB64 = bytesToBase64 (publicKey rk), kp_privateKeyB64 = bytesToBase64 (privateKey rk)\<rparr> (JStr rid)
        (JStr (bytesToBase64 (stringifyBytes payload))) (JInt e) = Inr r"
    and w: "t1 < e"
  shows "verifyCeremonyRecord c parse (NInt t1) r (JStr (bytesToBase64 (publicKey rk))) (JStr rid) = Inr payload"
proof -
  let ?kvs = "[(''v'', JInt 1), (''recordKind'', JStr DEVICE_LINK_RECORD_KIND), (''recordId'', JStr rid), (''publisherPublicKeyB64'', JStr (bytesToBase64 (publicKey rk))),
     (''issuedAtMs'', JInt t0), (''expiresAtMs'', JInt e), (''payloadB64'', JStr (bytesToBase64 (stringifyBytes payload)))]"
  have tk: "trim DEVICE_LINK_RECORD_KIND = DEVICE_LINK_RECORD_KIND" "DEVICE_LINK_RECORD_KIND \<noteq> []" by code_simp+
  have build: "buildDurableRecordV1 (JObj [(''recordKind'', JStr DEVICE_LINK_RECORD_KIND), (''recordId'', JStr rid), (''publisherPublicKeyB64'', JStr (bytesToBase64 (publicKey rk))),
     (''payloadB64'', JStr (bytesToBase64 (stringifyBytes payload))), (''issuedAtMs'', JInt t0), (''expiresAtMs'', JInt e)]) = JObj ?kvs"
    if "rid \<noteq> []" "bytesToBase64 (publicKey rk) \<noteq> []" "bytesToBase64 (stringifyBytes payload) \<noteq> []"
    using that tk ok(3) by (simp add: buildDurableRecordV1_def textOf_def base64_trim)
  obtain sg where r: "sign c (privateKey rk) (signable (JObj [(''v'', JInt 1), (''recordKind'', JStr DEVICE_LINK_RECORD_KIND), (''recordId'', JStr rid),
       (''publisherPublicKeyB64'', JStr (bytesToBase64 (publicKey rk))), (''issuedAtMs'', JInt t0), (''expiresAtMs'', JInt e), (''payloadB64'', JStr (bytesToBase64 (stringifyBytes payload)))])) = Inr sg"
     "r = JObj (?kvs @ [(''sigB64'', JStr (bytesToBase64 sg))])"
    using s build by (auto simp: sealCeremonyRecord_def requireNowMs_def result_simps b64.dec_enc durableRecordSignableBytes_def Let_def split: if_splits)
  have v: "verify c (publicKey rk) (signable (JObj [(''v'', JInt 1), (''recordKind'', JStr DEVICE_LINK_RECORD_KIND), (''recordId'', JStr rid),
       (''publisherPublicKeyB64'', JStr (bytesToBase64 (publicKey rk))), (''issuedAtMs'', JInt t0), (''expiresAtMs'', JInt e), (''payloadB64'', JStr (bytesToBase64 (stringifyBytes payload)))])) sg = Inr True"
    using law(1) r(1) unfolding sign_lawful_def by (metis Inr_inject)
  have p: "parse (stringifyBytes payload) = Inr payload" using law(2) ok(1) by (simp add: parse_lawful_def clean_def)
  have sig: "base64ToBytes (textOf (JStr (bytesToBase64 sg))) = Inr sg" by (cases "bytesToBase64 sg = []") (simp_all add: textOf_def b64.dec_enc flip: b64.dec_enc)
  show ?thesis
    using w v p sig unfolding r(2) by (simp add: verifyCeremonyRecord_def requireNowMs_def spki_label [OF ok(2)] b64.dec_enc durableRecordSignableBytes_def parseInner_def)
qed

lemma base32_no_dot: "CHR ''.'' \<notin> set (bytesToBase32 bs)"
proof -
  obtain idxs where "bytesToBase32 bs = map (\<lambda>i. BASE32_ALPHABET ! i) idxs" "set idxs \<subseteq> {..<32}" by (rule bytesToBase32_stream)
  moreover have "CHR ''.'' \<notin> set BASE32_ALPHABET" "length BASE32_ALPHABET = 32" by (simp_all add: BASE32_ALPHABET_def)
  ultimately show ?thesis by (metis (no_types, lifting) image_iff lessThan_iff list.set_map nth_mem subsetD)
qed

lemma fingerprint_of_device: "\<exists>fp. deviceLinkFingerprint (JStr (''rez:dev:'' @ sha256Hex k)) = Inr fp"
  by (simp add: deviceLinkFingerprint_def Let_def textOf_def hex64Id_def startsWith_append sha256Hex_lower)

definition valid_binding :: "jsval \<Rightarrow> string \<Rightarrow> bool" where
  "valid_binding b key \<longleftrightarrow> clean b \<and> truthy b \<and> typeofObject b \<and> bindingCheck b (''rez:dev:'' @ sha256Hex key) key = Inr ()"

text \<open>From well-formed inputs the request is built.\<close>

lemma ceremony_request_builds:
  assumes law: "hkdf_lawful c" "aead_lawful c" "sign_lawful c dk" "\<And>m. sign c (privateKey dk) m \<noteq> Inr []"
    and psk: "length psk = DEVICE_LINK_PSK_BYTES" and keys: "spkiKey account" "spkiKey rendezvous" "spkiKey (bytesToBase64 (publicKey dk))" "privateKey dk \<noteq> []"
    and eph: "requireCanonicalX25519SpkiB64 (JStr (bytesToBase64 (publicKey eph))) [] = Inr (bytesToBase64 (publicKey eph))"
    and b: "valid_binding binding (bytesToBase64 (publicKey dk))" and ttl: "0 < ttl" "length rnd = 12"
  shows "\<exists>q. buildCeremonyRequest c (NInt t0) psk (JStr account) (JStr rendezvous)
     \<lparr>kp_publicKeyB64 = bytesToBase64 (publicKey dk), kp_privateKeyB64 = bytesToBase64 (privateKey dk)\<rparr> binding eph ttl rnd = Inr q"
proof -
  let ?key = "bytesToBase64 (publicKey dk)"
  obtain did where d: "did = ''rez:dev:'' @ sha256Hex ?key" by blast
  have b': "clean binding" "truthy binding" "typeofObject binding" "bindingCheck binding did ?key = Inr ()" using b unfolding valid_binding_def d by blast+
  have hk: "\<exists>out. hkdfSha256 c psk HKDF_SALT info 32 = Inr out \<and> length out = 32" for info using law(1) unfolding hkdf_lawful_def by blast
  obtain s where h1: "hkdfSha256 c psk HKDF_SALT INFO_RENDEZVOUS_SEED 32 = Inr s" using hk by blast
  obtain n where h2: "hkdfSha256 c psk HKDF_SALT INFO_CEREMONY_NONCE 32 = Inr n" "length n = 32" using hk by blast
  obtain k where h3: "hkdfSha256 c psk HKDF_SALT INFO_REQUEST_KEY 32 = Inr k" "length k = 32" using hk by blast
  have sec: "deriveCeremonySecrets c psk = Inr \<lparr>cs_rendezvousSeed = s, cs_ceremonyNonceB64 = bytesToBase64 n, cs_requestKey = k\<rparr>"
    using psk h1 h2 h3 by (simp add: deriveCeremonySecrets_def requirePsk_def)
  have ne: "bytesToBase64 bs \<noteq> []" if "bs \<noteq> []" for bs using CANONICAL_B64_enc [OF that] by (auto simp: CANONICAL_B64_def)
  obtain kb where kb: "?key = bytesToBase64 kb" "length kb = 44" using keys(3) unfolding spkiKey_def ED25519_SPKI_LEN_def by blast
  then have "kb \<noteq> []" by auto
  then have kne: "?key \<noteq> []" unfolding kb(1) by (rule ne)
  let ?body = "requestBody account ?key did binding (bytesToBase64 n) t0 (t0 + ttl)"
  obtain sg where sg: "sign c (privateKey dk) (linkRequest_signableBytes (JObj (linkRequest_body (?body [])))) = Inr sg" "sg \<noteq> []"
    using law(3,4) unfolding sign_lawful_def by metis
  have nonce: "requireCanonicalB64 (JStr (bytesToBase64 n)) l (Some 32) = Inr (bytesToBase64 n)" for l using h2(2) by (intro requireB64_enc) auto
  have sig: "validateEd25519Sig (normalizeSig (sigJSON (bytesToBase64 sg))) l = Inr (bytesToBase64 sg)" for l
    using CANONICAL_B64_enc [OF sg(2)] by (simp add: validateSig_iff sigJSON_def)
  have did: "checkDeviceId at f g (JStr did) (JStr ?key) = Inr did" for at f g using keys(3) d by (auto simp: checkDeviceId_iff)
  have win: "checkWindow at (JInt t0) (JInt (t0 + ttl)) = Inr (t0, t0 + ttl)" for at using ttl(1) by (simp add: checkWindow_iff)
  have spki: "requireCanonicalSpkiB64 (JStr x) l = Inr x" if "spkiKey x" for x l using that by (simp add: requireSpki_iff)
  have new: "\<exists>lr. newDeviceLinkRequestV2 (JObj (linkRequest_body (?body []) @ [(''sig'', sigJSON (bytesToBase64 sg))])) = Inr lr"
    unfolding requestBody_list using b' keys(1,3)
    by (simp add: newDeviceLinkRequestV2_def Let_def did win nonce sig spki)
  then obtain lr where lr: "newDeviceLinkRequestV2 (JObj (linkRequest_body (?body []) @ [(''sig'', sigJSON (bytesToBase64 sg))])) = Inr lr" by blast
  have enc: "\<exists>ct. encryptAes256Gcm c k rnd pt aad = Inr ct" for pt aad
    using law(2) h3(2) ttl(2) unfolding aead_lawful_def encryptAes256Gcm_def by (metis (no_types, lifting))
  obtain fp where fp: "deviceLinkFingerprint (JStr did) = Inr fp" using fingerprint_of_device unfolding d by blast
  have "deviceIdFor (JStr ?key) = Inr did" using keys(3) d by (simp add: deviceIdFor_iff)
  moreover obtain ct where "encryptAes256Gcm c k rnd (signable (JObj [(''linkRequest'', linkRequest_toJSON lr), (''ephemeralDhPublicKeyB64'', JStr (bytesToBase64 (publicKey eph)))]))
     (link_aadBytes account rendezvous ''request'' []) = Inr ct" using enc by blast
  ultimately show ?thesis
    using psk b' lr sg(1) unfolding requestBody_list
    by (simp add: buildCeremonyRequest_def requireNowMs_def requirePsk_def spki keys sec requireX25519_label [OF eph] kne ne Let_def b64.dec_enc fp)
qed

section \<open>Properties\<close>

text \<open>The bundle that arrives: the sent one in canonical form, its cached device set possibly dropped.\<close>

definition bundle_delivered :: "string \<Rightarrow> jsval \<Rightarrow> jsval \<Rightarrow> bool" where
  "bundle_delivered account sent got \<longleftrightarrow> (\<exists>dhPub dhPriv chain cached cached'.
     validateWireBundle sent account ''buildCeremonyResponse'' = Inr (wireBundle account dhPub dhPriv chain cached)
     \<and> (cached' = canonicalize cached \<or> cached' = JNull) \<and> got = wireBundle account dhPub dhPriv (map canonicalize chain) cached')"

text \<open>The last leg: a sealed response opens on the new device, and its confirmation convinces the approver.\<close>

lemma response_confirms:
  assumes law: "hkdf_lawful c" "aead_lawful c" "parse_lawful parse" "dh_agree c ephA ephB" and cb: "clean sent"
    and x: "requireCanonicalX25519SpkiB64 (JStr (bytesToBase64 (publicKey ephB))) [] = Inr (bytesToBase64 (publicKey ephB))"
    and b: "buildCeremonyResponse c psk (JStr account) (JStr rendezvous) th0 (JStr (bytesToBase64 (publicKey ephA))) sent ephB rnd1 rnd2 = Inr resp"
  shows "\<exists>opened pl pb. openCeremonyResponse c parse psk (JStr account) (JStr rendezvous) th0 ephA (sr_payload resp) = Inr opened
    \<and> bundle_delivered account sent (or_delegationBundle opened)
    \<and> buildCeremonyConfirm c (or_masterSecret opened) (JStr (or_thResponseB64 opened)) = Inr (pl, pb)
    \<and> verifyCeremonyConfirm c (sr_masterSecret resp) (JStr (sr_thResponseB64 resp)) pl = Inr True"
proof -
  obtain account' rendezvous' th dhSecret nonce ct tag where r: "requireCanonicalSpkiB64 (JStr account) ''buildCeremonyResponse.accountSignPublicKeyB64'' = Inr account'"
    "deriveMasterSecret c psk dhSecret th = Inr (sr_masterSecret resp)"
    "sr_thResponseB64 resp = transcriptHashB64 (responseAad account' rendezvous' th (bytesToBase64 (publicKey ephB))) nonce ct"
    "deriveConfirmTag c (sr_masterSecret resp) (sr_thResponseB64 resp) = Inr tag"
    by (rule buildCeremonyResponse_inv [OF b]) (rule that; assumption)
  have th: "requireCanonicalB64 (JStr (sr_thResponseB64 resp)) [] (Some 32) = Inr (sr_thResponseB64 resp)" unfolding r(3) by (rule transcript_b64)
  obtain pl pb where c: "buildCeremonyConfirm c (sr_masterSecret resp) (JStr (sr_thResponseB64 resp)) = Inr (pl, pb)"
    "verifyCeremonyConfirm c (sr_masterSecret resp) (JStr (sr_thResponseB64 resp)) pl = Inr True"
    using confirm_verifies [OF r(4) master_length [OF law(1) r(2)] th] by blast
  obtain acc dhPub dhPriv chain cached cached' where o: "validateWireBundle sent acc ''buildCeremonyResponse'' = Inr (wireBundle acc dhPub dhPriv chain cached)"
    "cached' = canonicalize cached \<or> cached' = JNull"
    "openCeremonyResponse c parse psk (JStr account) (JStr rendezvous) th0 ephA (sr_payload resp) = Inr \<lparr>or_delegationBundle = wireBundle acc dhPub dhPriv (map canonicalize chain) cached',
        or_masterSecret = sr_masterSecret resp, or_thResponseB64 = sr_thResponseB64 resp\<rparr>"
    using response_opens [OF law(2-4) cb x b] by (elim exE conjE)
  have "getProp sent ''accountSignPublicKeyB64'' = JStr acc" using o(1) by (auto simp: validateWireBundle_def split: if_splits option.splits)
  moreover obtain account'' where "requireCanonicalSpkiB64 (JStr account) ''buildCeremonyResponse.accountSignPublicKeyB64'' = Inr account''"
      "\<exists>w. validateWireBundle sent account'' ''buildCeremonyResponse'' = Inr w"
    by (rule buildCeremonyResponse_inv [OF b]) blast
  then have "\<exists>w. validateWireBundle sent account ''buildCeremonyResponse'' = Inr w" by (simp add: requireSpki_iff)
  then have "getProp sent ''accountSignPublicKeyB64'' = JStr account" by (auto simp: validateWireBundle_def split: if_splits option.splits)
  ultimately have "acc = account" by simp
  then have "bundle_delivered account sent (wireBundle acc dhPub dhPriv (map canonicalize chain) cached')" unfolding bundle_delivered_def using o(1,2) by blast
  with o(3) c show ?thesis by (intro exI [of _ "\<lparr>or_delegationBundle = wireBundle acc dhPub dhPriv (map canonicalize chain) cached',
        or_masterSecret = sr_masterSecret resp, or_thResponseB64 = sr_thResponseB64 resp\<rparr>"] exI [of _ pl] exI [of _ pb]) simp
qed


lemma checkLinkRequest_ok:
  assumes "checkLinkRequest c now account nonceB64 skew lr = Inr ()"
  shows "\<exists>pub sg theirs. base64ToBytes (dlr_newDevicePublicKeyB64 lr) = Inr pub \<and> base64ToBytes (dlr_sigB64 lr) = Inr sg
    \<and> verify c pub (linkRequest_signableBytes (linkRequest_toJSON lr)) sg = Inr True \<and> dlr_account lr = account
    \<and> base64ToBytes (dlr_ceremonyNonceB64 lr) = Inr theirs \<and> base64ToBytes nonceB64 = Inr theirs \<and> now < dlr_expiresAtMs lr \<and> dlr_issuedAtMs lr \<le> now + skew"
  using assms by (auto simp: checkLinkRequest_def result_simps constantTimeEqualBytes_iff split: if_splits)

lemma newDeviceLinkRequest_sound:
  assumes "newDeviceLinkRequestV2 j = Inr lr"
  shows "spkiKey (dlr_account lr) \<and> spkiKey (dlr_newDevicePublicKeyB64 lr) \<and> dlr_newDeviceId lr = ''rez:dev:'' @ sha256Hex (dlr_newDevicePublicKeyB64 lr)
    \<and> bindingCheck (dlr_deviceInboxBinding lr) (dlr_newDeviceId lr) (dlr_newDevicePublicKeyB64 lr) = Inr () \<and> dlr_issuedAtMs lr < dlr_expiresAtMs lr"
  using assms by (auto simp: newDeviceLinkRequestV2_def result_simps requireSpki_iff checkDeviceId_iff checkWindow_iff Let_def split: if_splits)

text \<open>C18: What an approver accepts. A request is opened only when the key that it names signed it, it targets the approver's account, it carries the nonce of this very ceremony,
  it is within its time window, the device identifier is the hash of the key, and the inbox binding it carries is a valid binding of that device and key. The identifier and the
  fingerprint shown to the user are those of that key.\<close>

theorem link_request_checked:
  assumes "openCeremonyRequest c parse (NInt now) psk account0 rendezvous0 src skew = Inr oq"
  shows "\<exists>pub sg nonce secrets. base64ToBytes (dlr_newDevicePublicKeyB64 (oq_linkRequest oq)) = Inr pub \<and> base64ToBytes (dlr_sigB64 (oq_linkRequest oq)) = Inr sg
    \<and> verify c pub (linkRequest_signableBytes (linkRequest_toJSON (oq_linkRequest oq))) sg = Inr True
    \<and> account0 = JStr (dlr_account (oq_linkRequest oq)) \<and> deriveCeremonySecrets c psk = Inr secrets
    \<and> base64ToBytes (dlr_ceremonyNonceB64 (oq_linkRequest oq)) = Inr nonce \<and> base64ToBytes (cs_ceremonyNonceB64 secrets) = Inr nonce
    \<and> now < dlr_expiresAtMs (oq_linkRequest oq) \<and> dlr_issuedAtMs (oq_linkRequest oq) \<le> now + skew
    \<and> oq_newDeviceId oq = ''rez:dev:'' @ sha256Hex (dlr_newDevicePublicKeyB64 (oq_linkRequest oq))
    \<and> (\<exists>b. newDeviceInboxBindingV1 (dlr_deviceInboxBinding (oq_linkRequest oq)) = Inr b \<and> dib_deviceId b = oq_newDeviceId oq
          \<and> dib_devicePublicKeyB64 b = dlr_newDevicePublicKeyB64 (oq_linkRequest oq))
    \<and> deviceLinkFingerprint (JStr (oq_newDeviceId oq)) = Inr (oq_fingerprint oq)"
proof -
  obtain account raw secrets lr fp where r: "requireCanonicalSpkiB64 account0 ''openCeremonyRequest.accountSignPublicKeyB64'' = Inr account"
    "deriveCeremonySecrets c psk = Inr secrets" "newDeviceLinkRequestV2 raw = Inr lr" "checkLinkRequest c now account (cs_ceremonyNonceB64 secrets) skew lr = Inr ()"
    "deviceLinkFingerprint (JStr (dlr_newDeviceId lr)) = Inr fp" "oq_linkRequest oq = lr" "oq_newDeviceId oq = dlr_newDeviceId lr" "oq_fingerprint oq = fp"
    using assms by (auto simp: openCeremonyRequest_def requireNowMs_def result_simps Let_def split: if_splits)
  note s = newDeviceLinkRequest_sound [OF r(3)]
  have "newDeviceInboxBindingV1 (JObj []) \<noteq> Inr b" for b
    by (auto simp: newDeviceInboxBindingV1_def Let_def result_simps requireSpki_iff)
  then have "\<exists>b. newDeviceInboxBindingV1 (dlr_deviceInboxBinding lr) = Inr b \<and> dib_deviceId b = dlr_newDeviceId lr \<and> dib_devicePublicKeyB64 b = dlr_newDevicePublicKeyB64 lr"
    using s by (auto simp: bindingCheck_iff split: if_splits)
  moreover have "account0 = JStr account" using r(1) by (simp add: requireSpki_iff)
  ultimately show ?thesis using checkLinkRequest_ok [OF r(4)] s r by auto
qed

lemma split_at_dot: "CHR ''.'' \<notin> set a \<Longrightarrow> takeWhile (\<lambda>ch. ch \<noteq> CHR ''.'') (a @ CHR ''.'' # b) = a \<and> dropWhile (\<lambda>ch. ch \<noteq> CHR ''.'') (a @ CHR ''.'' # b) = CHR ''.'' # b"
  by (induction a) auto

text \<open>The parser, with the two halves around the first dot.\<close>

lemma parse_link_halves:
  fixes code :: string
  defines "body \<equiv> trim (drop (length DEVICE_LINK_CODE_PREFIX) code)"
  defines "t \<equiv> takeWhile (\<lambda>ch. ch \<noteq> CHR ''.'') body" and "d \<equiv> dropWhile (\<lambda>ch. ch \<noteq> CHR ''.'') body"
  shows "parseDeviceLinkCodeV1 (JStr code) = Inr (psk, account) \<longleftrightarrow> startsWith code DEVICE_LINK_CODE_PREFIX \<and> d \<noteq> [] \<and> t \<noteq> [] \<and> tl d \<noteq> [] \<and> base32ToBytes t = Inr psk \<and> length psk = 32 \<and> spkiKey (tl d) \<and> account = tl d"
proof (cases "requireCanonicalSpkiB64 (JStr (tl d)) ''account public key''")
  case (Inl e)
  then have "\<not> spkiKey (tl d)" using requireSpki_iff [of "JStr (tl d)" "''account public key''" "tl d"] by auto
  with Inl show ?thesis unfolding body_def t_def d_def
    by (auto simp: parseDeviceLinkCodeV1_def isDeviceLinkCodeV1_def linkCodeFail_def Let_def DEVICE_LINK_PSK_BYTES_def split: sum.splits if_splits)
next
  case (Inr acc)
  then have "acc = tl d" "spkiKey (tl d)" by (auto simp: requireSpki_iff)
  with Inr show ?thesis unfolding body_def t_def d_def
    by (auto simp: parseDeviceLinkCodeV1_def isDeviceLinkCodeV1_def linkCodeFail_def Let_def DEVICE_LINK_PSK_BYTES_def split: sum.splits if_splits)
qed

text \<open>C28: The link code read off the screen is read exactly. A text is accepted with a key and an account precisely when it is the prefix followed, up to white space around it,
  by the canonical base32 form of 32 bytes, a dot and the canonical form of an Ed25519 key.\<close>

theorem link_code_exact:
  "parseDeviceLinkCodeV1 (JStr code) = Inr (psk, account) \<longleftrightarrow>
     startsWith code DEVICE_LINK_CODE_PREFIX \<and> length psk = 32 \<and> spkiKey account
     \<and> trim (drop (length DEVICE_LINK_CODE_PREFIX) code) = bytesToBase32 psk @ ''.'' @ account"
  (is "?l \<longleftrightarrow> ?r")
proof -
  let ?body = "trim (drop (length DEVICE_LINK_CODE_PREFIX) code)"
  let ?t = "takeWhile (\<lambda>ch. ch \<noteq> CHR ''.'') ?body" and ?d = "dropWhile (\<lambda>ch. ch \<noteq> CHR ''.'') ?body"
  have split: "?body = ?t @ ?d" by simp
  note L = parse_link_halves [of code psk account]
  show ?thesis
  proof
    assume ?l
    then have l: "startsWith code DEVICE_LINK_CODE_PREFIX" "?d \<noteq> []" "base32ToBytes ?t = Inr psk" "length psk = 32" "spkiKey (tl ?d)" "account = tl ?d" unfolding L by blast+
    have "hd ?d = CHR ''.''" using hd_dropWhile [OF l(2)] by simp
    then have "?d = CHR ''.'' # account" using l(2,6) by (cases ?d) simp_all
    moreover have "?t = bytesToBase32 psk" using b32.enc_dec [OF l(3)] by simp
    ultimately show ?r using l split by (metis append_Cons append_Nil)
  next
    assume r: ?r
    then have body: "?body = bytesToBase32 psk @ CHR ''.'' # account" by simp
    have "?t = bytesToBase32 psk" "?d = CHR ''.'' # account" unfolding body using split_at_dot [OF base32_no_dot] by blast+
    moreover have "account \<noteq> []"
    proof -
      obtain kb where "account = bytesToBase64 kb" "length kb = 44" using r unfolding spkiKey_def ED25519_SPKI_LEN_def by blast
      then have "length account = 60" by (simp add: length_bytesToBase64)
      then show ?thesis by auto
    qed
    moreover have "bytesToBase32 psk \<noteq> []"
    proof
      assume e: "bytesToBase32 psk = []"
      have "length psk = 32" using r by blast
      then have "psk \<noteq> []" by auto
      moreover have "bytesToBase32 [] = []" by code_simp
      ultimately show False using e b32.dec_enc [of psk] b32.dec_enc [of "[]"] by simp
    qed
    ultimately show ?l unfolding L using r b32.dec_enc by simp
  qed
qed

section \<open>A concrete ceremony\<close>

definition demo_edKey :: "byte \<Rightarrow> bytes" where
  "demo_edKey b = [0x30, 0x2a, 0x30, 0x05, 0x06, 0x03, 0x2b, 0x65, 0x70, 0x03, 0x21, 0x00] @ replicate 32 b"

definition demo_xKey :: "byte \<Rightarrow> bytes" where
  "demo_xKey b = [0x30, 0x2a, 0x30, 0x05, 0x06, 0x03, 0x2b, 0x65, 0x6e, 0x03, 0x21, 0x00] @ replicate 32 b"

definition same_pair :: "bytes \<Rightarrow> key_pair" where
  "same_pair k = \<lparr>publicKey = k, privateKey = k\<rparr>"

definition demo_binding :: "jsval" where
  "demo_binding = JObj [(''devicePublicKeyB64'', JStr (demo_spki 2)), (''deviceId'', JStr (''rez:dev:'' @ sha256Hex (demo_spki 2))), (''inboxId'', JStr ''inbox:a''),
     (''issuedAtMs'', JInt 1), (''expiresAtMs'', JInt 9), (''sig'', sigJSON ''AAAA'')]"

definition demo_sent :: "jsval" where
  "demo_sent = JObj [(''accountSignPublicKeyB64'', JStr (demo_spki 1)),
     (''accountDhKeyPair'', JObj [(''publicKeyB64'', JStr (bytesToBase64 (demo_xKey 5))), (''privateKeyB64'', JStr ''AAAA'')]), (''certChain'', JArr [JStr ''x''])]"

lemma same_pair_simps [simp]: "publicKey (same_pair k) = k" "privateKey (same_pair k) = k"
  by (simp_all add: same_pair_def)

lemma demo_xKey_ok: "requireCanonicalX25519SpkiB64 (JStr (bytesToBase64 (demo_xKey b))) l = Inr (bytesToBase64 (demo_xKey b))"
proof -
  have "demo_xKey b \<noteq> []" by (simp add: demo_xKey_def)
  then have "requireCanonicalB64 (JStr (bytesToBase64 (demo_xKey b))) l None = Inr (bytesToBase64 (demo_xKey b))" by (intro requireB64_enc) simp_all
  moreover have "length (demo_xKey b) = 44" by (simp add: demo_xKey_def)
  moreover have "subarray 0 12 (demo_xKey b) = [0x30, 0x2a, 0x30, 0x05, 0x06, 0x03, 0x2b, 0x65, 0x6e, 0x03, 0x21, 0x00]" by (simp add: demo_xKey_def subarray_def)
  moreover have "bytesToHex [0x30, 0x2a, 0x30, 0x05, 0x06, 0x03, 0x2b, 0x65, 0x6e, 0x03, 0x21, 0x00] = X25519_SPKI_PREFIX_HEX" by code_simp
  ultimately show ?thesis by (simp add: requireCanonicalX25519SpkiB64_def requireSpki_def b64.dec_enc X25519_SPKI_LEN_def)
qed

lemma demo_edKey_spki: "bytesToBase64 (demo_edKey b) = demo_spki b"
  by (simp add: demo_edKey_def demo_spki_def)

lemma AAAA_ok: "CANONICAL_B64 ''AAAA''" "requireCanonicalB64 (JStr ''AAAA'') l None = Inr ''AAAA''"
proof -
  show "CANONICAL_B64 ''AAAA''" by code_simp
  have "bytesToBase64 [0, 0, 0] = ''AAAA''" by code_simp
  then show "requireCanonicalB64 (JStr ''AAAA'') l None = Inr ''AAAA''" using requireB64_enc [of "[0, 0, 0]" None l] by simp
qed

lemma demo_binding_valid: "valid_binding demo_binding (demo_spki 2)"
proof -
  have o: "truthy demo_binding" "typeofObject demo_binding" by (simp_all add: demo_binding_def)
  have "clean (sigJSON ''AAAA'')" by (simp add: sigJSON_def clean_obj not_index_entry isDigit_def)
  then have cl: "clean demo_binding" by (simp add: demo_binding_def clean_obj not_index_entry isDigit_def)
  have ne: "isNonEmptyString (JStr ''inbox:a'')" by code_simp
  have sig: "validateEd25519Sig (normalizeSig (sigJSON ''AAAA'')) l = Inr ''AAAA''" for l using AAAA_ok(1) by (simp add: validateSig_iff sigJSON_def)
  obtain did where d: "did = ''rez:dev:'' @ sha256Hex (demo_spki 2)" by blast
  have spki: "requireCanonicalSpkiB64 (JStr (demo_spki 2)) l = Inr (demo_spki 2)" for l by (simp add: requireSpki_iff)
  have did: "checkDeviceId at f g (JStr did) (JStr (demo_spki 2)) = Inr did" for at f g using d by (auto simp: checkDeviceId_iff)
  have win: "checkWindow at (JInt 1) (JInt 9) = Inr (1, 9)" for at by (simp add: checkWindow_iff)
  have "newDeviceInboxBindingV1 demo_binding = Inr \<lparr>dib_devicePublicKeyB64 = demo_spki 2, dib_deviceId = did, dib_inboxId = ''inbox:a'', dib_issuedAtMs = 1, dib_expiresAtMs = 9, dib_sigB64 = ''AAAA''\<rparr>"
    unfolding demo_binding_def d [symmetric] using ne by (simp add: newDeviceInboxBindingV1_def Let_def spki did win sig del: isNonEmptyString.simps)
  then show ?thesis using o cl by (simp add: valid_binding_def bindingCheck_iff d)
qed

definition demo_wire :: "jsval" where
  "demo_wire = wireBundle (demo_spki 1) (bytesToBase64 (demo_xKey 5)) ''AAAA'' [JStr ''x''] JNull"

lemma demo_sent_ok: "clean demo_sent" "validateWireBundle demo_sent (demo_spki 1) l = Inr demo_wire"
proof -
  have "clean (JObj [(''publicKeyB64'', JStr (bytesToBase64 (demo_xKey 5))), (''privateKeyB64'', JStr ''AAAA'')])" by (simp add: clean_obj not_index_entry isDigit_def)
  then show "clean demo_sent" by (simp add: demo_sent_def clean_obj not_index_entry isDigit_def)
  have "find (\<lambda>k. getProp demo_sent k \<noteq> JUndef) forbiddenBundleKeys = None" by (simp add: demo_sent_def forbiddenBundleKeys_def)
  then show "validateWireBundle demo_sent (demo_spki 1) l = Inr demo_wire"
    by (simp add: validateWireBundle_def demo_sent_def demo_wire_def demo_xKey_ok AAAA_ok(2) Let_def)
qed

text \<open>How many bytes a printed value takes: one for each printable ASCII character that needs no escape.\<close>

definition plainChar :: "char \<Rightarrow> bool" where
  "plainChar ch \<longleftrightarrow> (of_char ch :: nat) \<in> {32..<127} - {34, 92}"

definition printedLength :: "string \<Rightarrow> nat" where
  "printedLength s = (if list_all plainChar s then length s + 2 else length (utf8Encode (quoteStr s)))"

primrec byteLength :: "jsval \<Rightarrow> nat" where
  "byteLength JUndef = 0"
| "byteLength JNull = 4"
| "byteLength (JBool b) = 5"
| "byteLength (JNum n) = length (utf8Encode (jsonNum n))"
| "byteLength (JStr s) = printedLength s"
| "byteLength (JBytes bs) = 0"
| "byteLength (JArr xs) = sum_list (map Suc (map byteLength xs)) + 2"
| "byteLength (JObj kvs) = sum_list (map (\<lambda>p. printedLength (fst p) + 2 + snd p) (map (map_prod id byteLength) kvs)) + 2"

lemma utf8_append: "utf8Encode (x @ y) = utf8Encode x @ utf8Encode y"
  by (simp add: utf8Encode_def)

lemma utf8_plain: "plainChar ch \<Longrightarrow> length (utf8Encode (ch # s)) = Suc (length (utf8Encode s))" "utf8Encode [] = []"
  by (simp_all add: utf8Encode_def utf8Char_def plainChar_def Let_def)

lemma plain_marks: "plainChar (CHR '','')" "plainChar (CHR '':'')" "plainChar (CHR ''['')" "plainChar (CHR '']'')" "plainChar (CHR ''{'')" "plainChar (CHR ''}'')"
  by (simp_all add: plainChar_def)

lemma plain_string: "list_all plainChar s \<Longrightarrow> length (utf8Encode (quoteStr s)) = length s + 2"
proof -
  assume s: "list_all plainChar s"
  then have "concat (map escChar s) = s" by (induction s) (simp_all add: escChar_def plainChar_def Let_def)
  moreover have "length (utf8Encode s) = length s" using s by (induction s) (simp_all add: utf8_plain)
  moreover have "length (utf8Encode (CHR 0x22 # r)) = Suc (length (utf8Encode r))" for r by (simp add: utf8Encode_def utf8Char_def Let_def)
  ultimately show ?thesis by (simp add: quoteStr_def utf8_append utf8_plain(2))
qed

lemma printed_quote: "length (utf8Encode (quoteStr s)) = printedLength s"
  by (simp add: printedLength_def plain_string)

lemma printed_join: "length (utf8Encode (join '','' xs)) \<le> sum_list (map (\<lambda>x. Suc (length (utf8Encode x))) xs)"
proof (induction xs)
  case (Cons x xs)
  then show ?case using utf8_plain(1) [OF plain_marks(1)] by (auto simp: join_Cons utf8_append utf8_plain(2))
qed (simp add: utf8_plain)

lemma render_length: "json_data v \<Longrightarrow> length (utf8Encode (render v)) \<le> byteLength v"
proof (induction v)
  case JNull
  then show ?case by (simp add: utf8_plain plainChar_def)
next
  case (JBool b)
  then show ?case by (simp add: utf8_plain plainChar_def)
next
  case (JStr s)
  then show ?case by (simp add: printed_quote)
next
  case (JArr xs)
  then have "sum_list (map (\<lambda>x. Suc (length (utf8Encode (render x)))) xs) \<le> sum_list (map (\<lambda>x. Suc (byteLength x)) xs)"
    by (intro sum_list_mono) (simp add: list_all_iff)
  then show ?case using printed_join [of "map render xs"] by (simp add: comp_def utf8_append utf8_plain plain_marks)
next
  case (JObj kvs)
  have "Suc (length (utf8Encode (quoteStr (fst p) @ '':'' @ render (snd p)))) \<le> printedLength (fst p) + 2 + byteLength (snd p)" if "p \<in> set kvs" for p
  proof -
    have "json_data (snd p)" using JObj.prems that by (auto simp: list_all_iff)
    then have "length (utf8Encode (render (snd p))) \<le> byteLength (snd p)" using JObj.IH [OF that] by (cases p) simp
    then show ?thesis by (simp add: printed_quote utf8_append utf8_plain plain_marks)
  qed
  then have "sum_list (map (\<lambda>p. Suc (length (utf8Encode (quoteStr (fst p) @ '':'' @ render (snd p))))) kvs) \<le> sum_list (map (\<lambda>p. printedLength (fst p) + 2 + byteLength (snd p)) kvs)"
    by (intro sum_list_mono)
  then show ?case using printed_join [of "map (\<lambda>p. quoteStr (fst p) @ '':'' @ render (snd p)) kvs"] by (simp add: comp_def utf8_append utf8_plain plain_marks)
qed simp_all

lemma sum_list_mset: "mset xs = mset ys \<Longrightarrow> sum_list (map f xs) = (sum_list (map f ys) :: nat)"
  by (metis mset_map sum_mset_sum_list)

text \<open>The canonical form is no longer.\<close>

lemma canonical_length: "json_data v \<Longrightarrow> wf_js v \<Longrightarrow> byteLength (canonicalize v) \<le> byteLength v"
proof (induction v)
  case (JArr xs)
  then show ?case by (auto simp: list_all_iff comp_def intro!: sum_list_mono)
next
  case (JObj kvs)
  let ?f = "\<lambda>p. printedLength (fst p) + 2 + byteLength (snd p)" and ?E = "map (map_prod id canonicalize) kvs"
  have d: "distinct (map fst kvs)" using JObj.prems by simp
  have "byteLength (canonicalize x) \<le> byteLength x" if "(k, x) \<in> set kvs" for k x
  proof -
    have "\<forall>p\<in>set kvs. wf_js (snd p)" "\<forall>p\<in>set kvs. json_data (snd p)" using JObj.prems by (auto simp: list_all_iff)
    from this [THEN bspec, OF that] show ?thesis using JObj.IH [OF that, of x] by simp
  qed
  then have "sum_list (map ?f ?E) \<le> sum_list (map ?f kvs)" by (auto simp: comp_def intro!: sum_list_mono)
  moreover have "sum_list (map ?f (propOrder (filter (\<lambda>p. fst p \<noteq> ''__proto__'') (sort_key fst ?E)))) \<le> sum_list (map ?f ?E)"
  proof -
    have "sum_list (map ?f (propOrder (filter (\<lambda>p. fst p \<noteq> ''__proto__'') (sort_key fst ?E)))) = sum_list (map ?f (filter (\<lambda>p. fst p \<noteq> ''__proto__'') (sort_key fst ?E)))"
      by (rule sum_list_mset) simp
    also have "\<dots> \<le> sum_list (map ?f (sort_key fst ?E))" by (rule sum_list_filter_le_nat)
    also have "\<dots> = sum_list (map ?f ?E)" by (rule sum_list_mset) simp
    finally show ?thesis .
  qed
  ultimately show ?case unfolding canonicalize_JObj [OF d] by (simp add: comp_def)
qed simp_all

lemma signable_length:
  assumes "clean v"
  shows "length (signable v) \<le> byteLength v"
proof -
  have j: "json_data (canonicalize v)" using clean_canonicalize [OF assms] by (simp add: clean_def)
  then have "signable v = utf8Encode (render (canonicalize v))" by (simp add: signable_def canonicalText_def canonicalJSONStringify_def jsonStringify_render)
  then show ?thesis using render_length [OF j] canonical_length [of v] assms by (simp add: clean_def)
qed

lemma base64_plain: "list_all plainChar (bytesToBase64 bs)"
proof -
  have "\<forall>c\<in>insert (CHR ''='') (set B64_ALPHABET). plainChar c" by (simp add: B64_ALPHABET_def plainChar_def)
  then show ?thesis using bytesToBase64_chars [of bs] by (auto simp: list_all_iff)
qed

lemma printed_base64: "printedLength (bytesToBase64 bs) = 4 * ((length bs + 2) div 3) + 2"
  by (simp add: printedLength_def base64_plain length_bytesToBase64)

lemma printed_demo: "printedLength (demo_spki b) = 62" "printedLength (bytesToBase64 (demo_xKey b)) = 62" "printedLength (bytesToBase64 (replicate 12 (0 :: byte))) = 18"
  unfolding demo_spki_def demo_xKey_def printed_base64 by simp_all

lemma base64_mono: "length bs \<le> n \<Longrightarrow> 4 * ((length bs + 2) div 3) \<le> 4 * ((n + 2) div (3 :: nat))"
  by (intro mult_le_mono2 div_le_mono) simp

lemma demo_payload_small: "length (bytesToBase64 (stringifyBytes (responsePayload (bytesToBase64 (demo_xKey 6)) (replicate 12 0)
    (signable (JObj [(''delegationBundle'', demo_wire)]) @ replicate 16 0)))) \<le> DEVICE_LINK_MAX_PAYLOAD_B64"
proof -
  let ?i = "JObj [(''delegationBundle'', demo_wire)]"
  let ?p = "responsePayload (bytesToBase64 (demo_xKey 6)) (replicate 12 0) (signable ?i @ replicate 16 0)"
  have "clean ?i" using wire_clean(2) [OF demo_sent_ok(1)] by (simp add: demo_wire_def demo_sent_def clean_obj not_index_entry isDigit_def)
  moreover have "byteLength ?i \<le> 500"
    by (simp add: demo_wire_def wireBundle_def printed_demo) (simp add: printedLength_def plainChar_def)
  ultimately have "length (signable ?i @ replicate 16 0) \<le> 516" using signable_length [of ?i] by simp
  from base64_mono [OF this] have "printedLength (bytesToBase64 (signable ?i @ replicate 16 0)) \<le> 690" unfolding printed_base64 by simp
  moreover have "length (utf8Encode (int_str 1)) = 1" by code_simp
  ultimately have "byteLength ?p \<le> 1000" by (simp add: responsePayload_def printed_demo) (simp add: printedLength_def plainChar_def base64_plain)
  moreover have j: "json_data ?p" by (simp add: responsePayload_def)
  ultimately have "length (stringifyBytes ?p) \<le> 1000" using render_length [OF j] by (simp add: stringifyBytes_def jsonStringify_render)
  from base64_mono [OF this] show ?thesis by (simp add: length_bytesToBase64 DEVICE_LINK_MAX_PAYLOAD_B64_def)
qed

lemma demo_hkdf: "\<exists>out. hkdfSha256 demo_crypto ikm salt info n = Inr out \<and> length out = n"
  by (simp add: demo_crypto_def)

lemma demo_response:
  assumes "requireCanonicalB64 (JStr th) [] (Some 32) = Inr th"
  shows "\<exists>resp. buildCeremonyResponse demo_crypto (replicate 32 9) (JStr (demo_spki 1)) (JStr (demo_spki 3)) (JStr th) (JStr (bytesToBase64 (demo_xKey 5))) demo_sent
    (same_pair (demo_xKey 6)) (replicate 12 0) (replicate 12 0) = Inr resp"
proof -
  have spki: "requireCanonicalSpkiB64 (JStr (demo_spki b)) l = Inr (demo_spki b)" for b l by (simp add: requireSpki_iff)
  obtain s where s: "dhDerive demo_crypto (demo_xKey 6) (demo_xKey 5) ''X25519'' ''spki'' = Inr (1 # replicate 31 s)" by simp
  have or: "foldl (OR) a bs \<noteq> 0" if "a \<noteq> 0" for a :: byte and bs using that by (induction bs arbitrary: a) (simp_all add: or_eq_0_iff)
  have "assertSharedSecret (1 # replicate 31 s) = Inr ()" using or [of 1 "replicate 31 s"] by (simp add: assertSharedSecret_def)
  then obtain m where m: "deriveMasterSecret demo_crypto (replicate 32 9) (1 # replicate 31 s) th = Inr m" unfolding deriveMasterSecret_def using demo_hkdf by (simp only: bindR_simps) blast
  obtain k where k: "deriveResponseKey demo_crypto m = Inr k" "length k = 32" unfolding deriveResponseKey_def using demo_hkdf by blast
  have tag: "\<exists>t. deriveConfirmTag demo_crypto m h = Inr t" for h unfolding deriveConfirmTag_def using demo_hkdf by blast
  have enc: "encryptAes256Gcm demo_crypto k (replicate 12 0) pt aad = Inr (pt @ replicate 16 0)" for pt aad using k(2) by (simp add: encryptAes256Gcm_def demo_crypto_def)
  have seal: "\<exists>r. sealWithinBudget demo_crypto k aad (bytesToBase64 (demo_xKey 6)) demo_wire (replicate 12 0) (replicate 12 0) = Inr r" for aad
    using demo_payload_small by (simp add: sealWithinBudget_def sealOnce_def enc)
  then obtain r where r: "sealWithinBudget demo_crypto k (responseAad (demo_spki 1) (demo_spki 3) th (bytesToBase64 (demo_xKey 6))) (bytesToBase64 (demo_xKey 6)) demo_wire
      (replicate 12 0) (replicate 12 0) = Inr r" by blast
  obtain t where "deriveConfirmTag demo_crypto m (sr_thResponseB64 r) = Inr t" using tag by blast
  then show ?thesis
    using r by (simp add: buildCeremonyResponse_def requirePsk_def DEVICE_LINK_PSK_BYTES_def spki requireB64_label [OF assms] demo_xKey_ok demo_sent_ok(2) b64.dec_enc s m k(1) Let_def
      del: demo_simps)
qed

text \<open>The hypotheses that the two witnesses discharge.\<close>

lemma demo_link_hyps:
  "hkdf_lawful demo_crypto" "aead_lawful demo_crypto" "sign_lawful demo_crypto (same_pair (demo_edKey 2))" "sign demo_crypto (privateKey (same_pair (demo_edKey 2))) m \<noteq> Inr []"
  "dh_agree demo_crypto (same_pair (demo_xKey 5)) (same_pair (demo_xKey 6))" "length (replicate 32 (9 :: byte)) = DEVICE_LINK_PSK_BYTES"
  "spkiKey (bytesToBase64 (publicKey (same_pair (demo_edKey 2))))" "privateKey (same_pair (demo_edKey 2)) \<noteq> []"
  by (simp_all add: sign_lawful_def dh_agree_def add.commute DEVICE_LINK_PSK_BYTES_def demo_edKey_spki) (simp_all add: demo_edKey_def)

text \<open>The hypotheses as the theorem states them, at the concrete ceremony.\<close>

lemma demo_request_opens:
  "\<exists>q oq. buildCeremonyRequest demo_crypto (NInt 10) (replicate 32 9) (JStr (demo_spki 1)) (JStr (demo_spki 3))
       \<lparr>kp_publicKeyB64 = demo_spki 2, kp_privateKeyB64 = demo_spki 2\<rparr> demo_binding (same_pair (demo_xKey 5)) 100 (replicate 12 4) = Inr q
    \<and> openCeremonyRequest demo_crypto jsonParseBytes (NInt 20) (replicate 32 9) (JStr (demo_spki 1)) (JStr (demo_spki 3)) (cq_payload q) 5 = Inr oq
    \<and> oq_thRequestB64 oq = cq_thRequestB64 q \<and> oq_ephemeralDhPublicKeyB64 oq = bytesToBase64 (demo_xKey 5)
    \<and> requireCanonicalB64 (JStr (oq_thRequestB64 oq)) [] (Some 32) = Inr (oq_thRequestB64 oq)"
proof -
  have cb: "clean demo_binding" using demo_binding_valid by (simp add: valid_binding_def)
  obtain q where q: "buildCeremonyRequest demo_crypto (NInt 10) (replicate 32 9) (JStr (demo_spki 1)) (JStr (demo_spki 3))
       \<lparr>kp_publicKeyB64 = bytesToBase64 (publicKey (same_pair (demo_edKey 2))), kp_privateKeyB64 = bytesToBase64 (privateKey (same_pair (demo_edKey 2)))\<rparr>
       demo_binding (same_pair (demo_xKey 5)) 100 (replicate 12 4) = Inr q"
    using ceremony_request_builds [OF demo_link_hyps(1-4,6) _ _ demo_link_hyps(7,8), of "demo_spki 1" "demo_spki 3" "same_pair (demo_xKey 5)" demo_binding 100 "replicate 12 4" 10]
      demo_binding_valid demo_xKey_ok by (auto simp: demo_edKey_spki)
  obtain account rendezvous ct where th: "cq_thRequestB64 q = transcriptHashB64 (link_aadBytes account rendezvous ''request'' []) (replicate 12 4) ct"
    by (rule buildCeremonyRequest_inv [OF q]) (rule that; assumption)
  have "requireCanonicalB64 (JStr (cq_thRequestB64 q)) [] (Some 32) = Inr (cq_thRequestB64 q)" unfolding th by (rule transcript_b64)
  moreover note ceremony_request_opens [OF demo_link_hyps(2,3) jsonParseBytes_lawful cb q, of 20 5]
  ultimately show ?thesis using q by (auto simp: demo_edKey_spki)
qed

lemma link_request_checked_witness:
  "\<exists>(q :: ceremony_request) oq. openCeremonyRequest demo_crypto jsonParseBytes (NInt 20) (replicate 32 9) (JStr (demo_spki 1)) (JStr (demo_spki 3)) (cq_payload q) 5 = Inr oq
     \<and> JStr (demo_spki 1) = JStr (dlr_account (oq_linkRequest oq)) \<and> 20 < dlr_expiresAtMs (oq_linkRequest oq)"
proof -
  obtain oq and q :: ceremony_request where o: "openCeremonyRequest demo_crypto jsonParseBytes (NInt 20) (replicate 32 9) (JStr (demo_spki 1)) (JStr (demo_spki 3)) (cq_payload q) 5 = Inr oq"
    using demo_request_opens by blast
  with link_request_checked [OF o] show ?thesis by blast
qed


end
