(* ===== verification/Js_Number.thy ===== *)
theory Js_Number
  imports Js_Value
begin

text \<open>
  \<^verbatim>\<open>Number(value)\<close> and the comparisons \<^verbatim>\<open><\<close> and \<^verbatim>\<open>>=\<close> with a number on the left, where the sources apply them to values of any type.
\<close>

text \<open>
  \<^verbatim>\<open>Number(text)\<close> where it is an integer: white space around a decimal literal (sign, digits, fraction, exponent) or a
  prefixed one. A fraction and what is not a number are both \<open>NNaN\<close> here, which \<^verbatim>\<open>Number.isInteger\<close> refuses alike; literals
  above 2^53 keep their exact value.
\<close>

definition radixVal :: "nat \<Rightarrow> string \<Rightarrow> nat option" where
  "radixVal r s =
     (let digit = (\<lambda>c. indexOf ''0123456789abcdef'' (toLowerCase c)) in
      if s = [] \<or> \<not> list_all (\<lambda>c. 0 \<le> digit c \<and> digit c < int r) s then None
      else Some (foldl (\<lambda>acc c. r * acc + nat (digit c)) 0 s))"

definition decimalInt :: "string \<Rightarrow> int option" where
  "decimalInt s =
     (let neg = startsWith s ''-''; body = (if neg \<or> startsWith s ''+'' then tl s else s);
          whole = takeWhile isDigit body; rest = dropWhile isDigit body;
          frac = (if startsWith rest ''.'' then takeWhile isDigit (tl rest) else []);
          rest2 = (if startsWith rest ''.'' then dropWhile isDigit (tl rest) else rest);
          hasExp = startsWith (map toLowerCase rest2) ''e'';
          expo = (if hasExp then tl rest2 else ''0'');
          eneg = startsWith expo ''-''; eds = (if eneg \<or> startsWith expo ''+'' then tl expo else expo);
          m = digitsVal (whole @ frac); e = (if eneg then - int (digitsVal eds) else int (digitsVal eds)) - int (length frac)
      in if whole @ frac = [] \<or> eds = [] \<or> \<not> list_all isDigit eds \<or> (\<not> hasExp \<and> rest2 \<noteq> []) then None
         else if e \<ge> 0 then Some ((if neg then -1 else 1) * int (m * 10 ^ nat e))
         else if m mod 10 ^ nat (- e) = 0 then Some ((if neg then -1 else 1) * int (m div 10 ^ nat (- e)))
         else None)"

definition stringToNumber :: "string \<Rightarrow> jsnum" where
  "stringToNumber text =
     (let s = trim text; lower = map toLowerCase s; ofNat = (\<lambda>n. case n of Some i \<Rightarrow> NInt (int i) | None \<Rightarrow> NNaN) in
      if s = [] then NInt 0
      else if s \<in> {''Infinity'', ''+Infinity''} then NInf False
      else if s = ''-Infinity'' then NInf True
      else if startsWith lower ''0x'' then ofNat (radixVal 16 (drop 2 s))
      else if startsWith lower ''0o'' then ofNat (radixVal 8 (drop 2 s))
      else if startsWith lower ''0b'' then ofNat (radixVal 2 (drop 2 s))
      else case decimalInt s of Some i \<Rightarrow> NInt i | None \<Rightarrow> NNaN)"

fun toNumber :: "jsval \<Rightarrow> jsnum" where
  "toNumber JUndef = NNaN"
| "toNumber JNull = NInt 0"
| "toNumber (JBool b) = NInt (if b then 1 else 0)"
| "toNumber (JNum n) = n"
| "toNumber (JStr s) = stringToNumber s"
| "toNumber v = stringToNumber (toStr v)"

text \<open>\<^verbatim>\<open>a < b\<close> and \<^verbatim>\<open>a >= b\<close> on numbers: both are false when one side is NaN.\<close>

fun numLess :: "jsnum \<Rightarrow> jsnum \<Rightarrow> bool" where
  "numLess (NInt a) (NInt b) = (a < b)"
| "numLess (NInt a) (NInf neg) = (\<not> neg)"
| "numLess (NInf neg) (NInt b) = neg"
| "numLess (NInf neg) (NInf neg') = (neg \<and> \<not> neg')"
| "numLess _ _ = False"

definition numGeq :: "jsnum \<Rightarrow> jsnum \<Rightarrow> bool" where
  "numGeq a b \<longleftrightarrow> a \<noteq> NNaN \<and> b \<noteq> NNaN \<and> \<not> numLess a b"

end
