(* ===== verification/Peer_Link_Store.thy ===== *)
theory Peer_Link_Store
  imports Js_Number
begin

text \<open>
  The peer-link stores of \<^verbatim>\<open>src/storage/memory/MemoryStorageProvider.js\<close> over \<^verbatim>\<open>MemoryKeyValueStore.js\<close>: links with
  optimistic versions, secure sessions, handshake attempts, an event log read in pages, and key material, all in one
  insertion-ordered key-value store. An operation takes its arguments and the store; it returns its value (or what it
  throws) and the store it leaves. The order of \<^verbatim>\<open>localeCompare\<close> depends on the locale: it is an argument \<open>le\<close> of the
  listings. The values of the store are never null: every write of a record goes through \<^verbatim>\<open>assertRecord\<close>.
\<close>

section \<open>The key-value store\<close>

type_synonym kvstore = "(string \<times> jsval) list"

definition kvSet :: "string \<Rightarrow> jsval \<Rightarrow> kvstore \<Rightarrow> kvstore" where
  "kvSet key v s = AList.update key v s"

definition kvGet :: "string \<Rightarrow> kvstore \<Rightarrow> jsval" where
  "kvGet key s = (case map_of s key of Some v \<Rightarrow> v | None \<Rightarrow> JUndef)"

definition kvDelete :: "string \<Rightarrow> kvstore \<Rightarrow> bool \<times> kvstore" where
  "kvDelete key s = (map_of s key \<noteq> None, AList.delete key s)"

definition kvKeys :: "string \<Rightarrow> kvstore \<Rightarrow> string list" where
  "kvKeys prefix s = filter (\<lambda>key. startsWith key prefix) (map fst s)"

text \<open>A step that may throw leaves the store as it was; otherwise the rest of the operation runs on it.\<close>

definition thenS :: "'a result \<Rightarrow> kvstore \<Rightarrow> ('a \<Rightarrow> 'b result \<times> kvstore) \<Rightarrow> 'b result \<times> kvstore" where
  "thenS r s f = (case r of Inl e \<Rightarrow> (Inl e, s) | Inr x \<Rightarrow> f x)"

lemma thenS_simps [simp]: "thenS (Inl e) s f = (Inl e, s)" "thenS (Inr x) s f = f x"
  by (simp_all add: thenS_def)

lemma thenS_eq_Inr: "thenS r s f = (Inr y, s') \<longleftrightarrow> (\<exists>x. r = Inr x \<and> f x = (Inr y, s'))"
  by (cases r) auto

lemma kvGet_set [simp]: "kvGet k (kvSet k' v s) = (if k = k' then v else kvGet k s)"
  by (simp add: kvGet_def kvSet_def update_conv')

lemma kvGet_delete [simp]: "kvGet k (snd (kvDelete k' s)) = (if k = k' then JUndef else kvGet k s)"
  by (simp add: kvGet_def kvDelete_def delete_conv')

interpretation kv: keyed_store map_of kvSet "\<lambda>k s. snd (kvDelete k s)" map_wf
  by unfold_locales (simp_all add: kvSet_def kvDelete_def js_map.lookup_write js_map.lookup_remove)

section \<open>Values in the store\<close>

text \<open>
  \<^verbatim>\<open>JSON.parse(JSON.stringify(value))\<close>: an undefined property is dropped, an undefined element is null, as are the numbers
  JSON does not have; a byte array becomes an object of its indices.
\<close>

fun jsonClone :: "jsval \<Rightarrow> jsval" where
  "jsonClone (JNum (NInt i)) = JInt i"
| "jsonClone (JNum _) = JNull"
| "jsonClone (JBytes bs) = JObj (map (\<lambda>(i, b). (nat_str i, JInt (uint b))) (enumerate 0 bs))"
| "jsonClone (JArr xs) = JArr (map (\<lambda>x. if x = JUndef then JNull else jsonClone x) xs)"
| "jsonClone (JObj kvs) = JObj (map (\<lambda>p. (fst p, jsonClone (snd p))) (filter (\<lambda>p. snd p \<noteq> JUndef) kvs))"
| "jsonClone v = v"

definition cloneJsonValue :: "jsval \<Rightarrow> jsval" where
  "cloneJsonValue v = (if v = JUndef then JUndef else jsonClone v)"

definition assertNonEmptyString :: "jsval \<Rightarrow> string \<Rightarrow> string result" where
  "assertNonEmptyString v label =
     (let normalized = trim (toStr (if truthy v then v else JStr [])) in
      if normalized = [] then Inl (Error (label @ '' is required'')) else Inr normalized)"

definition assertRecord :: "jsval \<Rightarrow> string \<Rightarrow> unit result" where
  "assertRecord r label =
     (if \<not> truthy r \<or> \<not> typeofObject r \<or> isArray r then Inl (Error (label @ '' must be an object'')) else Inr ())"

definition normalizeVersion :: "jsval \<Rightarrow> int" where
  "normalizeVersion r = (case toNumber (getProp r ''version'') of NInt i \<Rightarrow> if i > 0 then i else 1 | _ \<Rightarrow> 1)"

definition normalizeListOptions :: "jsval \<Rightarrow> nat option \<times> string option" where
  "normalizeListOptions opts =
     (if \<not> truthy opts \<or> \<not> typeofObject opts \<or> isArray opts then (None, None)
      else (case getProp opts ''limit'' of JNum (NInt i) \<Rightarrow> if i > 0 then Some (nat i) else None | _ \<Rightarrow> None,
            case getProp opts ''cursor'' of JStr c \<Rightarrow> if c \<noteq> [] then Some c else None | _ \<Rightarrow> None))"

definition pairKeyFor :: "jsval \<Rightarrow> jsval \<Rightarrow> string result" where
  "pairKeyFor localAccountId peerAccountId =
     bindR (assertNonEmptyString localAccountId ''localAccountId'') (\<lambda>a.
     bindR (assertNonEmptyString peerAccountId ''peerAccountId'') (\<lambda>b. Inr (a @ ''::'' @ b)))"

definition statusText :: "jsval \<Rightarrow> string" where
  "statusText status = map toLowerCase (trim (toStr (if truthy status then status else JStr [])))"

definition isRecoverableStatus :: "jsval \<Rightarrow> bool" where
  "isRecoverableStatus status \<longleftrightarrow> statusText status \<notin> {''closed'', ''revoked'', ''deleted''}"

definition isPendingStatus :: "jsval \<Rightarrow> bool" where
  "isPendingStatus status \<longleftrightarrow> statusText status \<notin> {''completed'', ''failed'', ''revoked'', ''cancelled''}"

text \<open>\<^verbatim>\<open>record.key = value\<close> on an object: an existing property keeps its place.\<close>

fun assignProp :: "jsval \<Rightarrow> string \<Rightarrow> jsval \<Rightarrow> jsval" where
  "assignProp (JObj kvs) k v = JObj (AList.update k v kvs)"
| "assignProp r k v = r"

text \<open>\<^verbatim>\<open>Number(expectedVersion)\<close>, a positive integer\<close>

definition positiveVersion :: "jsval \<Rightarrow> int result" where
  "positiveVersion v =
     (case toNumber v of NInt i \<Rightarrow> if i < 1 then Inl (Error ''expectedVersion must be a positive integer'') else Inr i
      | _ \<Rightarrow> Inl (Error ''expectedVersion must be a positive integer''))"

text \<open>\<^verbatim>\<open>`${prefix}${owner}::${id}`\<close> of two trimmed, non-empty texts\<close>

definition ownedKey :: "string \<Rightarrow> jsval \<Rightarrow> jsval \<Rightarrow> string \<Rightarrow> string result" where
  "ownedKey prefix owner i label =
     bindR (assertNonEmptyString owner ''ownerAccountId'') (\<lambda>o1.
     bindR (assertNonEmptyString i label) (\<lambda>i1. Inr (prefix @ o1 @ ''::'' @ i1)))"

text \<open>\<^verbatim>\<open>out.sort((l, r) => String(l.key || "").localeCompare(...))\<close>: stable, by the text of a property.\<close>

fun insertBy :: "(string \<Rightarrow> string \<Rightarrow> bool) \<Rightarrow> ('a \<Rightarrow> string) \<Rightarrow> 'a \<Rightarrow> 'a list \<Rightarrow> 'a list" where
  "insertBy le f x [] = [x]"
| "insertBy le f x (y # ys) = (if le (f x) (f y) then x # y # ys else y # insertBy le f x ys)"

definition sortByText :: "(string \<Rightarrow> string \<Rightarrow> bool) \<Rightarrow> string \<Rightarrow> jsval list \<Rightarrow> jsval list" where
  "sortByText le k xs = foldr (insertBy le (\<lambda>r. let v = getProp r k in toStr (if truthy v then v else JStr []))) xs []"

text \<open>The scan of a listing: the records under a prefix that pass, copied.\<close>

definition scanRecords :: "string \<Rightarrow> (jsval \<Rightarrow> bool) \<Rightarrow> kvstore \<Rightarrow> jsval list" where
  "scanRecords prefix P s =
     map cloneJsonValue (filter (\<lambda>r. truthy r \<and> typeofObject r \<and> P r) (map (\<lambda>key. kvGet key s) (kvKeys prefix s)))"

section \<open>Peer links\<close>

definition PEER_LINK_PREFIX :: string where "PEER_LINK_PREFIX = ''peer-link:records:''"
definition PEER_PAIR_PREFIX :: string where "PEER_PAIR_PREFIX = ''peer-link:pairs:''"

definition peerLinks_recordKey :: "jsval \<Rightarrow> jsval \<Rightarrow> string result" where
  "peerLinks_recordKey owner peerLinkId = ownedKey PEER_LINK_PREFIX owner peerLinkId ''peerLinkId''"

definition peerLinks_pairKey :: "jsval \<Rightarrow> jsval \<Rightarrow> string result" where
  "peerLinks_pairKey owner peer = bindR (pairKeyFor owner peer) (\<lambda>k. Inr (PEER_PAIR_PREFIX @ k))"

definition peerLinks_getById :: "jsval \<Rightarrow> jsval \<Rightarrow> kvstore \<Rightarrow> jsval result" where
  "peerLinks_getById owner peerLinkId s = bindR (peerLinks_recordKey owner peerLinkId) (\<lambda>key. Inr (cloneJsonValue (kvGet key s)))"

definition peerLinks_getByPair :: "jsval \<Rightarrow> jsval \<Rightarrow> kvstore \<Rightarrow> jsval result" where
  "peerLinks_getByPair owner peer s =
     bindR (peerLinks_pairKey owner peer) (\<lambda>key.
       let peerLinkId = kvGet key s in
       if \<not> isString peerLinkId \<or> \<not> truthy peerLinkId then Inr JUndef else peerLinks_getById owner peerLinkId s)"

text \<open>The three identifiers every link record must carry.\<close>

definition peerLinks_ids :: "jsval \<Rightarrow> (string \<times> string \<times> string) result" where
  "peerLinks_ids r =
     bindR (assertRecord r ''peerLinkRecord'') (\<lambda>_.
     bindR (assertNonEmptyString (getProp r ''peerLinkId'') ''peerLinkId'') (\<lambda>i.
     bindR (assertNonEmptyString (getProp r ''localAccountId'') ''localAccountId'') (\<lambda>l.
     bindR (assertNonEmptyString (getProp r ''peerAccountId'') ''peerAccountId'') (\<lambda>p. Inr (i, l, p)))))"

definition peerLinks_create :: "jsval \<Rightarrow> kvstore \<Rightarrow> jsval result \<times> kvstore" where
  "peerLinks_create r s =
     thenS (peerLinks_ids r) s (\<lambda>(i, l, p).
     thenS (peerLinks_recordKey (JStr l) (JStr i)) s (\<lambda>key.
       if kvGet key s \<noteq> JUndef then (Inl (Error (''Peer link already exists for '' @ i)), s)
       else thenS (peerLinks_pairKey (JStr l) (JStr p)) s (\<lambda>pairIndexKey.
         let indexed = kvGet pairIndexKey s in
         if isString indexed \<and> truthy indexed \<and> indexed \<noteq> JStr i
         then thenS (pairKeyFor (JStr l) (JStr p)) s (\<lambda>k. (Inl (Error (''Peer link already exists for pair '' @ k)), s))
         else let nextRecord = assignProp (cloneJsonValue r) ''version'' (JInt (normalizeVersion r)) in
           (Inr (cloneJsonValue nextRecord), kvSet pairIndexKey (JStr i) (kvSet key nextRecord s)))))"

text \<open>
  \<^verbatim>\<open>update\<close> in the two parts that the event loop can interleave: up to the answer of the store's \<^verbatim>\<open>get\<close> (the record it
  read), and from there to its writes.
\<close>

definition peerLinks_updateRead :: "jsval \<Rightarrow> kvstore \<Rightarrow> jsval result" where
  "peerLinks_updateRead r s =
     bindR (peerLinks_ids r) (\<lambda>(i, l, p).
     bindR (peerLinks_recordKey (JStr l) (JStr i)) (\<lambda>key. Inr (kvGet key s)))"

definition peerLinks_updateWrite :: "jsval \<Rightarrow> jsval \<Rightarrow> jsval \<Rightarrow> kvstore \<Rightarrow> jsval result \<times> kvstore" where
  "peerLinks_updateWrite r expectedVersion current s =
     thenS (peerLinks_ids r) s (\<lambda>(i, l, p).
       if current = JUndef then (Inl (Error (''Peer link not found for '' @ i)), s)
       else thenS (positiveVersion expectedVersion) s (\<lambda>expected.
         let currentVersion = normalizeVersion current in
         if currentVersion \<noteq> expected then (Inl (Error (''Peer link version mismatch for '' @ i)), s)
         else if getProp current ''localAccountId'' \<noteq> JStr l then (Inl (Error ''Peer link owner cannot change''), s)
         else thenS (pairKeyFor (getProp current ''localAccountId'') (getProp current ''peerAccountId'')) s (\<lambda>currentPair.
           thenS (pairKeyFor (JStr l) (JStr p)) s (\<lambda>nextPair.
             if currentPair \<noteq> nextPair then (Inl (Error ''Peer link account pair cannot change''), s)
             else let nextRecord = assignProp (cloneJsonValue r) ''version'' (JInt (currentVersion + 1)) in
               thenS (peerLinks_recordKey (JStr l) (JStr i)) s (\<lambda>key.
               thenS (peerLinks_pairKey (JStr l) (JStr p)) s (\<lambda>pairIndexKey.
                 (Inr (cloneJsonValue nextRecord), kvSet pairIndexKey (JStr i) (kvSet key nextRecord s))))))))"

definition peerLinks_update :: "jsval \<Rightarrow> jsval \<Rightarrow> kvstore \<Rightarrow> jsval result \<times> kvstore" where
  "peerLinks_update r expectedVersion s =
     thenS (peerLinks_updateRead r s) s (\<lambda>current. peerLinks_updateWrite r expectedVersion current s)"

definition peerLinks_listByOwner :: "(string \<Rightarrow> string \<Rightarrow> bool) \<Rightarrow> jsval \<Rightarrow> kvstore \<Rightarrow> jsval list result" where
  "peerLinks_listByOwner le owner s =
     bindR (assertNonEmptyString owner ''ownerAccountId'') (\<lambda>o1.
       Inr (sortByText le ''peerLinkId'' (scanRecords PEER_LINK_PREFIX (\<lambda>r. getProp r ''localAccountId'' = JStr o1) s)))"

section \<open>Secure sessions\<close>

definition SESSION_RECORD_PREFIX :: string where "SESSION_RECORD_PREFIX = ''peer-link:sessions:''"
definition SESSION_INDEX_PREFIX :: string where "SESSION_INDEX_PREFIX = ''peer-link:sessions:by-peer-link:''"

definition sessions_recordKey :: "jsval \<Rightarrow> jsval \<Rightarrow> string result" where
  "sessions_recordKey owner sessionId = ownedKey SESSION_RECORD_PREFIX owner sessionId ''sessionId''"

definition sessions_indexKey :: "jsval \<Rightarrow> jsval \<Rightarrow> string result" where
  "sessions_indexKey owner peerLinkId = ownedKey SESSION_INDEX_PREFIX owner peerLinkId ''peerLinkId''"

definition sessions_getById :: "jsval \<Rightarrow> jsval \<Rightarrow> kvstore \<Rightarrow> jsval result" where
  "sessions_getById owner sessionId s = bindR (sessions_recordKey owner sessionId) (\<lambda>key. Inr (cloneJsonValue (kvGet key s)))"

definition sessions_getByPeerLinkId :: "jsval \<Rightarrow> jsval \<Rightarrow> kvstore \<Rightarrow> jsval result" where
  "sessions_getByPeerLinkId owner peerLinkId s =
     bindR (sessions_indexKey owner peerLinkId) (\<lambda>key.
       let sessionId = kvGet key s in
       if \<not> isString sessionId \<or> \<not> truthy sessionId then Inr JUndef else sessions_getById owner sessionId s)"

definition sessions_put :: "jsval \<Rightarrow> kvstore \<Rightarrow> jsval result \<times> kvstore" where
  "sessions_put r s =
     thenS (bindR (assertRecord r ''secureSessionRecord'') (\<lambda>_.
       bindR (assertNonEmptyString (getProp r ''sessionId'') ''sessionId'') (\<lambda>i.
       bindR (assertNonEmptyString (getProp r ''localAccountId'') ''localAccountId'') (\<lambda>owner.
       bindR (assertNonEmptyString (getProp r ''peerLinkId'') ''peerLinkId'') (\<lambda>link. Inr (i, owner, link)))))) s (\<lambda>(i, owner, link).
     thenS (sessions_recordKey (JStr owner) (JStr i)) s (\<lambda>key.
       let existing = kvGet key s;
           version = (if truthy existing \<and> typeofObject existing then normalizeVersion existing + 1 else normalizeVersion r);
           nextRecord = assignProp (cloneJsonValue r) ''version'' (JInt version)
       in thenS (sessions_indexKey (JStr owner) (JStr link)) s (\<lambda>indexKey.
            (Inr (cloneJsonValue nextRecord), kvSet indexKey (JStr i) (kvSet key nextRecord s)))))"

definition sessions_delete :: "jsval \<Rightarrow> jsval \<Rightarrow> kvstore \<Rightarrow> bool result \<times> kvstore" where
  "sessions_delete ownerAccountId sessionId s =
     thenS (bindR (assertNonEmptyString ownerAccountId ''ownerAccountId'') (\<lambda>owner.
       bindR (assertNonEmptyString sessionId ''sessionId'') (\<lambda>i. Inr (owner, i)))) s (\<lambda>(owner, i).
     thenS (sessions_recordKey (JStr owner) (JStr i)) s (\<lambda>key.
       let existing = kvGet key s; (removed, s1) = kvDelete key s; link = getProp existing ''peerLinkId'' in
       if \<not> removed then (Inr False, s1)
       else if truthy existing \<and> typeofObject existing \<and> isString link \<and> truthy link
       then thenS (sessions_indexKey (JStr owner) link) s1 (\<lambda>indexKey.
         (Inr True, if kvGet indexKey s1 = JStr i then snd (kvDelete indexKey s1) else s1))
       else (Inr True, s1)))"

definition sessions_listRecoverable :: "(string \<Rightarrow> string \<Rightarrow> bool) \<Rightarrow> jsval \<Rightarrow> kvstore \<Rightarrow> jsval list result" where
  "sessions_listRecoverable le ownerAccountId s =
     bindR (assertNonEmptyString ownerAccountId ''ownerAccountId'') (\<lambda>o1.
       Inr (sortByText le ''sessionId'' (scanRecords SESSION_RECORD_PREFIX
         (\<lambda>r. (let l = getProp r ''localAccountId'' in if isString l \<and> truthy l then l else getProp r ''ownerAccountId'') = JStr o1
              \<and> isRecoverableStatus (getProp r ''status'')) s)))"

section \<open>Handshake attempts\<close>

definition HANDSHAKE_PREFIX :: string where "HANDSHAKE_PREFIX = ''peer-link:handshakes:''"

definition handshakes_recordKey :: "jsval \<Rightarrow> jsval \<Rightarrow> string result" where
  "handshakes_recordKey owner i = ownedKey HANDSHAKE_PREFIX owner i ''handshakeAttemptId''"

definition handshakes_getById :: "jsval \<Rightarrow> jsval \<Rightarrow> kvstore \<Rightarrow> jsval result" where
  "handshakes_getById owner i s = bindR (handshakes_recordKey owner i) (\<lambda>key. Inr (cloneJsonValue (kvGet key s)))"

definition handshakes_ids :: "jsval \<Rightarrow> (string \<times> string) result" where
  "handshakes_ids r =
     bindR (assertRecord r ''handshakeAttemptRecord'') (\<lambda>_.
     bindR (assertNonEmptyString (getProp r ''handshakeAttemptId'') ''handshakeAttemptId'') (\<lambda>i.
     bindR (assertNonEmptyString (getProp r ''ownerAccountId'') ''ownerAccountId'') (\<lambda>owner. Inr (i, owner))))"

definition handshakes_create :: "jsval \<Rightarrow> kvstore \<Rightarrow> jsval result \<times> kvstore" where
  "handshakes_create r s =
     thenS (handshakes_ids r) s (\<lambda>(i, owner).
     thenS (handshakes_recordKey (JStr owner) (JStr i)) s (\<lambda>key.
       if kvGet key s \<noteq> JUndef then (Inl (Error (''Handshake attempt already exists for '' @ i)), s)
       else let nextRecord = assignProp (cloneJsonValue r) ''version'' (JInt (normalizeVersion r)) in
         (Inr (cloneJsonValue nextRecord), kvSet key nextRecord s)))"

definition handshakes_update :: "jsval \<Rightarrow> jsval \<Rightarrow> kvstore \<Rightarrow> jsval result \<times> kvstore" where
  "handshakes_update r expectedVersion s =
     thenS (handshakes_ids r) s (\<lambda>(i, owner).
     thenS (handshakes_recordKey (JStr owner) (JStr i)) s (\<lambda>key.
       let current = kvGet key s in
       if current = JUndef then (Inl (Error (''Handshake attempt not found for '' @ i)), s)
       else thenS (positiveVersion expectedVersion) s (\<lambda>expected.
         let currentVersion = normalizeVersion current in
         if currentVersion \<noteq> expected then (Inl (Error (''Handshake attempt version mismatch for '' @ i)), s)
         else let nextRecord = assignProp (cloneJsonValue r) ''version'' (JInt (currentVersion + 1)) in
           (Inr (cloneJsonValue nextRecord), kvSet key nextRecord s))))"

definition handshakes_listByPeerLinkId :: "(string \<Rightarrow> string \<Rightarrow> bool) \<Rightarrow> jsval \<Rightarrow> jsval \<Rightarrow> kvstore \<Rightarrow> jsval list result" where
  "handshakes_listByPeerLinkId le ownerAccountId peerLinkId s =
     bindR (assertNonEmptyString ownerAccountId ''ownerAccountId'') (\<lambda>o1.
     bindR (assertNonEmptyString peerLinkId ''peerLinkId'') (\<lambda>link.
       Inr (sortByText le ''handshakeAttemptId'' (scanRecords HANDSHAKE_PREFIX
         (\<lambda>r. getProp r ''ownerAccountId'' = JStr o1 \<and> getProp r ''peerLinkId'' = JStr link) s))))"

definition handshakes_listPending :: "(string \<Rightarrow> string \<Rightarrow> bool) \<Rightarrow> jsval \<Rightarrow> kvstore \<Rightarrow> jsval list result" where
  "handshakes_listPending le ownerAccountId s =
     bindR (assertNonEmptyString ownerAccountId ''ownerAccountId'') (\<lambda>o1.
       Inr (sortByText le ''handshakeAttemptId'' (scanRecords HANDSHAKE_PREFIX
         (\<lambda>r. (let ow = getProp r ''ownerAccountId'' in if isString ow \<and> truthy ow then ow else getProp r ''localAccountId'') = JStr o1
              \<and> isPendingStatus (getProp r ''status'')) s)))"

section \<open>The event log\<close>

definition EVENT_RECORD_PREFIX :: string where "EVENT_RECORD_PREFIX = ''peer-link:events:''"
definition EVENT_INDEX_PREFIX :: string where "EVENT_INDEX_PREFIX = ''peer-link:events:index:''"

definition events_recordKey :: "jsval \<Rightarrow> jsval \<Rightarrow> string result" where
  "events_recordKey owner eventId = ownedKey EVENT_RECORD_PREFIX owner eventId ''eventId''"

definition events_indexKey :: "jsval \<Rightarrow> jsval \<Rightarrow> string result" where
  "events_indexKey owner peerLinkId = ownedKey EVENT_INDEX_PREFIX owner peerLinkId ''peerLinkId''"

fun arrayItems :: "jsval \<Rightarrow> jsval list" where
  "arrayItems (JArr xs) = xs"
| "arrayItems _ = []"

definition events_append :: "jsval \<Rightarrow> kvstore \<Rightarrow> jsval result \<times> kvstore" where
  "events_append r s =
     thenS (bindR (assertRecord r ''peerLinkEventRecord'') (\<lambda>_.
       bindR (assertNonEmptyString (getProp r ''ownerAccountId'') ''ownerAccountId'') (\<lambda>owner.
       bindR (assertNonEmptyString (getProp r ''eventId'') ''eventId'') (\<lambda>i.
       bindR (assertNonEmptyString (getProp r ''peerLinkId'') ''peerLinkId'') (\<lambda>link. Inr (owner, i, link)))))) s (\<lambda>(owner, i, link).
     thenS (events_recordKey (JStr owner) (JStr i)) s (\<lambda>recordKey.
       let existing = kvGet recordKey s in
       if existing \<noteq> JUndef
       then (if truthy existing \<and> typeofObject existing \<and> getProp existing ''peerLinkId'' = JStr link
             then (Inr (cloneJsonValue existing), s)
             else (Inl (Error (''Peer link event already exists for '' @ i)), s))
       else let nextRecord = cloneJsonValue r; s1 = kvSet recordKey nextRecord s in
         thenS (events_indexKey (JStr owner) (JStr link)) s1 (\<lambda>indexKey.
           (Inr (cloneJsonValue nextRecord), kvSet indexKey (JArr (arrayItems (kvGet indexKey s1) @ [JStr i])) s1))))"

fun positionOf :: "jsval \<Rightarrow> jsval list \<Rightarrow> nat option" where
  "positionOf v [] = None"
| "positionOf v (x # xs) = (if x = v then Some 0 else map_option Suc (positionOf v xs))"

record EventPage =
  pg_items :: "jsval list"
  pg_nextCursor :: "string option"

definition pageStart :: "string option \<Rightarrow> jsval list \<Rightarrow> nat" where
  "pageStart cursor ids =
     (case cursor of None \<Rightarrow> 0 | Some c \<Rightarrow> (case positionOf (JStr c) ids of Some i \<Rightarrow> i + 1 | None \<Rightarrow> 0))"

definition nextCursorOf :: "jsval list \<Rightarrow> string" where
  "nextCursorOf items = (let v = getProp (last items) ''eventId'' in toStr (if truthy v then v else JStr []))"

definition events_listByPeerLinkId :: "jsval \<Rightarrow> jsval \<Rightarrow> jsval \<Rightarrow> kvstore \<Rightarrow> EventPage result" where
  "events_listByPeerLinkId ownerAccountId peerLinkId opts s =
     bindR (assertNonEmptyString ownerAccountId ''ownerAccountId'') (\<lambda>owner.
     bindR (assertNonEmptyString peerLinkId ''peerLinkId'') (\<lambda>link.
     bindR (events_indexKey (JStr owner) (JStr link)) (\<lambda>indexKey.
       let (limit, cursor) = normalizeListOptions opts; ids = arrayItems (kvGet indexKey s); start = pageStart cursor ids;
           windowIds = (case limit of Some n \<Rightarrow> take n (drop start ids) | None \<Rightarrow> drop start ids)
       in bindR (mapR (\<lambda>i. bindR (events_recordKey (JStr owner) i) (\<lambda>key. Inr (kvGet key s))) windowIds) (\<lambda>found.
         let items = map cloneJsonValue (filter (\<lambda>r. r \<noteq> JUndef) found) in
         Inr \<lparr>pg_items = items,
              pg_nextCursor = (case limit of
                Some n \<Rightarrow> if start + n < length ids \<and> items \<noteq> [] then Some (nextCursorOf items) else None
              | None \<Rightarrow> None)\<rparr>))))"

section \<open>Key material\<close>

definition IDENTITY_PREFIX :: string where "IDENTITY_PREFIX = ''peer-link:keys:identity:''"
definition INVITE_PREKEY_PREFIX :: string where "INVITE_PREKEY_PREFIX = ''peer-link:keys:invite:''"

definition keys_identityKey :: "jsval \<Rightarrow> string result" where
  "keys_identityKey accountId = bindR (assertNonEmptyString accountId ''accountId'') (\<lambda>a. Inr (IDENTITY_PREFIX @ a))"

definition keys_invitePreKey :: "jsval \<Rightarrow> jsval \<Rightarrow> string result" where
  "keys_invitePreKey owner inviteId = ownedKey INVITE_PREKEY_PREFIX owner inviteId ''inviteId''"

definition getMaterial :: "string result \<Rightarrow> kvstore \<Rightarrow> jsval result" where
  "getMaterial key s = bindR key (\<lambda>k. Inr (cloneJsonValue (kvGet k s)))"

definition putMaterial :: "string result \<Rightarrow> jsval \<Rightarrow> kvstore \<Rightarrow> jsval result \<times> kvstore" where
  "putMaterial key material s =
     (if material = JUndef then (Inl (Error ''material is required''), s)
      else thenS key s (\<lambda>k. let nextMaterial = cloneJsonValue material in (Inr (cloneJsonValue nextMaterial), kvSet k nextMaterial s)))"

definition keys_getAccountIdentity :: "jsval \<Rightarrow> kvstore \<Rightarrow> jsval result" where
  "keys_getAccountIdentity accountId = getMaterial (keys_identityKey accountId)"

definition keys_putAccountIdentity :: "jsval \<Rightarrow> jsval \<Rightarrow> kvstore \<Rightarrow> jsval result \<times> kvstore" where
  "keys_putAccountIdentity accountId = putMaterial (keys_identityKey accountId)"

definition keys_getInvitePreKey :: "jsval \<Rightarrow> jsval \<Rightarrow> kvstore \<Rightarrow> jsval result" where
  "keys_getInvitePreKey owner inviteId = getMaterial (keys_invitePreKey owner inviteId)"

definition keys_putInvitePreKey :: "jsval \<Rightarrow> jsval \<Rightarrow> jsval \<Rightarrow> kvstore \<Rightarrow> jsval result \<times> kvstore" where
  "keys_putInvitePreKey owner inviteId = putMaterial (keys_invitePreKey owner inviteId)"

definition keys_deleteInvitePreKey :: "jsval \<Rightarrow> jsval \<Rightarrow> kvstore \<Rightarrow> bool result \<times> kvstore" where
  "keys_deleteInvitePreKey owner inviteId s =
     thenS (keys_invitePreKey owner inviteId) s (\<lambda>k. let (removed, s1) = kvDelete k s in (Inr removed, s1))"

section \<open>Laws of the parts\<close>

definition plain_id :: "string \<Rightarrow> bool" where
  "plain_id t \<longleftrightarrow> t \<noteq> [] \<and> trim t = t"

lemma assertNonEmptyString_plain: "plain_id t \<Longrightarrow> assertNonEmptyString (JStr t) label = Inr t"
  by (simp add: plain_id_def assertNonEmptyString_def)

lemma assertNonEmptyString_Inr: "assertNonEmptyString v label = Inr t \<Longrightarrow> plain_id t"
  by (auto simp: plain_id_def assertNonEmptyString_def Let_def split: if_splits)

lemma ownedKey_clean: "plain_id a \<Longrightarrow> plain_id b \<Longrightarrow> ownedKey prefix (JStr a) (JStr b) label = Inr (prefix @ a @ ''::'' @ b)"
  by (simp add: ownedKey_def assertNonEmptyString_plain)

lemma pairKeyFor_clean: "plain_id a \<Longrightarrow> plain_id b \<Longrightarrow> pairKeyFor (JStr a) (JStr b) = Inr (a @ ''::'' @ b)"
  by (simp add: pairKeyFor_def assertNonEmptyString_plain)

lemma getProp_assignProp: "getProp (assignProp (JObj kvs) k v) k' = (if k = k' then v else getProp (JObj kvs) k')"
  by (simp add: update_conv')

lemma map_of_clone:
  "map_of kvs k = Some v \<Longrightarrow> v \<noteq> JUndef
   \<Longrightarrow> map_of (map (\<lambda>p. (fst p, jsonClone (snd p))) (filter (\<lambda>p. snd p \<noteq> JUndef) kvs)) k = Some (jsonClone v)"
  by (induction kvs) (auto split: if_splits)

lemma getProp_clone: "getProp r k \<noteq> JUndef \<Longrightarrow> getProp (cloneJsonValue r) k = jsonClone (getProp r k)"
  by (cases r) (auto simp: cloneJsonValue_def map_of_clone split: option.splits)

lemma clone_object: "\<exists>kvs'. cloneJsonValue (JObj kvs) = JObj kvs'"
  by (simp add: cloneJsonValue_def)

lemma normalizeVersion_set: "0 < n \<Longrightarrow> normalizeVersion (assignProp (cloneJsonValue (JObj kvs)) ''version'' (JInt n)) = n"
  using clone_object [of kvs] by (auto simp: normalizeVersion_def getProp_assignProp simp del: assignProp.simps)

lemma jsonClone_undef: "jsonClone v = JUndef \<longleftrightarrow> v = JUndef"
  by (cases v rule: jsonClone.cases) auto

lemma nat_str_val: "nat_str m = nat_str n \<longleftrightarrow> m = n"
  using nat_str_inj by blast

lemma jsonClone_idem: "jsonClone (jsonClone v) = jsonClone v"
proof (induction v rule: jsonClone.induct)
  case (3 bs)
  then show ?case by (simp add: filter_True split_beta comp_def)
next
  case (4 xs)
  then show ?case by (auto simp: jsonClone_undef)
next
  case (5 kvs)
  then show ?case by (auto simp: jsonClone_undef filter_map comp_def)
qed auto

lemma cloneJsonValue_idem [simp]: "cloneJsonValue (cloneJsonValue v) = cloneJsonValue v"
  by (simp add: cloneJsonValue_def jsonClone_idem jsonClone_undef)

lemma normalizeVersion_pos: "0 < normalizeVersion r"
  by (auto simp: normalizeVersion_def split: jsnum.splits)

lemma keys_apart [simp]:
  "PEER_LINK_PREFIX @ x \<noteq> PEER_PAIR_PREFIX @ y" "PEER_PAIR_PREFIX @ y \<noteq> PEER_LINK_PREFIX @ x"
  by (simp_all add: PEER_LINK_PREFIX_def PEER_PAIR_PREFIX_def)

section \<open>Optimistic updates\<close>

lemma peerLinks_ids_object:
  assumes "peerLinks_ids r = Inr (i, l, p)"
  shows "plain_id i" "plain_id l" "plain_id p" "\<exists>kvs. r = JObj kvs"
proof -
  show "plain_id i" "plain_id l" "plain_id p"
    using assms assertNonEmptyString_Inr by (auto simp: peerLinks_ids_def result_simps)
  have "getProp r ''peerLinkId'' \<noteq> JUndef"
    using assms by (auto simp: peerLinks_ids_def result_simps assertNonEmptyString_def trim_def)
  then show "\<exists>kvs. r = JObj kvs" by (cases r) auto
qed

lemma updateRead_ids:
  "peerLinks_ids r = Inr (i, l, p) \<Longrightarrow> peerLinks_updateRead r s = Inr (kvGet (PEER_LINK_PREFIX @ l @ ''::'' @ i) s)"
  using peerLinks_ids_object [of r i l p]
  by (simp add: peerLinks_updateRead_def peerLinks_recordKey_def ownedKey_clean)

text \<open>What the second half of an update needs of the record it was given, and what it writes.\<close>

definition updatable :: "jsval \<Rightarrow> string \<Rightarrow> string \<Rightarrow> jsval \<Rightarrow> bool" where
  "updatable current l p v \<longleftrightarrow> current \<noteq> JUndef \<and> positiveVersion v = Inr (normalizeVersion current)
     \<and> getProp current ''localAccountId'' = JStr l \<and> pairKeyFor (JStr l) (getProp current ''peerAccountId'') = Inr (l @ ''::'' @ p)"

definition bumped :: "jsval \<Rightarrow> jsval \<Rightarrow> jsval" where
  "bumped r current = assignProp (cloneJsonValue r) ''version'' (JInt (normalizeVersion current + 1))"

lemma updateWrite_ok:
  assumes "peerLinks_ids r = Inr (i, l, p)" "updatable current l p v"
  shows "peerLinks_updateWrite r v current s = (Inr (cloneJsonValue (bumped r current)),
     kvSet (PEER_PAIR_PREFIX @ l @ ''::'' @ p) (JStr i) (kvSet (PEER_LINK_PREFIX @ l @ ''::'' @ i) (bumped r current) s))"
  using assms peerLinks_ids_object [OF assms(1)]
  by (simp add: Let_def peerLinks_updateWrite_def updatable_def bumped_def pairKeyFor_clean peerLinks_recordKey_def peerLinks_pairKey_def
      ownedKey_clean)

lemma updateWrite_refused:
  assumes "peerLinks_ids r = Inr (i, l, p)" "\<not> updatable current l p v"
  shows "\<exists>e. peerLinks_updateWrite r v current s = (Inl e, s)"
  using assms peerLinks_ids_object [OF assms(1)]
  by (auto simp: peerLinks_updateWrite_def updatable_def pairKeyFor_clean thenS_def Let_def split: sum.splits)

lemma update_by_ids:
  "peerLinks_ids r = Inr (i, l, p)
   \<Longrightarrow> peerLinks_update r v s = peerLinks_updateWrite r v (kvGet (PEER_LINK_PREFIX @ l @ ''::'' @ i) s) s"
  by (simp add: peerLinks_update_def updateRead_ids)

lemma bumped_version: "peerLinks_ids r = Inr (i, l, p) \<Longrightarrow> normalizeVersion (bumped r current) = normalizeVersion current + 1"
  using peerLinks_ids_object(4) normalizeVersion_set normalizeVersion_pos
  by (metis add_pos_pos bumped_def zero_less_one)

lemma bumped_present: "peerLinks_ids r = Inr (i, l, p) \<Longrightarrow> bumped r current \<noteq> JUndef"
  using peerLinks_ids_object(4) [of r i l p] clone_object by (auto simp: bumped_def cloneJsonValue_def)

lemma bumped_copy_version: "peerLinks_ids r = Inr (i, l, p) \<Longrightarrow> normalizeVersion (cloneJsonValue (bumped r current)) = normalizeVersion current + 1"
proof -
  assume r: "peerLinks_ids r = Inr (i, l, p)"
  obtain kvs where "r = JObj kvs" using peerLinks_ids_object(4) [OF r] by blast
  then have "getProp (bumped r current) ''version'' = JInt (normalizeVersion current + 1)"
    using clone_object [of kvs] by (auto simp: bumped_def getProp_assignProp simp del: assignProp.simps)
  then show ?thesis
    using normalizeVersion_pos [of current] by (simp add: normalizeVersion_def getProp_clone del: getProp.simps)
qed

lemma update_success:
  assumes "peerLinks_ids r = Inr (i, l, p)" "peerLinks_update r v s = (Inr out, s1)"
  defines "current \<equiv> kvGet (PEER_LINK_PREFIX @ l @ ''::'' @ i) s"
  shows "updatable current l p v" "out = cloneJsonValue (bumped r current)"
    "s1 = kvSet (PEER_PAIR_PREFIX @ l @ ''::'' @ p) (JStr i) (kvSet (PEER_LINK_PREFIX @ l @ ''::'' @ i) (bumped r current) s)"
proof -
  have w: "peerLinks_updateWrite r v current s = (Inr out, s1)"
    using assms(2) update_by_ids [OF assms(1)] by (simp add: current_def)
  then show u: "updatable current l p v"
    using updateWrite_refused [OF assms(1), of current v s] by fastforce
  from w updateWrite_ok [OF assms(1) u]
  show "out = cloneJsonValue (bumped r current)"
    and "s1 = kvSet (PEER_PAIR_PREFIX @ l @ ''::'' @ p) (JStr i) (kvSet (PEER_LINK_PREFIX @ l @ ''::'' @ i) (bumped r current) s)"
    by auto
qed

text \<open>C8: Compare and set. When an update of a link with expected version \<open>v\<close> returns, \<open>v\<close> was the stored version, the copy
  returned has the next one, the link reads back as that copy by its identifier and by its pair, no other key
  of the store has changed, and a later update of the same link with the same \<open>v\<close> is refused and changes nothing.
\<close>

theorem peer_link_compare_and_set:
  assumes "peerLinks_ids r1 = Inr (i, l, p)" and "peerLinks_ids r2 = Inr (i, l, p2)"
    and "peerLinks_update r1 v s = (Inr out, s1)"
  shows "positiveVersion v = Inr (normalizeVersion (kvGet (PEER_LINK_PREFIX @ l @ ''::'' @ i) s))
    \<and> normalizeVersion out = normalizeVersion (kvGet (PEER_LINK_PREFIX @ l @ ''::'' @ i) s) + 1
    \<and> peerLinks_getById (JStr l) (JStr i) s1 = Inr out \<and> peerLinks_getByPair (JStr l) (JStr p) s1 = Inr out
    \<and> (\<forall>k. k \<noteq> PEER_LINK_PREFIX @ l @ ''::'' @ i \<and> k \<noteq> PEER_PAIR_PREFIX @ l @ ''::'' @ p \<longrightarrow> kvGet k s1 = kvGet k s)
    \<and> peerLinks_update r2 v s1 = (Inl (Error (''Peer link version mismatch for '' @ i)), s1)"
proof -
  let ?key = "PEER_LINK_PREFIX @ l @ ''::'' @ i"
  let ?cur = "kvGet ?key s"
  note u = update_success [OF assms(1, 3)]
  note c = peerLinks_ids_object(1-3) [OF assms(1)]
  have at: "kvGet ?key s1 = bumped r1 ?cur" by (simp add: u(3) del: append.simps)
  have byId: "peerLinks_getById (JStr l) (JStr i) s1 = Inr out"
    using c at by (simp add: peerLinks_getById_def peerLinks_recordKey_def ownedKey_clean u(2))
  have pair: "kvGet (PEER_PAIR_PREFIX @ l @ ''::'' @ p) s1 = JStr i" by (simp add: u(3) del: append.simps)
  have byPair: "peerLinks_getByPair (JStr l) (JStr p) s1 = Inr out"
    using c pair byId by (simp add: peerLinks_getByPair_def peerLinks_pairKey_def pairKeyFor_clean Let_def plain_id_def)
  have "peerLinks_update r2 v s1 = (Inl (Error (''Peer link version mismatch for '' @ i)), s1)"
    using u(1) at bumped_present [OF assms(1), of ?cur]
    by (simp add: update_by_ids [OF assms(2)] peerLinks_updateWrite_def assms(2) updatable_def bumped_version [OF assms(1)] Let_def)
  with u(1) byId byPair bumped_copy_version [OF assms(1), of ?cur] u(2) show ?thesis
    by (simp add: updatable_def u(3) del: append.simps)
qed

definition demo_link :: "string \<Rightarrow> jsval" where
  "demo_link title = JObj [(''peerLinkId'', JStr ''pl1''), (''localAccountId'', JStr ''alice''), (''peerAccountId'', JStr ''bob''), (''title'', JStr title)]"

definition demo_links :: kvstore where
  "demo_links = snd (peerLinks_create (demo_link ''first'') [])"

lemma demo_link_ids: "peerLinks_ids (demo_link t) = Inr (''pl1'', ''alice'', ''bob'')"
  by (simp add: peerLinks_ids_def demo_link_def assertRecord_def assertNonEmptyString_def trim_def isSpace_def)

lemma demo_update: "peerLinks_update (demo_link ''a'') (JInt 1) demo_links = (Inr (bumped (demo_link ''a'') (demo_link [])),
   snd (peerLinks_update (demo_link ''a'') (JInt 1) demo_links))"
  "peerLinks_update (demo_link ''b'') (JInt 1) demo_links = (Inr (bumped (demo_link ''b'') (demo_link [])),
   snd (peerLinks_update (demo_link ''b'') (JInt 1) demo_links))"
  by code_simp+

theorem peer_link_compare_and_set_witness:
  "peerLinks_update (demo_link ''b'') (JInt 1) (snd (peerLinks_update (demo_link ''a'') (JInt 1) demo_links))
   = (Inl (Error ''Peer link version mismatch for pl1''), snd (peerLinks_update (demo_link ''a'') (JInt 1) demo_links))"
  using peer_link_compare_and_set [OF demo_link_ids demo_link_ids demo_update(1), of "''b''"] by simp

text \<open>C39: The check and the write are not one step. Two updates of one link that would each succeed alone, and whose reads
  both come before either write, both succeed with the same new version; the link keeps the second record, and the
  first caller's is lost without an error.
\<close>

theorem peer_link_lost_update:
  assumes "peerLinks_ids r1 = Inr (i, l, p)" and "peerLinks_ids r2 = Inr (i, l, p)"
    and "peerLinks_update r1 v s = (Inr out1, s1)" and "peerLinks_update r2 v s = (Inr out2, s2)"
  shows "\<exists>c1 c2 s3. peerLinks_updateRead r1 s = Inr c1 \<and> peerLinks_updateRead r2 s = Inr c2
    \<and> peerLinks_updateWrite r1 v c1 s = (Inr out1, s1) \<and> peerLinks_updateWrite r2 v c2 s1 = (Inr out2, s3)
    \<and> normalizeVersion out1 = normalizeVersion out2 \<and> peerLinks_getById (JStr l) (JStr i) s3 = Inr out2"
proof -
  let ?key = "PEER_LINK_PREFIX @ l @ ''::'' @ i"
  let ?cur = "kvGet ?key s"
  note u1 = update_success [OF assms(1, 3)] and u2 = update_success [OF assms(2, 4)]
  note reads = updateRead_ids [OF assms(1), of s] updateRead_ids [OF assms(2), of s]
  let ?s3 = "kvSet (PEER_PAIR_PREFIX @ l @ ''::'' @ p) (JStr i) (kvSet ?key (bumped r2 ?cur) s1)"
  have w1: "peerLinks_updateWrite r1 v ?cur s = (Inr out1, s1)"
    using assms(3) by (simp add: update_by_ids [OF assms(1)])
  have w2: "peerLinks_updateWrite r2 v ?cur s1 = (Inr out2, ?s3)"
    using updateWrite_ok [OF assms(2) u2(1), of s1] u2(2) by simp
  have "peerLinks_getById (JStr l) (JStr i) ?s3 = Inr out2"
    using peerLinks_ids_object(1-3) [OF assms(1)] u2(2)
    by (simp add: peerLinks_getById_def peerLinks_recordKey_def ownedKey_clean)
  moreover have "normalizeVersion out1 = normalizeVersion out2"
    using bumped_copy_version [OF assms(1)] bumped_copy_version [OF assms(2)] u1(2) u2(2) by simp
  ultimately show ?thesis using reads w1 w2 by blast
qed

theorem peer_link_lost_update_witness:
  "\<exists>c1 c2 s1 s3. peerLinks_updateRead (demo_link ''a'') demo_links = Inr c1 \<and> peerLinks_updateRead (demo_link ''b'') demo_links = Inr c2
    \<and> isOk (fst (peerLinks_updateWrite (demo_link ''a'') (JInt 1) c1 demo_links))
    \<and> s1 = snd (peerLinks_updateWrite (demo_link ''a'') (JInt 1) c1 demo_links)
    \<and> isOk (fst (peerLinks_updateWrite (demo_link ''b'') (JInt 1) c2 s1))
    \<and> s3 = snd (peerLinks_updateWrite (demo_link ''b'') (JInt 1) c2 s1)
    \<and> peerLinks_getById (JStr ''alice'') (JStr ''pl1'') s3 = Inr (bumped (demo_link ''b'') (demo_link []))"
  using peer_link_lost_update [OF demo_link_ids demo_link_ids demo_update(1) demo_update(2)]
  by (metis fst_conv snd_conv isOk.simps(2))

section \<open>The event log read in pages\<close>

definition eid :: "jsval \<Rightarrow> string" where
  "eid e = toStr (getProp e ''eventId'')"

text \<open>An event of one owner and link whose identifiers carry no surrounding white space.\<close>

definition event_of :: "string \<Rightarrow> string \<Rightarrow> jsval \<Rightarrow> bool" where
  "event_of owner link e \<longleftrightarrow> plain_id owner \<and> plain_id link \<and> plain_id (eid e) \<and> getProp e ''ownerAccountId'' = JStr owner
     \<and> getProp e ''peerLinkId'' = JStr link \<and> getProp e ''eventId'' = JStr (eid e)"

definition appendAll :: "jsval list \<Rightarrow> kvstore \<Rightarrow> kvstore" where
  "appendAll evs s = fold (\<lambda>e st. snd (events_append e st)) evs s"

text \<open>The caller of a listing: it asks for pages of \<open>n\<close> until one comes without a cursor.\<close>

definition pageOptions :: "nat \<Rightarrow> string option \<Rightarrow> jsval" where
  "pageOptions n cursor = JObj ((''limit'', JInt (int n)) # (case cursor of None \<Rightarrow> [] | Some c \<Rightarrow> [(''cursor'', JStr c)]))"

fun fetchPages :: "nat \<Rightarrow> nat \<Rightarrow> jsval \<Rightarrow> jsval \<Rightarrow> string option \<Rightarrow> kvstore \<Rightarrow> jsval list option" where
  "fetchPages 0 n owner link cursor s = None"
| "fetchPages (Suc fuel) n owner link cursor s =
     (case events_listByPeerLinkId owner link (pageOptions n cursor) s of
        Inl _ \<Rightarrow> None
      | Inr pg \<Rightarrow> (case pg_nextCursor pg of
          None \<Rightarrow> Some (pg_items pg)
        | Some c \<Rightarrow> map_option (\<lambda>more. pg_items pg @ more) (fetchPages fuel n owner link (Some c) s)))"

abbreviation eventKey :: "string \<Rightarrow> string \<Rightarrow> string" where
  "eventKey owner i \<equiv> EVENT_RECORD_PREFIX @ owner @ ''::'' @ i"

abbreviation eventIndex :: "string \<Rightarrow> string \<Rightarrow> string" where
  "eventIndex owner link \<equiv> EVENT_INDEX_PREFIX @ owner @ ''::'' @ link"

lemma event_keys_apart:
  assumes "\<not> startsWith owner ''index:''"
  shows "eventKey owner i \<noteq> eventIndex owner link"
proof
  assume eq: "eventKey owner i = eventIndex owner link"
  then have e: "owner @ ''::'' @ i = ''index:'' @ owner @ ''::'' @ link"
    by (simp add: EVENT_RECORD_PREFIX_def EVENT_INDEX_PREFIX_def)
  show False
  proof (cases "6 \<le> length owner")
    case True
    with e have "startsWith owner ''index:''"
      using startsWith_append_left [of "''index:''" owner "''::'' @ i"] startsWith_append [of "''index:''" "owner @ ''::'' @ link"]
      by simp
    with assms show False ..
  next
    case False
    then have "owner = take 5 owner" by simp
    then obtain a b c d f where "owner \<in> {[], [a], [a, b], [a, b, c], [a, b, c, d], [a, b, c, d, f]}"
      by (cases owner rule: remdups_adj.cases; cases "tl owner"; cases "tl (tl owner)"; cases "tl (tl (tl owner))";
          cases "tl (tl (tl (tl owner)))") force+
    with e show False by auto
  qed
qed

lemma event_object: "event_of owner link e \<Longrightarrow> \<exists>kvs. e = JObj kvs"
  by (cases e) (auto simp: event_of_def)

lemma append_fresh:
  assumes "event_of owner link e" "kvGet (eventKey owner (eid e)) s = JUndef" "\<not> startsWith owner ''index:''"
  shows "events_append e s = (Inr (cloneJsonValue e),
    kvSet (eventIndex owner link) (JArr (arrayItems (kvGet (eventIndex owner link) s) @ [JStr (eid e)]))
      (kvSet (eventKey owner (eid e)) (cloneJsonValue e) s))"
proof -
  obtain kvs where "e = JObj kvs" using event_object [OF assms(1)] by blast
  then have "assertRecord e label = Inr ()" for label by (simp add: assertRecord_def)
  with assms event_keys_apart [OF assms(3), of "eid e" link] show ?thesis
    by (simp add: events_append_def event_of_def assertNonEmptyString_plain events_recordKey_def events_indexKey_def ownedKey_clean
        Let_def del: append.simps getProp.simps)
qed

definition log_holds :: "string \<Rightarrow> string \<Rightarrow> jsval list \<Rightarrow> kvstore \<Rightarrow> bool" where
  "log_holds owner link evs s \<longleftrightarrow> arrayItems (kvGet (eventIndex owner link) s) = map (\<lambda>e. JStr (eid e)) evs
     \<and> (\<forall>e\<in>set evs. kvGet (eventKey owner (eid e)) s = cloneJsonValue e)"

lemma log_append_step:
  assumes "log_holds owner link old s" "event_of owner link e" "kvGet (eventKey owner (eid e)) s = JUndef"
    "\<not> startsWith owner ''index:''" "eid e \<notin> eid ` set old"
  shows "log_holds owner link (old @ [e]) (snd (events_append e s))"
  using assms event_keys_apart [OF assms(4), of _ link]
  by (auto simp: append_fresh [OF assms(2-4)] log_holds_def image_iff simp del: append.simps)

lemma log_append_all:
  assumes "\<forall>e\<in>set evs. event_of owner link e \<and> kvGet (eventKey owner (eid e)) s = JUndef"
    "\<not> startsWith owner ''index:''" "distinct (map eid (old @ evs))" "log_holds owner link old s"
  shows "log_holds owner link (old @ evs) (appendAll evs s)"
  using assms
proof (induction evs arbitrary: old s)
  case Nil
  then show ?case by (simp add: appendAll_def)
next
  case (Cons e evs)
  have e: "event_of owner link e" "kvGet (eventKey owner (eid e)) s = JUndef" using Cons.prems(1) by auto
  have "log_holds owner link (old @ [e]) (snd (events_append e s))"
    using Cons.prems e by (intro log_append_step) auto
  moreover have "\<forall>x\<in>set evs. event_of owner link x \<and> kvGet (eventKey owner (eid x)) (snd (events_append e s)) = JUndef"
    using Cons.prems event_keys_apart [OF Cons.prems(2), of _ link]
    by (auto simp: append_fresh [OF e Cons.prems(2)] image_iff simp del: append.simps)
  ultimately have "log_holds owner link ((old @ [e]) @ evs) (appendAll evs (snd (events_append e s)))"
    using Cons.prems by (intro Cons.IH) auto
  then show ?case by (simp add: appendAll_def)
qed

lemma mapR_through: "(\<And>x. x \<in> set xs \<Longrightarrow> f (g x) = Inr (h x)) \<Longrightarrow> mapR f (map g xs) = Inr (map h xs)"
  by (induction xs) auto

lemma positionOf_nth: "distinct xs \<Longrightarrow> k < length xs \<Longrightarrow> positionOf (xs ! k) xs = Some k"
proof (induction xs arbitrary: k)
  case (Cons x xs)
  then show ?case by (cases k) auto
qed simp

text \<open>Where a page starts: at the beginning, or right after the event the cursor names.\<close>

definition pageCursor :: "jsval list \<Rightarrow> nat \<Rightarrow> string option" where
  "pageCursor evs st = (if st = 0 then None else Some (eid (evs ! (st - 1))))"

lemma pageStart_pageCursor:
  assumes "distinct (map eid evs)" "st \<le> length evs"
  shows "pageStart (pageCursor evs st) (map (\<lambda>e. JStr (eid e)) evs) = st"
proof (cases st)
  case (Suc k)
  have "distinct (map (\<lambda>e. JStr (eid e)) evs)" using assms(1) by (simp add: distinct_map inj_on_def)
  from positionOf_nth [OF this, of k] show ?thesis using Suc assms(2) by (simp add: pageStart_def pageCursor_def)
qed (simp add: pageStart_def pageCursor_def)

lemma pageOptions_read:
  assumes "0 < n" "\<forall>e\<in>set evs. plain_id (eid e)" "st \<le> length evs"
  shows "normalizeListOptions (pageOptions n (pageCursor evs st)) = (Some n, pageCursor evs st)"
proof -
  have "0 < st \<Longrightarrow> eid (evs ! (st - 1)) \<noteq> []" using assms(2,3) by (auto simp: plain_id_def)
  then show ?thesis using assms(1) by (auto simp: normalizeListOptions_def pageOptions_def pageCursor_def)
qed

lemma clone_event: "event_of owner link e \<Longrightarrow> getProp (cloneJsonValue e) ''eventId'' = JStr (eid e) \<and> cloneJsonValue e \<noteq> JUndef"
proof -
  assume e: "event_of owner link e"
  then have "getProp (cloneJsonValue e) ''eventId'' = JStr (eid e)" using getProp_clone [of e "''eventId''"] by (simp add: event_of_def)
  then show ?thesis by (cases "cloneJsonValue e") auto
qed

lemma one_page:
  assumes "log_holds owner link evs s" "\<forall>e\<in>set evs. event_of owner link e" "distinct (map eid evs)" "0 < n" "st \<le> length evs"
    "plain_id owner" "plain_id link"
  shows "events_listByPeerLinkId (JStr owner) (JStr link) (pageOptions n (pageCursor evs st)) s =
    Inr \<lparr>pg_items = map cloneJsonValue (take n (drop st evs)),
         pg_nextCursor = (if st + n < length evs then pageCursor evs (st + n) else None)\<rparr>"
proof -
  let ?win = "take n (drop st evs)"
  have ids: "arrayItems (kvGet (eventIndex owner link) s) = map (\<lambda>e. JStr (eid e)) evs" using assms(1) by (simp add: log_holds_def)
  have win: "e \<in> set ?win \<Longrightarrow> e \<in> set evs" for e by (meson in_set_dropD in_set_takeD)
  have key: "bindR (events_recordKey (JStr owner) (JStr (eid e))) (\<lambda>k. Inr (kvGet k s)) = Inr (cloneJsonValue e)" if "e \<in> set ?win" for e
    using win [OF that] assms(1,2,6) by (simp add: events_recordKey_def event_of_def ownedKey_clean log_holds_def del: append.simps)
  have found: "mapR (\<lambda>i. bindR (events_recordKey (JStr owner) i) (\<lambda>k. Inr (kvGet k s))) (take n (drop st (map (\<lambda>e. JStr (eid e)) evs)))
      = Inr (map cloneJsonValue ?win)"
    unfolding drop_map take_map by (rule mapR_through) (rule key)
  have defd: "cloneJsonValue e \<noteq> JUndef" if "e \<in> set ?win" for e using clone_event assms(2) win [OF that] by blast
  have present: "filter (\<lambda>r. r \<noteq> JUndef) (map cloneJsonValue ?win) = map cloneJsonValue ?win"
    by (rule filter_True) (clarsimp simp: defd)
  have cur: "nextCursorOf (map cloneJsonValue ?win) = eid (evs ! (st + n - 1))" "?win \<noteq> []" if "st + n < length evs"
  proof -
    show ne: "?win \<noteq> []" using that assms(4) by simp
    have "last ?win = evs ! (st + n - 1)" using that assms(4) ne by (simp add: last_conv_nth min_def nth_append add.commute)
    moreover have ev: "event_of owner link (evs ! (st + n - 1))" using that assms(2,4) by simp
    ultimately have "getProp (last (map cloneJsonValue ?win)) ''eventId'' = JStr (eid (evs ! (st + n - 1)))"
      using clone_event [OF ev] by (simp only: last_map [OF ne])
    then show "nextCursorOf (map cloneJsonValue ?win) = eid (evs ! (st + n - 1))"
      using ev by (simp add: nextCursorOf_def event_of_def plain_id_def)
  qed
  have opts: "normalizeListOptions (pageOptions n (pageCursor evs st)) = (Some n, pageCursor evs st)"
    using assms(2,4,5) by (intro pageOptions_read) (auto simp: event_of_def)
  have cur': "(if st + n < length evs \<and> map cloneJsonValue ?win \<noteq> [] then Some (nextCursorOf (map cloneJsonValue ?win)) else None)
      = (if st + n < length evs then pageCursor evs (st + n) else None)"
    using cur assms(4) by (simp add: pageCursor_def)
  show ?thesis
    unfolding events_listByPeerLinkId_def opts
    by (simp only: assertNonEmptyString_plain assms(6,7) bindR_simps events_indexKey_def ownedKey_clean Let_def prod.case option.case
        ids pageStart_pageCursor [OF assms(3,5)] found [unfolded events_recordKey_def] events_recordKey_def present map_map comp_def
        cloneJsonValue_idem length_map cur')
qed

lemma pages_from:
  assumes "log_holds owner link evs s" "\<forall>e\<in>set evs. event_of owner link e" "distinct (map eid evs)" "0 < n"
    "plain_id owner" "plain_id link"
  shows "st \<le> length evs \<Longrightarrow> length evs - st < fuel
    \<Longrightarrow> fetchPages fuel n (JStr owner) (JStr link) (pageCursor evs st) s = Some (map cloneJsonValue (drop st evs))"
proof (induction fuel arbitrary: st)
  case (Suc fuel)
  have page: "fetchPages (Suc fuel) n (JStr owner) (JStr link) (pageCursor evs st) s =
    (case (if st + n < length evs then pageCursor evs (st + n) else None) of
       None \<Rightarrow> Some (map cloneJsonValue (take n (drop st evs)))
     | Some c \<Rightarrow> map_option (\<lambda>more. map cloneJsonValue (take n (drop st evs)) @ more) (fetchPages fuel n (JStr owner) (JStr link) (Some c) s))"
    by (simp add: one_page [OF assms(1-4) Suc.prems(1) assms(5,6)] split: option.split)
  show ?case
  proof (cases "st + n < length evs")
    case True
    then have "fetchPages fuel n (JStr owner) (JStr link) (pageCursor evs (st + n)) s = Some (map cloneJsonValue (drop (st + n) evs))"
      using Suc.prems assms(4) by (intro Suc.IH) auto
    moreover have "map cloneJsonValue (take n (drop st evs)) @ map cloneJsonValue (drop (st + n) evs) = map cloneJsonValue (drop st evs)"
      by (metis append_take_drop_id drop_drop map_append add.commute)
    ultimately show ?thesis using True assms(4) page by (simp add: pageCursor_def split: if_splits)
  next
    case False
    then show ?thesis using page by simp
  qed
qed simp

text \<open>C37: Paging is complete. Append events of one owner and link, with distinct identifiers free of surrounding white
  space, to a store that has neither them nor an index for the link: a caller that asks for pages of any positive size
  and follows the cursors gets a page without a cursor after at most one call per event and one more, and the pages
  together are the events, each once, in the order of the appends.
\<close>

theorem event_paging_complete:
  assumes "\<forall>e\<in>set evs. event_of owner link e \<and> kvGet (EVENT_RECORD_PREFIX @ owner @ ''::'' @ eid e) s = JUndef"
    and "distinct (map eid evs)" and "plain_id owner" and "plain_id link" and "\<not> startsWith owner ''index:''"
    and "kvGet (EVENT_INDEX_PREFIX @ owner @ ''::'' @ link) s = JUndef" and "0 < n"
  shows "fetchPages (length evs + 1) n (JStr owner) (JStr link) None (appendAll evs s) = Some (map cloneJsonValue evs)"
proof -
  have "log_holds owner link [] s" using assms(6) by (simp add: log_holds_def)
  then have "log_holds owner link evs (appendAll evs s)"
    using log_append_all [of evs owner link s "[]"] assms by simp
  from pages_from [OF this _ assms(2,7,3,4), of 0 "length evs + 1"] assms(1) show ?thesis
    by (simp add: pageCursor_def)
qed

definition demo_event :: "string \<Rightarrow> jsval" where
  "demo_event i = JObj [(''ownerAccountId'', JStr ''alice''), (''eventId'', JStr i), (''peerLinkId'', JStr ''pl1'')]"

lemma demo_event_clone: "cloneJsonValue (demo_event i) = demo_event i"
  by (simp add: demo_event_def cloneJsonValue_def)

theorem event_paging_complete_witness:
  "fetchPages 4 2 (JStr ''alice'') (JStr ''pl1'') None (appendAll (map demo_event [''e1'', ''e2'', ''e3'']) [])
   = Some (map demo_event [''e1'', ''e2'', ''e3''])"
proof -
  have "event_of ''alice'' ''pl1'' (demo_event i) \<and> eid (demo_event i) = i" if "plain_id i" for i
    using that by (simp add: event_of_def eid_def demo_event_def plain_id_def trim_def isSpace_def)
  moreover have "plain_id ''e1''" "plain_id ''e2''" "plain_id ''e3''" "plain_id ''alice''" "plain_id ''pl1''"
    by (simp_all add: plain_id_def trim_def isSpace_def)
  ultimately show ?thesis
    using event_paging_complete [of "map demo_event [''e1'', ''e2'', ''e3'']" "''alice''" "''pl1''" "[]" 2]
    by (simp add: kvGet_def demo_event_clone eval_nat_numeral del: fetchPages.simps)
qed

text \<open>
  Paging can go round for ever. The index keeps the trimmed identifier and the cursor is the identifier as the
  caller wrote it: after two appends whose identifiers end in a blank, the cursor of the first page is unknown to the
  index, so the next page is the first page again, and no number of calls reaches the second event.
\<close>

theorem event_paging_restarts:
  "fetchPages fuel 1 (JStr ''alice'') (JStr ''pl1'') None (appendAll [demo_event ''e1 '', demo_event ''e2 ''] []) = None"
proof -
  let ?s = "appendAll [demo_event ''e1 '', demo_event ''e2 ''] []"
  have first: "events_listByPeerLinkId (JStr ''alice'') (JStr ''pl1'') (pageOptions 1 c) ?s
      = Inr \<lparr>pg_items = [demo_event ''e1 ''], pg_nextCursor = Some ''e1 ''\<rparr>" if "c \<in> {None, Some ''e1 ''}" for c
    using that by (elim insertE emptyE; hypsubst; code_simp)
  have "fetchPages fuel 1 (JStr ''alice'') (JStr ''pl1'') c ?s = None" if "c \<in> {None, Some ''e1 ''}" for c
    using that
  proof (induction fuel arbitrary: c)
    case (Suc fuel)
    then show ?case by (simp add: first [OF Suc.prems, simplified])
  qed simp
  then show ?thesis by simp
qed

text \<open>
  An owner whose name starts with \<^verbatim>\<open>index:\<close> has event records at the keys of another owner's indexes: an append there
  replaces the event by the index.
\<close>

lemma event_key_collision:
  "let ev = (\<lambda>owner i link. JObj [(''ownerAccountId'', JStr owner), (''eventId'', JStr i), (''peerLinkId'', JStr link)]);
       s1 = snd (events_append (ev ''index:alice'' ''pl1'' ''x'') []);
       s2 = snd (events_append (ev ''alice'' ''e1'' ''pl1'') s1)
   in kvGet (EVENT_RECORD_PREFIX @ ''index:alice::pl1'') s1 = ev ''index:alice'' ''pl1'' ''x''
      \<and> kvGet (EVENT_RECORD_PREFIX @ ''index:alice::pl1'') s2 = JArr [JStr ''e1'']"
  by code_simp

end
