(* ===== verification/Device_Changes.thy ===== *)
theory Device_Changes
  imports Account_Authority Js_Number
begin

text \<open>
  The remaining records of \<^verbatim>\<open>src/objects/device\<close>: registration of a device with its account and its verification, the account's
  set of devices, a device's bundle of prekeys, the mutations a device submits to the account's home, the revocation
  of a certificate, and the frozen first version of the link request. As in \<^verbatim>\<open>Device_Records\<close>, a constructor takes the value it is
  called with and returns the sealed record or the error that \<^verbatim>\<open>validate\<close> throws first.
\<close>

section \<open>What the records share\<close>

text \<open>The version and purpose of a record, with the constructor's defaults.\<close>

definition checkKind :: "string \<Rightarrow> int \<Rightarrow> string \<Rightarrow> jsval \<Rightarrow> unit result" where
  "checkKind at version purpose j =
     (if dflt (getProp j ''v'') (JInt version) \<noteq> JInt version then Inl (RezInvariantError (at @ ''.v must be '' @ int_str version))
      else if dflt (getProp j ''purpose'') (JStr purpose) \<noteq> JStr purpose
      then Inl (RezInvariantError (at @ ''.purpose must be '' @ purpose)) else Inr ())"

text \<open>The signed body: the named fields of a value, in canonical JSON.\<close>

definition signableOf :: "string list \<Rightarrow> jsval \<Rightarrow> bytes" where
  "signableOf names j = signable (JObj (map (\<lambda>k. (k, getProp j k)) names))"

section \<open>DeviceRegistrationV1\<close>

definition DEVICE_REGISTRATION_PURPOSE :: string where "DEVICE_REGISTRATION_PURPOSE = ''rez:device-registration:v1''"

record DeviceRegistrationV1 =
  reg_accountIdentityPublicKeyB64 :: string
  reg_devicePublicKeyB64 :: string
  reg_deviceId :: string
  reg_issuedAtMs :: int
  reg_expiresAtMs :: int
  reg_sigB64 :: string

definition newDeviceRegistrationV1 :: "jsval \<Rightarrow> DeviceRegistrationV1 result" where
  "newDeviceRegistrationV1 j =
     (let at = ''DeviceRegistrationV1'' in
      bindR (checkKind at 1 DEVICE_REGISTRATION_PURPOSE j) (\<lambda>_.
      bindR (requireCanonicalSpkiB64 (getProp j ''accountIdentityPublicKeyB64'') (at @ ''.accountIdentityPublicKeyB64'')) (\<lambda>account.
      bindR (requireCanonicalSpkiB64 (getProp j ''devicePublicKeyB64'') (at @ ''.devicePublicKeyB64'')) (\<lambda>key.
      bindR (checkDeviceId at ''deviceId'' ''devicePublicKeyB64'' (getProp j ''deviceId'') (getProp j ''devicePublicKeyB64'')) (\<lambda>did.
      bindR (checkWindow at (getProp j ''issuedAtMs'') (getProp j ''expiresAtMs'')) (\<lambda>(issued, expires).
      bindR (validateEd25519Sig (normalizeSig (getProp j ''sig'')) (at @ ''.sig'')) (\<lambda>sig.
        Inr \<lparr>reg_accountIdentityPublicKeyB64 = account, reg_devicePublicKeyB64 = key, reg_deviceId = did, reg_issuedAtMs = issued,
             reg_expiresAtMs = expires, reg_sigB64 = sig\<rparr>)))))))"

definition registration_signableBytes :: "jsval \<Rightarrow> bytes" where
  "registration_signableBytes = signableOf [''v'', ''purpose'', ''accountIdentityPublicKeyB64'', ''devicePublicKeyB64'', ''deviceId'', ''issuedAtMs'', ''expiresAtMs'']"

definition registration_toJSON :: "DeviceRegistrationV1 \<Rightarrow> jsval" where
  "registration_toJSON r = JObj [(''v'', JInt 1), (''purpose'', JStr DEVICE_REGISTRATION_PURPOSE),
     (''accountIdentityPublicKeyB64'', JStr (reg_accountIdentityPublicKeyB64 r)), (''devicePublicKeyB64'', JStr (reg_devicePublicKeyB64 r)),
     (''deviceId'', JStr (reg_deviceId r)), (''issuedAtMs'', JInt (reg_issuedAtMs r)), (''expiresAtMs'', JInt (reg_expiresAtMs r)),
     (''sig'', sigJSON (reg_sigB64 r))]"

datatype reg_verdict = RegAccepted string | RegRefused string

text \<open>
  \<^verbatim>\<open>verifyDeviceRegistrationV1\<close> on the JSON of a registration. The last comparisons are JavaScript's: a bound that is not a number
  compares false either way.
\<close>

definition registrationSignature :: "crypto_provider \<Rightarrow> jsval \<Rightarrow> int \<Rightarrow> reg_verdict result" where
  "registrationSignature c json now =
     (let sigv = getProp json ''sig'' in
      if \<not> truthy sigv \<or> \<not> typeofObject sigv \<or> getProp sigv ''alg'' \<noteq> JStr ''ed25519'' \<or> \<not> isString (getProp sigv ''sigB64'')
      then Inr (RegRefused ''missing or unsupported signature'')
      else case bindR (base64ToBytes (strOf (getProp sigv ''sigB64''))) (\<lambda>s.
             bindR (base64ToBytes (strOf (getProp json ''accountIdentityPublicKeyB64''))) (\<lambda>k. Inr (s, k))) of
        Inl e \<Rightarrow> Inr (RegRefused (''malformed signature or key bytes: '' @ errMessage e))
      | Inr (signature, accountPub) \<Rightarrow>
          if signature = [] then Inr (RegRefused ''empty signature'')
          else bindR (verify c accountPub (registration_signableBytes json) signature) (\<lambda>ok.
            if \<not> ok then Inr (RegRefused ''signature invalid'')
            else if numLess (NInt now) (toNumber (getProp json ''issuedAtMs'')) then Inr (RegRefused ''not yet valid'')
            else if numGeq (NInt now) (toNumber (getProp json ''expiresAtMs'')) then Inr (RegRefused ''expired'')
            else Inr (RegAccepted (strOf (getProp json ''deviceId'')))))"

definition verifyDeviceRegistrationV1 :: "crypto_provider \<Rightarrow> jsval \<Rightarrow> jsval \<Rightarrow> jsval \<Rightarrow> reg_verdict result" where
  "verifyDeviceRegistrationV1 c json expected now =
     (let account = getProp json ''accountIdentityPublicKeyB64''; key = getProp json ''devicePublicKeyB64'' in
      if \<not> truthy json \<or> \<not> typeofObject json then Inr (RegRefused ''invalid registration'')
      else if \<not> isNonEmptyString expected then Inr (RegRefused ''expectedAccountIdentityPublicKeyB64 required (trust anchor)'')
      else if \<not> isFiniteNumber now then Inr (RegRefused ''nowMs required (finite) for expiry check'')
      else if getProp json ''v'' \<noteq> JInt 1 then Inr (RegRefused ''unsupported version'')
      else if getProp json ''purpose'' \<noteq> JStr DEVICE_REGISTRATION_PURPOSE then Inr (RegRefused ''purpose mismatch'')
      else if \<not> isString account \<or> account = JStr [] then Inr (RegRefused ''missing accountIdentityPublicKeyB64'')
      else if \<not> isString key \<or> key = JStr [] then Inr (RegRefused ''missing devicePublicKeyB64'')
      else if trim (strOf account) \<noteq> trim (strOf expected) then Inr (RegRefused ''account mismatch (not the expected account)'')
      else case deviceIdFor key of
        Inl e \<Rightarrow> Inr (RegRefused (''device key not hashable: '' @ errMessage e))
      | Inr expectedDeviceId \<Rightarrow>
          if getProp json ''deviceId'' \<noteq> JStr expectedDeviceId then Inr (RegRefused ''deviceId does not match device key'')
          else registrationSignature c json (intOf now))"

section \<open>DeviceSetRecordV1\<close>

definition DEVICE_SET_PURPOSE :: string where "DEVICE_SET_PURPOSE = ''rez:device-set:v1''"

record DeviceEntry =
  de_deviceId :: string
  de_devicePublicKeyB64 :: string
  de_inboxId :: string

record DeviceSetRecordV1 =
  dsr_accountIdentityPublicKeyB64 :: string
  dsr_revision :: int
  dsr_devices :: "DeviceEntry list"
  dsr_issuedAtMs :: int
  dsr_expiresAtMs :: int
  dsr_sigB64 :: string

definition normalizeDevices :: "jsval \<Rightarrow> jsval list" where
  "normalizeDevices devices =
     (case devices of JArr ds \<Rightarrow> map (\<lambda>d. let src = (if truthy d \<and> typeofObject d then d else JObj []) in
        JObj (map (\<lambda>k. (k, getProp src k)) [''deviceId'', ''devicePublicKeyB64'', ''inboxId''])) ds
      | _ \<Rightarrow> [])"

fun checkDevices :: "nat \<Rightarrow> string list \<Rightarrow> jsval list \<Rightarrow> DeviceEntry list result" where
  "checkDevices i seen [] = Inr []"
| "checkDevices i seen (d # ds) =
     (let at = ''DeviceSetRecordV1.devices['' @ nat_str i @ '']'' in
      if \<not> truthy d \<or> \<not> typeofObject d then Inl (RezInvariantError (at @ '' must be an object''))
      else bindR (requireCanonicalSpkiB64 (getProp d ''devicePublicKeyB64'') (at @ ''.devicePublicKeyB64'')) (\<lambda>key.
      bindR (checkDeviceId at ''deviceId'' ''devicePublicKeyB64'' (getProp d ''deviceId'') (getProp d ''devicePublicKeyB64'')) (\<lambda>did.
      if \<not> isNonEmptyString (getProp d ''inboxId'') then Inl (RezInvariantError (at @ ''.inboxId must be non-empty string''))
      else if did \<in> set seen then Inl (RezInvariantError (at @ ''.deviceId is duplicated in the set''))
      else bindR (checkDevices (i + 1) (did # seen) ds) (\<lambda>rest.
        Inr (\<lparr>de_deviceId = did, de_devicePublicKeyB64 = key, de_inboxId = strOf (getProp d ''inboxId'')\<rparr> # rest)))))"

definition newDeviceSetRecordV1 :: "jsval \<Rightarrow> DeviceSetRecordV1 result" where
  "newDeviceSetRecordV1 j =
     (let at = ''DeviceSetRecordV1''; revision = getProp j ''revision''; devices = normalizeDevices (getProp j ''devices'') in
      bindR (checkKind at 1 DEVICE_SET_PURPOSE j) (\<lambda>_.
      bindR (requireCanonicalSpkiB64 (getProp j ''accountIdentityPublicKeyB64'') (at @ ''.accountIdentityPublicKeyB64'')) (\<lambda>account.
      if \<not> (isInteger revision \<and> intOf revision \<ge> 1) then Inl (RezInvariantError (at @ ''.revision must be a positive integer''))
      else if devices = [] then Inl (RezInvariantError (at @ ''.devices must be a non-empty array''))
      else bindR (checkDevices 0 [] devices) (\<lambda>ds.
      bindR (checkWindow at (getProp j ''issuedAtMs'') (getProp j ''expiresAtMs'')) (\<lambda>(issued, expires).
      bindR (validateEd25519Sig (normalizeSig (getProp j ''sig'')) (at @ ''.sig'')) (\<lambda>sig.
        Inr \<lparr>dsr_accountIdentityPublicKeyB64 = account, dsr_revision = intOf revision, dsr_devices = ds, dsr_issuedAtMs = issued,
             dsr_expiresAtMs = expires, dsr_sigB64 = sig\<rparr>))))))"

definition deviceSet_signableBytes :: "jsval \<Rightarrow> bytes" where
  "deviceSet_signableBytes j = signable (JObj [(''v'', getProp j ''v''), (''purpose'', getProp j ''purpose''),
     (''accountIdentityPublicKeyB64'', getProp j ''accountIdentityPublicKeyB64''), (''revision'', getProp j ''revision''),
     (''devices'', JArr (normalizeDevices (getProp j ''devices''))), (''issuedAtMs'', getProp j ''issuedAtMs''), (''expiresAtMs'', getProp j ''expiresAtMs'')])"

section \<open>AccountDeviceMutationV1 and V2\<close>

definition ACCOUNT_DEVICE_MUTATION_PURPOSE :: string where "ACCOUNT_DEVICE_MUTATION_PURPOSE = ''rez:account-device-mutation:v1''"
definition ACCOUNT_DEVICE_MUTATION_V2_PURPOSE :: string where "ACCOUNT_DEVICE_MUTATION_V2_PURPOSE = ''rez:account-device-mutation:v2''"
definition ACCOUNT_DEVICE_MUTATION_ACTIONS :: "string list" where "ACCOUNT_DEVICE_MUTATION_ACTIONS = [''device.add'', ''device.revoke'']"

record AccountDeviceMutation =
  adm_opId :: string
  adm_accountIdentityPublicKeyB64 :: string
  adm_expectedRevision :: int
  adm_action :: string
  adm_target :: jsval
  adm_signerPublicKeyB64 :: string
  adm_issuedAtMs :: int
  adm_expiresAtMs :: int
  adm_sigB64 :: string

text \<open>\<^verbatim>\<open>value && typeof value === "object" ? value : {}\<close>\<close>

definition objectOrEmpty :: "jsval \<Rightarrow> jsval" where
  "objectOrEmpty v = (if truthy v \<and> typeofObject v then v else JObj [])"

definition addedBinding :: "string \<Rightarrow> jsval \<Rightarrow> DeviceInboxBindingV1 result" where
  "addedBinding at target =
     (case newDeviceInboxBindingV1 (objectOrEmpty (getProp target ''deviceInboxBinding'')) of
        Inl e \<Rightarrow> Inl (RezInvariantError (at @ '' device.add target.deviceInboxBinding is invalid: '' @ errMessage e))
      | Inr b \<Rightarrow> if \<not> isNonEmptyString (JStr (dib_deviceId b)) then Inl (RezInvariantError (at @ '' device.add binding must carry a deviceId''))
          else Inr b)"

definition addedCapability :: "string \<Rightarrow> string \<Rightarrow> DeviceInboxBindingV1 \<Rightarrow> jsval \<Rightarrow> AccountDeviceCapabilityV1 result" where
  "addedCapability at account b target =
     (case newAccountDeviceCapabilityV1 (objectOrEmpty (getProp target ''deviceCapability'')) of
        Inl e \<Rightarrow> Inl (RezInvariantError (at @ '' device.add target.deviceCapability is invalid: '' @ errMessage e))
      | Inr cap \<Rightarrow>
          if granteeDeviceId cap \<noteq> dib_deviceId b
          then Inl (RezInvariantError (at @ '' device.add deviceCapability.granteeDeviceId must equal the binding deviceId (the leaf must grant the device being added)''))
          else if accountIdentityPublicKeyB64 cap \<noteq> account
          then Inl (RezInvariantError (at @ '' device.add deviceCapability must anchor to the mutation's account''))
          else Inr cap)"

definition checkRevokeTarget :: "string \<Rightarrow> jsval \<Rightarrow> unit result" where
  "checkRevokeTarget at target =
     (let did = getProp target ''revokedDeviceId''; cert = getProp target ''revokedCertId'' in
      if \<not> isNonEmptyString did then Inl (RezInvariantError (at @ '' device.revoke target.revokedDeviceId must be a non-empty string''))
      else if \<not> isCanonicalDeviceId did
      then Inl (RezInvariantError (at @ '' device.revoke target.revokedDeviceId must be a canonical rez:dev:<64-hex> id''))
      else if \<not> isNullish cert \<and> \<not> isCanonicalAccountCapabilityCertId cert
      then Inl (RezInvariantError (at @ '' device.revoke target.revokedCertId must be a canonical rez:cap:<64-hex> id or omitted''))
      else Inr ())"

definition validateTargetV1 :: "string \<Rightarrow> string \<Rightarrow> jsval \<Rightarrow> unit result" where
  "validateTargetV1 account action target =
     (let at = ''AccountDeviceMutationV1'' in
      if \<not> truthy target \<or> \<not> typeofObject target \<or> isArray target then Inl (RezInvariantError (at @ ''.target must be an object''))
      else if action = ''device.add'' then bindR (addedBinding at target) (\<lambda>_. Inr ())
      else checkRevokeTarget at target)"

definition validateTargetV2 :: "string \<Rightarrow> string \<Rightarrow> jsval \<Rightarrow> unit result" where
  "validateTargetV2 account action target =
     (let at = ''AccountDeviceMutationV2'' in
      if \<not> truthy target \<or> \<not> typeofObject target \<or> isArray target then Inl (RezInvariantError (at @ ''.target must be an object''))
      else if action = ''device.add''
      then bindR (addedBinding at target) (\<lambda>b. bindR (addedCapability at account b target) (\<lambda>_. Inr ()))
      else checkRevokeTarget at target)"

text \<open>The two classes run the same checks around their targets.\<close>

definition newMutation :: "string \<Rightarrow> int \<Rightarrow> string \<Rightarrow> (string \<Rightarrow> string \<Rightarrow> jsval \<Rightarrow> unit result) \<Rightarrow> jsval \<Rightarrow> AccountDeviceMutation result" where
  "newMutation at version purpose validateTarget j =
     (let opId = getProp j ''opId''; revision = getProp j ''expectedRevision''; action = getProp j ''action'' in
      bindR (checkKind at version purpose j) (\<lambda>_.
      if \<not> isNonEmptyString opId then Inl (RezInvariantError (at @ ''.opId must be a non-empty string''))
      else bindR (requireCanonicalSpkiB64 (getProp j ''accountIdentityPublicKeyB64'') (at @ ''.accountIdentityPublicKeyB64'')) (\<lambda>account.
      if \<not> (isInteger revision \<and> intOf revision \<ge> 0) then Inl (RezInvariantError (at @ ''.expectedRevision must be a non-negative integer''))
      else if \<not> (isString action \<and> strOf action \<in> set ACCOUNT_DEVICE_MUTATION_ACTIONS)
      then Inl (RezInvariantError (at @ ''.action must be \"device.add\" or \"device.revoke\"''))
      else bindR (requireCanonicalSpkiB64 (getProp j ''signerPublicKeyB64'') (at @ ''.signerPublicKeyB64'')) (\<lambda>signer.
      bindR (checkWindow at (getProp j ''issuedAtMs'') (getProp j ''expiresAtMs'')) (\<lambda>(issued, expires).
      bindR (validateTarget account (strOf action) (getProp j ''target'')) (\<lambda>_.
      bindR (validateEd25519Sig (normalizeSig (getProp j ''sig'')) (at @ ''.sig'')) (\<lambda>sig.
        Inr \<lparr>adm_opId = strOf opId, adm_accountIdentityPublicKeyB64 = account, adm_expectedRevision = intOf revision, adm_action = strOf action,
             adm_target = getProp j ''target'', adm_signerPublicKeyB64 = signer, adm_issuedAtMs = issued, adm_expiresAtMs = expires,
             adm_sigB64 = sig\<rparr>)))))))"

definition newAccountDeviceMutationV1 :: "jsval \<Rightarrow> AccountDeviceMutation result" where
  "newAccountDeviceMutationV1 = newMutation ''AccountDeviceMutationV1'' 1 ACCOUNT_DEVICE_MUTATION_PURPOSE validateTargetV1"

definition newAccountDeviceMutationV2 :: "jsval \<Rightarrow> AccountDeviceMutation result" where
  "newAccountDeviceMutationV2 = newMutation ''AccountDeviceMutationV2'' 2 ACCOUNT_DEVICE_MUTATION_V2_PURPOSE validateTargetV2"

definition mutation_signableBytes :: "jsval \<Rightarrow> bytes" where
  "mutation_signableBytes = signableOf [''v'', ''purpose'', ''opId'', ''accountIdentityPublicKeyB64'', ''expectedRevision'', ''action'', ''target'',
     ''signerPublicKeyB64'', ''issuedAtMs'', ''expiresAtMs'']"

section \<open>AccountDeviceCapabilityRevokeV1\<close>

definition ACCOUNT_DEVICE_CAPABILITY_REVOKE_PURPOSE :: string where
  "ACCOUNT_DEVICE_CAPABILITY_REVOKE_PURPOSE = ''rez:account-device-capability-revoke:v1''"

record AccountDeviceCapabilityRevokeV1 =
  acr_accountIdentityPublicKeyB64 :: string
  acr_revokedCertId :: string
  acr_authorityEpoch :: int
  acr_issuedAtMs :: int
  acr_signerPublicKeyB64 :: string
  acr_sigB64 :: string

definition newAccountDeviceCapabilityRevokeV1 :: "jsval \<Rightarrow> AccountDeviceCapabilityRevokeV1 result" where
  "newAccountDeviceCapabilityRevokeV1 j =
     (let at = ''AccountDeviceCapabilityRevokeV1''; cert = getProp j ''revokedCertId''; epoch = getProp j ''authorityEpoch'' in
      bindR (checkKind at 1 ACCOUNT_DEVICE_CAPABILITY_REVOKE_PURPOSE j) (\<lambda>_.
      bindR (requireCanonicalSpkiB64 (getProp j ''accountIdentityPublicKeyB64'') (at @ ''.accountIdentityPublicKeyB64'')) (\<lambda>account.
      if \<not> isCanonicalAccountCapabilityCertId cert
      then Inl (RezInvariantError (at @ ''.revokedCertId must be a canonical rez:cap:<64-hex> id''))
      else if \<not> (isInteger epoch \<and> intOf epoch \<ge> 0) then Inl (RezInvariantError (at @ ''.authorityEpoch must be a non-negative integer''))
      else if \<not> isFiniteNumber (getProp j ''issuedAtMs'') then Inl (RezInvariantError (at @ ''.issuedAtMs must be number''))
      else bindR (requireCanonicalSpkiB64 (getProp j ''signerPublicKeyB64'') (at @ ''.signerPublicKeyB64'')) (\<lambda>signer.
      bindR (validateEd25519Sig (normalizeSig (getProp j ''sig'')) (at @ ''.sig'')) (\<lambda>sig.
        Inr \<lparr>acr_accountIdentityPublicKeyB64 = account, acr_revokedCertId = strOf cert, acr_authorityEpoch = intOf epoch,
             acr_issuedAtMs = intOf (getProp j ''issuedAtMs''), acr_signerPublicKeyB64 = signer, acr_sigB64 = sig\<rparr>)))))"

definition revoke_signableBytes :: "jsval \<Rightarrow> bytes" where
  "revoke_signableBytes = signableOf [''v'', ''purpose'', ''accountIdentityPublicKeyB64'', ''revokedCertId'', ''authorityEpoch'', ''issuedAtMs'', ''signerPublicKeyB64'']"

section \<open>DevicePrekeyBundleV1\<close>

definition DEVICE_PREKEY_BUNDLE_PURPOSE :: string where "DEVICE_PREKEY_BUNDLE_PURPOSE = ''rez:device-prekey-bundle:v1''"

record DevicePrekeyBundleV1 =
  dpb_accountIdentityPublicKeyB64 :: string
  dpb_devicePublicKeyB64 :: string
  dpb_deviceId :: string
  dpb_inboxId :: string
  dpb_prekeyVersion :: int
  dpb_bundleJson :: jsval
  dpb_issuedAtMs :: int
  dpb_expiresAtMs :: int
  dpb_sigB64 :: string

definition normalizeBundleJson :: "jsval \<Rightarrow> jsval" where
  "normalizeBundleJson b =
     (if \<not> truthy b \<or> \<not> typeofObject b then b
      else JObj (map (\<lambda>k. (k, getProp b k)) [''receiverId'', ''identitySigningPublicKeyB64'', ''identityDhPublicKeyB64'', ''identityDhSignatureB64'',
             ''signedPreKeyPublicB64'', ''signedPreKeySignatureB64'']
           @ map (\<lambda>k. (k, if isNullish (getProp b k) then JNull else getProp b k)) [''accountIdentityPublicKeyB64'', ''accountBindingSigB64'',
             ''accountBindingIssuedAtMs'', ''accountBindingExpiresAtMs'', ''oneTimePreKeyPublicB64'']))"

definition validateBundleJson :: "jsval \<Rightarrow> string \<Rightarrow> unit result" where
  "validateBundleJson b deviceKey =
     (let at = ''DevicePrekeyBundleV1.bundleJson''; b64 = (\<lambda>k. requireCanonicalB64 (getProp b k) (at @ ''.'' @ k) None) in
      if \<not> truthy b \<or> \<not> typeofObject b then Inl (RezInvariantError (at @ '' must be an object''))
      else bindR (requireCanonicalSpkiB64 (getProp b ''identitySigningPublicKeyB64'') (at @ ''.identitySigningPublicKeyB64'')) (\<lambda>identity.
      if identity \<noteq> deviceKey then Inl (RezInvariantError (at @ ''.identitySigningPublicKeyB64 must equal the bound device key''))
      else bindR (b64 ''identityDhPublicKeyB64'') (\<lambda>_. bindR (b64 ''identityDhSignatureB64'') (\<lambda>_.
        bindR (b64 ''signedPreKeyPublicB64'') (\<lambda>_. bindR (b64 ''signedPreKeySignatureB64'') (\<lambda>_.
        if isNullish (getProp b ''oneTimePreKeyPublicB64'') then Inr () else bindR (b64 ''oneTimePreKeyPublicB64'') (\<lambda>_. Inr ())))))))"

definition newDevicePrekeyBundleV1 :: "jsval \<Rightarrow> DevicePrekeyBundleV1 result" where
  "newDevicePrekeyBundleV1 j =
     (let at = ''DevicePrekeyBundleV1''; inbox = getProp j ''inboxId''; version = getProp j ''prekeyVersion'';
          b = normalizeBundleJson (getProp j ''bundleJson'') in
      bindR (checkKind at 1 DEVICE_PREKEY_BUNDLE_PURPOSE j) (\<lambda>_.
      bindR (requireCanonicalSpkiB64 (getProp j ''accountIdentityPublicKeyB64'') (at @ ''.accountIdentityPublicKeyB64'')) (\<lambda>account.
      bindR (requireCanonicalSpkiB64 (getProp j ''devicePublicKeyB64'') (at @ ''.devicePublicKeyB64'')) (\<lambda>key.
      bindR (checkDeviceId at ''deviceId'' ''devicePublicKeyB64'' (getProp j ''deviceId'') (getProp j ''devicePublicKeyB64'')) (\<lambda>did.
      if \<not> isNonEmptyString inbox then Inl (RezInvariantError (at @ ''.inboxId must be non-empty string''))
      else if \<not> (isInteger version \<and> intOf version \<ge> 1) then Inl (RezInvariantError (at @ ''.prekeyVersion must be a positive integer''))
      else bindR (validateBundleJson b key) (\<lambda>_.
      bindR (checkWindow at (getProp j ''issuedAtMs'') (getProp j ''expiresAtMs'')) (\<lambda>(issued, expires).
      bindR (validateEd25519Sig (normalizeSig (getProp j ''sig'')) (at @ ''.sig'')) (\<lambda>sig.
        Inr \<lparr>dpb_accountIdentityPublicKeyB64 = account, dpb_devicePublicKeyB64 = key, dpb_deviceId = did, dpb_inboxId = strOf inbox,
             dpb_prekeyVersion = intOf version, dpb_bundleJson = b, dpb_issuedAtMs = issued, dpb_expiresAtMs = expires, dpb_sigB64 = sig\<rparr>))))))))"

definition prekeyBundle_signableBytes :: "jsval \<Rightarrow> bytes" where
  "prekeyBundle_signableBytes j = signable (JObj (map (\<lambda>k. (k, getProp j k)) [''v'', ''purpose'', ''accountIdentityPublicKeyB64'', ''devicePublicKeyB64'',
       ''deviceId'', ''inboxId'', ''prekeyVersion'']
     @ [(''bundleJson'', normalizeBundleJson (getProp j ''bundleJson'')), (''issuedAtMs'', getProp j ''issuedAtMs''), (''expiresAtMs'', getProp j ''expiresAtMs'')]))"

section \<open>DeviceLinkRequestV1, frozen\<close>

definition DEVICE_LINK_REQUEST_PURPOSE :: string where "DEVICE_LINK_REQUEST_PURPOSE = ''rez:device-link-request:v1''"

record DeviceLinkRequestV1 =
  dl1_accountIdentityPublicKeyB64 :: string
  dl1_newDevicePublicKeyB64 :: string
  dl1_newDeviceId :: string
  dl1_ceremonyNonceB64 :: string
  dl1_issuedAtMs :: int
  dl1_expiresAtMs :: int
  dl1_sigB64 :: string

definition newDeviceLinkRequestV1 :: "jsval \<Rightarrow> DeviceLinkRequestV1 result" where
  "newDeviceLinkRequestV1 j =
     (let at = ''DeviceLinkRequestV1'' in
      bindR (checkKind at 1 DEVICE_LINK_REQUEST_PURPOSE j) (\<lambda>_.
      bindR (requireCanonicalSpkiB64 (getProp j ''accountIdentityPublicKeyB64'') (at @ ''.accountIdentityPublicKeyB64'')) (\<lambda>account.
      bindR (requireCanonicalSpkiB64 (getProp j ''newDevicePublicKeyB64'') (at @ ''.newDevicePublicKeyB64'')) (\<lambda>key.
      bindR (checkDeviceId at ''newDeviceId'' ''newDevicePublicKeyB64'' (getProp j ''newDeviceId'') (getProp j ''newDevicePublicKeyB64'')) (\<lambda>did.
      bindR (requireCanonicalB64 (getProp j ''ceremonyNonceB64'') (at @ ''.ceremonyNonceB64'') (Some 32)) (\<lambda>nonce.
      bindR (checkWindow at (getProp j ''issuedAtMs'') (getProp j ''expiresAtMs'')) (\<lambda>(issued, expires).
      bindR (validateEd25519Sig (normalizeSig (getProp j ''sig'')) (at @ ''.sig'')) (\<lambda>sig.
        Inr \<lparr>dl1_accountIdentityPublicKeyB64 = account, dl1_newDevicePublicKeyB64 = key, dl1_newDeviceId = did, dl1_ceremonyNonceB64 = nonce,
             dl1_issuedAtMs = issued, dl1_expiresAtMs = expires, dl1_sigB64 = sig\<rparr>))))))))"

definition linkRequestV1_signableBytes :: "jsval \<Rightarrow> bytes" where
  "linkRequestV1_signableBytes = signableOf [''v'', ''purpose'', ''accountIdentityPublicKeyB64'', ''newDevicePublicKeyB64'', ''newDeviceId'',
     ''ceremonyNonceB64'', ''issuedAtMs'', ''expiresAtMs'']"

section \<open>Registrations verify\<close>

lemma registration_bytes_sig [simp]:
  "registration_signableBytes (registration_toJSON (r\<lparr>reg_sigB64 := s\<rparr>)) = registration_signableBytes (registration_toJSON r)"
  by (simp add: registration_signableBytes_def signableOf_def registration_toJSON_def)

lemma spkiKey_text: "spkiKey s \<Longrightarrow> trim s \<noteq> [] \<and> s \<noteq> [] \<and> (\<exists>bs. base64ToBytes s = Inr bs)"
proof -
  assume "spkiKey s"
  then obtain bs where b: "s = bytesToBase64 bs" "length bs = ED25519_SPKI_LEN" by (auto simp: spkiKey_def)
  then have "bs \<noteq> []" by (auto simp: ED25519_SPKI_LEN_def)
  then have "trim s \<noteq> []" using base64_nonblank b(1) by simp
  then show ?thesis using b(1) b64.dec_enc by (auto simp: trim_def)
qed

lemma newRegistration_iff:
  "newDeviceRegistrationV1 (registration_toJSON r) = Inr r \<longleftrightarrow> spkiKey (reg_accountIdentityPublicKeyB64 r) \<and> spkiKey (reg_devicePublicKeyB64 r)
     \<and> reg_deviceId r = ''rez:dev:'' @ sha256Hex (reg_devicePublicKeyB64 r) \<and> reg_issuedAtMs r < reg_expiresAtMs r \<and> CANONICAL_B64 (reg_sigB64 r)"
  by (cases r) (auto simp: newDeviceRegistrationV1_def registration_toJSON_def checkKind_def record_checks Let_def)

text \<open>What a verified registration is: the exact conditions of \<open>RegAccepted\<close>.\<close>

lemma registration_accepted_iff:
  "verifyDeviceRegistrationV1 c json expected now = Inr (RegAccepted d) \<longleftrightarrow>
     (\<exists>account key t sg s k. getProp json ''accountIdentityPublicKeyB64'' = JStr account \<and> expected = JStr t \<and> trim t \<noteq> [] \<and> trim account = trim t \<and> account \<noteq> []
       \<and> getProp json ''v'' = JInt 1 \<and> getProp json ''purpose'' = JStr DEVICE_REGISTRATION_PURPOSE
       \<and> getProp json ''devicePublicKeyB64'' = JStr key \<and> spkiKey key \<and> d = ''rez:dev:'' @ sha256Hex key \<and> getProp json ''deviceId'' = JStr d
       \<and> getProp (getProp json ''sig'') ''alg'' = JStr ''ed25519'' \<and> getProp (getProp json ''sig'') ''sigB64'' = JStr sg
       \<and> base64ToBytes sg = Inr s \<and> s \<noteq> [] \<and> base64ToBytes account = Inr k
       \<and> verify c k (registration_signableBytes json) s = Inr True
       \<and> (\<exists>i. now = JInt i \<and> \<not> numLess (NInt i) (toNumber (getProp json ''issuedAtMs''))
            \<and> \<not> numGeq (NInt i) (toNumber (getProp json ''expiresAtMs''))))" (is "?L \<longleftrightarrow> ?R")
proof
  have obj: "truthy v \<and> typeofObject v" if "getProp v k \<noteq> JUndef" for v k using that by (cases v) auto
  assume ?R
  then obtain account key t sg s k i where r: "getProp json ''accountIdentityPublicKeyB64'' = JStr account" "expected = JStr t" "trim t \<noteq> []"
      "trim account = trim t" "account \<noteq> []" "getProp json ''v'' = JInt 1" "getProp json ''purpose'' = JStr DEVICE_REGISTRATION_PURPOSE"
      "getProp json ''devicePublicKeyB64'' = JStr key" "spkiKey key" "d = ''rez:dev:'' @ sha256Hex key" "getProp json ''deviceId'' = JStr d"
      "getProp (getProp json ''sig'') ''alg'' = JStr ''ed25519''" "getProp (getProp json ''sig'') ''sigB64'' = JStr sg"
      "base64ToBytes sg = Inr s" "s \<noteq> []" "base64ToBytes account = Inr k" "verify c k (registration_signableBytes json) s = Inr True"
      "now = JInt i" "\<not> numLess (NInt i) (toNumber (getProp json ''issuedAtMs''))" "\<not> numGeq (NInt i) (toNumber (getProp json ''expiresAtMs''))"
    by blast
  have o: "truthy json" "typeofObject json" using obj [of json "''v''"] r(6) by auto
  have o2: "truthy (getProp json ''sig'')" "typeofObject (getProp json ''sig'')" using obj [of "getProp json ''sig''" "''alg''"] r(12) by auto
  have id: "deviceIdFor (JStr key) = Inr d" using r(9,10) by (simp add: deviceIdFor_iff)
  show ?L using o o2 id spkiKey_text [OF r(9)] r
    by (simp add: verifyDeviceRegistrationV1_def registrationSignature_def Let_def del: getProp.simps)
next
  assume ?L
  then show ?R
    by (cases expected; cases now rule: isFiniteNumber.cases)
       (auto simp: verifyDeviceRegistrationV1_def registrationSignature_def Let_def result_simps deviceIdFor_iff
          split: if_splits sum.splits prod.splits elim!: isString.elims(2))
qed

text \<open>C20: A registration that the account's key signs is accepted by its constructor, and verifies exactly where it should: against the account
  that signed it, from its issue up to (not including) its expiry, yielding the identifier derived from the device's key; before and
  after, and against any other expected account, it is refused with that reason.\<close>

theorem registration_verifies:
  assumes "sign_lawful c kp" and "\<And>m. sign c (privateKey kp) m \<noteq> Inr []"
    and "spkiKey (bytesToBase64 (publicKey kp))" and "spkiKey key" and "issued < expires"
  defines "draft \<equiv> \<lparr>reg_accountIdentityPublicKeyB64 = bytesToBase64 (publicKey kp), reg_devicePublicKeyB64 = key,
      reg_deviceId = ''rez:dev:'' @ sha256Hex key, reg_issuedAtMs = issued, reg_expiresAtMs = expires, reg_sigB64 = []\<rparr>"
  shows "\<exists>sig. sign c (privateKey kp) (registration_signableBytes (registration_toJSON draft)) = Inr sig
    \<and> (let r = draft\<lparr>reg_sigB64 := bytesToBase64 sig\<rparr> in
        newDeviceRegistrationV1 (registration_toJSON r) = Inr r
      \<and> (\<forall>expected now. trim expected \<noteq> [] \<longrightarrow>
           verifyDeviceRegistrationV1 c (registration_toJSON r) (JStr expected) (JInt now) =
             Inr (if trim expected \<noteq> trim (bytesToBase64 (publicKey kp)) then RegRefused ''account mismatch (not the expected account)''
                  else if now < issued then RegRefused ''not yet valid''
                  else if expires \<le> now then RegRefused ''expired''
                  else RegAccepted (''rez:dev:'' @ sha256Hex key))))"
proof -
  obtain sig where sig: "sign c (privateKey kp) (registration_signableBytes (registration_toJSON draft)) = Inr sig"
      "verify c (publicKey kp) (registration_signableBytes (registration_toJSON draft)) sig = Inr True"
    using assms(1) unfolding sign_lawful_def by blast
  then have ne: "sig \<noteq> []" using assms(2) by auto
  let ?r = "draft\<lparr>reg_sigB64 := bytesToBase64 sig\<rparr>"
  have new: "newDeviceRegistrationV1 (registration_toJSON ?r) = Inr ?r"
    using assms(3-5) CANONICAL_B64_enc [OF ne] by (simp add: newRegistration_iff draft_def)
  have ver: "verify c (publicKey kp) (registration_signableBytes (registration_toJSON ?r)) sig = Inr True" using sig(2) by simp
  have acc: "bytesToBase64 (publicKey kp) \<noteq> []" "key \<noteq> []" using spkiKey_text [OF assms(3)] spkiKey_text [OF assms(4)] by auto
  have did: "deviceIdFor (JStr key) = Inr (''rez:dev:'' @ sha256Hex key)" using assms(4) by (simp add: deviceIdFor_iff)
  have fields: "getProp (registration_toJSON ?r) ''v'' = JInt 1" "getProp (registration_toJSON ?r) ''purpose'' = JStr DEVICE_REGISTRATION_PURPOSE"
      "getProp (registration_toJSON ?r) ''accountIdentityPublicKeyB64'' = JStr (bytesToBase64 (publicKey kp))"
      "getProp (registration_toJSON ?r) ''devicePublicKeyB64'' = JStr key" "getProp (registration_toJSON ?r) ''deviceId'' = JStr (''rez:dev:'' @ sha256Hex key)"
      "getProp (registration_toJSON ?r) ''issuedAtMs'' = JInt issued" "getProp (registration_toJSON ?r) ''expiresAtMs'' = JInt expires"
      "getProp (registration_toJSON ?r) ''sig'' = sigJSON (bytesToBase64 sig)"
    by (simp_all add: registration_toJSON_def draft_def)
  have obj: "truthy (registration_toJSON ?r)" "typeofObject (registration_toJSON ?r)" by (simp_all add: registration_toJSON_def)
  have sigv: "registrationSignature c (registration_toJSON ?r) now =
      Inr (if now < issued then RegRefused ''not yet valid'' else if expires \<le> now then RegRefused ''expired''
           else RegAccepted (''rez:dev:'' @ sha256Hex key))" for now
    using ver ne by (simp add: registrationSignature_def fields b64.dec_enc Let_def numGeq_def not_less del: getProp.simps)
  have "verifyDeviceRegistrationV1 c (registration_toJSON ?r) (JStr expected) (JInt now) =
             Inr (if trim expected \<noteq> trim (bytesToBase64 (publicKey kp)) then RegRefused ''account mismatch (not the expected account)''
                  else if now < issued then RegRefused ''not yet valid''
                  else if expires \<le> now then RegRefused ''expired''
                  else RegAccepted (''rez:dev:'' @ sha256Hex key))" if "trim expected \<noteq> []" for expected now
    using that acc did sigv [of now] obj by (simp add: verifyDeviceRegistrationV1_def fields Let_def del: getProp.simps)
  then show ?thesis unfolding Let_def by (intro exI [of _ sig] conjI allI impI sig(1) new)
qed

definition demo_account_pair :: key_pair where
  "demo_account_pair = (let k = [0x30, 0x2a, 0x30, 0x05, 0x06, 0x03, 0x2b, 0x65, 0x70, 0x03, 0x21, 0x00] @ replicate 32 1 in \<lparr>publicKey = k, privateKey = k\<rparr>)"

lemma demo_account_signs:
  "sign_lawful demo_crypto demo_account_pair" "sign demo_crypto (privateKey demo_account_pair) m \<noteq> Inr []"
  "bytesToBase64 (publicKey demo_account_pair) = demo_spki 1"
  by (simp_all add: demo_account_pair_def Let_def sign_lawful_def demo_spki_def)

theorem registration_verifies_witness:
  "\<exists>r. verifyDeviceRegistrationV1 demo_crypto (registration_toJSON r) (JStr (demo_spki 1)) (JInt 50) = Inr (RegAccepted (''rez:dev:'' @ sha256Hex (demo_spki 2)))
     \<and> verifyDeviceRegistrationV1 demo_crypto (registration_toJSON r) (JStr (demo_spki 1)) (JInt 90) = Inr (RegRefused ''expired'')"
proof -
  have k: "spkiKey (bytesToBase64 (publicKey demo_account_pair))" by (simp add: demo_account_signs(3))
  note reg = registration_verifies [OF demo_account_signs(1,2) k spkiKey_demo [of 2], of 10 90, unfolded demo_account_signs(3) Let_def]
  then obtain r where "\<forall>expected now. trim expected \<noteq> [] \<longrightarrow>
      verifyDeviceRegistrationV1 demo_crypto (registration_toJSON r) (JStr expected) (JInt now) =
        Inr (if trim expected \<noteq> trim (demo_spki 1) then RegRefused ''account mismatch (not the expected account)''
             else if now < 10 then RegRefused ''not yet valid'' else if 90 \<le> now then RegRefused ''expired''
             else RegAccepted (''rez:dev:'' @ sha256Hex (demo_spki 2)))" by auto
  then show ?thesis using spki_nonblank by (intro exI [of _ r]) simp
qed

text \<open>
  The verification takes any JSON, and a bound it does not carry bounds nothing: what the account signs without an expiry is
  accepted at every later time.
\<close>

lemma registration_without_expiry:
  assumes "sign_lawful c kp" "\<And>m. sign c (privateKey kp) m \<noteq> Inr []" "spkiKey (bytesToBase64 (publicKey kp))" "spkiKey key"
  defines "body \<equiv> [(''v'', JInt 1), (''purpose'', JStr DEVICE_REGISTRATION_PURPOSE), (''accountIdentityPublicKeyB64'', JStr (bytesToBase64 (publicKey kp))),
     (''devicePublicKeyB64'', JStr key), (''deviceId'', JStr (''rez:dev:'' @ sha256Hex key))]"
  shows "\<exists>sg. \<forall>now. verifyDeviceRegistrationV1 c (JObj (body @ [(''sig'', sigJSON sg)])) (JStr (bytesToBase64 (publicKey kp))) (JInt now)
     = Inr (RegAccepted (''rez:dev:'' @ sha256Hex key))"
proof -
  let ?j = "\<lambda>sg. JObj (body @ [(''sig'', sigJSON sg)])"
  have same: "registration_signableBytes (?j x) = registration_signableBytes (?j y)" for x y
    by (simp add: registration_signableBytes_def signableOf_def body_def)
  obtain sig where sig: "sign c (privateKey kp) (registration_signableBytes (?j [])) = Inr sig"
      "verify c (publicKey kp) (registration_signableBytes (?j [])) sig = Inr True"
    using assms(1) unfolding sign_lawful_def by blast
  then have ne: "sig \<noteq> []" using assms(2) by auto
  have v: "verify c (publicKey kp) (registration_signableBytes (?j (bytesToBase64 sig))) sig = Inr True"
    using sig(2) same [of "[]" "bytesToBase64 sig"] by simp
  have "registrationSignature c (?j (bytesToBase64 sig)) now = Inr (RegAccepted (''rez:dev:'' @ sha256Hex key))" for now
    using v ne unfolding body_def by (simp add: registrationSignature_def b64.dec_enc Let_def numGeq_def)
  moreover have "deviceIdFor (JStr key) = Inr (''rez:dev:'' @ sha256Hex key)" using assms(4) by (simp add: deviceIdFor_iff)
  ultimately have "verifyDeviceRegistrationV1 c (?j (bytesToBase64 sig)) (JStr (bytesToBase64 (publicKey kp))) (JInt now)
     = Inr (RegAccepted (''rez:dev:'' @ sha256Hex key))" for now
    using spkiKey_text [OF assms(3)] spkiKey_text [OF assms(4)] unfolding body_def
    by (simp add: verifyDeviceRegistrationV1_def Let_def)
  then show ?thesis by blast
qed

section \<open>Mutations name one device\<close>

text \<open>C19: A mutation that its second-version constructor accepts asks for one thing about one device. To add a device it carries a binding signed
  for it and a certificate granting that same device, for the mutation's own account, both with identifiers derived from
  their contents; to revoke one it names a device by a canonical identifier, and a certificate, if any, by one. Its keys are
  well formed and its window is not empty.\<close>

theorem device_mutation_checked:
  assumes "newAccountDeviceMutationV2 j = Inr m"
  shows "spkiKey (adm_accountIdentityPublicKeyB64 m) \<and> spkiKey (adm_signerPublicKeyB64 m) \<and> 0 \<le> adm_expectedRevision m \<and> adm_issuedAtMs m < adm_expiresAtMs m
    \<and> (adm_action m = ''device.add'' \<and> (\<exists>b cap. newDeviceInboxBindingV1 (getProp (adm_target m) ''deviceInboxBinding'') = Inr b
           \<and> newAccountDeviceCapabilityV1 (getProp (adm_target m) ''deviceCapability'') = Inr cap
           \<and> dib_deviceId b = ''rez:dev:'' @ sha256Hex (dib_devicePublicKeyB64 b) \<and> granteeDeviceId cap = dib_deviceId b
           \<and> accountIdentityPublicKeyB64 cap = adm_accountIdentityPublicKeyB64 m \<and> certId cap = capability_deriveCertId cap)
      \<or> adm_action m = ''device.revoke'' \<and> (\<exists>d. getProp (adm_target m) ''revokedDeviceId'' = JStr d \<and> hex64Id ''rez:dev:'' d)
           \<and> (isNullish (getProp (adm_target m) ''revokedCertId'')
              \<or> (\<exists>i. getProp (adm_target m) ''revokedCertId'' = JStr i \<and> hex64Id ''rez:cap:'' i)))"
proof -
  let ?account = "adm_accountIdentityPublicKeyB64 m"
  have m: "spkiKey ?account" "spkiKey (adm_signerPublicKeyB64 m)" "0 \<le> adm_expectedRevision m" "adm_issuedAtMs m < adm_expiresAtMs m"
      "adm_action m \<in> set ACCOUNT_DEVICE_MUTATION_ACTIONS" "validateTargetV2 ?account (adm_action m) (adm_target m) = Inr ()"
    using assms by (auto simp: newAccountDeviceMutationV2_def newMutation_def Let_def record_checks split: if_splits)
  have str: "isString v \<Longrightarrow> \<exists>s. v = JStr s" for v by (cases v) auto
  have empty: "newDeviceInboxBindingV1 (JObj []) \<noteq> Inr b" "newAccountDeviceCapabilityV1 (JObj []) \<noteq> Inr cap" for b cap
    by (auto simp: newDeviceInboxBindingV1_def newAccountDeviceCapabilityV1_def Let_def record_checks)
  show ?thesis
  proof (cases "adm_action m = ''device.add''")
    case True
    then obtain b cap where "addedBinding ''AccountDeviceMutationV2'' (adm_target m) = Inr b"
        "addedCapability ''AccountDeviceMutationV2'' ?account b (adm_target m) = Inr cap"
      using m(6) by (auto simp: validateTargetV2_def Let_def result_simps split: if_splits)
    then have bc: "newDeviceInboxBindingV1 (getProp (adm_target m) ''deviceInboxBinding'') = Inr b"
        "newAccountDeviceCapabilityV1 (getProp (adm_target m) ''deviceCapability'') = Inr cap"
        "granteeDeviceId cap = dib_deviceId b" "accountIdentityPublicKeyB64 cap = ?account"
      using empty by (auto simp: addedBinding_def addedCapability_def objectOrEmpty_def split: sum.splits if_splits)
    have "dib_deviceId b = ''rez:dev:'' @ sha256Hex (dib_devicePublicKeyB64 b)"
      using bc(1) by (auto simp: newDeviceInboxBindingV1_def Let_def record_checks split: if_splits)
    with bc newCapability_ok [OF bc(2)] m(1-4) True show ?thesis by (auto simp: capability_ok_def)
  next
    case False
    then have "adm_action m = ''device.revoke''" using m(5) by (auto simp: ACCOUNT_DEVICE_MUTATION_ACTIONS_def)
    moreover have "checkRevokeTarget ''AccountDeviceMutationV2'' (adm_target m) = Inr ()"
      using False m(6) by (auto simp: validateTargetV2_def Let_def split: if_splits)
    ultimately show ?thesis using m(1-4) str
      by (fastforce simp: checkRevokeTarget_def Let_def isCanonicalDeviceId_def isCanonicalAccountCapabilityCertId_def split: if_splits)
  qed
qed

definition demo_bindingJson :: jsval where
  "demo_bindingJson = JObj [(''devicePublicKeyB64'', JStr (demo_spki 2)), (''deviceId'', JStr (''rez:dev:'' @ sha256Hex (demo_spki 2))),
     (''inboxId'', JStr ''inbox:a''), (''issuedAtMs'', JInt 1), (''expiresAtMs'', JInt 9), (''sig'', sigJSON ''AAAA'')]"

definition demo_addDevice :: jsval where
  "demo_addDevice = JObj [(''opId'', JStr ''op1''), (''accountIdentityPublicKeyB64'', JStr (demo_spki 1)), (''expectedRevision'', JInt 0),
     (''action'', JStr ''device.add''), (''target'', JObj [(''deviceInboxBinding'', demo_bindingJson), (''deviceCapability'', capability_toJSON demo_root)]),
     (''signerPublicKeyB64'', JStr (demo_spki 1)), (''issuedAtMs'', JInt 10), (''expiresAtMs'', JInt 20), (''sig'', sigJSON ''AAAA'')]"

lemma demo_addDevice_accepted: "\<exists>m. newAccountDeviceMutationV2 demo_addDevice = Inr m \<and> adm_action m = ''device.add''"
proof -
  have sig: "validateEd25519Sig (normalizeSig (sigJSON ''AAAA'')) l = Inr ''AAAA''" for l
    by (simp add: validateSig_iff CANONICAL_B64_def B64_ALPHABET_def)
  have spki: "requireCanonicalSpkiB64 (JStr (demo_spki b)) l = Inr (demo_spki b)" for b l by (simp add: requireSpki_iff)
  obtain did where d: "did = ''rez:dev:'' @ sha256Hex (demo_spki 2)" by blast
  have did: "checkDeviceId at f g (JStr did) (JStr (demo_spki 2)) = Inr did" for at f g using d by (auto simp: checkDeviceId_iff)
  have win: "checkWindow at (JInt a) (JInt b) = Inr (a, b)" if "a < b" for at a b using that by (simp add: checkWindow_iff)
  have ne: "isNonEmptyString (JStr ''inbox:a'')" "isNonEmptyString (JStr ''op1'')" by code_simp+
  have did_ne: "isNonEmptyString (JStr did)" unfolding d by (simp add: trim_eq_Nil isSpace_def)
  have b: "newDeviceInboxBindingV1 demo_bindingJson = Inr \<lparr>dib_devicePublicKeyB64 = demo_spki 2, dib_deviceId = did, dib_inboxId = ''inbox:a'',
      dib_issuedAtMs = 1, dib_expiresAtMs = 9, dib_sigB64 = ''AAAA''\<rparr>"
    unfolding demo_bindingJson_def d [symmetric] using ne by (simp add: newDeviceInboxBindingV1_def Let_def spki did win sig del: isNonEmptyString.simps)
  have cap: "newAccountDeviceCapabilityV1 (capability_toJSON demo_root) = Inr demo_root" by (rule capability_json_roundtrip [OF demo_ok])
  have root: "granteeDeviceId demo_root = did" "accountIdentityPublicKeyB64 demo_root = demo_spki 1" by (simp_all add: demo_root_def d)
  have obj: "objectOrEmpty demo_bindingJson = demo_bindingJson" "objectOrEmpty (capability_toJSON demo_root) = capability_toJSON demo_root"
    by (simp_all add: objectOrEmpty_def demo_bindingJson_def capability_toJSON_def capability_coreBody_def)
  have "validateTargetV2 (demo_spki 1) ''device.add'' (JObj [(''deviceInboxBinding'', demo_bindingJson), (''deviceCapability'', capability_toJSON demo_root)]) = Inr ()"
    using did_ne by (simp add: validateTargetV2_def Let_def addedBinding_def addedCapability_def obj b cap root del: isNonEmptyString.simps)
  then show ?thesis
    using ne by (simp add: newAccountDeviceMutationV2_def newMutation_def Let_def demo_addDevice_def checkKind_def spki win sig
        ACCOUNT_DEVICE_MUTATION_ACTIONS_def del: isNonEmptyString.simps)
qed

theorem device_mutation_checked_witness:
  "\<exists>m cap. newAccountDeviceMutationV2 demo_addDevice = Inr m \<and> adm_action m = ''device.add''
     \<and> newAccountDeviceCapabilityV1 (getProp (adm_target m) ''deviceCapability'') = Inr cap
     \<and> accountIdentityPublicKeyB64 cap = adm_accountIdentityPublicKeyB64 m"
proof -
  obtain m where m: "newAccountDeviceMutationV2 demo_addDevice = Inr m" "adm_action m = ''device.add''" using demo_addDevice_accepted by blast
  with device_mutation_checked [OF m(1)] show ?thesis by auto
qed

section \<open>Device sets\<close>

definition deviceSet_toJSON :: "DeviceSetRecordV1 \<Rightarrow> jsval" where
  "deviceSet_toJSON r = JObj [(''v'', JInt 1), (''purpose'', JStr DEVICE_SET_PURPOSE),
     (''accountIdentityPublicKeyB64'', JStr (dsr_accountIdentityPublicKeyB64 r)), (''revision'', JInt (dsr_revision r)),
     (''devices'', JArr (map (\<lambda>e. JObj [(''deviceId'', JStr (de_deviceId e)), (''devicePublicKeyB64'', JStr (de_devicePublicKeyB64 e)),
        (''inboxId'', JStr (de_inboxId e))]) (dsr_devices r))),
     (''issuedAtMs'', JInt (dsr_issuedAtMs r)), (''expiresAtMs'', JInt (dsr_expiresAtMs r)), (''sig'', sigJSON (dsr_sigB64 r))]"

definition deviceEntry_ok :: "DeviceEntry \<Rightarrow> bool" where
  "deviceEntry_ok e \<longleftrightarrow> spkiKey (de_devicePublicKeyB64 e) \<and> de_deviceId e = ''rez:dev:'' @ sha256Hex (de_devicePublicKeyB64 e) \<and> trim (de_inboxId e) \<noteq> []"

definition deviceSet_ok :: "DeviceSetRecordV1 \<Rightarrow> bool" where
  "deviceSet_ok r \<longleftrightarrow> spkiKey (dsr_accountIdentityPublicKeyB64 r) \<and> 1 \<le> dsr_revision r \<and> dsr_devices r \<noteq> []
     \<and> list_all deviceEntry_ok (dsr_devices r) \<and> distinct (map de_deviceId (dsr_devices r))
     \<and> dsr_issuedAtMs r < dsr_expiresAtMs r \<and> CANONICAL_B64 (dsr_sigB64 r)"

lemma isNonEmptyString_iff: "isNonEmptyString v \<longleftrightarrow> (\<exists>s. v = JStr s \<and> trim s \<noteq> [])"
  by (cases v) auto

lemma checkDevices_sound:
  "checkDevices i seen ds = Inr es \<Longrightarrow> length es = length ds \<and> list_all deviceEntry_ok es \<and> distinct (map de_deviceId es)
     \<and> set (map de_deviceId es) \<inter> set seen = {}"
proof (induction ds arbitrary: i seen es)
  case (Cons d ds)
  then obtain key did rest s where r: "spkiKey key" "did = ''rez:dev:'' @ sha256Hex key" "getProp d ''inboxId'' = JStr s" "trim s \<noteq> []"
      "did \<notin> set seen" "checkDevices (i + 1) (did # seen) ds = Inr rest"
      "es = \<lparr>de_deviceId = did, de_devicePublicKeyB64 = key, de_inboxId = s\<rparr> # rest"
    by (auto simp: Let_def record_checks isNonEmptyString_iff split: if_splits simp del: isNonEmptyString.simps)
  with Cons.IH [OF r(6)] show ?case by (auto simp: deviceEntry_ok_def)
qed simp

lemma checkDevices_complete:
  "list_all deviceEntry_ok es \<Longrightarrow> distinct (map de_deviceId es) \<Longrightarrow> set (map de_deviceId es) \<inter> set seen = {}
   \<Longrightarrow> checkDevices i seen (map (\<lambda>e. JObj [(''deviceId'', JStr (de_deviceId e)), (''devicePublicKeyB64'', JStr (de_devicePublicKeyB64 e)),
        (''inboxId'', JStr (de_inboxId e))]) es) = Inr es"
proof (induction es arbitrary: i seen)
  case (Cons e es)
  have "requireCanonicalSpkiB64 (JStr (de_devicePublicKeyB64 e)) l = Inr (de_devicePublicKeyB64 e)" for l
    using Cons.prems(1) by (simp add: requireSpki_iff deviceEntry_ok_def)
  moreover have "checkDeviceId at f k (JStr (de_deviceId e)) (JStr (de_devicePublicKeyB64 e)) = Inr (de_deviceId e)" for at f k
    using Cons.prems(1) by (simp add: checkDeviceId_iff deviceEntry_ok_def)
  moreover have "trim (de_inboxId e) \<noteq> []" using Cons.prems(1) by (simp add: deviceEntry_ok_def)
  ultimately show ?case using Cons by (cases e) (simp add: Let_def)
qed simp

text \<open>C30: The device sets that are accepted are exactly the well-formed ones: an account key and a positive revision, at least one device,
  every device with the identifier that its own key derives and an inbox, no device twice, a window that is not empty and a
  signature. Each of them is accepted from its own JSON.\<close>

theorem device_set_exact:
  "(\<exists>j. newDeviceSetRecordV1 j = Inr r) = deviceSet_ok r
   \<and> (newDeviceSetRecordV1 (deviceSet_toJSON r) = Inr r) = deviceSet_ok r"
proof -
  have sound: "deviceSet_ok r" if new: "newDeviceSetRecordV1 j = Inr r" for j
  proof -
    obtain ds where "checkDevices 0 [] (normalizeDevices (getProp j ''devices'')) = Inr ds" "normalizeDevices (getProp j ''devices'') \<noteq> []" "dsr_devices r = ds"
      using new by (auto simp: newDeviceSetRecordV1_def Let_def record_checks split: if_splits)
    with checkDevices_sound [OF this(1)] have "dsr_devices r \<noteq> []" "list_all deviceEntry_ok (dsr_devices r)" "distinct (map de_deviceId (dsr_devices r))"
      by auto
    with new show ?thesis by (auto simp: newDeviceSetRecordV1_def Let_def record_checks deviceSet_ok_def split: if_splits)
  qed
  have complete: "newDeviceSetRecordV1 (deviceSet_toJSON r) = Inr r" if ok: "deviceSet_ok r"
  proof -
    let ?ds = "map (\<lambda>e. JObj [(''deviceId'', JStr (de_deviceId e)), (''devicePublicKeyB64'', JStr (de_devicePublicKeyB64 e)), (''inboxId'', JStr (de_inboxId e))]) (dsr_devices r)"
    have n: "normalizeDevices (JArr ?ds) = ?ds" by (simp add: normalizeDevices_def comp_def)
    have "checkDevices 0 [] ?ds = Inr (dsr_devices r)" using ok by (intro checkDevices_complete) (simp_all add: deviceSet_ok_def)
    moreover have "requireCanonicalSpkiB64 (JStr (dsr_accountIdentityPublicKeyB64 r)) l = Inr (dsr_accountIdentityPublicKeyB64 r)" for l
      using ok by (simp add: requireSpki_iff deviceSet_ok_def)
    moreover have "checkWindow at (JInt (dsr_issuedAtMs r)) (JInt (dsr_expiresAtMs r)) = Inr (dsr_issuedAtMs r, dsr_expiresAtMs r)" for at
      using ok by (simp add: checkWindow_iff deviceSet_ok_def)
    moreover have "validateEd25519Sig (normalizeSig (sigJSON (dsr_sigB64 r))) l = Inr (dsr_sigB64 r)" for l
      using ok by (simp add: validateSig_iff deviceSet_ok_def)
    ultimately show ?thesis using ok n
      by (cases r) (simp add: newDeviceSetRecordV1_def deviceSet_toJSON_def checkKind_def Let_def deviceSet_ok_def)
  qed
  show ?thesis using sound complete by blast
qed

end
