(* ===== verification/Inbox_Records.thy ===== *)
theory Inbox_Records
  imports Account_Authority "HOL-Library.Multiset"
begin

text \<open>
  The signed records of an inbox (\<^verbatim>\<open>src/objects/inbox\<close>): the claimant's deposit policy that a relay enforces, the terminal close
  signed by the inbox's close key, and the payloads of claims and leases. The private key and the provider are arguments of the
  type the sources check them for.
\<close>

section \<open>DepositPolicyV1\<close>

record DepositPolicyV1 =
  dp_inboxId :: string
  dp_policyVersion :: int
  dp_blockedDepositorPubkeys :: "string list"
  dp_allowedDepositorPubkeys :: "string list"
  dp_issuedAtMs :: int
  dp_expiresAtMs :: int
  dp_claimantPublicKeyB64 :: string
  dp_signatureB64 :: string

definition pubkeyList :: "jsval list \<Rightarrow> string \<Rightarrow> string list result" where
  "pubkeyList xs field =
     (if list_all isNonEmptyString xs then Inr (map strOf xs)
      else Inl (RezInvariantError (''DepositPolicyV1.'' @ field @ '' entries must be non-empty strings'')))"

definition newDepositPolicyV1 :: "jsval \<Rightarrow> DepositPolicyV1 result" where
  "newDepositPolicyV1 j =
     (let fail = (\<lambda>m. Inl (RezInvariantError (''DepositPolicyV1.'' @ m))); version = getProp j ''policyVersion'';
          issued = getProp j ''issuedAtMs''; expires = getProp j ''expiresAtMs'' in
      if dflt (getProp j ''v'') (JInt 1) \<noteq> JInt 1 then fail ''v must be 1''
      else if \<not> isNonEmptyString (getProp j ''inboxId'') then fail ''inboxId must be non-empty string''
      else if \<not> (isInteger version \<and> intOf version \<ge> 1) then fail ''policyVersion must be positive integer''
      else case dflt (getProp j ''blockedDepositorPubkeys'') (JArr []) of
        JArr blocked \<Rightarrow> (case dflt (getProp j ''allowedDepositorPubkeys'') (JArr []) of
            JArr allowed \<Rightarrow>
              bindR (pubkeyList blocked ''blockedDepositorPubkeys'') (\<lambda>bs.
              bindR (pubkeyList allowed ''allowedDepositorPubkeys'') (\<lambda>as.
              if \<not> (isFiniteNumber issued \<and> intOf issued > 0) then fail ''issuedAtMs must be positive''
              else if \<not> (isFiniteNumber expires \<and> intOf expires > intOf issued) then fail ''expiresAtMs must be > issuedAtMs''
              else if \<not> isNonEmptyString (getProp j ''claimantPublicKeyB64'') then fail ''claimantPublicKeyB64 must be non-empty string''
              else if \<not> isNonEmptyString (getProp j ''signatureB64'') then fail ''signatureB64 must be non-empty string''
              else Inr \<lparr>dp_inboxId = strOf (getProp j ''inboxId''), dp_policyVersion = intOf version, dp_blockedDepositorPubkeys = bs,
                   dp_allowedDepositorPubkeys = as, dp_issuedAtMs = intOf issued, dp_expiresAtMs = intOf expires,
                   dp_claimantPublicKeyB64 = strOf (getProp j ''claimantPublicKeyB64''), dp_signatureB64 = strOf (getProp j ''signatureB64'')\<rparr>))
          | _ \<Rightarrow> fail ''allowedDepositorPubkeys must be array'')
      | _ \<Rightarrow> fail ''blockedDepositorPubkeys must be array'')"

definition depositPolicy_isExpired :: "DepositPolicyV1 \<Rightarrow> int \<Rightarrow> bool" where
  "depositPolicy_isExpired p now \<longleftrightarrow> now \<ge> dp_expiresAtMs p"

definition requiresDepositorIdentity :: "DepositPolicyV1 \<Rightarrow> bool" where
  "requiresDepositorIdentity p \<longleftrightarrow> 0 < length (dp_blockedDepositorPubkeys p) \<or> 0 < length (dp_allowedDepositorPubkeys p)"

definition isDepositorBlocked :: "DepositPolicyV1 \<Rightarrow> jsval \<Rightarrow> bool" where
  "isDepositorBlocked p depositor =
     (case depositor of
        JStr d \<Rightarrow> if d = [] then False
          else if d \<in> set (dp_blockedDepositorPubkeys p) then True
          else if 0 < length (dp_allowedDepositorPubkeys p) \<and> d \<notin> set (dp_allowedDepositorPubkeys p) then True
          else False
      | _ \<Rightarrow> False)"

definition depositPolicy_toJSON :: "DepositPolicyV1 \<Rightarrow> jsval" where
  "depositPolicy_toJSON p = JObj [(''v'', JInt 1), (''inboxId'', JStr (dp_inboxId p)), (''policyVersion'', JInt (dp_policyVersion p)),
     (''blockedDepositorPubkeys'', JArr (map JStr (dp_blockedDepositorPubkeys p))),
     (''allowedDepositorPubkeys'', JArr (map JStr (dp_allowedDepositorPubkeys p))),
     (''issuedAtMs'', JInt (dp_issuedAtMs p)), (''expiresAtMs'', JInt (dp_expiresAtMs p)),
     (''claimantPublicKeyB64'', JStr (dp_claimantPublicKeyB64 p)), (''signatureB64'', JStr (dp_signatureB64 p))]"

definition depositPolicy_fromJSON :: "jsval \<Rightarrow> DepositPolicyV1 result" where
  "depositPolicy_fromJSON json =
     (if \<not> truthy json \<or> \<not> typeofObject json then Inl (Error ''DepositPolicyV1.fromJSON requires object'') else newDepositPolicyV1 json)"

text \<open>\<^verbatim>\<open>[...(value || [])].sort()\<close>: the elements of an iterable, ordered by their text, undefined last.\<close>

fun spreadValues :: "jsval \<Rightarrow> jsval list result" where
  "spreadValues (JArr xs) = Inr xs"
| "spreadValues (JStr s) = Inr (map (\<lambda>ch. JStr [ch]) s)"
| "spreadValues (JBytes bs) = Inr (map (\<lambda>b. JInt (uint b)) bs)"
| "spreadValues _ = Inl (TypeError ''object is not iterable'')"

definition sortDefault :: "jsval list \<Rightarrow> jsval list" where
  "sortDefault xs = sort_key toStr (filter (\<lambda>x. x \<noteq> JUndef) xs) @ filter (\<lambda>x. x = JUndef) xs"

definition spreadSorted :: "jsval \<Rightarrow> jsval result" where
  "spreadSorted v = bindR (spreadValues (if truthy v then v else JArr [])) (\<lambda>xs. Inr (JArr (sortDefault xs)))"

definition depositPolicyBody :: "jsval \<Rightarrow> jsval \<Rightarrow> jsval \<Rightarrow> jsval" where
  "depositPolicyBody j blocked allowed = JObj [(''kind'', JStr ''inbox-deposit-policy''), (''inboxId'', getProp j ''inboxId''),
     (''policyVersion'', getProp j ''policyVersion''), (''blockedDepositorPubkeys'', blocked), (''allowedDepositorPubkeys'', allowed),
     (''issuedAtMs'', getProp j ''issuedAtMs''), (''expiresAtMs'', getProp j ''expiresAtMs'')]"

definition canonicalDepositPolicyBytes :: "jsval \<Rightarrow> bytes result" where
  "canonicalDepositPolicyBytes j =
     bindR (spreadSorted (getProp j ''blockedDepositorPubkeys'')) (\<lambda>blocked.
     bindR (spreadSorted (getProp j ''allowedDepositorPubkeys'')) (\<lambda>allowed. Inr (signable (depositPolicyBody j blocked allowed))))"

text \<open>Signing a message and checking the pair of keys before use, as both signers do.\<close>

definition signChecked :: "crypto_provider \<Rightarrow> string \<Rightarrow> jsval \<Rightarrow> bytes \<Rightarrow> bytes \<Rightarrow> bytes result" where
  "signChecked c mismatch publicKeyB64 signingKey msg =
     bindR (sign c signingKey msg) (\<lambda>sig.
     bindR (case publicKeyB64 of JStr s \<Rightarrow> base64ToBytes s | _ \<Rightarrow> Inl (Error ''base64ToBytes(base64) requires string'')) (\<lambda>pub.
     bindR (verify c pub msg sig) (\<lambda>ok. if \<not> ok then Inl (Error mismatch) else Inr sig)))"

text \<open>The destructured arguments of a signer, with their defaults, and the signature added.\<close>

definition withSignature :: "string list \<Rightarrow> jsval \<Rightarrow> bytes \<Rightarrow> jsval" where
  "withSignature names args sig = JObj (map (\<lambda>k. (k, getProp args k)) names @ [(''signatureB64'', JStr (bytesToBase64 sig))])"

definition signDepositPolicy :: "crypto_provider \<Rightarrow> jsval \<Rightarrow> bytes \<Rightarrow> DepositPolicyV1 result" where
  "signDepositPolicy c args signingKey =
     bindR (canonicalDepositPolicyBytes args) (\<lambda>msg.
     bindR (signChecked c ''signDepositPolicy: signingPrivateKey does not match claimantPublicKeyB64'' (getProp args ''claimantPublicKeyB64'') signingKey msg) (\<lambda>sig.
       newDepositPolicyV1 (withSignature [''inboxId'', ''policyVersion'', ''blockedDepositorPubkeys'', ''allowedDepositorPubkeys'', ''issuedAtMs'',
         ''expiresAtMs'', ''claimantPublicKeyB64''] args sig)))"

text \<open>A verification that answers \<^verbatim>\<open>false\<close> to whatever the decoding or the provider throws.\<close>

definition verifyQuietly :: "crypto_provider \<Rightarrow> string \<Rightarrow> string \<Rightarrow> bytes result \<Rightarrow> bool result" where
  "verifyQuietly c publicKeyB64 signatureB64 msg =
     (case bindR (base64ToBytes publicKeyB64) (\<lambda>pk. bindR (base64ToBytes signatureB64) (\<lambda>s. Inr (pk, s))) of
        Inl _ \<Rightarrow> Inr False
      | Inr (pk, s) \<Rightarrow> bindR msg (\<lambda>m. Inr (verify c pk m s = Inr True)))"

definition verifyDepositPolicy :: "crypto_provider \<Rightarrow> DepositPolicyV1 \<Rightarrow> jsval \<Rightarrow> bool result" where
  "verifyDepositPolicy c p expected =
     (if \<not> isString expected \<or> expected = JStr [] then Inr False
      else if JStr (dp_claimantPublicKeyB64 p) \<noteq> expected then Inr False
      else verifyQuietly c (dp_claimantPublicKeyB64 p) (dp_signatureB64 p) (canonicalDepositPolicyBytes (depositPolicy_toJSON p)))"

section \<open>TerminalInboxCloseV1\<close>

record TerminalInboxCloseV1 =
  tic_inboxId :: string
  tic_finalGeneration :: int
  tic_closedAtMs :: int
  tic_signatureB64 :: string

definition newTerminalInboxCloseV1 :: "jsval \<Rightarrow> TerminalInboxCloseV1 result" where
  "newTerminalInboxCloseV1 j =
     (let fail = (\<lambda>m. Inl (RezInvariantError (''TerminalInboxCloseV1.'' @ m))); generation = getProp j ''finalGeneration''; closed = getProp j ''closedAtMs'' in
      if dflt (getProp j ''v'') (JInt 1) \<noteq> JInt 1 then fail ''v must be 1''
      else if \<not> isNonEmptyString (getProp j ''inboxId'') then fail ''inboxId must be non-empty string''
      else if \<not> (isInteger generation \<and> intOf generation \<ge> 1) then fail ''finalGeneration must be a positive integer''
      else if \<not> (isFiniteNumber closed \<and> intOf closed > 0) then fail ''closedAtMs must be positive''
      else if \<not> isNonEmptyString (getProp j ''signatureB64'') then fail ''signatureB64 must be non-empty string''
      else Inr \<lparr>tic_inboxId = strOf (getProp j ''inboxId''), tic_finalGeneration = intOf generation, tic_closedAtMs = intOf closed,
           tic_signatureB64 = strOf (getProp j ''signatureB64'')\<rparr>)"

definition terminalClose_toJSON :: "TerminalInboxCloseV1 \<Rightarrow> jsval" where
  "terminalClose_toJSON t = JObj [(''v'', JInt 1), (''inboxId'', JStr (tic_inboxId t)), (''finalGeneration'', JInt (tic_finalGeneration t)),
     (''closedAtMs'', JInt (tic_closedAtMs t)), (''signatureB64'', JStr (tic_signatureB64 t))]"

definition terminalClose_fromJSON :: "jsval \<Rightarrow> TerminalInboxCloseV1 result" where
  "terminalClose_fromJSON json =
     (if \<not> truthy json \<or> \<not> typeofObject json then Inl (Error ''TerminalInboxCloseV1.fromJSON requires object'') else newTerminalInboxCloseV1 json)"

definition canonicalTerminalCloseBytes :: "jsval \<Rightarrow> bytes" where
  "canonicalTerminalCloseBytes j = signable (JObj [(''kind'', JStr ''terminal-inbox-close''), (''inboxId'', getProp j ''inboxId''),
     (''finalGeneration'', getProp j ''finalGeneration''), (''closedAtMs'', getProp j ''closedAtMs'')])"

definition signTerminalInboxClose :: "crypto_provider \<Rightarrow> jsval \<Rightarrow> bytes \<Rightarrow> TerminalInboxCloseV1 result" where
  "signTerminalInboxClose c args closeKey =
     bindR (signChecked c ''signTerminalInboxClose: closePrivateKey does not match closePublicKeyB64'' (getProp args ''closePublicKeyB64'') closeKey
       (canonicalTerminalCloseBytes args)) (\<lambda>sig.
     newTerminalInboxCloseV1 (withSignature [''inboxId'', ''finalGeneration'', ''closedAtMs''] args sig))"

definition verifyTerminalInboxClose :: "crypto_provider \<Rightarrow> TerminalInboxCloseV1 \<Rightarrow> jsval \<Rightarrow> bool result" where
  "verifyTerminalInboxClose c t expected =
     (if \<not> isString expected \<or> expected = JStr [] then Inr False
      else verifyQuietly c (strOf expected) (tic_signatureB64 t) (Inr (canonicalTerminalCloseBytes (terminalClose_toJSON t))))"

section \<open>Claims and leases: claimShapes.js\<close>

datatype presence = PNone | PAll | PPartial

definition presenceOf :: "bool list \<Rightarrow> presence" where
  "presenceOf flags =
     (let present = length (filter (\<lambda>b. b) flags) in
      if present = 0 then PNone else if present = length flags then PAll else PPartial)"

definition claimLeasePresence :: "jsval \<Rightarrow> presence" where
  "claimLeasePresence j = presenceOf [isNonEmptyString (getProp j ''closePublicKeyB64''), \<not> isNullish (getProp j ''generation'')]"

definition delegationLeasePresence :: "jsval \<Rightarrow> presence" where
  "delegationLeasePresence j = presenceOf [\<not> isNullish (getProp j ''generation''), isNonEmptyString (getProp j ''retentionClass'')]"

definition pick :: "string list \<Rightarrow> jsval \<Rightarrow> (string \<times> jsval) list" where
  "pick names j = map (\<lambda>k. (k, getProp j k)) names"

definition canonicalInboxClaimPayload :: "jsval \<Rightarrow> jsval result" where
  "canonicalInboxClaimPayload j =
     (case claimLeasePresence j of
        PPartial \<Rightarrow> Inl (Error ''canonicalInboxClaimPayload: closePublicKeyB64 and generation are all-or-none'')
      | PNone \<Rightarrow> Inr (JObj (pick [''inboxId'', ''claimantPublicKeyB64'', ''claimedAtMs''] j))
      | PAll \<Rightarrow> Inr (JObj (pick [''inboxId'', ''claimantPublicKeyB64'', ''closePublicKeyB64'', ''generation'', ''claimedAtMs''] j)))"

definition canonicalNodeDelegationPayload :: "jsval \<Rightarrow> jsval result" where
  "canonicalNodeDelegationPayload j =
     (let lease = delegationLeasePresence j;
          payload = (''kind'', JStr ''inbox-node-delegation'') # pick [''inboxId'', ''claimantPublicKeyB64'', ''nodeKeyId'', ''nodePublicKeyB64'',
            ''relayKeyId'', ''issuedAtMs'', ''expiresAtMs''] j in
      if lease = PPartial then Inl (Error ''canonicalNodeDelegationPayload: generation and retentionClass are all-or-none'')
      else Inr (JObj (payload @ (if lease = PAll then pick [''generation'', ''retentionClass''] j else []))))"

section \<open>What a policy's signature covers\<close>

lemma sort_key_through: "sort_key f (map g xs) = map g (sort_key (f \<circ> g) xs)"
proof -
  have "insort_key f (g x) (map g ys) = map g (insort_key (f \<circ> g) x ys)" for x ys by (induction ys) auto
  then show ?thesis by (induction xs) simp_all
qed

lemma spreadSorted_texts: "spreadSorted (JArr (map JStr xs)) = Inr (JArr (map JStr (sort xs)))"
proof -
  have "toStr \<circ> JStr = (\<lambda>x. x)" by auto
  moreover have "filter (\<lambda>x. x \<noteq> JUndef) (map JStr xs) = map JStr xs" "filter (\<lambda>x. x = JUndef) (map JStr xs) = []"
    by (induction xs) simp_all
  ultimately show ?thesis by (simp add: spreadSorted_def sortDefault_def sort_key_through)
qed

lemma sort_eq_iff: "sort xs = sort ys \<longleftrightarrow> mset xs = mset (ys :: string list)"
  by (metis mset_sort properties_for_sort sorted_sort)

definition policyBody :: "DepositPolicyV1 \<Rightarrow> jsval" where
  "policyBody p = depositPolicyBody (depositPolicy_toJSON p) (JArr (map JStr (sort (dp_blockedDepositorPubkeys p))))
     (JArr (map JStr (sort (dp_allowedDepositorPubkeys p))))"

lemma policy_bytes: "canonicalDepositPolicyBytes (depositPolicy_toJSON p) = Inr (signable (policyBody p))"
proof -
  have "getProp (depositPolicy_toJSON p) ''blockedDepositorPubkeys'' = JArr (map JStr (dp_blockedDepositorPubkeys p))"
    "getProp (depositPolicy_toJSON p) ''allowedDepositorPubkeys'' = JArr (map JStr (dp_allowedDepositorPubkeys p))"
    by (simp_all add: depositPolicy_toJSON_def)
  then show ?thesis by (simp add: canonicalDepositPolicyBytes_def spreadSorted_texts policyBody_def del: getProp.simps)
qed

lemma policyBody_eq: "policyBody p = JObj [(''kind'', JStr ''inbox-deposit-policy''), (''inboxId'', JStr (dp_inboxId p)),
     (''policyVersion'', JInt (dp_policyVersion p)), (''blockedDepositorPubkeys'', JArr (map JStr (sort (dp_blockedDepositorPubkeys p)))),
     (''allowedDepositorPubkeys'', JArr (map JStr (sort (dp_allowedDepositorPubkeys p)))),
     (''issuedAtMs'', JInt (dp_issuedAtMs p)), (''expiresAtMs'', JInt (dp_expiresAtMs p))]"
  by (simp add: policyBody_def depositPolicyBody_def depositPolicy_toJSON_def)

lemma policyBody_json [simp]: "json_data (policyBody p)" "wf_js (policyBody p)"
  by (simp_all add: policyBody_eq list_all_iff)

lemma closeBody_json [simp]:
  "json_data (JObj [(''kind'', JStr ''terminal-inbox-close''), (''inboxId'', JStr a), (''finalGeneration'', JInt b), (''closedAtMs'', JInt d)])"
  "wf_js (JObj [(''kind'', JStr ''terminal-inbox-close''), (''inboxId'', JStr a), (''finalGeneration'', JInt b), (''closedAtMs'', JInt d)])"
  by simp_all

lemma signable_field:
  assumes "signable (JObj kvs) = signable (JObj ms)" "json_data (JObj kvs)" "wf_js (JObj kvs)" "json_data (JObj ms)" "wf_js (JObj ms)" "k \<noteq> ''__proto__''"
  shows "canonicalize (getProp (JObj kvs) k) = canonicalize (getProp (JObj ms) k)"
proof -
  have "distinct (map fst kvs)" "distinct (map fst ms)" using assms(3,5) by simp_all
  with signable_inj [OF assms(2-5,1)] show ?thesis
    using getProp_canonicalize [of kvs k] getProp_canonicalize [of ms k] assms(6) by (simp del: canonicalize.simps getProp.simps)
qed

text \<open>The signature of a deposit policy covers its whole content and nothing else: two policies have the same signed bytes exactly
  when they are for the same inbox, version and window and list the same keys as blocked and as allowed, each as often, in any
  order. The bytes of a policy are never those of a terminal close.\<close>

theorem deposit_policy_binds:
  "(canonicalDepositPolicyBytes (depositPolicy_toJSON p) = canonicalDepositPolicyBytes (depositPolicy_toJSON q))
     = (dp_inboxId p = dp_inboxId q \<and> dp_policyVersion p = dp_policyVersion q
        \<and> mset (dp_blockedDepositorPubkeys p) = mset (dp_blockedDepositorPubkeys q)
        \<and> mset (dp_allowedDepositorPubkeys p) = mset (dp_allowedDepositorPubkeys q)
        \<and> dp_issuedAtMs p = dp_issuedAtMs q \<and> dp_expiresAtMs p = dp_expiresAtMs q)
   \<and> canonicalDepositPolicyBytes (depositPolicy_toJSON p) \<noteq> Inr (canonicalTerminalCloseBytes (terminalClose_toJSON t))"
proof -
  let ?f = "\<lambda>r k. canonicalize (getProp (policyBody r) k)"
  have field: "?f p k = ?f q k" if "signable (policyBody p) = signable (policyBody q)" "k \<noteq> ''__proto__''" for k
    using that signable_field policyBody_json unfolding policyBody_eq by blast
  have "sort (dp_blockedDepositorPubkeys p) = sort (dp_blockedDepositorPubkeys q) \<and> sort (dp_allowedDepositorPubkeys p) = sort (dp_allowedDepositorPubkeys q)
      \<and> dp_inboxId p = dp_inboxId q \<and> dp_policyVersion p = dp_policyVersion q \<and> dp_issuedAtMs p = dp_issuedAtMs q \<and> dp_expiresAtMs p = dp_expiresAtMs q"
    if s: "signable (policyBody p) = signable (policyBody q)"
    using field [OF s, of "''blockedDepositorPubkeys''"] field [OF s, of "''allowedDepositorPubkeys''"] field [OF s, of "''inboxId''"]
      field [OF s, of "''policyVersion''"] field [OF s, of "''issuedAtMs''"] field [OF s, of "''expiresAtMs''"]
    by (simp add: policyBody_eq comp_def inj_map_eq_map inj_on_def)
  then have "(signable (policyBody p) = signable (policyBody q)) \<longleftrightarrow> dp_inboxId p = dp_inboxId q \<and> dp_policyVersion p = dp_policyVersion q
        \<and> mset (dp_blockedDepositorPubkeys p) = mset (dp_blockedDepositorPubkeys q)
        \<and> mset (dp_allowedDepositorPubkeys p) = mset (dp_allowedDepositorPubkeys q)
        \<and> dp_issuedAtMs p = dp_issuedAtMs q \<and> dp_expiresAtMs p = dp_expiresAtMs q"
    by (auto simp: sort_eq_iff policyBody_eq simp flip: sort_eq_iff)
  moreover have "signable (policyBody p) \<noteq> canonicalTerminalCloseBytes (terminalClose_toJSON t)"
  proof
    assume "signable (policyBody p) = canonicalTerminalCloseBytes (terminalClose_toJSON t)"
    then have "signable (policyBody p) = signable (JObj [(''kind'', JStr ''terminal-inbox-close''), (''inboxId'', JStr (tic_inboxId t)),
        (''finalGeneration'', JInt (tic_finalGeneration t)), (''closedAtMs'', JInt (tic_closedAtMs t))])"
      by (simp add: canonicalTerminalCloseBytes_def terminalClose_toJSON_def)
    from signable_field [OF this [unfolded policyBody_eq] _ _ closeBody_json, of "''kind''"] policyBody_json [of p]
    show False by (simp add: policyBody_eq)
  qed
  ultimately show ?thesis by (simp add: policy_bytes)
qed

section \<open>Signed policies and closes verify\<close>

definition policy_ok :: "DepositPolicyV1 \<Rightarrow> bool" where
  "policy_ok p \<longleftrightarrow> trim (dp_inboxId p) \<noteq> [] \<and> 1 \<le> dp_policyVersion p
     \<and> list_all (\<lambda>k. trim k \<noteq> []) (dp_blockedDepositorPubkeys p) \<and> list_all (\<lambda>k. trim k \<noteq> []) (dp_allowedDepositorPubkeys p)
     \<and> 0 < dp_issuedAtMs p \<and> dp_issuedAtMs p < dp_expiresAtMs p \<and> trim (dp_claimantPublicKeyB64 p) \<noteq> []"

lemma pubkeyList_texts: "list_all (\<lambda>k. trim k \<noteq> []) ks \<Longrightarrow> pubkeyList (map JStr ks) field = Inr ks"
  by (simp add: pubkeyList_def list_all_iff comp_def)

lemma newDepositPolicy_fields:
  assumes "policy_ok p" "trim (dp_signatureB64 p) \<noteq> []"
    and "getProp j ''v'' \<in> {JUndef, JInt 1}" "getProp j ''inboxId'' = JStr (dp_inboxId p)" "getProp j ''policyVersion'' = JInt (dp_policyVersion p)"
    and "getProp j ''blockedDepositorPubkeys'' = JArr (map JStr (dp_blockedDepositorPubkeys p))"
    and "getProp j ''allowedDepositorPubkeys'' = JArr (map JStr (dp_allowedDepositorPubkeys p))"
    and "getProp j ''issuedAtMs'' = JInt (dp_issuedAtMs p)" "getProp j ''expiresAtMs'' = JInt (dp_expiresAtMs p)"
    and "getProp j ''claimantPublicKeyB64'' = JStr (dp_claimantPublicKeyB64 p)" "getProp j ''signatureB64'' = JStr (dp_signatureB64 p)"
  shows "newDepositPolicyV1 j = Inr p"
  using assms by (cases p) (auto simp: newDepositPolicyV1_def policy_ok_def pubkeyList_texts Let_def)

lemma signChecked_pair:
  assumes "sign_lawful c kp"
  shows "\<exists>sig. sign c (privateKey kp) msg = Inr sig \<and> verify c (publicKey kp) msg sig = Inr True
     \<and> signChecked c mismatch (JStr (bytesToBase64 (publicKey kp))) (privateKey kp) msg = Inr sig"
proof -
  obtain sig where "sign c (privateKey kp) msg = Inr sig" "verify c (publicKey kp) msg sig = Inr True"
    using assms unfolding sign_lawful_def by blast
  then show ?thesis by (simp add: signChecked_def b64.dec_enc)
qed

lemma verifyQuietly_enc: "verifyQuietly c (bytesToBase64 k) (bytesToBase64 s) (Inr m) = Inr (verify c k m s = Inr True)"
  by (simp add: verifyQuietly_def b64.dec_enc)

text \<open>C21: A claimant's policy is signed, read back and enforced as one. Signing a well-formed policy with the claimant's key returns it with a
  signature; it survives its JSON form; a relay that knows the claimant accepts it, also when the lists arrive in another order,
  and a relay that expects another claimant refuses it.\<close>

theorem deposit_policy_signed:
  assumes "sign_lawful c kp" and "\<And>m. sign c (privateKey kp) m \<noteq> Inr []" and "policy_ok p"
    and "dp_claimantPublicKeyB64 p = bytesToBase64 (publicKey kp)"
  shows "\<exists>s. signDepositPolicy c (depositPolicy_toJSON p) (privateKey kp) = Inr (p\<lparr>dp_signatureB64 := s\<rparr>)
    \<and> depositPolicy_fromJSON (depositPolicy_toJSON (p\<lparr>dp_signatureB64 := s\<rparr>)) = Inr (p\<lparr>dp_signatureB64 := s\<rparr>)
    \<and> (\<forall>bs as. mset bs = mset (dp_blockedDepositorPubkeys p) \<and> mset as = mset (dp_allowedDepositorPubkeys p)
        \<longrightarrow> verifyDepositPolicy c (p\<lparr>dp_signatureB64 := s, dp_blockedDepositorPubkeys := bs, dp_allowedDepositorPubkeys := as\<rparr>)
              (JStr (bytesToBase64 (publicKey kp))) = Inr True)
    \<and> (\<forall>other. other \<noteq> bytesToBase64 (publicKey kp) \<longrightarrow> verifyDepositPolicy c (p\<lparr>dp_signatureB64 := s\<rparr>) (JStr other) = Inr False)"
proof -
  obtain sig where sig: "sign c (privateKey kp) (signable (policyBody p)) = Inr sig" "verify c (publicKey kp) (signable (policyBody p)) sig = Inr True"
      "signChecked c ''signDepositPolicy: signingPrivateKey does not match claimantPublicKeyB64'' (JStr (bytesToBase64 (publicKey kp))) (privateKey kp)
         (signable (policyBody p)) = Inr sig"
    using signChecked_pair [OF assms(1)] by blast
  then have ne: "sig \<noteq> []" using assms(2) by auto
  let ?q = "p\<lparr>dp_signatureB64 := bytesToBase64 sig\<rparr>"
  have q: "policy_ok ?q" "trim (dp_signatureB64 ?q) \<noteq> []" using assms(3) base64_nonblank [OF ne] by (simp_all add: policy_ok_def)
  have "newDepositPolicyV1 (withSignature [''inboxId'', ''policyVersion'', ''blockedDepositorPubkeys'', ''allowedDepositorPubkeys'', ''issuedAtMs'',
         ''expiresAtMs'', ''claimantPublicKeyB64''] (depositPolicy_toJSON p) sig) = Inr ?q"
    by (rule newDepositPolicy_fields [OF q]) (simp_all add: withSignature_def depositPolicy_toJSON_def)
  moreover have "getProp (depositPolicy_toJSON p) ''claimantPublicKeyB64'' = JStr (bytesToBase64 (publicKey kp))"
    by (simp add: depositPolicy_toJSON_def assms(4))
  ultimately have s: "signDepositPolicy c (depositPolicy_toJSON p) (privateKey kp) = Inr ?q"
    using sig(3) by (simp add: signDepositPolicy_def policy_bytes)
  have "newDepositPolicyV1 (depositPolicy_toJSON ?q) = Inr ?q"
    by (rule newDepositPolicy_fields [OF q]) (simp_all add: depositPolicy_toJSON_def)
  then have j: "depositPolicy_fromJSON (depositPolicy_toJSON ?q) = Inr ?q" by (simp add: depositPolicy_fromJSON_def) (simp add: depositPolicy_toJSON_def)
  have v: "verifyDepositPolicy c (?q\<lparr>dp_blockedDepositorPubkeys := bs, dp_allowedDepositorPubkeys := as\<rparr>) (JStr (bytesToBase64 (publicKey kp))) = Inr True"
    if eq: "mset bs = mset (dp_blockedDepositorPubkeys p)" "mset as = mset (dp_allowedDepositorPubkeys p)" for bs as
  proof -
    let ?r = "?q\<lparr>dp_blockedDepositorPubkeys := bs, dp_allowedDepositorPubkeys := as\<rparr>"
    have "sort bs = sort (dp_blockedDepositorPubkeys p)" "sort as = sort (dp_allowedDepositorPubkeys p)" using eq by (simp_all only: sort_eq_iff)
    then have "policyBody ?r = policyBody p" by (simp add: policyBody_eq)
    moreover have "bytesToBase64 (publicKey kp) \<noteq> []" using assms(3,4) by (auto simp: policy_ok_def trim_def)
    ultimately show ?thesis using sig(2) assms(4) by (simp add: verifyDepositPolicy_def policy_bytes verifyQuietly_enc)
  qed
  have "verifyDepositPolicy c ?q (JStr other) = Inr False" if "other \<noteq> bytesToBase64 (publicKey kp)" for other
    using that assms(4) by (auto simp: verifyDepositPolicy_def)
  with s j v show ?thesis by (intro exI [of _ "bytesToBase64 sig"] conjI allI impI) blast+
qed

definition demo_policy :: DepositPolicyV1 where
  "demo_policy = \<lparr>dp_inboxId = ''inbox:a'', dp_policyVersion = 1, dp_blockedDepositorPubkeys = [''k2'', ''k1''], dp_allowedDepositorPubkeys = [],
     dp_issuedAtMs = 10, dp_expiresAtMs = 20, dp_claimantPublicKeyB64 = bytesToBase64 (replicate 32 7), dp_signatureB64 = []\<rparr>"

theorem deposit_policy_signed_witness:
  "\<exists>q. signDepositPolicy demo_crypto (depositPolicy_toJSON demo_policy) (replicate 32 7) = Inr q
     \<and> verifyDepositPolicy demo_crypto (q\<lparr>dp_blockedDepositorPubkeys := [''k1'', ''k2'']\<rparr>) (JStr (bytesToBase64 (replicate 32 7))) = Inr True"
proof -
  have ok: "policy_ok demo_policy"
    using base64_nonblank [of "replicate 32 7"] by (simp add: policy_ok_def demo_policy_def trim_eq_Nil isSpace_def)
  have law: "sign_lawful demo_crypto (demo_keys 7)" "sign demo_crypto (privateKey (demo_keys 7)) m \<noteq> Inr []" for m by simp_all
  obtain s where s: "signDepositPolicy demo_crypto (depositPolicy_toJSON demo_policy) (privateKey (demo_keys 7)) = Inr (demo_policy\<lparr>dp_signatureB64 := s\<rparr>)"
      "\<forall>bs as. mset bs = mset (dp_blockedDepositorPubkeys demo_policy) \<and> mset as = mset (dp_allowedDepositorPubkeys demo_policy)
        \<longrightarrow> verifyDepositPolicy demo_crypto (demo_policy\<lparr>dp_signatureB64 := s, dp_blockedDepositorPubkeys := bs, dp_allowedDepositorPubkeys := as\<rparr>)
              (JStr (bytesToBase64 (publicKey (demo_keys 7)))) = Inr True"
    using deposit_policy_signed [OF law ok] by (auto simp: demo_policy_def)
  from s(2) [rule_format, of "[''k1'', ''k2'']" "[]"] s(1) show ?thesis
    by (intro exI [of _ "demo_policy\<lparr>dp_signatureB64 := s\<rparr>"]) (simp add: demo_policy_def)
qed

end
