(* ===== verification/Packets.thy ===== *)
theory Packets
  imports Secure_Channel Device_Records Js_Number
begin

text \<open>
  The packet layer around the secure channel (\<^verbatim>\<open>src/e2ee\<close>): the invite binding that carries an X3DH bundle, the wire records, the
  signature of a handshake, and the codec that tells handshakes, encrypted packets and plaintext apart. \<^verbatim>\<open>TextDecoder\<close> with
  \<^verbatim>\<open>JSON.parse\<close> is the argument \<open>parse\<close>, as in \<^verbatim>\<open>Secure_Channel\<close>; the session table is passed and returned.
\<close>

section \<open>X3DHKeyExchange\<close>

text \<open>The bundle object with the four properties that the exchange assigns to it.\<close>

record InviteBundle = X3DHPreKeyBundle +
  ib_accountIdentityPublicKeyB64 :: jsval
  ib_accountBindingSigB64 :: jsval
  ib_accountBindingIssuedAtMs :: jsval
  ib_accountBindingExpiresAtMs :: jsval

text \<open>\<^verbatim>\<open>value || null\<close>, \<^verbatim>\<open>value == null ? null : value\<close> and \<^verbatim>\<open>Number(value) || null\<close>\<close>

definition orNull :: "jsval \<Rightarrow> jsval" where
  "orNull v = (if truthy v then v else JNull)"

definition nullish :: "jsval \<Rightarrow> jsval" where
  "nullish v = (if isNullish v then JNull else v)"

definition numberOrNull :: "jsval \<Rightarrow> jsval" where
  "numberOrNull v = orNull (JNum (toNumber v))"

definition withAccountBinding :: "X3DHPreKeyBundle \<Rightarrow> jsval \<Rightarrow> InviteBundle" where
  "withAccountBinding b accountBinding =
     X3DHPreKeyBundle.extend b
       (if truthy accountBinding \<and> typeofObject accountBinding
        then InviteBundle.fields (orNull (getProp accountBinding ''accountIdentityPublicKeyB64'')) (orNull (getProp accountBinding ''accountBindingSigB64''))
               (nullish (getProp accountBinding ''issuedAtMs'')) (nullish (getProp accountBinding ''expiresAtMs''))
        else InviteBundle.fields JUndef JUndef JUndef JUndef)"

definition serializeBundle :: "InviteBundle \<Rightarrow> jsval" where
  "serializeBundle b = JObj [(''receiverId'', JStr (bundle_receiverId b)),
     (''identitySigningPublicKeyB64'', JStr (bytesToBase64 (identitySigningPublicKey b))),
     (''identityDhPublicKeyB64'', JStr (bytesToBase64 (identityDhPublicKey b))),
     (''identityDhSignatureB64'', JStr (bytesToBase64 (identityDhSignature b))),
     (''signedPreKeyPublicB64'', JStr (bytesToBase64 (signedPreKeyPublic b))),
     (''signedPreKeySignatureB64'', JStr (bytesToBase64 (signedPreKeySignature b))),
     (''accountIdentityPublicKeyB64'', orNull (ib_accountIdentityPublicKeyB64 b)),
     (''accountBindingSigB64'', orNull (ib_accountBindingSigB64 b)),
     (''accountBindingIssuedAtMs'', numberOrNull (ib_accountBindingIssuedAtMs b)),
     (''accountBindingExpiresAtMs'', numberOrNull (ib_accountBindingExpiresAtMs b)),
     (''oneTimePreKeyPublicB64'', case oneTimePreKeyPublic b of Some k \<Rightarrow> JStr (bytesToBase64 k) | None \<Rightarrow> JNull)]"

definition deserializeBundle :: "jsval \<Rightarrow> InviteBundle result" where
  "deserializeBundle json =
     (let text = (\<lambda>k. if isString (getProp json k) then getProp json k else JNull) in
      if \<not> truthy json \<or> \<not> typeofObject json then Inl (Error ''deserializeBundle requires object'')
      else bindR (base64Member json ''identitySigningPublicKeyB64'') (\<lambda>signing.
      bindR (base64Member json ''identityDhPublicKeyB64'') (\<lambda>idDh.
      bindR (base64Member json ''identityDhSignatureB64'') (\<lambda>idDhSig.
      bindR (base64Member json ''signedPreKeyPublicB64'') (\<lambda>spk.
      bindR (base64Member json ''signedPreKeySignatureB64'') (\<lambda>spkSig.
      bindR (if truthy (getProp json ''oneTimePreKeyPublicB64'') then bindR (base64Member json ''oneTimePreKeyPublicB64'') (\<lambda>k. Inr (Some k))
             else Inr None) (\<lambda>opk.
      bindR (if isNonEmptyString (getProp json ''receiverId'')
             then newX3DHPreKeyBundle \<lparr>bundle_receiverId = strOf (getProp json ''receiverId''), identitySigningPublicKey = signing,
               identityDhPublicKey = idDh, identityDhSignature = idDhSig, signedPreKeyPublic = spk, signedPreKeySignature = spkSig,
               oneTimePreKeyPublic = opk\<rparr>
             else Inl (RezInvariantError ''X3DHPreKeyBundle.receiverId must be a non-empty string'')) (\<lambda>b.
        Inr (X3DHPreKeyBundle.extend b (InviteBundle.fields (text ''accountIdentityPublicKeyB64'') (text ''accountBindingSigB64'')
          (numberOrNull (getProp json ''accountBindingIssuedAtMs'')) (numberOrNull (getProp json ''accountBindingExpiresAtMs''))))))))))))"

definition prepareInviteBinding ::
  "crypto_provider \<Rightarrow> string \<Rightarrow> key_pair \<Rightarrow> key_pair \<Rightarrow> key_pair \<Rightarrow> (string \<times> jsval) list \<Rightarrow> jsval \<Rightarrow> (jsval \<times> jsval) result" where
  "prepareInviteBinding c accountId identityKeyPair identityDhKeyPair signedPreKey existingBinding accountBinding =
     bindR (generatePreKeyBundle c accountId identityKeyPair identityDhKeyPair signedPreKey) (\<lambda>(bundle, spk).
       let serialized = serializeBundle (withAccountBinding bundle accountBinding) in
       Inr (JObj (AList.update ''x3dh'' serialized existingBinding),
            JObj [(''signedPreKeyPrivate'', JStr (bytesToBase64 (privateKey spk))), (''signedPreKeyPublic'', JStr (bytesToBase64 (publicKey spk))),
                  (''bundleJson'', serialized)]))"

definition processAcceptedInvite ::
  "crypto_provider \<Rightarrow> SessionManager \<Rightarrow> jsval \<Rightarrow> jsval \<Rightarrow> key_pair \<Rightarrow> key_pair \<Rightarrow> bytes \<Rightarrow> key_pair \<Rightarrow> key_pair \<Rightarrow> (jsval \<times> bytes \<times> SessionManager) result" where
  "processAcceptedInvite c m inviteBinding peerId identityKeyPair identityDhKeyPair identityDhSig ephemeral selfDh =
     (if \<not> truthy inviteBinding \<or> \<not> truthy (getProp inviteBinding ''x3dh'')
      then Inl (Error ''processAcceptedInvite requires inviteBinding with x3dh field'')
      else if \<not> truthy peerId \<or> \<not> isString peerId then Inl (Error ''processAcceptedInvite requires peerId string'')
      else bindR (deserializeBundle (getProp inviteBinding ''x3dh'')) (\<lambda>bundle.
        bindR (establishInitiatorSession c m (strOf peerId) (X3DHPreKeyBundle.truncate bundle) identityKeyPair identityDhKeyPair identityDhSig ephemeral selfDh)
          (\<lambda>(sid, hs, m'). Inr (hs, sid, m'))))"

definition completeInviteHandshake ::
  "crypto_provider \<Rightarrow> SessionManager \<Rightarrow> jsval \<Rightarrow> bytes \<Rightarrow> jsval \<Rightarrow> jsval \<Rightarrow> key_pair \<Rightarrow> key_pair \<Rightarrow> (bytes \<times> bytes \<times> SessionManager) result" where
  "completeInviteHandshake c m preKeyState identityDhPrivate hs peerId selfDh rotatedDh =
     (if \<not> truthy preKeyState then Inl (Error ''completeInviteHandshake requires preKeyState'')
      else if \<not> truthy hs then Inl (Error ''completeInviteHandshake requires handshakeData'')
      else if \<not> truthy peerId \<or> \<not> isString peerId then Inl (Error ''completeInviteHandshake requires peerId string'')
      else bindR (base64Member preKeyState ''signedPreKeyPrivate'') (\<lambda>signedPreKeyPrivate.
        bindR (deserializeBundle (getProp preKeyState ''bundleJson'')) (\<lambda>bundle.
        establishResponderSession c m (strOf peerId) signedPreKeyPrivate identityDhPrivate (X3DHPreKeyBundle.truncate bundle) hs selfDh rotatedDh)))"

text \<open>\<^verbatim>\<open>{ ...value }\<close> of an object\<close>

fun ownProps :: "jsval \<Rightarrow> (string \<times> jsval) list" where
  "ownProps (JObj kvs) = kvs"
| "ownProps (JArr xs) = map (\<lambda>(i, x). (nat_str i, x)) (enumerate 0 xs)"
| "ownProps (JBytes bs) = map (\<lambda>(i, b). (nat_str i, JInt (uint b))) (enumerate 0 bs)"
| "ownProps _ = []"

definition serializeHandshake :: "jsval \<Rightarrow> jsval result" where
  "serializeHandshake h = (if \<not> truthy h \<or> \<not> typeofObject h then Inl (Error ''serializeHandshake requires object'') else Inr (JObj (ownProps h)))"

definition deserializeHandshake :: "jsval \<Rightarrow> jsval result" where
  "deserializeHandshake h = (if \<not> truthy h \<or> \<not> typeofObject h then Inl (Error ''deserializeHandshake requires object'') else Inr (JObj (ownProps h)))"

section \<open>Signatures of handshakes\<close>

definition assertHandshakeShape :: "jsval \<Rightarrow> string result" where
  "assertHandshakeShape h =
     (if \<not> truthy h \<or> \<not> typeofObject h \<or> isArray h then Inl (Error ''handshake must be a plain object'')
      else case getProp h ''senderIdentitySigningPubKeyB64'' of
        JStr s \<Rightarrow> if s = [] then Inl (Error ''handshake.senderIdentitySigningPubKeyB64 must be a non-empty string'') else Inr s
      | _ \<Rightarrow> Inl (Error ''handshake.senderIdentitySigningPubKeyB64 must be a non-empty string''))"

definition canonicalHandshakeBytes :: "jsval \<Rightarrow> bytes result" where
  "canonicalHandshakeBytes h = bindR (assertHandshakeShape h) (\<lambda>_. Inr (signable h))"

definition signHandshakeEnvelope :: "crypto_provider \<Rightarrow> jsval \<Rightarrow> bytes \<Rightarrow> string result" where
  "signHandshakeEnvelope c h signingPrivateKey =
     bindR (assertHandshakeShape h) (\<lambda>claimed.
     bindR (canonicalHandshakeBytes h) (\<lambda>msg.
     bindR (sign c signingPrivateKey msg) (\<lambda>sig.
     bindR (base64ToBytes claimed) (\<lambda>claimedPubKey.
     bindR (verify c claimedPubKey msg sig) (\<lambda>verified.
       if \<not> verified then Inl (Error ''signHandshakeEnvelope: signingPrivateKey does not match handshake.senderIdentitySigningPubKeyB64'')
       else Inr (bytesToBase64 sig))))))"

definition verifyHandshakeEnvelope :: "crypto_provider \<Rightarrow> jsval \<Rightarrow> jsval \<Rightarrow> bool result" where
  "verifyHandshakeEnvelope c h signatureB64 =
     bindR (assertHandshakeShape h) (\<lambda>claimed.
       if \<not> isString signatureB64 \<or> signatureB64 = JStr [] then Inr False
       else case bindR (base64ToBytes claimed) (\<lambda>pk. bindR (base64ToBytes (strOf signatureB64)) (\<lambda>s. Inr (pk, s))) of
         Inl _ \<Rightarrow> Inr False
       | Inr (pk, s) \<Rightarrow> bindR (canonicalHandshakeBytes h) (\<lambda>msg. Inr (verify c pk msg s = Inr True)))"

section \<open>Wire records\<close>

text \<open>\<^verbatim>\<open>fromBytes\<close> of every record: a non-empty array, parsed, then \<^verbatim>\<open>fromJSON\<close>.\<close>

definition recordFromBytes :: "(bytes \<Rightarrow> jsval result) \<Rightarrow> string \<Rightarrow> (jsval \<Rightarrow> 'a result) \<Rightarrow> bytes \<Rightarrow> 'a result" where
  "recordFromBytes parse name fromJSON bs =
     (if bs = [] then Inl (Error (name @ ''.fromBytes requires non-empty Uint8Array'')) else bindR (parse bs) fromJSON)"

subsection \<open>E2eeEncryptedPacketV1\<close>

record E2eeEncryptedPacketV1 =
  ep_payloadBytes :: bytes

definition newE2eeEncryptedPacketV1 :: "bytes \<Rightarrow> E2eeEncryptedPacketV1 result" where
  "newE2eeEncryptedPacketV1 payloadBytes =
     (if payloadBytes = [] then Inl (RezInvariantError ''E2eeEncryptedPacketV1.payloadBytes must be non-empty Uint8Array'')
      else Inr \<lparr>ep_payloadBytes = payloadBytes\<rparr>)"

definition encryptedPacket_toJSON :: "E2eeEncryptedPacketV1 \<Rightarrow> jsval" where
  "encryptedPacket_toJSON p = JObj [(''e2ee'', JInt 1), (''v'', JInt 1), (''payload'', JStr (bytesToBase64 (ep_payloadBytes p)))]"

definition encryptedPacket_fromJSON :: "jsval \<Rightarrow> E2eeEncryptedPacketV1 result" where
  "encryptedPacket_fromJSON json =
     (if \<not> truthy json \<or> \<not> typeofObject json then Inl (Error ''E2eeEncryptedPacketV1.fromJSON requires object'')
      else if getProp json ''e2ee'' \<noteq> JInt 1 then Inl (Error ''E2eeEncryptedPacketV1.fromJSON: e2ee must be 1'')
      else if getProp json ''v'' \<noteq> JInt 1 then Inl (Error ''E2eeEncryptedPacketV1.fromJSON: v must be 1'')
      else if \<not> isString (getProp json ''payload'') \<or> getProp json ''payload'' = JStr []
      then Inl (Error ''E2eeEncryptedPacketV1.fromJSON: payload must be non-empty string'')
      else bindR (base64ToBytes (strOf (getProp json ''payload''))) newE2eeEncryptedPacketV1)"

definition encryptedPacket_toBytes :: "E2eeEncryptedPacketV1 \<Rightarrow> bytes" where
  "encryptedPacket_toBytes p = stringifyBytes (encryptedPacket_toJSON p)"

definition encryptedPacket_fromBytes :: "(bytes \<Rightarrow> jsval result) \<Rightarrow> bytes \<Rightarrow> E2eeEncryptedPacketV1 result" where
  "encryptedPacket_fromBytes parse = recordFromBytes parse ''E2eeEncryptedPacketV1'' encryptedPacket_fromJSON"

subsection \<open>E2eeHandshakePacketV1\<close>

definition REQUIRED_HANDSHAKE_FIELDS :: "string list" where
  "REQUIRED_HANDSHAKE_FIELDS = [''inviteId'', ''senderIdentitySigningPubKeyB64'', ''senderIdentityDhPubKeyB64'', ''senderIdentityDhSignatureB64'',
     ''ackNonce'', ''ephemeralPublicKeyB64'', ''initiatorDhPublicKeyB64'']"

definition HANDSHAKE_TYPE :: string where "HANDSHAKE_TYPE = ''x3dh.handshake.v2''"

record E2eeHandshakePacketV1 =
  hp_handshake :: jsval
  hp_signatureB64 :: string

fun hasKey :: "jsval \<Rightarrow> string \<Rightarrow> bool" where
  "hasKey (JObj kvs) k = (k \<in> set (map fst kvs))"
| "hasKey _ k = False"

definition newE2eeHandshakePacketV1 :: "jsval \<Rightarrow> jsval \<Rightarrow> E2eeHandshakePacketV1 result" where
  "newE2eeHandshakePacketV1 h signatureB64 =
     (let at = ''E2eeHandshakePacketV1''; key = getProp h ''senderIdentitySigningPubKeyB64'' in
      if \<not> truthy h \<or> \<not> typeofObject h then Inl (RezInvariantError (at @ ''.handshake must be object''))
      else case find (\<lambda>field. \<not> hasKey h field) REQUIRED_HANDSHAKE_FIELDS of
        Some field \<Rightarrow> Inl (RezInvariantError (at @ ''.handshake missing required field: '' @ field))
      | None \<Rightarrow>
          if \<not> isString key \<or> key = JStr [] then Inl (RezInvariantError (at @ ''.handshake.senderIdentitySigningPubKeyB64 must be non-empty string''))
          else if \<not> isString signatureB64 \<or> signatureB64 = JStr [] then Inl (RezInvariantError (at @ ''.signatureB64 must be non-empty string''))
          else Inr \<lparr>hp_handshake = h, hp_signatureB64 = strOf signatureB64\<rparr>)"

definition handshakePacket_toJSON :: "E2eeHandshakePacketV1 \<Rightarrow> jsval" where
  "handshakePacket_toJSON p = JObj [(''e2ee'', JInt 1), (''type'', JStr HANDSHAKE_TYPE), (''signatureB64'', JStr (hp_signatureB64 p)),
     (''handshake'', hp_handshake p)]"

definition handshakePacket_fromJSON :: "jsval \<Rightarrow> E2eeHandshakePacketV1 result" where
  "handshakePacket_fromJSON json =
     (let at = ''E2eeHandshakePacketV1.fromJSON''; h = getProp json ''handshake''; sg = getProp json ''signatureB64'' in
      if \<not> truthy json \<or> \<not> typeofObject json then Inl (Error (at @ '' requires object''))
      else if getProp json ''e2ee'' \<noteq> JInt 1 then Inl (Error (at @ '': e2ee must be 1''))
      else if getProp json ''type'' \<noteq> JStr HANDSHAKE_TYPE then Inl (Error (at @ '': type must be '' @ HANDSHAKE_TYPE))
      else if \<not> truthy h \<or> \<not> typeofObject h then Inl (Error (at @ '': handshake must be object''))
      else if \<not> isString sg \<or> sg = JStr [] then Inl (Error (at @ '': signatureB64 must be non-empty string''))
      else newE2eeHandshakePacketV1 h sg)"

definition handshakePacket_toBytes :: "E2eeHandshakePacketV1 \<Rightarrow> bytes" where
  "handshakePacket_toBytes p = stringifyBytes (handshakePacket_toJSON p)"

definition handshakePacket_fromBytes :: "(bytes \<Rightarrow> jsval result) \<Rightarrow> bytes \<Rightarrow> E2eeHandshakePacketV1 result" where
  "handshakePacket_fromBytes parse = recordFromBytes parse ''E2eeHandshakePacketV1'' handshakePacket_fromJSON"

subsection \<open>Acknowledgements and rejections\<close>

definition nonEmptyText :: "jsval \<Rightarrow> bool" where
  "nonEmptyText v \<longleftrightarrow> isString v \<and> v \<noteq> JStr []"

definition finitePositive :: "jsval \<Rightarrow> int option" where
  "finitePositive v = (case toNumber v of NInt i \<Rightarrow> if i > 0 then Some i else None | _ \<Rightarrow> None)"

definition HANDSHAKE_ACK_KIND :: string where "HANDSHAKE_ACK_KIND = ''rez.peerlink.handshake.ack.v2''"
definition HANDSHAKE_REJECT_KIND :: string where "HANDSHAKE_REJECT_KIND = ''rez.peerlink.handshake.reject.v1''"

record E2eeHandshakeAckV1 =
  ack_senderIdentitySigningPubKeyB64 :: string
  ack_senderAccountId :: string
  ack_senderInboxId :: "string option"
  ack_senderDisplayName :: string
  ack_nonce :: string
  ack_createdAtMs :: int
  ack_signatureB64 :: string

definition newE2eeHandshakeAckV1 :: "jsval \<Rightarrow> jsval \<Rightarrow> E2eeHandshakeAckV1 result" where
  "newE2eeHandshakeAckV1 a signatureB64 =
     (let fail = (\<lambda>m. Inl (RezInvariantError (''E2eeHandshakeAckV1 requires '' @ m))); inbox = getProp a ''senderInboxId'' in
      if \<not> nonEmptyText (getProp a ''senderIdentitySigningPubKeyB64'') then fail ''non-empty string senderIdentitySigningPubKeyB64''
      else if \<not> nonEmptyText (getProp a ''senderAccountId'') then fail ''non-empty string senderAccountId''
      else if \<not> isString (getProp a ''senderDisplayName'') then fail ''string senderDisplayName''
      else if \<not> nonEmptyText (getProp a ''ackNonce'') then fail ''non-empty string ackNonce''
      else case finitePositive (getProp a ''createdAtMs'') of
        None \<Rightarrow> fail ''positive numeric createdAtMs''
      | Some created \<Rightarrow>
          if \<not> nonEmptyText signatureB64 then fail ''non-empty string signatureB64''
          else Inr \<lparr>ack_senderIdentitySigningPubKeyB64 = strOf (getProp a ''senderIdentitySigningPubKeyB64''), ack_senderAccountId = strOf (getProp a ''senderAccountId''),
               ack_senderInboxId = (if nonEmptyText inbox then Some (strOf inbox) else None), ack_senderDisplayName = strOf (getProp a ''senderDisplayName''),
               ack_nonce = strOf (getProp a ''ackNonce''), ack_createdAtMs = created, ack_signatureB64 = strOf signatureB64\<rparr>)"

definition toAckPayload :: "E2eeHandshakeAckV1 \<Rightarrow> jsval" where
  "toAckPayload r = JObj [(''senderIdentitySigningPubKeyB64'', JStr (ack_senderIdentitySigningPubKeyB64 r)), (''senderAccountId'', JStr (ack_senderAccountId r)),
     (''senderInboxId'', case ack_senderInboxId r of Some i \<Rightarrow> JStr i | None \<Rightarrow> JNull), (''senderDisplayName'', JStr (ack_senderDisplayName r)),
     (''ackNonce'', JStr (ack_nonce r)), (''createdAtMs'', JInt (ack_createdAtMs r))]"

definition handshakeAck_toJSON :: "E2eeHandshakeAckV1 \<Rightarrow> jsval" where
  "handshakeAck_toJSON r = JObj [(''kind'', JStr HANDSHAKE_ACK_KIND), (''ack'', toAckPayload r), (''signatureB64'', JStr (ack_signatureB64 r))]"

text \<open>\<^verbatim>\<open>fromJSON\<close> of the two: the kind, then the payload object under its name.\<close>

definition kindedFromJSON :: "string \<Rightarrow> string \<Rightarrow> string \<Rightarrow> (jsval \<Rightarrow> jsval \<Rightarrow> 'a result) \<Rightarrow> jsval \<Rightarrow> 'a result" where
  "kindedFromJSON at kind field build json =
     (if \<not> truthy json \<or> \<not> typeofObject json then Inl (Error (at @ ''.fromJSON requires object''))
      else if getProp json ''kind'' \<noteq> JStr kind then Inl (Error (at @ ''.fromJSON: kind must be '' @ kind))
      else if \<not> truthy (getProp json field) \<or> \<not> typeofObject (getProp json field)
      then Inl (Error (at @ ''.fromJSON: missing `'' @ field @ ''` payload''))
      else build (getProp json field) (getProp json ''signatureB64''))"

definition handshakeAck_fromJSON :: "jsval \<Rightarrow> E2eeHandshakeAckV1 result" where
  "handshakeAck_fromJSON = kindedFromJSON ''E2eeHandshakeAckV1'' HANDSHAKE_ACK_KIND ''ack'' newE2eeHandshakeAckV1"

definition handshakeAck_toBytes :: "E2eeHandshakeAckV1 \<Rightarrow> bytes" where
  "handshakeAck_toBytes r = stringifyBytes (handshakeAck_toJSON r)"

definition handshakeAck_fromBytes :: "(bytes \<Rightarrow> jsval result) \<Rightarrow> bytes \<Rightarrow> E2eeHandshakeAckV1 result" where
  "handshakeAck_fromBytes parse = recordFromBytes parse ''E2eeHandshakeAckV1'' handshakeAck_fromJSON"

record E2eeHandshakeRejectV1 =
  rej_senderIdentitySigningPubKeyB64 :: string
  rej_senderAccountId :: string
  rej_reason :: string
  rej_nonce :: string
  rej_createdAtMs :: int
  rej_signatureB64 :: string

definition newE2eeHandshakeRejectV1 :: "jsval \<Rightarrow> jsval \<Rightarrow> E2eeHandshakeRejectV1 result" where
  "newE2eeHandshakeRejectV1 a signatureB64 =
     (let fail = (\<lambda>m. Inl (RezInvariantError (''E2eeHandshakeRejectV1 requires '' @ m))) in
      if \<not> nonEmptyText (getProp a ''senderIdentitySigningPubKeyB64'') then fail ''non-empty string senderIdentitySigningPubKeyB64''
      else if \<not> nonEmptyText (getProp a ''senderAccountId'') then fail ''non-empty string senderAccountId''
      else if \<not> nonEmptyText (getProp a ''reason'') then fail ''non-empty string reason''
      else if \<not> nonEmptyText (getProp a ''ackNonce'') then fail ''non-empty string ackNonce''
      else case finitePositive (getProp a ''createdAtMs'') of
        None \<Rightarrow> fail ''positive numeric createdAtMs''
      | Some created \<Rightarrow>
          if \<not> nonEmptyText signatureB64 then fail ''non-empty string signatureB64''
          else Inr \<lparr>rej_senderIdentitySigningPubKeyB64 = strOf (getProp a ''senderIdentitySigningPubKeyB64''), rej_senderAccountId = strOf (getProp a ''senderAccountId''),
               rej_reason = strOf (getProp a ''reason''), rej_nonce = strOf (getProp a ''ackNonce''), rej_createdAtMs = created,
               rej_signatureB64 = strOf signatureB64\<rparr>)"

definition toRejectPayload :: "E2eeHandshakeRejectV1 \<Rightarrow> jsval" where
  "toRejectPayload r = JObj [(''senderIdentitySigningPubKeyB64'', JStr (rej_senderIdentitySigningPubKeyB64 r)), (''senderAccountId'', JStr (rej_senderAccountId r)),
     (''reason'', JStr (rej_reason r)), (''ackNonce'', JStr (rej_nonce r)), (''createdAtMs'', JInt (rej_createdAtMs r))]"

definition handshakeReject_toJSON :: "E2eeHandshakeRejectV1 \<Rightarrow> jsval" where
  "handshakeReject_toJSON r = JObj [(''kind'', JStr HANDSHAKE_REJECT_KIND), (''reject'', toRejectPayload r), (''signatureB64'', JStr (rej_signatureB64 r))]"

definition handshakeReject_fromJSON :: "jsval \<Rightarrow> E2eeHandshakeRejectV1 result" where
  "handshakeReject_fromJSON = kindedFromJSON ''E2eeHandshakeRejectV1'' HANDSHAKE_REJECT_KIND ''reject'' newE2eeHandshakeRejectV1"

definition handshakeReject_toBytes :: "E2eeHandshakeRejectV1 \<Rightarrow> bytes" where
  "handshakeReject_toBytes r = stringifyBytes (handshakeReject_toJSON r)"

definition handshakeReject_fromBytes :: "(bytes \<Rightarrow> jsval result) \<Rightarrow> bytes \<Rightarrow> E2eeHandshakeRejectV1 result" where
  "handshakeReject_fromBytes parse = recordFromBytes parse ''E2eeHandshakeRejectV1'' handshakeReject_fromJSON"

subsection \<open>E2eeDeliveryAckV1\<close>

record E2eeDeliveryAckV1 =
  da_senderAccountId :: string
  da_messageIds :: "string list"

fun checkMessageIds :: "nat \<Rightarrow> jsval list \<Rightarrow> string list result" where
  "checkMessageIds i [] = Inr []"
| "checkMessageIds i (x # xs) =
     (if \<not> nonEmptyText x then Inl (RezInvariantError (''E2eeDeliveryAckV1 messageIds['' @ nat_str i @ ''] must be non-empty string''))
      else bindR (checkMessageIds (i + 1) xs) (\<lambda>rest. Inr (strOf x # rest)))"

definition newE2eeDeliveryAckV1 :: "jsval \<Rightarrow> jsval \<Rightarrow> E2eeDeliveryAckV1 result" where
  "newE2eeDeliveryAckV1 senderAccountId messageIds =
     (if \<not> nonEmptyText senderAccountId then Inl (RezInvariantError ''E2eeDeliveryAckV1 requires non-empty string senderAccountId'')
      else case messageIds of
        JArr (x # xs) \<Rightarrow> bindR (checkMessageIds 0 (x # xs)) (\<lambda>ids. Inr \<lparr>da_senderAccountId = strOf senderAccountId, da_messageIds = ids\<rparr>)
      | _ \<Rightarrow> Inl (RezInvariantError ''E2eeDeliveryAckV1 requires non-empty messageIds array''))"

definition deliveryAck_toJSON :: "E2eeDeliveryAckV1 \<Rightarrow> jsval" where
  "deliveryAck_toJSON r = JObj [(''kind'', JStr ''rez.delivery.ack''), (''senderAccountId'', JStr (da_senderAccountId r)),
     (''messageIds'', JArr (map JStr (da_messageIds r)))]"

definition deliveryAck_fromJSON :: "jsval \<Rightarrow> E2eeDeliveryAckV1 result" where
  "deliveryAck_fromJSON json =
     (if \<not> truthy json \<or> \<not> typeofObject json then Inl (Error ''E2eeDeliveryAckV1.fromJSON requires object'')
      else if getProp json ''kind'' \<noteq> JStr ''rez.delivery.ack'' then Inl (Error ''E2eeDeliveryAckV1.fromJSON: kind must be rez.delivery.ack'')
      else newE2eeDeliveryAckV1 (getProp json ''senderAccountId'') (getProp json ''messageIds''))"

definition deliveryAck_toBytes :: "E2eeDeliveryAckV1 \<Rightarrow> bytes" where
  "deliveryAck_toBytes r = stringifyBytes (deliveryAck_toJSON r)"

definition deliveryAck_fromBytes :: "(bytes \<Rightarrow> jsval result) \<Rightarrow> bytes \<Rightarrow> E2eeDeliveryAckV1 result" where
  "deliveryAck_fromBytes parse = recordFromBytes parse ''E2eeDeliveryAckV1'' deliveryAck_fromJSON"

section \<open>E2eePacketCodec\<close>

record incoming =
  in_plaintextBytes :: bytes
  in_encrypted :: bool
  in_peerId :: "string option"
  in_handshake :: "jsval option"
  in_handshakeSignatureB64 :: "string option"

definition nonHandshake :: "bytes \<Rightarrow> bool \<Rightarrow> incoming" where
  "nonHandshake plaintextBytes encrypted =
     \<lparr>in_plaintextBytes = plaintextBytes, in_encrypted = encrypted, in_peerId = None, in_handshake = None, in_handshakeSignatureB64 = None\<rparr>"

definition encryptForPeer ::
  "crypto_provider \<Rightarrow> SessionManager \<Rightarrow> jsval \<Rightarrow> bytes \<Rightarrow> int \<Rightarrow> int \<Rightarrow> (E2eeEncryptedPacketV1 \<times> SessionManager) result" where
  "encryptForPeer c m peerId plaintextBytes now1 now2 =
     (if \<not> truthy peerId \<or> \<not> isString peerId then Inl (Error ''encryptForPeer requires peerId string'')
      else if plaintextBytes = [] then Inl (Error ''encryptForPeer requires non-empty plaintextBytes Uint8Array'')
      else if \<not> hasSession m (strOf peerId) then Inl (CodedError ''NO_SESSION'' (''No E2EE session for peer: '' @ strOf peerId))
      else bindR (encryptPayload c m (strOf peerId) plaintextBytes now1 now2) (\<lambda>(encryptedBytes, m').
        bindR (newE2eeEncryptedPacketV1 encryptedBytes) (\<lambda>packet. Inr (packet, m'))))"

definition decryptIncoming :: "crypto_provider \<Rightarrow> (bytes \<Rightarrow> jsval result) \<Rightarrow> SessionManager \<Rightarrow> bytes \<Rightarrow> SessionManager \<times> incoming result" where
  "decryptIncoming c parse m packetBytes =
     (if packetBytes = [] then (m, Inr (nonHandshake [] False))
      else case bindR (parse packetBytes) (\<lambda>v. assertSafeJsonKeys v ''e2ee packet'') of
        Inl (UnsafeJsonKey k path) \<Rightarrow> (m, Inl (UnsafeJsonKey k path))
      | Inl _ \<Rightarrow> (m, Inr (nonHandshake packetBytes False))
      | Inr decoded \<Rightarrow>
          if \<not> truthy decoded \<or> getProp decoded ''e2ee'' \<noteq> JInt 1 then (m, Inr (nonHandshake packetBytes False))
          else if getProp decoded ''type'' = JStr HANDSHAKE_TYPE
          then (m, bindR (handshakePacket_fromJSON decoded) (\<lambda>r. Inr \<lparr>in_plaintextBytes = packetBytes, in_encrypted = False, in_peerId = None,
                 in_handshake = Some (hp_handshake r), in_handshakeSignatureB64 = Some (hp_signatureB64 r)\<rparr>))
          else if getProp decoded ''v'' = JInt 1 \<and> truthy (getProp decoded ''payload'')
          then (case encryptedPacket_fromJSON decoded of
                  Inl e \<Rightarrow> (m, Inl e)
                | Inr r \<Rightarrow> (case decryptPayload c parse m (ep_payloadBytes r) of
                    (m', Inr (Some (plaintext, peer))) \<Rightarrow>
                      (m', Inr ((nonHandshake plaintext True)\<lparr>in_peerId := Some peer\<rparr>))
                  | (m', _) \<Rightarrow> (m', Inr (nonHandshake packetBytes True))))
          else (m, Inr (nonHandshake packetBytes False)))"

definition isEncryptedPacket :: "(bytes \<Rightarrow> jsval result) \<Rightarrow> bytes \<Rightarrow> bool" where
  "isEncryptedPacket parse packetBytes =
     (packetBytes \<noteq> [] \<and> (case parse packetBytes of Inl _ \<Rightarrow> False | Inr decoded \<Rightarrow> truthy decoded \<and> getProp decoded ''e2ee'' = JInt 1))"

definition createHandshakePacket :: "jsval \<Rightarrow> jsval \<Rightarrow> E2eeHandshakePacketV1 result" where
  "createHandshakePacket = newE2eeHandshakePacketV1"

section \<open>The invite carries the bundle\<close>

text \<open>What an account binding contributes to the wire: texts that are absent or not empty, times that are absent or not zero.\<close>

definition wireText :: "jsval \<Rightarrow> bool" where
  "wireText v \<longleftrightarrow> v = JNull \<or> (isString v \<and> v \<noteq> JStr [])"

definition wireTime :: "jsval \<Rightarrow> bool" where
  "wireTime v \<longleftrightarrow> (case v of JNull \<Rightarrow> True | JNum (NInt i) \<Rightarrow> i \<noteq> 0 | _ \<Rightarrow> False)"

lemma orNull_wire: "wireText v \<Longrightarrow> orNull v = v"
  by (cases v) (auto simp: wireText_def orNull_def)

lemma numberOrNull_wire: "wireTime v \<Longrightarrow> numberOrNull v = v"
  by (auto simp: wireTime_def numberOrNull_def orNull_def split: jsval.splits jsnum.splits)

lemma packet_text_nonempty: "bs \<noteq> [] \<Longrightarrow> bytesToBase64 bs \<noteq> []"
  by (cases bs rule: bytesToBase64.cases) (simp_all add: Let_def)

text \<open>The members of a serialised bundle.\<close>

lemma bundle_members:
  "base64Member (serializeBundle b) ''identitySigningPublicKeyB64'' = Inr (identitySigningPublicKey b)"
  "base64Member (serializeBundle b) ''identityDhPublicKeyB64'' = Inr (identityDhPublicKey b)"
  "base64Member (serializeBundle b) ''identityDhSignatureB64'' = Inr (identityDhSignature b)"
  "base64Member (serializeBundle b) ''signedPreKeyPublicB64'' = Inr (signedPreKeyPublic b)"
  "base64Member (serializeBundle b) ''signedPreKeySignatureB64'' = Inr (signedPreKeySignature b)"
  by (simp_all add: base64Member_JStr serializeBundle_def)

lemma bundle_props:
  "getProp (serializeBundle b) ''receiverId'' = JStr (bundle_receiverId b)"
  "getProp (serializeBundle b) ''oneTimePreKeyPublicB64'' = (case oneTimePreKeyPublic b of Some k \<Rightarrow> JStr (bytesToBase64 k) | None \<Rightarrow> JNull)"
  "getProp (serializeBundle b) ''accountIdentityPublicKeyB64'' = orNull (ib_accountIdentityPublicKeyB64 b)"
  "getProp (serializeBundle b) ''accountBindingSigB64'' = orNull (ib_accountBindingSigB64 b)"
  "getProp (serializeBundle b) ''accountBindingIssuedAtMs'' = numberOrNull (ib_accountBindingIssuedAtMs b)"
  "getProp (serializeBundle b) ''accountBindingExpiresAtMs'' = numberOrNull (ib_accountBindingExpiresAtMs b)"
  "truthy (serializeBundle b)" "typeofObject (serializeBundle b)"
  by (simp_all add: serializeBundle_def)

text \<open>Reading a serialised bundle gives its keys back, whatever the binding holds.\<close>

lemma bundle_keys_roundtrip:
  assumes "trim (bundle_receiverId b) \<noteq> []" "oneTimePreKeyPublic b \<noteq> Some []"
  shows "\<exists>b'. deserializeBundle (serializeBundle b) = Inr b' \<and> X3DHPreKeyBundle.truncate b' = X3DHPreKeyBundle.truncate b"
proof -
  let ?o = "getProp (serializeBundle b) ''oneTimePreKeyPublicB64''"
  have "(if truthy ?o then bindR (base64Member (serializeBundle b) ''oneTimePreKeyPublicB64'') (\<lambda>k. Inr (Some k)) else Inr None)
      = Inr (oneTimePreKeyPublic b)"
    using assms(2) packet_text_nonempty by (cases "oneTimePreKeyPublic b") (auto simp: bundle_props base64Member_JStr)
  then show ?thesis using assms(1)
    by (simp add: deserializeBundle_def bundle_members bundle_props newX3DHPreKeyBundle_def strOf_def X3DHPreKeyBundle.defs InviteBundle.defs)
qed

text \<open>A bundle with an account binding that the wire can hold comes back whole.\<close>

lemma bundle_roundtrip:
  assumes "trim (bundle_receiverId b) \<noteq> []" "oneTimePreKeyPublic b \<noteq> Some []"
    and "wireText (ib_accountIdentityPublicKeyB64 b)" "wireText (ib_accountBindingSigB64 b)"
    and "wireTime (ib_accountBindingIssuedAtMs b)" "wireTime (ib_accountBindingExpiresAtMs b)"
  shows "deserializeBundle (serializeBundle b) = Inr b"
proof -
  let ?o = "getProp (serializeBundle b) ''oneTimePreKeyPublicB64''"
  have o: "(if truthy ?o then bindR (base64Member (serializeBundle b) ''oneTimePreKeyPublicB64'') (\<lambda>k. Inr (Some k)) else Inr None)
      = Inr (oneTimePreKeyPublic b)"
    using assms(2) packet_text_nonempty by (cases "oneTimePreKeyPublic b") (auto simp: bundle_props base64Member_JStr)
  have wt: "(if isString v then v else JNull) = v" if "wireText v" for v using that by (auto simp: wireText_def)
  show ?thesis using assms(1)
    by (simp add: deserializeBundle_def bundle_members bundle_props(1,3-) o newX3DHPreKeyBundle_def strOf_def orNull_wire numberOrNull_wire wt assms(3-)
      X3DHPreKeyBundle.defs InviteBundle.defs split del: if_split cong: if_cong)
qed

section \<open>Packets on the wire\<close>

lemma wire_nonempty: "stringifyBytes (JObj kvs) \<noteq> []"
  by (simp add: stringifyBytes_def utf8Encode_def utf8Char_def Let_def)

lemma encrypted_wire:
  assumes "parse_lawful parse" "p = \<lparr>ep_payloadBytes = payload\<rparr>"
  shows "parse (encryptedPacket_toBytes p) = Inr (encryptedPacket_toJSON p)" "encryptedPacket_toBytes p \<noteq> []" "safe_keys (encryptedPacket_toJSON p)"
proof -
  have "json_data (encryptedPacket_toJSON p)" "wf_js (encryptedPacket_toJSON p)" "propStable (encryptedPacket_toJSON p)"
    by (simp_all add: encryptedPacket_toJSON_def not_index_entry isDigit_def)
  then show "parse (encryptedPacket_toBytes p) = Inr (encryptedPacket_toJSON p)"
    using assms(1) by (simp add: parse_lawful_def encryptedPacket_toBytes_def)
  show "encryptedPacket_toBytes p \<noteq> []" unfolding encryptedPacket_toBytes_def encryptedPacket_toJSON_def by (rule wire_nonempty)
  show "safe_keys (encryptedPacket_toJSON p)" by (simp add: encryptedPacket_toJSON_def isDangerousJsonKey_def DANGEROUS_KEYS_def)
qed

lemma encryptedPacket_roundtrip:
  "payload \<noteq> [] \<Longrightarrow> encryptedPacket_fromJSON (encryptedPacket_toJSON \<lparr>ep_payloadBytes = payload\<rparr>) = Inr \<lparr>ep_payloadBytes = payload\<rparr>"
  using packet_text_nonempty by (simp add: encryptedPacket_fromJSON_def encryptedPacket_toJSON_def b64.dec_enc newE2eeEncryptedPacketV1_def strOf_def)

text \<open>An encrypted packet that opens is delivered with the peer of its session.\<close>

lemma packet_delivers:
  assumes "parse_lawful parse" "payload \<noteq> []" "decryptPayload c parse m payload = (m', Inr (Some (pt, peer)))"
  shows "decryptIncoming c parse m (encryptedPacket_toBytes \<lparr>ep_payloadBytes = payload\<rparr>)
    = (m', Inr \<lparr>in_plaintextBytes = pt, in_encrypted = True, in_peerId = Some peer, in_handshake = None, in_handshakeSignatureB64 = None\<rparr>)"
proof -
  let ?p = "\<lparr>ep_payloadBytes = payload\<rparr>"
  let ?j = "encryptedPacket_toJSON ?p"
  have props: "getProp ?j ''e2ee'' = JInt 1" "getProp ?j ''type'' = JUndef" "getProp ?j ''v'' = JInt 1" "truthy (getProp ?j ''payload'')" "truthy ?j"
    using packet_text_nonempty [OF assms(2)] by (simp_all add: encryptedPacket_toJSON_def)
  have "bindR (parse (encryptedPacket_toBytes ?p)) (\<lambda>v. assertSafeJsonKeys v ''e2ee packet'') = Inr ?j"
    using encrypted_wire [OF assms(1) refl] by (simp add: assertSafeJsonKeys_iff)
  then show ?thesis
    using encrypted_wire(2) [OF assms(1) refl, of payload] assms(3) encryptedPacket_roundtrip [OF assms(2)] props
    by (simp add: decryptIncoming_def nonHandshake_def del: getProp.simps)
qed

section \<open>From the invite to the first packet\<close>

lemma generated_bundle:
  assumes "generatePreKeyBundle c rid idR idDhR spkR = Inr (b, spk)"
  shows "bundle_receiverId b = rid" "trim rid \<noteq> []" "oneTimePreKeyPublic b = None" "spk = spkR"
  using assms by (auto simp: generatePreKeyBundle_def createReceiverBundle_def newX3DHPreKeyBundle_def result_simps split: if_splits)

text \<open>The two halves of the invite exchange are the two halves of the session exchange, on the bundle that was generated.\<close>

lemma invite_steps:
  assumes "generatePreKeyBundle c rid idR idDhR spkR = Inr (b, spkR)" "peer \<noteq> []"
  shows "\<exists>invite state. prepareInviteBinding c rid idR idDhR spkR existing binding = Inr (invite, state)
    \<and> (\<forall>m idI idDhI sig eph dhI. processAcceptedInvite c m invite (JStr peer) idI idDhI sig eph dhI
         = bindR (establishInitiatorSession c m peer b idI idDhI sig eph dhI) (\<lambda>(sid, hs, m'). Inr (hs, sid, m')))
    \<and> (\<forall>m hs dhR0 dhR. truthy hs \<longrightarrow> completeInviteHandshake c m state (privateKey idDhR) hs (JStr peer) dhR0 dhR
         = establishResponderSession c m peer (privateKey spkR) (privateKey idDhR) b hs dhR0 dhR)"
proof -
  let ?w = "withAccountBinding b binding" and ?s = "serializeBundle (withAccountBinding b binding)"
  let ?invite = "JObj (AList.update ''x3dh'' ?s existing)"
  let ?state = "JObj [(''signedPreKeyPrivate'', JStr (bytesToBase64 (privateKey spkR))), (''signedPreKeyPublic'', JStr (bytesToBase64 (publicKey spkR))), (''bundleJson'', ?s)]"
  have w: "X3DHPreKeyBundle.truncate ?w = b" by (simp add: withAccountBinding_def X3DHPreKeyBundle.defs)
  have ids: "bundle_receiverId ?w = rid" "oneTimePreKeyPublic ?w = None"
    using generated_bundle [OF assms(1)] by (simp_all add: withAccountBinding_def X3DHPreKeyBundle.defs)
  obtain b' where b': "deserializeBundle ?s = Inr b'" "X3DHPreKeyBundle.truncate b' = b"
    using bundle_keys_roundtrip [of ?w] w ids generated_bundle(2) [OF assms(1)] by auto
  have x: "getProp ?invite ''x3dh'' = ?s" by (simp add: update_conv')
  have st: "getProp ?state ''bundleJson'' = ?s" "base64Member ?state ''signedPreKeyPrivate'' = Inr (privateKey spkR)" "truthy ?state"
    by (simp_all add: base64Member_JStr)
  have prep: "prepareInviteBinding c rid idR idDhR spkR existing binding = Inr (?invite, ?state)"
    using assms(1) by (simp add: prepareInviteBinding_def Let_def)
  have acc: "processAcceptedInvite c m ?invite (JStr peer) idI idDhI sig eph dhI
         = bindR (establishInitiatorSession c m peer b idI idDhI sig eph dhI) (\<lambda>(sid, hs, m'). Inr (hs, sid, m'))" for m idI idDhI sig eph dhI
    using assms(2) b' x bundle_props(7) by (simp add: processAcceptedInvite_def strOf_def del: getProp.simps)
  have fin: "truthy hs \<Longrightarrow> completeInviteHandshake c m ?state (privateKey idDhR) hs (JStr peer) dhR0 dhR
         = establishResponderSession c m peer (privateKey spkR) (privateKey idDhR) b hs dhR0 dhR" for m hs dhR0 dhR
    using assms(2) b' st by (simp add: completeInviteHandshake_def strOf_def del: getProp.simps)
  show ?thesis by (intro exI conjI allI impI, rule prep, rule acc, rule fin)
qed

lemma encryptPayload_nonempty: "encryptPayload c m peer pt t1 t2 = Inr (wire, m') \<Longrightarrow> wire \<noteq> []"
  using wire_nonempty by (auto simp: encryptPayload_def envelope_toJSON_def Let_def result_simps split: prod.splits if_splits)

lemma encryptForPeer_sends:
  assumes "encryptPayload c m peer pt t1 t2 = Inr (wire, m')" "pt \<noteq> []"
  shows "encryptForPeer c m (JStr peer) pt t1 t2 = Inr (\<lparr>ep_payloadBytes = wire\<rparr>, m')"
proof -
  have "peer \<noteq> []" using assms(1) by (auto simp: encryptPayload_def)
  moreover from this have "hasSession m peer" using assms(1) by (auto simp: encryptPayload_def hasSession_def isOk_iff result_simps)
  ultimately show ?thesis using assms encryptPayload_nonempty [OF assms(1)]
    by (simp add: encryptForPeer_def newE2eeEncryptedPacketV1_def strOf_def)
qed



text \<open>C32: A signed handshake arrives verified. When signing a handshake succeeds, the packet made from the handshake and its signature
  reaches the other side through the codec as a handshake, in clear and with no peer, both halves are what was sent, the session
  table is untouched, and verifying the pair that the codec returns gives true.\<close>

theorem handshake_packet_verified:
  assumes "parse_lawful parse" "json_data h" "wf_js h" "propStable h" "safe_keys h" "list_all (hasKey h) REQUIRED_HANDSHAKE_FIELDS"
    and "signHandshakeEnvelope c h sk = Inr sg" "sg \<noteq> []"
  shows "\<exists>p. createHandshakePacket h (JStr sg) = Inr p
    \<and> decryptIncoming c parse m (handshakePacket_toBytes p) = (m, Inr \<lparr>in_plaintextBytes = handshakePacket_toBytes p, in_encrypted = False,
        in_peerId = None, in_handshake = Some h, in_handshakeSignatureB64 = Some sg\<rparr>)
    \<and> verifyHandshakeEnvelope c h (JStr sg) = Inr True"
proof -
  let ?p = "\<lparr>hp_handshake = h, hp_signatureB64 = sg\<rparr>"
  let ?j = "handshakePacket_toJSON ?p"
  obtain key pk sig where s: "assertHandshakeShape h = Inr key" "base64ToBytes key = Inr pk" "verify c pk (signable h) sig = Inr True" "sg = bytesToBase64 sig"
    using assms(7) by (auto simp: signHandshakeEnvelope_def canonicalHandshakeBytes_def result_simps split: if_splits)
  have h: "truthy h" "typeofObject h" "getProp h ''senderIdentitySigningPubKeyB64'' = JStr key" "key \<noteq> []"
    using s(1) by (auto simp: assertHandshakeShape_def split: if_splits jsval.splits)
  have none: "find (\<lambda>k. \<not> hasKey h k) REQUIRED_HANDSHAKE_FIELDS = None" using assms(6) by (auto simp: find_None_iff list_all_iff)
  have new: "newE2eeHandshakePacketV1 h (JStr sg) = Inr ?p"
    using h none assms(8) by (simp add: newE2eeHandshakePacketV1_def Let_def strOf_def)
  have j: "json_data ?j" "wf_js ?j" "propStable ?j" "safe_keys ?j"
    using assms(2-5) by (simp_all add: handshakePacket_toJSON_def not_index_entry isDigit_def isDangerousJsonKey_def DANGEROUS_KEYS_def)
  have props: "getProp ?j ''e2ee'' = JInt 1" "getProp ?j ''type'' = JStr HANDSHAKE_TYPE" "getProp ?j ''handshake'' = h" "getProp ?j ''signatureB64'' = JStr sg"
    "truthy ?j" "typeofObject ?j"
    by (simp_all add: handshakePacket_toJSON_def)
  have parsed: "bindR (parse (handshakePacket_toBytes ?p)) (\<lambda>v. assertSafeJsonKeys v ''e2ee packet'') = Inr ?j"
    using assms(1) j by (simp add: parse_lawful_def handshakePacket_toBytes_def assertSafeJsonKeys_iff)
  have ne: "handshakePacket_toBytes ?p \<noteq> []" unfolding handshakePacket_toBytes_def handshakePacket_toJSON_def by (rule wire_nonempty)
  have rd: "handshakePacket_fromJSON ?j = Inr ?p"
    using props h assms(8) new by (simp add: handshakePacket_fromJSON_def Let_def del: getProp.simps)
  have dec: "decryptIncoming c parse m (handshakePacket_toBytes ?p) = (m, Inr \<lparr>in_plaintextBytes = handshakePacket_toBytes ?p, in_encrypted = False,
        in_peerId = None, in_handshake = Some h, in_handshakeSignatureB64 = Some sg\<rparr>)"
    using parsed ne rd props by (simp add: decryptIncoming_def del: getProp.simps)
  have ver: "verifyHandshakeEnvelope c h (JStr sg) = Inr True"
    using s assms(8) by (simp add: verifyHandshakeEnvelope_def canonicalHandshakeBytes_def b64.dec_enc strOf_def)
  show ?thesis using new dec ver by (auto simp: createHandshakePacket_def)
qed


definition demo_handshake :: jsval where
  "demo_handshake = JObj (map (\<lambda>k. (k, JStr (if k = ''senderIdentitySigningPubKeyB64'' then bytesToBase64 (replicate 32 5) else ''AAAA''))) REQUIRED_HANDSHAKE_FIELDS)"

lemma demo_handshake_ok:
  "json_data demo_handshake" "wf_js demo_handshake" "propStable demo_handshake" "safe_keys demo_handshake"
  "list_all (hasKey demo_handshake) REQUIRED_HANDSHAKE_FIELDS" "assertHandshakeShape demo_handshake = Inr (bytesToBase64 (replicate 32 5))"
  using packet_text_nonempty [of "replicate 32 5"]
  by (simp_all add: demo_handshake_def REQUIRED_HANDSHAKE_FIELDS_def not_index_entry isDigit_def isDangerousJsonKey_def DANGEROUS_KEYS_def assertHandshakeShape_def)

theorem handshake_packet_verified_witness:
  "\<exists>p. createHandshakePacket demo_handshake (JStr (bytesToBase64 (replicate 32 5 @ signable demo_handshake))) = Inr p
    \<and> decryptIncoming demo_crypto jsonParseBytes emptySessions (handshakePacket_toBytes p)
        = (emptySessions, Inr \<lparr>in_plaintextBytes = handshakePacket_toBytes p, in_encrypted = False,
        in_peerId = None, in_handshake = Some demo_handshake, in_handshakeSignatureB64 = Some (bytesToBase64 (replicate 32 5 @ signable demo_handshake))\<rparr>)
    \<and> verifyHandshakeEnvelope demo_crypto demo_handshake (JStr (bytesToBase64 (replicate 32 5 @ signable demo_handshake))) = Inr True"
  by (rule handshake_packet_verified [where sk = "replicate 32 5", OF jsonParseBytes_lawful demo_handshake_ok(1-5)])
     (simp_all add: signHandshakeEnvelope_def canonicalHandshakeBytes_def demo_handshake_ok b64.dec_enc packet_text_nonempty)


section \<open>Acknowledgements survive the wire\<close>

lemma finitePositive_int: "finitePositive v = Some i \<Longrightarrow> 0 < i" "0 < i \<Longrightarrow> finitePositive (JInt i) = Some i"
  by (auto simp: finitePositive_def split: jsnum.splits if_splits)

lemma nonEmptyText_simps: "nonEmptyText (JStr s) \<longleftrightarrow> s \<noteq> []" "nonEmptyText v \<Longrightarrow> strOf v \<noteq> []" "strOf (JStr s) = s" "\<not> nonEmptyText JNull"
  by (auto simp: nonEmptyText_def strOf_def split: jsval.splits)

lemma handshakeAck_wire:
  assumes "parse_lawful parse" "newE2eeHandshakeAckV1 a sg = Inr r"
  shows "handshakeAck_fromBytes parse (handshakeAck_toBytes r) = Inr r"
proof -
  let ?j = "handshakeAck_toJSON r"
  have "json_data ?j" "wf_js ?j" "propStable ?j"
    by (simp_all add: handshakeAck_toJSON_def toAckPayload_def not_index_entry isDigit_def split: option.split)
  then have "parse (handshakeAck_toBytes r) = Inr ?j" using assms(1) by (simp add: parse_lawful_def handshakeAck_toBytes_def)
  moreover have "handshakeAck_toBytes r \<noteq> []" unfolding handshakeAck_toBytes_def handshakeAck_toJSON_def by (rule wire_nonempty)
  moreover have "newE2eeHandshakeAckV1 (toAckPayload r) (JStr (ack_signatureB64 r)) = Inr r"
    using assms(2) finitePositive_int
    by (auto simp: newE2eeHandshakeAckV1_def toAckPayload_def nonEmptyText_simps Let_def split: if_splits option.splits)
  moreover have "getProp ?j ''kind'' = JStr HANDSHAKE_ACK_KIND" "getProp ?j ''ack'' = toAckPayload r" "getProp ?j ''signatureB64'' = JStr (ack_signatureB64 r)"
    "truthy ?j" "typeofObject ?j" "truthy (toAckPayload r)" "typeofObject (toAckPayload r)"
    by (simp_all add: handshakeAck_toJSON_def toAckPayload_def)
  ultimately show ?thesis
    by (simp add: handshakeAck_fromBytes_def recordFromBytes_def handshakeAck_fromJSON_def kindedFromJSON_def del: getProp.simps)
qed

lemma handshakeReject_wire:
  assumes "parse_lawful parse" "newE2eeHandshakeRejectV1 a sg = Inr r"
  shows "handshakeReject_fromBytes parse (handshakeReject_toBytes r) = Inr r"
proof -
  let ?j = "handshakeReject_toJSON r"
  have "json_data ?j" "wf_js ?j" "propStable ?j"
    by (simp_all add: handshakeReject_toJSON_def toRejectPayload_def not_index_entry isDigit_def)
  then have "parse (handshakeReject_toBytes r) = Inr ?j" using assms(1) by (simp add: parse_lawful_def handshakeReject_toBytes_def)
  moreover have "handshakeReject_toBytes r \<noteq> []" unfolding handshakeReject_toBytes_def handshakeReject_toJSON_def by (rule wire_nonempty)
  moreover have "newE2eeHandshakeRejectV1 (toRejectPayload r) (JStr (rej_signatureB64 r)) = Inr r"
    using assms(2) finitePositive_int
    by (auto simp: newE2eeHandshakeRejectV1_def toRejectPayload_def nonEmptyText_simps Let_def split: if_splits option.splits)
  moreover have "getProp ?j ''kind'' = JStr HANDSHAKE_REJECT_KIND" "getProp ?j ''reject'' = toRejectPayload r" "getProp ?j ''signatureB64'' = JStr (rej_signatureB64 r)"
    "truthy ?j" "typeofObject ?j" "truthy (toRejectPayload r)" "typeofObject (toRejectPayload r)"
    by (simp_all add: handshakeReject_toJSON_def toRejectPayload_def)
  ultimately show ?thesis
    by (simp add: handshakeReject_fromBytes_def recordFromBytes_def handshakeReject_fromJSON_def kindedFromJSON_def del: getProp.simps)
qed

lemma checkMessageIds_texts: "checkMessageIds i xs = Inr ids \<Longrightarrow> xs = map JStr ids"
  by (induction xs arbitrary: i ids) (auto simp: result_simps nonEmptyText_def strOf_def split: if_splits jsval.splits)

lemma deliveryAck_wire:
  assumes "parse_lawful parse" "newE2eeDeliveryAckV1 acct ids = Inr r"
  shows "deliveryAck_fromBytes parse (deliveryAck_toBytes r) = Inr r"
proof -
  let ?j = "deliveryAck_toJSON r"
  obtain x xs where ids: "ids = JArr (x # xs)" "checkMessageIds 0 (x # xs) = Inr (da_messageIds r)" "nonEmptyText acct" "da_senderAccountId r = strOf acct"
    using assms(2) by (auto simp: newE2eeDeliveryAckV1_def result_simps split: if_splits jsval.splits list.splits)
  have msgs: "x # xs = map JStr (da_messageIds r)" by (rule checkMessageIds_texts [OF ids(2)])
  have "acct = JStr (da_senderAccountId r)" using ids(3,4) by (cases acct) (simp_all add: nonEmptyText_def strOf_def)
  moreover have "ids = JArr (map JStr (da_messageIds r))" using ids(1) msgs by simp
  ultimately have new: "newE2eeDeliveryAckV1 (JStr (da_senderAccountId r)) (JArr (map JStr (da_messageIds r))) = Inr r" using assms(2) by simp
  have "json_data ?j" "wf_js ?j" "propStable ?j"
    by (simp_all add: deliveryAck_toJSON_def not_index_entry isDigit_def list_all_iff)
  then have "parse (deliveryAck_toBytes r) = Inr ?j" using assms(1) by (simp add: parse_lawful_def deliveryAck_toBytes_def)
  moreover have "deliveryAck_toBytes r \<noteq> []" unfolding deliveryAck_toBytes_def deliveryAck_toJSON_def by (rule wire_nonempty)
  moreover have "deliveryAck_fromJSON ?j = Inr r" using new by (simp add: deliveryAck_fromJSON_def deliveryAck_toJSON_def)
  ultimately show ?thesis by (simp add: deliveryAck_fromBytes_def recordFromBytes_def)
qed

text \<open>Acknowledgements survive the wire. An acknowledgement or a rejection of a handshake, and an acknowledgement of deliveries, that
  its constructor accepted comes back from its bytes as the same record, whatever values it was made from.\<close>

theorem acknowledgements_roundtrip:
  assumes "parse_lawful parse"
  shows "(newE2eeHandshakeAckV1 a sg = Inr r \<longrightarrow> handshakeAck_fromBytes parse (handshakeAck_toBytes r) = Inr r)
    \<and> (newE2eeHandshakeRejectV1 a sg = Inr j \<longrightarrow> handshakeReject_fromBytes parse (handshakeReject_toBytes j) = Inr j)
    \<and> (newE2eeDeliveryAckV1 acct ids = Inr d \<longrightarrow> deliveryAck_fromBytes parse (deliveryAck_toBytes d) = Inr d)"
  using handshakeAck_wire [OF assms] handshakeReject_wire [OF assms] deliveryAck_wire [OF assms] by blast

theorem acknowledgements_roundtrip_witness:
  "\<exists>d. newE2eeDeliveryAckV1 (JStr ''rez:acct:a'') (JArr [JStr ''m1'', JStr ''m2'']) = Inr d
    \<and> deliveryAck_fromBytes jsonParseBytes (deliveryAck_toBytes d) = Inr d"
proof -
  have "newE2eeDeliveryAckV1 (JStr ''rez:acct:a'') (JArr [JStr ''m1'', JStr ''m2'']) = Inr \<lparr>da_senderAccountId = ''rez:acct:a'', da_messageIds = [''m1'', ''m2'']\<rparr>" by code_simp
  with acknowledgements_roundtrip [OF jsonParseBytes_lawful] show ?thesis by blast
qed

end
