(* ===== verification/Spec2Isabelle.thy ===== *)
theory Spec2Isabelle
  imports Secure_Channel Durable_Records Network_Guards Mailbox Onion File_Transfer Capability Device_Link Peer_Link_Store Device_Changes Inbox_Records Packets
begin

text \<open>
  \<^bold>\<open>Verification of rez-core\<close>, the protocol library of the Rez overlay (JavaScript, \<^verbatim>\<open>src/\<close>).

  \<^bold>\<open>The program.\<close> Two peers agree on a secret with X3DH, keep it moving with a double ratchet and exchange encrypted envelopes over it; envelopes
  travel through relays as onion packets, and wait in mailboxes for peers that are offline. An account is a root key that delegates to device keys by
  certificates; records about the account are stored on the overlay under owner-keyed coordinates and checked by whoever reads them. Everything signed is
  signed over canonical JSON. Nodes guard their inbound side against duplicates, floods and replays.

  \<^bold>\<open>Conventions.\<close> Definitions carry the names of the source. A class is a \<open>record\<close>, a method a function from the old to the new object; \<^verbatim>\<open>throw\<close> is
  \<open>Inl\<close> of an error with the source's message (\<open>js_error\<close>), \<^verbatim>\<open>return\<close> is \<open>Inr\<close>. A method that changes its object and then throws returns
  both the changed object and the error. A \<^verbatim>\<open>Map\<close> is its association list in insertion order, a \<^verbatim>\<open>Uint8Array\<close> a list of 8-bit words, an integer that
  the source keeps to 32 bits a 32-bit word, any other a mathematical integer. A string is a list of characters below 256. What the source draws from
  outside (clock readings, random key pairs) is an argument. The cryptographic provider (\<^verbatim>\<open>src/crypto/RCryptoProvider.js\<close>, an abstract class) is a record
  of functions; theorems name what they need of it: \<open>hkdf_lawful\<close>, \<open>hash_lawful\<close>, \<open>aead_lawful\<close>, \<open>aead_sized\<close>, \<open>sign_lawful\<close>, \<open>dh_agree\<close>. The instance
  \<open>demo_crypto\<close> satisfies them and serves the witnesses. \<^verbatim>\<open>JSON.parse\<close> is an argument with the law \<open>parse_lawful\<close>, which the parser of
  \<^verbatim>\<open>Json_Parse\<close> is shown to satisfy.

  \<^bold>\<open>The theories.\<close>
  \<^item> \<^verbatim>\<open>Rez_Prelude\<close>, \<^verbatim>\<open>Js_Value\<close>, \<^verbatim>\<open>Js_Number\<close>: results, JavaScript strings, maps and dynamically typed values; the interface locales \<open>byte_codec\<close>,
    \<open>strict_codec\<close>, \<open>keyed_store\<close> and \<open>stepper\<close> (an operation folded over a history with an invariant), each interpreted below.
  \<^item> \<^verbatim>\<open>Byte_Codecs\<close> (\<^verbatim>\<open>src/util/bytes.js\<close>, \<^verbatim>\<open>base32.js\<close>, \<^verbatim>\<open>inboxId.js\<close>, \<^verbatim>\<open>src/ids/routingKey.js\<close>): encoders and decoders are inverse; base32 accepts
    only canonical texts.
  \<^item> \<^verbatim>\<open>Canonical_Json\<close>, \<^verbatim>\<open>Json_Parse\<close> (\<^verbatim>\<open>src/util/canonicalize.js\<close>, \<^verbatim>\<open>safeJson.js\<close>, \<^verbatim>\<open>jsonBytes.js\<close>): canonical text does not depend on member order
    and binds the data; the walk for dangerous keys ends and is exact; printing and parsing are inverse on JSON data.
  \<^item> \<^verbatim>\<open>Hashing\<close> (\<^verbatim>\<open>src/base/util/Hash.js\<close>, \<^verbatim>\<open>src/network/FrameFingerprint.js\<close>): the in-place SHA-256 is the function of FIPS 180-4; FNV-1a by masks is
    wrap-around arithmetic.
  \<^item> \<^verbatim>\<open>Crypto_Provider\<close>, \<^verbatim>\<open>Skipped_Keys\<close>, \<^verbatim>\<open>Ratchet\<close>, \<^verbatim>\<open>X3DH\<close> (\<^verbatim>\<open>src/crypto\<close>, \<^verbatim>\<open>src/objects/ratchet\<close>, \<^verbatim>\<open>src/objects/x3dh\<close>,
    \<^verbatim>\<open>src/services/RatchetService.js\<close>, \<^verbatim>\<open>X3DHService.js\<close>): both sides derive the same secret; every message key is derived once, in any order of arrival within
    the skip limit; the store of skipped keys keeps its bounds; unsigned or mis-addressed handshakes are refused.
  \<^item> \<^verbatim>\<open>Envelope\<close>, \<^verbatim>\<open>Session_Manager\<close>, \<^verbatim>\<open>Secure_Channel\<close> (\<^verbatim>\<open>src/objects/Envelope.js\<close>, \<^verbatim>\<open>src/codec\<close>, \<^verbatim>\<open>src/services/sessions\<close>,
    \<^verbatim>\<open>src/e2ee/SecureChannelManager.js\<close>): session tables stay consistent and survive export and import; a payload encrypted by one manager is decrypted by
    the other. Two defects are stated as theorems: a forged message destroys the key of the genuine one, and an empty payload is lost.
  \<^item> \<^verbatim>\<open>Packets\<close> (the rest of \<^verbatim>\<open>src/e2ee\<close>): an invite carries the X3DH bundle and opens the channel, up to the first packet that the codec
    delivers; a signed handshake arrives verified; what the codec hands on as handshake, decrypted payload or plaintext is that; acknowledgements survive the wire.
  \<^item> \<^verbatim>\<open>Device_Records\<close>, \<^verbatim>\<open>Account_Authority\<close>, \<^verbatim>\<open>Durable_Records\<close> (\<^verbatim>\<open>src/objects/device\<close>, \<^verbatim>\<open>src/protocol/durableRecordV1.js\<close>, \<^verbatim>\<open>V2\<close>): a certificate's
    constructor accepts exactly well-formed certificates; the authority decision is exactly the inductive specification \<open>derived\<close>; delegation narrows,
    revocation only removes authority; an accepted record is in its window, at its slot and signed by an authorized key. Two kinds can share a slot.
  \<^item> \<^verbatim>\<open>Network_Guards\<close> (\<^verbatim>\<open>src/network/DeduperLRU.js\<close>, \<^verbatim>\<open>FloodGate.js\<close>, \<^verbatim>\<open>src/services/onion/OnionReplayCacheV2.js\<close>): bounds and completeness of the caches, and the
    rate the flood gate admits.
  \<^item> \<^verbatim>\<open>Mailbox\<close> (\<^verbatim>\<open>src/mailbox\<close>, \<^verbatim>\<open>src/storage/memory/MemoryDataStore.js\<close>): over slash-free ids the keyed store refines a map from mailbox and event to record
    (\<open>contents_step\<close>); the item quota holds for every sequence of operations and fails for two interleaved deposits; the paging scan ends.
  \<^item> \<^verbatim>\<open>Onion\<close> (\<^verbatim>\<open>src/codec/onion\<close>, \<^verbatim>\<open>src/crypto/onion\<close>, \<^verbatim>\<open>src/services/relay\<close>): a packet wrapped for a path is peeled hop by hop down to the payload; a peeled
    packet is refused the second time; the choice of onion keys.
  \<^item> \<^verbatim>\<open>File_Transfer\<close> (\<^verbatim>\<open>src/filetransfer\<close>): a file cut into chunks is reassembled from them in any order of arrival; a transfer session stays well formed.
  \<^item> \<^verbatim>\<open>Device_Link\<close> (\<^verbatim>\<open>src/protocol/deviceLinkV1.js\<close>, \<^verbatim>\<open>src/objects/device/DeviceLinkRequestV2.js\<close>): the ceremony that links a device to an
    account completes between two holders of the pre-shared key; what the approver accepts; the link code is read exactly. What is sealed as canonical text is
    shown to come back as its canonical form (\<open>parse_signable\<close>).
  \<^item> \<^verbatim>\<open>Device_Changes\<close> (\<^verbatim>\<open>src/objects/device\<close>, the records not named above): a registration signed by the account verifies for that account
    inside its window; an accepted mutation is about one device; the accepted device sets are exactly the well-formed ones.
  \<^item> \<^verbatim>\<open>Inbox_Records\<close> (\<^verbatim>\<open>src/objects/inbox\<close>): a deposit policy is signed, read back and verified in any order of its lists; its signature covers
    its content and is never one of a terminal close; the payloads of claims and leases.
  \<^item> \<^verbatim>\<open>Capability\<close> (\<^verbatim>\<open>src/capability\<close>): an accepted chain of resource capabilities is linked, signed and only narrows; delegation within a grant is
    accepted; the delegation depth is not enforced.
  \<^item> \<^verbatim>\<open>Peer_Link_Store\<close> (\<^verbatim>\<open>src/storage/memory/MemoryStorageProvider.js\<close>, \<^verbatim>\<open>MemoryKeyValueStore.js\<close>): the five stores of the peer links over one
    key-value store. Updates compare and set when they do not overlap and lose a record when they do; reading the event log page by page yields every event
    once, and goes round for ever when an identifier ends in white space.

  \<^bold>\<open>Bounds and fuel.\<close> Recursion is structural or has a measure (the skip loop, the key walk, base32 and number parsing). Fuel appears three times: the JSON parser
  gets twice the length of the text, which \<open>parses_stable\<close> shows to be enough on every printed value, and \<open>countPages\<close> gets one more than the number of
  stored keys, which \<open>seeding_terminates\<close> shows to be enough always; \<open>fetchPages\<close>, the caller of the event listing,
  gets one more than the number of events (\<open>event_paging_complete\<close>). Token counts of the flood gate are rationals for the source's doubles; other fractions do not
  occur.

  \<^bold>\<open>Not modelled.\<close> Key storage, file-system and encrypted stores and the runtime roles are input/output and wiring. The remaining signed
  records (handles, profiles, relay descriptors, settlement receipts) and seed phrases are not
  modelled; their checks have the shape of those modelled here. Timers, callbacks and logging are left out everywhere.
  Property access follows own properties only; getters and prototypes of foreign objects are outside the model.
\<close>

end
